(* ===== verification/Adns_Prelude.thy ===== *)
theory Adns_Prelude
  imports Complex_Main "HOL-Library.Word" "HOL-Library.Char_ord" "HOL-Library.List_Lexorder"
    "HOL-Library.AList"
begin

text \<open>
  Shared vocabulary of the development: Python exceptions and the result type they give to
  fallible code, the operations on \<open>str\<close>, \<open>bytes\<close>, \<open>int\<close> and \<open>dict\<close> that the sources use,
  and the lemmas on them that the component theories rely on.

  Conventions.
  \<^item> A Python \<open>str\<close> is a \<^typ>\<open>string\<close>, the list of the bytes of its UTF-8 encoding. On ASCII
    text, which is all that the modelled validators accept, this is the list of its code points.
  \<^item> Python \<open>bytes\<close> are a list of 8-bit words.
  \<^item> A Python \<open>dict\<close> is an association list with distinct keys, in insertion order;
    assignment to a key is \<^const>\<open>AList.update\<close>.
  \<^item> A raised exception is \<open>Inl e\<close>, a returned value \<open>Inr v\<close>.
\<close>

named_theorems limit_defs "numeric limits of the sources"
named_theorems exn_rules "which exceptions an operation can raise"
named_theorems inv_intros "preservation of the component invariants"

section \<open>Exceptions and results\<close>

datatype exn =
    ValueError string | UnicodeError string | TypeError string | KeyError string
  | IndexError string | AttributeError string | AssertionError string
  | RuntimeError string | RecursionError | OSError string | TimeoutError string
  | FileNotFoundError | PermissionError | ProcessLookupError | BlockingIOError
  | ConnectionRefused | EOFError string | HTTPException string | HTTPError int
  | InvalidSignature | ExtensionNotFound | OverflowError | SubprocessError string

type_synonym 'a res = "exn + 'a"

text \<open>The exception classes that the sources name in \<open>except\<close> clauses, with the subclasses
  that the interpreter defines.\<close>

fun is_ValueError :: "exn \<Rightarrow> bool" where
  "is_ValueError (ValueError _) = True"
| "is_ValueError (UnicodeError _) = True"
| "is_ValueError _ = False"

fun is_OSError :: "exn \<Rightarrow> bool" where
  "is_OSError (OSError _) = True"
| "is_OSError (TimeoutError _) = True"
| "is_OSError FileNotFoundError = True"
| "is_OSError PermissionError = True"
| "is_OSError ProcessLookupError = True"
| "is_OSError BlockingIOError = True"
| "is_OSError ConnectionRefused = True"
| "is_OSError (HTTPError _) = True"
| "is_OSError _ = False"

fun is_RuntimeError :: "exn \<Rightarrow> bool" where
  "is_RuntimeError (RuntimeError _) = True"
| "is_RuntimeError RecursionError = True"
| "is_RuntimeError _ = False"

fun is_HTTPException :: "exn \<Rightarrow> bool" where
  "is_HTTPException (HTTPException _) = True"
| "is_HTTPException _ = False"

fun is_EOFError :: "exn \<Rightarrow> bool" where
  "is_EOFError (EOFError _) = True"
| "is_EOFError _ = False"

fun is_IndexError :: "exn \<Rightarrow> bool" where
  "is_IndexError (IndexError _) = True"
| "is_IndexError _ = False"

fun is_KeyError :: "exn \<Rightarrow> bool" where
  "is_KeyError (KeyError _) = True"
| "is_KeyError _ = False"

fun is_TypeError :: "exn \<Rightarrow> bool" where
  "is_TypeError (TypeError _) = True"
| "is_TypeError _ = False"

text \<open>Sequencing: the rest of a block runs on the value of a call that returned.\<close>

fun bindr :: "'a res \<Rightarrow> ('a \<Rightarrow> 'b res) \<Rightarrow> 'b res" where
  "bindr (Inl e) f = Inl e"
| "bindr (Inr x) f = f x"

lemma bindr_eq_Inr [simp]: "bindr m f = Inr y \<longleftrightarrow> (\<exists>x. m = Inr x \<and> f x = Inr y)"
  by (cases m) auto

lemma bindr_eq_Inl: "bindr m f = Inl e \<longleftrightarrow> m = Inl e \<or> (\<exists>x. m = Inr x \<and> f x = Inl e)"
  by (cases m) auto

lemma bindr_cong [fundef_cong]:
  "m = m' \<Longrightarrow> (\<And>x. m' = Inr x \<Longrightarrow> f x = g x) \<Longrightarrow> bindr m f = bindr m' g"
  by (cases m') auto

text \<open>A loop over a list whose body may raise, and the same loop collecting its results.\<close>

fun for_each :: "('a \<Rightarrow> unit res) \<Rightarrow> 'a list \<Rightarrow> unit res" where
  "for_each f [] = Inr ()"
| "for_each f (x # xs) = bindr (f x) (\<lambda>_. for_each f xs)"

fun map_res :: "('a \<Rightarrow> 'b res) \<Rightarrow> 'a list \<Rightarrow> 'b list res" where
  "map_res f [] = Inr []"
| "map_res f (x # xs) = bindr (f x) (\<lambda>y. bindr (map_res f xs) (\<lambda>ys. Inr (y # ys)))"

lemma for_each_Inr [simp]: "for_each f xs = Inr u \<longleftrightarrow> (\<forall>x \<in> set xs. f x = Inr ())"
  by (induction xs) auto

lemma for_each_cong [fundef_cong]:
  "xs = ys \<Longrightarrow> (\<And>x. x \<in> set ys \<Longrightarrow> f x = g x) \<Longrightarrow> for_each f xs = for_each g ys"
  by (induction xs arbitrary: ys) (auto intro: bindr_cong)

lemma map_res_Inr: "map_res f xs = Inr ys \<longleftrightarrow> list_all2 (\<lambda>x y. f x = Inr y) xs ys"
  by (induction xs arbitrary: ys) (auto simp: list_all2_Cons1)

lemma map_res_length: "map_res f xs = Inr ys \<Longrightarrow> length ys = length xs"
  by (auto simp: map_res_Inr dest: list_all2_lengthD)

lemma map_res_id: "(\<And>x. x \<in> set xs \<Longrightarrow> f x = Inr (g x)) \<Longrightarrow> map_res f xs = Inr (map g xs)"
  by (induction xs) auto

lemma map_res_cong [fundef_cong]:
  "xs = ys \<Longrightarrow> (\<And>x. x \<in> set ys \<Longrightarrow> f x = g x) \<Longrightarrow> map_res f xs = map_res g ys"
  by (induction xs arbitrary: ys) (auto intro: bindr_cong)

section \<open>Characters and strings\<close>

abbreviation ord :: "char \<Rightarrow> nat" where
  "ord c \<equiv> of_char c"

definition is_digit :: "char \<Rightarrow> bool" where
  "is_digit c \<longleftrightarrow> 48 \<le> ord c \<and> ord c \<le> 57"

definition is_lower :: "char \<Rightarrow> bool" where
  "is_lower c \<longleftrightarrow> 97 \<le> ord c \<and> ord c \<le> 122"

definition is_upper :: "char \<Rightarrow> bool" where
  "is_upper c \<longleftrightarrow> 65 \<le> ord c \<and> ord c \<le> 90"

definition is_alnum :: "char \<Rightarrow> bool" where
  "is_alnum c \<longleftrightarrow> is_digit c \<or> is_lower c \<or> is_upper c"

definition is_lower_hex :: "char \<Rightarrow> bool" where
  "is_lower_hex c \<longleftrightarrow> is_digit c \<or> (97 \<le> ord c \<and> ord c \<le> 102)"

definition is_hex :: "char \<Rightarrow> bool" where
  "is_hex c \<longleftrightarrow> is_lower_hex c \<or> (65 \<le> ord c \<and> ord c \<le> 70)"

lemmas char_class_defs = is_digit_def is_lower_def is_upper_def is_alnum_def
  is_lower_hex_def is_hex_def

text \<open>\<open>str.isascii\<close>, \<open>str.lower\<close> and \<open>str.upper\<close> (on the ASCII letters), and \<open>str.strip\<close>.\<close>

definition isascii :: "string \<Rightarrow> bool" where
  "isascii s \<longleftrightarrow> list_all (\<lambda>c. ord c < 128) s"

definition lower_char :: "char \<Rightarrow> char" where
  "lower_char c = (if is_upper c then char_of (ord c + 32) else c)"

definition upper_char :: "char \<Rightarrow> char" where
  "upper_char c = (if is_lower c then char_of (ord c - 32) else c)"

definition lower :: "string \<Rightarrow> string" where
  "lower s = map lower_char s"

definition upper :: "string \<Rightarrow> string" where
  "upper s = map upper_char s"

definition is_space :: "char \<Rightarrow> bool" where
  "is_space c \<longleftrightarrow> 9 \<le> ord c \<and> ord c \<le> 13 \<or> 28 \<le> ord c \<and> ord c \<le> 32"

definition strip :: "string \<Rightarrow> string" where
  "strip s = rev (dropWhile is_space (rev (dropWhile is_space s)))"

definition startswith :: "string \<Rightarrow> string \<Rightarrow> bool" where
  "startswith s p \<longleftrightarrow> take (length p) s = p"

definition endswith :: "string \<Rightarrow> string \<Rightarrow> bool" where
  "endswith s p \<longleftrightarrow> length p \<le> length s \<and> drop (length s - length p) s = p"

lemma startswith_iff: "startswith s p \<longleftrightarrow> (\<exists>r. s = p @ r)"
  by (metis append_eq_conv_conj append_take_drop_id startswith_def)

lemma endswith_iff: "endswith s p \<longleftrightarrow> (\<exists>r. s = r @ p)"
proof
  assume "endswith s p"
  then have "s = take (length s - length p) s @ p"
    unfolding endswith_def by (metis append_take_drop_id)
  then show "\<exists>r. s = r @ p" by blast
qed (auto simp: endswith_def)

lemma lower_char_not_upper: "\<not> is_upper (lower_char c)"
  by (auto simp: lower_char_def is_upper_def)

lemma lower_char_id [simp]: "\<not> is_upper c \<Longrightarrow> lower_char c = c"
  by (simp add: lower_char_def)

lemma lower_lower [simp]: "lower (lower s) = lower s"
  by (simp add: lower_def lower_char_not_upper)

lemma length_lower [simp]: "length (lower s) = length s"
  by (simp add: lower_def)

lemma lower_eq_iff: "lower s = s \<longleftrightarrow> list_all (\<lambda>c. \<not> is_upper c) s"
proof (induction s)
  case (Cons c s)
  have "lower_char c = c \<longleftrightarrow> \<not> is_upper c"
    by (metis lower_char_id lower_char_not_upper)
  with Cons show ?case by (simp add: lower_def)
qed (simp add: lower_def)

text \<open>\<open>str.split\<close> on one character, without and with a limit of one split.\<close>

fun split_on :: "char \<Rightarrow> string \<Rightarrow> string list" where
  "split_on d [] = [[]]"
| "split_on d (c # cs) =
     (if c = d then [] # split_on d cs
      else (case split_on d cs of [] \<Rightarrow> [[c]] | x # xs \<Rightarrow> (c # x) # xs))"

fun join_with :: "string \<Rightarrow> string list \<Rightarrow> string" where
  "join_with sep [] = []"
| "join_with sep [x] = x"
| "join_with sep (x # y # xs) = x @ sep @ join_with sep (y # xs)"

lemma split_on_nonempty [simp]: "split_on d s \<noteq> []"
  by (cases s) (auto split: list.splits)

lemma join_with_Cons: "xs \<noteq> [] \<Longrightarrow> join_with sep (x # xs) = x @ sep @ join_with sep xs"
  by (cases xs) auto

lemma join_split: "join_with [d] (split_on d s) = s"
proof (induction s)
  case (Cons c s)
  show ?case
  proof (cases "split_on d s")
    case Nil
    then show ?thesis by simp
  next
    case (Cons x xs)
    with Cons.IH show ?thesis by (cases xs) (auto simp: join_with_Cons)
  qed
qed simp

lemma split_on_no_sep: "d \<notin> set s \<Longrightarrow> split_on d s = [s]"
  by (induction s) auto

lemma split_on_append: "d \<notin> set x \<Longrightarrow> split_on d (x @ d # s) = x # split_on d s"
  by (induction x) auto

lemma split_on_parts: "x \<in> set (split_on d s) \<Longrightarrow> d \<notin> set x"
  by (induction s arbitrary: x) (auto split: list.splits if_splits)

lemma split_join: "xs \<noteq> [] \<Longrightarrow> (\<And>x. x \<in> set xs \<Longrightarrow> d \<notin> set x) \<Longrightarrow> split_on d (join_with [d] xs) = xs"
proof (induction xs)
  case (Cons x xs)
  show ?case
  proof (cases xs)
    case Nil
    with Cons.prems show ?thesis by (simp add: split_on_no_sep)
  next
    case (Cons y ys)
    with Cons.IH Cons.prems have "split_on d (join_with [d] xs) = xs" by simp
    with Cons Cons.prems show ?thesis by (simp add: split_on_append)
  qed
qed simp

text \<open>\<open>s.partition(d)\<close> and \<open>s.rpartition(d)\<close>: the parts around the first and the last
  occurrence of a character, \<open>None\<close> when there is none.\<close>

fun partition_at :: "char \<Rightarrow> string \<Rightarrow> (string \<times> string) option" where
  "partition_at d [] = None"
| "partition_at d (c # cs) =
     (if c = d then Some ([], cs)
      else (case partition_at d cs of None \<Rightarrow> None | Some (a, b) \<Rightarrow> Some (c # a, b)))"

definition rpartition_at :: "char \<Rightarrow> string \<Rightarrow> (string \<times> string) option" where
  "rpartition_at d s =
     (case partition_at d (rev s) of None \<Rightarrow> None | Some (a, b) \<Rightarrow> Some (rev b, rev a))"

lemma partition_at_Some:
  "partition_at d s = Some (a, b) \<longleftrightarrow> s = a @ d # b \<and> d \<notin> set a"
proof
  assume "partition_at d s = Some (a, b)"
  then show "s = a @ d # b \<and> d \<notin> set a"
    by (induction s arbitrary: a) (auto split: if_splits option.splits)
next
  assume "s = a @ d # b \<and> d \<notin> set a"
  then show "partition_at d s = Some (a, b)"
    by (induction a arbitrary: s) auto
qed

lemma partition_at_None: "partition_at d s = None \<longleftrightarrow> d \<notin> set s"
  by (induction s) (auto split: option.splits)

lemma rpartition_at_Some:
  "rpartition_at d s = Some (a, b) \<longleftrightarrow> s = a @ d # b \<and> d \<notin> set b"
proof -
  have "rpartition_at d s = Some (a, b) \<longleftrightarrow> partition_at d (rev s) = Some (rev b, rev a)"
    unfolding rpartition_at_def by (auto split: option.splits)
  also have "\<dots> \<longleftrightarrow> rev s = rev b @ d # rev a \<and> d \<notin> set b"
    by (simp add: partition_at_Some)
  also have "\<dots> \<longleftrightarrow> s = a @ d # b \<and> d \<notin> set b"
    by (metis (no_types, lifting) append.assoc append_Cons append_Nil rev.simps(2) rev_append rev_rev_ident)
  finally show ?thesis .
qed

text \<open>\<open>len(s)\<close> of a \<open>str\<close>: the number of its code points, each of which has one byte that is not
  a continuation byte.\<close>

definition str_len :: "string \<Rightarrow> nat" where
  "str_len s = length (filter (\<lambda>c. \<not> (128 \<le> ord c \<and> ord c < 192)) s)"

lemma str_len_le: "str_len s \<le> length s"
  by (simp add: str_len_def)

lemma str_len_ascii: "list_all (\<lambda>c. ord c < 128) s \<Longrightarrow> str_len s = length s"
  by (induction s) (auto simp: str_len_def)

text \<open>\<open>p in s\<close> for strings and for bytes, and \<open>s.rstrip(c)\<close> for one character.\<close>

fun contains :: "'a list \<Rightarrow> 'a list \<Rightarrow> bool" where
  "contains p [] = (p = [])"
| "contains p (c # cs) = (take (length p) (c # cs) = p \<or> contains p cs)"

definition rstrip_char :: "char \<Rightarrow> string \<Rightarrow> string" where
  "rstrip_char c s = rev (dropWhile (\<lambda>x. x = c) (rev s))"

lemma contains_iff: "contains p s \<longleftrightarrow> (\<exists>a b. s = a @ p @ b)"
proof (induction s)
  case (Cons c cs)
  have "(\<exists>a b. c # cs = a @ p @ b) \<longleftrightarrow> (\<exists>b. c # cs = p @ b) \<or> (\<exists>a b. cs = a @ p @ b)"
    by (metis append_Cons append_Nil list.exhaust list.inject)
  moreover have "take (length p) (c # cs) = p \<longleftrightarrow> (\<exists>b. c # cs = p @ b)"
    by (metis append_eq_conv_conj append_take_drop_id)
  ultimately show ?case using Cons by simp
qed auto

section \<open>Decimal numbers\<close>

lemma char_of_eval: "char_of n = c \<longleftrightarrow> (n :: nat) mod 256 = of_char c"
  by (metis char_of_char char_of_mod_256 mod_mod_trivial of_char_of)


definition digit_char :: "nat \<Rightarrow> char" where
  "digit_char n = char_of (48 + n)"

definition digit_val :: "char \<Rightarrow> nat" where
  "digit_val c = ord c - 48"

text \<open>\<open>str(n)\<close> for a natural number, and the value of a string of digits.\<close>

fun nat_str :: "nat \<Rightarrow> string" where
  "nat_str n = (if n < 10 then [digit_char n] else nat_str (n div 10) @ [digit_char (n mod 10)])"

declare nat_str.simps [simp del]

definition digits_val :: "string \<Rightarrow> nat" where
  "digits_val s = foldl (\<lambda>a c. 10 * a + digit_val c) 0 s"

definition int_str :: "int \<Rightarrow> string" where
  "int_str i = (if i < 0 then CHR ''-'' # nat_str (nat (- i)) else nat_str (nat i))"

lemma digit_val_digit_char [simp]: "n < 10 \<Longrightarrow> digit_val (digit_char n) = n"
  by (simp add: digit_val_def digit_char_def)

lemma is_digit_digit_char [simp]: "n < 10 \<Longrightarrow> is_digit (digit_char n)"
  by (simp add: is_digit_def digit_char_def)

lemma digits_val_snoc: "digits_val (s @ [c]) = 10 * digits_val s + digit_val c"
  by (simp add: digits_val_def)

lemma nat_str_nonempty [simp]: "nat_str n \<noteq> []"
  by (subst nat_str.simps) simp

lemma digits_val_nat_str [simp]: "digits_val (nat_str n) = n"
proof (induction n rule: nat_str.induct)
  case (1 n)
  show ?case
  proof (cases "n < 10")
    case True
    then show ?thesis by (subst nat_str.simps) (simp add: digits_val_def)
  next
    case False
    with 1 show ?thesis by (subst nat_str.simps) (simp add: digits_val_snoc)
  qed
qed

lemma nat_str_digits: "c \<in> set (nat_str n) \<Longrightarrow> is_digit c"
proof (induction n rule: nat_str.induct)
  case (1 n)
  then show ?case
    by (cases "n < 10") (auto simp: nat_str.simps [of n])
qed

lemma nat_str_hd: "n > 0 \<Longrightarrow> hd (nat_str n) \<noteq> CHR ''0''"
proof (induction n rule: nat_str.induct)
  case (1 n)
  show ?case
  proof (cases "n < 10")
    case True
    with 1 have "ord (hd (nat_str n)) \<noteq> 48"
      by (simp add: nat_str.simps [of n] digit_char_def)
    then show ?thesis by auto
  next
    case False
    then show ?thesis using 1 by (simp add: nat_str.simps [of n] hd_append)
  qed
qed

lemma nat_str_0 [simp]: "nat_str 0 = ''0''"
  by (simp add: nat_str.simps digit_char_def char_of_eval)

lemma nat_str_inj: "nat_str m = nat_str n \<longleftrightarrow> m = n"
  by (metis digits_val_nat_str)


text \<open>\<open>int(s)\<close> on a \<open>str\<close>: surrounding white space, an optional sign, digits with single
  underscores between them, at most 4300 digits.\<close>

fun digit_groups :: "string \<Rightarrow> bool" where
  "digit_groups [] = False"
| "digit_groups [c] = is_digit c"
| "digit_groups (c # d # cs) =
     (is_digit c \<and> (if d = CHR ''_'' then digit_groups cs else digit_groups (d # cs)))"

definition unsigned_int :: "string \<Rightarrow> nat res" where
  "unsigned_int s =
     (let ds = filter (\<lambda>c. c \<noteq> CHR ''_'') s in
      if \<not> digit_groups s then Inl (ValueError ''invalid literal for int()'')
      else if length ds > 4300 then Inl (ValueError ''Exceeds the limit for integer string conversion'')
      else Inr (digits_val ds))"

definition py_int :: "string \<Rightarrow> int res" where
  "py_int s =
     (case strip s of
        [] \<Rightarrow> Inl (ValueError ''invalid literal for int()'')
      | c # cs \<Rightarrow>
          if c = CHR ''-'' then bindr (unsigned_int cs) (\<lambda>n. Inr (- int n))
          else if c = CHR ''+'' then bindr (unsigned_int cs) (\<lambda>n. Inr (int n))
          else bindr (unsigned_int (c # cs)) (\<lambda>n. Inr (int n)))"

lemma digit_groups_digits: "s \<noteq> [] \<Longrightarrow> list_all is_digit s \<Longrightarrow> digit_groups s"
proof (induction s rule: digit_groups.induct)
  case (3 c d cs)
  then have "d \<noteq> CHR ''_''" by (auto simp: is_digit_def)
  with 3 show ?case by simp
qed simp_all

lemma is_digit_not_space: "is_digit c \<Longrightarrow> \<not> is_space c"
  by (auto simp: is_digit_def is_space_def)

lemma strip_digits: "list_all is_digit s \<Longrightarrow> strip s = s"
proof -
  assume d: "list_all is_digit s"
  then have "dropWhile is_space s = s"
    by (cases s) (auto simp: is_digit_not_space)
  moreover from d have "list_all is_digit (rev s)" by simp
  then have "dropWhile is_space (rev s) = rev s"
    by (cases "rev s") (auto simp: is_digit_not_space)
  ultimately show ?thesis by (simp add: strip_def)
qed

lemma digits_no_underscore: "list_all is_digit s \<Longrightarrow> filter (\<lambda>c. c \<noteq> CHR ''_'') s = s"
  by (induction s) (auto simp: is_digit_def)

lemma unsigned_int_digits:
  assumes "s \<noteq> []" "list_all is_digit s" "length s \<le> 4300"
  shows "unsigned_int s = Inr (digits_val s)"
  using assms by (simp add: unsigned_int_def Let_def digits_no_underscore digit_groups_digits)

lemma py_int_digits:
  assumes "s \<noteq> []" "list_all is_digit s" "length s \<le> 4300"
  shows "py_int s = Inr (int (digits_val s))"
proof -
  obtain c cs where s: "s = c # cs" using assms(1) by (cases s) auto
  with assms(2) have "c \<noteq> CHR ''-''" "c \<noteq> CHR ''+''" by (auto simp: is_digit_def)
  moreover have "strip s = s" "unsigned_int s = Inr (digits_val s)"
    using assms by (simp_all add: strip_digits unsigned_int_digits)
  ultimately show ?thesis using s by (simp add: py_int_def)
qed

lemma py_int_error: "py_int s = Inl e \<Longrightarrow> is_ValueError e"
  by (auto simp: py_int_def unsigned_int_def Let_def bindr_eq_Inl split: list.splits if_splits)

section \<open>Bytes\<close>

type_synonym byte = "8 word"
type_synonym bytes = "byte list"

text \<open>\<open>int.from_bytes\<close> in both byte orders, \<open>int.to_bytes(n, "big")\<close>, slices \<open>b[i:j]\<close>
  (which Python truncates at the end of the data), \<open>bytes.hex\<close>.\<close>

definition be_nat :: "bytes \<Rightarrow> nat" where
  "be_nat bs = foldl (\<lambda>a b. 256 * a + unat b) 0 bs"

definition le_nat :: "bytes \<Rightarrow> nat" where
  "le_nat bs = be_nat (rev bs)"

definition slice :: "nat \<Rightarrow> nat \<Rightarrow> 'a list \<Rightarrow> 'a list" where
  "slice i j xs = take (j - i) (drop i xs)"

definition hex_digit :: "nat \<Rightarrow> char" where
  "hex_digit n = (if n < 10 then char_of (48 + n) else char_of (87 + n))"

definition hex_val :: "char \<Rightarrow> nat" where
  "hex_val c = (if is_digit c then ord c - 48 else if 97 \<le> ord c then ord c - 87 else ord c - 55)"

fun bytes_hex :: "bytes \<Rightarrow> string" where
  "bytes_hex [] = []"
| "bytes_hex (b # bs) = hex_digit (unat b div 16) # hex_digit (unat b mod 16) # bytes_hex bs"

text \<open>\<open>bytes.fromhex\<close> on a string already matched against pairs of hexadecimal digits.\<close>

fun unhex :: "string \<Rightarrow> bytes" where
  "unhex (a # b # cs) = word_of_nat (16 * hex_val a + hex_val b) # unhex cs"
| "unhex cs = []"

text \<open>\<open>int(s, 16)\<close> on a string of hexadecimal digits.\<close>

definition hex_nat :: "string \<Rightarrow> nat" where
  "hex_nat s = foldl (\<lambda>a c. 16 * a + hex_val c) 0 s"

text \<open>\<open>str.encode()\<close> and \<open>bytes.decode("ascii")\<close>.\<close>

definition encode_str :: "string \<Rightarrow> bytes" where
  "encode_str s = map of_char s"

definition bytes_str :: "bytes \<Rightarrow> string" where
  "bytes_str bs = map (\<lambda>b. char_of (unat b)) bs"

definition decode_ascii :: "bytes \<Rightarrow> string res" where
  "decode_ascii bs =
     (if list_all (\<lambda>b. b < 128) bs then Inr (bytes_str bs)
      else Inl (UnicodeError ''ordinal not in range(128)''))"

lemma decode_ascii_error [exn_rules]: "decode_ascii bs = Inl e \<Longrightarrow> is_ValueError e"
  by (auto simp: decode_ascii_def split: if_splits)

lemma be_nat_Nil [simp]: "be_nat [] = 0"
  by (simp add: be_nat_def)

lemma be_nat_snoc: "be_nat (bs @ [b]) = 256 * be_nat bs + unat b"
  by (simp add: be_nat_def)

lemma unat_byte_less [simp]: "unat (b :: byte) < 256"
  using unsigned_less [of b, where ?'a = nat] by simp

lemma unat_byte_le [simp]: "unat (b :: byte) \<le> 255"
  using unat_byte_less [of b] by linarith

lemma be_nat_less: "be_nat bs < 256 ^ length bs"
proof (induction bs rule: rev_induct)
  case (snoc b bs)
  have "256 * be_nat bs + unat b < 256 * (be_nat bs + 1)"
    using unat_byte_less [of b] by simp
  also have "\<dots> \<le> 256 * 256 ^ length bs"
    using snoc by (intro mult_left_mono) auto
  finally show ?case by (simp add: be_nat_snoc)
qed simp

lemma le_nat_less: "le_nat bs < 256 ^ length bs"
  using be_nat_less [of "rev bs"] by (simp add: le_nat_def)

lemma length_slice: "length (slice i j xs) = min (j - i) (length xs - i)"
  by (simp add: slice_def)

lemma length_bytes_hex [simp]: "length (bytes_hex bs) = 2 * length bs"
  by (induction bs) auto

lemma hex_val_hex_digit [simp]: "n < 16 \<Longrightarrow> hex_val (hex_digit n) = n"
  by (auto simp: hex_val_def hex_digit_def is_digit_def)

lemma is_lower_hex_hex_digit [simp]: "n < 16 \<Longrightarrow> is_lower_hex (hex_digit n)"
  by (auto simp: is_lower_hex_def hex_digit_def is_digit_def)

lemma bytes_hex_lower: "list_all is_lower_hex (bytes_hex bs)"
proof (induction bs)
  case (Cons b bs)
  have "unat b div 16 < 16" using unat_byte_less [of b] by linarith
  with Cons show ?case by simp
qed simp

lemma unhex_bytes_hex [simp]: "unhex (bytes_hex bs) = bs"
proof (induction bs)
  case (Cons b bs)
  have "unat b div 16 < 16" using unat_byte_less [of b] by linarith
  with Cons show ?case by simp
qed simp

lemma bytes_hex_inj [simp]: "bytes_hex xs = bytes_hex ys \<longleftrightarrow> xs = ys"
  by (metis unhex_bytes_hex)

lemma length_encode_str [simp]: "length (encode_str s) = length s"
  by (simp add: encode_str_def)

lemma length_bytes_str [simp]: "length (bytes_str bs) = length bs"
  by (simp add: bytes_str_def)

lemma unat_of_char [simp]: "unat (of_char c :: byte) = of_char c"
proof -
  have "unat (word_of_nat (of_char c) :: byte) = of_char c mod 256"
    by (simp add: unat_of_nat take_bit_eq_mod)
  then show ?thesis by (simp add: of_nat_of_char)
qed

lemma bytes_str_encode_str [simp]: "bytes_str (encode_str s) = s"
  by (simp add: bytes_str_def encode_str_def comp_def)

lemma of_char_char_of_byte [simp]: "of_char (char_of (unat b)) = (b :: byte)"
proof -
  have "unat (of_char (char_of (unat b)) :: byte) = unat b" by simp
  then show ?thesis by (simp only: word_unat_eq_iff)
qed

lemma encode_str_bytes_str [simp]: "encode_str (bytes_str bs) = bs"
  by (simp add: bytes_str_def encode_str_def comp_def)

lemma encode_str_inj [simp]: "encode_str s = encode_str t \<longleftrightarrow> s = t"
  by (metis bytes_str_encode_str)

section \<open>Dictionaries\<close>

type_synonym 'v dict = "(string \<times> 'v) list"

definition dict_keys :: "'v dict \<Rightarrow> string list" where
  "dict_keys d = map fst d"

definition dict_ok :: "'v dict \<Rightarrow> bool" where
  "dict_ok d \<longleftrightarrow> distinct (map fst d)"

definition has_key :: "string \<Rightarrow> 'v dict \<Rightarrow> bool" where
  "has_key k d \<longleftrightarrow> k \<in> set (map fst d)"

text \<open>\<open>d[k]\<close>, which raises on a missing key, and \<open>set(d) == {...}\<close>.\<close>

definition dict_index :: "'v dict \<Rightarrow> string \<Rightarrow> 'v res" where
  "dict_index d k = (case map_of d k of None \<Rightarrow> Inl (KeyError k) | Some v \<Rightarrow> Inr v)"

definition same_keys :: "'v dict \<Rightarrow> string list \<Rightarrow> bool" where
  "same_keys d ks \<longleftrightarrow> set (map fst d) = set ks"

text \<open>\<open>dict(d, **e)\<close> and \<open>d.update(e)\<close>.\<close>

definition dict_merge :: "'v dict \<Rightarrow> 'v dict \<Rightarrow> 'v dict" where
  "dict_merge d e = foldl (\<lambda>m (k, v). AList.update k v m) d e"

lemma has_key_map_of: "has_key k d \<longleftrightarrow> map_of d k \<noteq> None"
  by (auto simp: has_key_def map_of_eq_None_iff)

lemma dict_index_Inr [simp]: "dict_index d k = Inr v \<longleftrightarrow> map_of d k = Some v"
  by (auto simp: dict_index_def split: option.splits)

lemma dict_index_has_key: "has_key k d \<Longrightarrow> \<exists>v. dict_index d k = Inr v"
  by (auto simp: has_key_map_of)

lemma dict_ok_update [simp]: "dict_ok d \<Longrightarrow> dict_ok (AList.update k v d)"
  by (simp add: dict_ok_def distinct_update)

lemma keys_update: "set (map fst (AList.update k v d)) = insert k (set (map fst d))"
  by (simp add: dom_update image_set [symmetric])

lemma map_of_update [simp]: "map_of (AList.update k v d) = (map_of d)(k \<mapsto> v)"
  by (simp add: update_conv')

lemma update_new: "k \<notin> set (map fst d) \<Longrightarrow> AList.update k v d = d @ [(k, v)]"
  by (induction d) auto

lemma list_all_update: "list_all P d \<Longrightarrow> P (k, v) \<Longrightarrow> list_all P (AList.update k v d)"
  by (induction d) auto

lemma length_update_le: "length (AList.update k v d) \<le> Suc (length d)"
  by (induction d) auto

lemma same_keys_lookup: "same_keys d ks \<Longrightarrow> k \<in> set ks \<Longrightarrow> \<exists>v. map_of d k = Some v"
  by (metis has_key_def has_key_map_of not_None_eq same_keys_def)

end
