(* ===== verification/Json_Text.thy ===== *)
theory Json_Text
  imports Adns_Prelude
begin

text \<open>
  The JSON library as the sources use it: \<open>json.loads\<close> with its three hooks, on \<open>bytes\<close> and on
  \<open>str\<close>, and \<open>json.dumps\<close> with its separators. The scanner follows CPython's
  \<open>_json\<close> scanner: white space, string escapes with surrogate pairs, the number grammar, the
  constants \<open>NaN\<close> and \<open>Infinity\<close>, and the interpreter's recursion limit (an argument), which
  bounds the nesting of containers.

  Their laws are in \<open>Json_Laws\<close>: the scanner consumes input (\<open>parse_value_shorter\<close>), so its
  loops over elements and members never stop early, it raises only \<open>ValueError\<close> and
  \<open>RecursionError\<close> (\<open>json_loads_error\<close>), and printing followed by scanning is the identity on
  values without floats (\<open>loads_print\<close>).
\<close>

datatype json =
    JNull | JBool bool | JInt int | JFloat string | JStr string
  | JList "json list" | JDict "(string \<times> json) list"

text \<open>The tests \<open>type(v) is str\<close>, \<open>type(v) is int\<close> (which no boolean passes), and so on.\<close>

fun jstr :: "json \<Rightarrow> string option" where
  "jstr (JStr s) = Some s"
| "jstr _ = None"

fun jint :: "json \<Rightarrow> int option" where
  "jint (JInt i) = Some i"
| "jint _ = None"

fun jbool :: "json \<Rightarrow> bool option" where
  "jbool (JBool b) = Some b"
| "jbool _ = None"

fun jlist :: "json \<Rightarrow> json list option" where
  "jlist (JList xs) = Some xs"
| "jlist _ = None"

fun jdict :: "json \<Rightarrow> (string \<times> json) list option" where
  "jdict (JDict d) = Some d"
| "jdict _ = None"

lemma json_type_Some [simp]:
  "jstr v = Some s \<longleftrightarrow> v = JStr s" "jint v = Some i \<longleftrightarrow> v = JInt i" "jbool v = Some b \<longleftrightarrow> v = JBool b"
  "jlist v = Some xs \<longleftrightarrow> v = JList xs" "jdict v = Some d \<longleftrightarrow> v = JDict d"
  by (cases v; auto)+

record json_hooks =
  pairs_hook :: "(string \<times> json) list \<Rightarrow> json res"
  float_hook :: "string \<Rightarrow> json res"
  const_hook :: "string \<Rightarrow> json res"

abbreviation json_error :: exn where
  "json_error \<equiv> ValueError ''JSONDecodeError''"

abbreviation quote_char :: char where
  "quote_char \<equiv> CHR 0x22"

abbreviation backslash :: char where
  "backslash \<equiv> CHR 0x5C"

section \<open>Decoding of the input bytes\<close>

definition utf8_char :: "nat \<Rightarrow> string" where
  "utf8_char n =
     (if n < 0x80 then [char_of n]
      else if n < 0x800 then [char_of (0xC0 + n div 64), char_of (0x80 + n mod 64)]
      else if n < 0x10000 then
        [char_of (0xE0 + n div 4096), char_of (0x80 + n div 64 mod 64), char_of (0x80 + n mod 64)]
      else
        [char_of (0xF0 + n div 262144), char_of (0x80 + n div 4096 mod 64),
         char_of (0x80 + n div 64 mod 64), char_of (0x80 + n mod 64)])"

definition cont_byte :: "byte \<Rightarrow> bool" where
  "cont_byte b \<longleftrightarrow> 0x80 \<le> b \<and> b \<le> 0xBF"

text \<open>UTF-8 with the \<open>surrogatepass\<close> error handler.\<close>

fun utf8_ok :: "bytes \<Rightarrow> bool" where
  "utf8_ok [] = True"
| "utf8_ok (a # bs) =
     (if a < 0x80 then utf8_ok bs
      else case bs of
        [] \<Rightarrow> False
      | b # cs \<Rightarrow>
          if 0xC2 \<le> a \<and> a \<le> 0xDF then cont_byte b \<and> utf8_ok cs
          else case cs of
            [] \<Rightarrow> False
          | c # ds \<Rightarrow>
              if 0xE0 \<le> a \<and> a \<le> 0xEF
              then cont_byte b \<and> cont_byte c \<and> (a = 0xE0 \<longrightarrow> 0xA0 \<le> b) \<and> utf8_ok ds
              else case ds of
                [] \<Rightarrow> False
              | d # es \<Rightarrow>
                  0xF0 \<le> a \<and> a \<le> 0xF4 \<and> cont_byte b \<and> cont_byte c \<and> cont_byte d
                  \<and> (a = 0xF0 \<longrightarrow> 0x90 \<le> b) \<and> (a = 0xF4 \<longrightarrow> b \<le> 0x8F) \<and> utf8_ok es)"

definition is_high_surrogate :: "nat \<Rightarrow> bool" where
  "is_high_surrogate n \<longleftrightarrow> 0xD800 \<le> n \<and> n \<le> 0xDBFF"

definition is_low_surrogate :: "nat \<Rightarrow> bool" where
  "is_low_surrogate n \<longleftrightarrow> 0xDC00 \<le> n \<and> n \<le> 0xDFFF"

definition join_surrogates :: "nat \<Rightarrow> nat \<Rightarrow> nat" where
  "join_surrogates h l = 0x10000 + (h - 0xD800) * 1024 + (l - 0xDC00)"

fun utf16_units :: "bool \<Rightarrow> bytes \<Rightarrow> nat list res" where
  "utf16_units le [] = Inr []"
| "utf16_units le [a] = Inl (UnicodeError ''truncated data'')"
| "utf16_units le (a # b # bs) =
     bindr (utf16_units le bs) (\<lambda>us. Inr ((if le then le_nat [a, b] else be_nat [a, b]) # us))"

fun utf16_text :: "nat list \<Rightarrow> string" where
  "utf16_text [] = []"
| "utf16_text [u] = utf8_char u"
| "utf16_text (u # v # us) =
     (if is_high_surrogate u \<and> is_low_surrogate v
      then utf8_char (join_surrogates u v) @ utf16_text us
      else utf8_char u @ utf16_text (v # us))"

fun utf32_text :: "bool \<Rightarrow> bytes \<Rightarrow> string res" where
  "utf32_text le [] = Inr []"
| "utf32_text le (a # b # c # d # bs) =
     (let n = (if le then le_nat [a, b, c, d] else be_nat [a, b, c, d]) in
      if n > 0x10FFFF then Inl (UnicodeError ''code point not in range(0x110000)'')
      else bindr (utf32_text le bs) (\<lambda>t. Inr (utf8_char n @ t)))"
| "utf32_text le bs = Inl (UnicodeError ''truncated data'')"

definition utf8_text :: "bytes \<Rightarrow> string res" where
  "utf8_text bs =
     (if utf8_ok bs then Inr (bytes_str bs) else Inl (UnicodeError ''invalid utf-8''))"

text \<open>\<open>json.detect_encoding\<close>, followed by \<open>bytes.decode\<close>.\<close>

definition decode_json :: "bytes \<Rightarrow> string res" where
  "decode_json bs =
     (let utf16 = (\<lambda>le xs. bindr (utf16_units le xs) (\<lambda>us. Inr (utf16_text us))) in
      if take 4 bs = [0, 0, 0xFE, 0xFF] then utf32_text False (drop 4 bs)
      else if take 4 bs = [0xFF, 0xFE, 0, 0] then utf32_text True (drop 4 bs)
      else if take 2 bs = [0xFE, 0xFF] then utf16 False (drop 2 bs)
      else if take 2 bs = [0xFF, 0xFE] then utf16 True (drop 2 bs)
      else if take 3 bs = [0xEF, 0xBB, 0xBF] then utf8_text (drop 3 bs)
      else case bs of
        a # b # c # d # _ \<Rightarrow>
          if a = 0 then (if b \<noteq> 0 then utf16 False bs else utf32_text False bs)
          else if b = 0 then (if c \<noteq> 0 \<or> d \<noteq> 0 then utf16 True bs else utf32_text True bs)
          else utf8_text bs
      | [a, b] \<Rightarrow>
          if a = 0 then utf16 False bs else if b = 0 then utf16 True bs else utf8_text bs
      | _ \<Rightarrow> utf8_text bs)"

section \<open>The scanner\<close>

definition is_json_ws :: "char \<Rightarrow> bool" where
  "is_json_ws c \<longleftrightarrow> c \<in> {CHR 0x20, CHR 0x09, CHR 0x0A, CHR 0x0D}"

definition skip_ws :: "string \<Rightarrow> string" where
  "skip_ws s = dropWhile is_json_ws s"

definition simple_escape :: "char \<Rightarrow> char option" where
  "simple_escape c =
     (if c = quote_char \<or> c = backslash \<or> c = CHR ''/'' then Some c
      else if c = CHR ''b'' then Some (CHR 0x08)
      else if c = CHR ''f'' then Some (CHR 0x0C)
      else if c = CHR ''n'' then Some (CHR 0x0A)
      else if c = CHR ''r'' then Some (CHR 0x0D)
      else if c = CHR ''t'' then Some (CHR 0x09)
      else None)"

definition push :: "string \<Rightarrow> (string \<times> string) res \<Rightarrow> (string \<times> string) res" where
  "push x m = bindr m (\<lambda>(s, r). Inr (x @ s, r))"

lemma push_cong [fundef_cong]: "x = y \<Longrightarrow> m = n \<Longrightarrow> push x m = push y n"
  by simp

text \<open>The part of a \<open>\uXXXX\<close> escape behind the \<open>u\<close>, with the second half of a surrogate pair
  when there is one.\<close>

definition unicode_escape :: "string \<Rightarrow> (string \<times> string) option" where
  "unicode_escape s =
     (case s of
        h1 # h2 # h3 # h4 # rest \<Rightarrow>
          if list_all is_hex [h1, h2, h3, h4] then
            (let n = hex_nat [h1, h2, h3, h4] in
             case rest of
               b # u # l1 # l2 # l3 # l4 # rest' \<Rightarrow>
                 if is_high_surrogate n \<and> b = backslash \<and> u = CHR ''u''
                    \<and> list_all is_hex [l1, l2, l3, l4] \<and> is_low_surrogate (hex_nat [l1, l2, l3, l4])
                 then Some (utf8_char (join_surrogates n (hex_nat [l1, l2, l3, l4])), rest')
                 else Some (utf8_char n, rest)
             | _ \<Rightarrow> Some (utf8_char n, rest))
          else None
      | _ \<Rightarrow> None)"

lemma unicode_escape_shorter: "unicode_escape s = Some (x, r) \<Longrightarrow> length r < length s"
  by (auto simp: unicode_escape_def Let_def split: list.splits if_splits)

text \<open>\<open>scanstring\<close>, from behind the opening quote; control characters are rejected.\<close>

function scan_str :: "string \<Rightarrow> (string \<times> string) res" where
  "scan_str s =
     (case s of
        [] \<Rightarrow> Inl json_error
      | c # cs \<Rightarrow>
          if c = quote_char then Inr ([], cs)
          else if c = backslash then
            (case cs of
               [] \<Rightarrow> Inl json_error
             | e # rest \<Rightarrow>
                 if e = CHR ''u'' then
                   (case unicode_escape rest of
                      None \<Rightarrow> Inl json_error
                    | Some (x, rest') \<Rightarrow> push x (scan_str rest'))
                 else
                   (case simple_escape e of
                      None \<Rightarrow> Inl json_error
                    | Some x \<Rightarrow> push [x] (scan_str rest)))
          else if ord c < 32 then Inl json_error
          else push [c] (scan_str cs))"
  by pat_completeness auto
termination
  by (relation "measure length") (auto dest: unicode_escape_shorter)

declare scan_str.simps [simp del]

text \<open>The number grammar: an integer part, then an optional fraction and exponent, which make
  it a float. An integer of more than 4300 digits is refused by \<open>int\<close>.\<close>

definition scan_int_part :: "string \<Rightarrow> (string \<times> string) res" where
  "scan_int_part s =
     (case s of
        [] \<Rightarrow> Inl json_error
      | c # cs \<Rightarrow>
          if c = CHR ''0'' then Inr ([c], cs)
          else if is_digit c then Inr (takeWhile is_digit s, dropWhile is_digit s)
          else Inl json_error)"

definition scan_frac :: "string \<Rightarrow> string \<times> string" where
  "scan_frac s =
     (case s of
        c # d # cs \<Rightarrow>
          if c = CHR ''.'' \<and> is_digit d
          then (c # takeWhile is_digit (d # cs), dropWhile is_digit (d # cs)) else ([], s)
      | _ \<Rightarrow> ([], s))"

definition scan_exp :: "string \<Rightarrow> string \<times> string" where
  "scan_exp s =
     (case s of
        c # d # cs \<Rightarrow>
          if (c = CHR ''e'' \<or> c = CHR ''E'') \<and> is_digit d
          then (c # takeWhile is_digit (d # cs), dropWhile is_digit (d # cs))
          else (case cs of
                  f # _ \<Rightarrow>
                    if (c = CHR ''e'' \<or> c = CHR ''E'') \<and> (d = CHR ''+'' \<or> d = CHR ''-'') \<and> is_digit f
                    then (c # d # takeWhile is_digit cs, dropWhile is_digit cs) else ([], s)
                | [] \<Rightarrow> ([], s))
      | _ \<Rightarrow> ([], s))"

definition scan_number :: "json_hooks \<Rightarrow> string \<Rightarrow> (json \<times> string) res" where
  "scan_number h s =
     (let neg = (s \<noteq> [] \<and> hd s = CHR ''-'') in
      bindr (scan_int_part (if neg then tl s else s)) (\<lambda>(i, r).
        let (f, r1) = scan_frac r; (x, r2) = scan_exp r1 in
        if f = [] \<and> x = [] then
          (if length i > 4300 then Inl (ValueError ''Exceeds the limit for integer string conversion'')
           else Inr (JInt (if neg then - int (digits_val i) else int (digits_val i)), r2))
        else bindr (float_hook h ((if neg then ''-'' else []) @ i @ f @ x)) (\<lambda>v. Inr (v, r2))))"

definition scan_scalar :: "json_hooks \<Rightarrow> string \<Rightarrow> (json \<times> string) res" where
  "scan_scalar h s =
     (if s \<noteq> [] \<and> hd s = quote_char then bindr (scan_str (tl s)) (\<lambda>(x, r). Inr (JStr x, r))
      else if startswith s ''null'' then Inr (JNull, drop 4 s)
      else if startswith s ''true'' then Inr (JBool True, drop 4 s)
      else if startswith s ''false'' then Inr (JBool False, drop 5 s)
      else if startswith s ''NaN'' then bindr (const_hook h ''NaN'') (\<lambda>v. Inr (v, drop 3 s))
      else if startswith s ''Infinity'' then bindr (const_hook h ''Infinity'') (\<lambda>v. Inr (v, drop 8 s))
      else if startswith s ''-Infinity''
      then bindr (const_hook h ''-Infinity'') (\<lambda>v. Inr (v, drop 9 s))
      else scan_number h s)"

text \<open>The loops over array elements and object members. The length guard makes the recursion
  well-founded; by \<open>parse_value_shorter\<close> it never fails, as the scanner consumes
  its input.\<close>

function scan_elems ::
    "(string \<Rightarrow> (json \<times> string) res) \<Rightarrow> string \<Rightarrow> (json list \<times> string) res" where
  "scan_elems pv s =
     bindr (pv s) (\<lambda>(v, r).
       case skip_ws r of
         [] \<Rightarrow> Inl json_error
       | c # r1 \<Rightarrow>
           if c = CHR '']'' then Inr ([v], r1)
           else if c = CHR '','' \<and> length (skip_ws r1) < length s then
             bindr (scan_elems pv (skip_ws r1)) (\<lambda>(vs, r2). Inr (v # vs, r2))
           else Inl json_error)"
  by pat_completeness auto
termination
  by (relation "measure (\<lambda>(pv, s). length s)") auto

function scan_members ::
    "(string \<Rightarrow> (json \<times> string) res) \<Rightarrow> string \<Rightarrow> ((string \<times> json) list \<times> string) res" where
  "scan_members pv s =
     (case s of
        [] \<Rightarrow> Inl json_error
      | q # cs \<Rightarrow>
          if q \<noteq> quote_char then Inl json_error
          else bindr (scan_str cs) (\<lambda>(k, r).
            case skip_ws r of
              [] \<Rightarrow> Inl json_error
            | co # r1 \<Rightarrow>
                if co \<noteq> CHR '':'' then Inl json_error
                else bindr (pv (skip_ws r1)) (\<lambda>(v, r2).
                  case skip_ws r2 of
                    [] \<Rightarrow> Inl json_error
                  | c # r3 \<Rightarrow>
                      if c = CHR ''}'' then Inr ([(k, v)], r3)
                      else if c = CHR '','' \<and> length (skip_ws r3) < length s then
                        bindr (scan_members pv (skip_ws r3)) (\<lambda>(ms, r4). Inr ((k, v) # ms, r4))
                      else Inl json_error)))"
  by pat_completeness auto
termination
  by (relation "measure (\<lambda>(pv, s). length s)") auto

declare scan_elems.simps [simp del] scan_members.simps [simp del]

definition scan_array :: "(string \<Rightarrow> (json \<times> string) res) \<Rightarrow> string \<Rightarrow> (json \<times> string) res" where
  "scan_array pv s =
     (let s1 = skip_ws s in
      if s1 \<noteq> [] \<and> hd s1 = CHR '']'' then Inr (JList [], tl s1)
      else bindr (scan_elems pv s1) (\<lambda>(vs, r). Inr (JList vs, r)))"

definition scan_object ::
    "json_hooks \<Rightarrow> (string \<Rightarrow> (json \<times> string) res) \<Rightarrow> string \<Rightarrow> (json \<times> string) res" where
  "scan_object h pv s =
     (let s1 = skip_ws s in
      if s1 \<noteq> [] \<and> hd s1 = CHR ''}'' then bindr (pairs_hook h []) (\<lambda>v. Inr (v, tl s1))
      else bindr (scan_members pv s1) (\<lambda>(ps, r). bindr (pairs_hook h ps) (\<lambda>v. Inr (v, r))))"

text \<open>\<open>scan_once\<close>. The first argument is how many containers may still be entered.\<close>

primrec parse_value :: "nat \<Rightarrow> json_hooks \<Rightarrow> string \<Rightarrow> (json \<times> string) res" where
  "parse_value 0 h s =
     (if s \<noteq> [] \<and> (hd s = CHR ''{'' \<or> hd s = CHR ''['') then Inl RecursionError
      else scan_scalar h s)"
| "parse_value (Suc d) h s =
     (if s \<noteq> [] \<and> hd s = CHR ''{'' then scan_object h (parse_value d h) (tl s)
      else if s \<noteq> [] \<and> hd s = CHR ''['' then scan_array (parse_value d h) (tl s)
      else scan_scalar h s)"

definition json_loads_str :: "nat \<Rightarrow> json_hooks \<Rightarrow> string \<Rightarrow> json res" where
  "json_loads_str d h s =
     bindr (parse_value d h (skip_ws s)) (\<lambda>(v, r).
       if skip_ws r = [] then Inr v else Inl json_error)"

definition json_loads :: "nat \<Rightarrow> json_hooks \<Rightarrow> bytes \<Rightarrow> json res" where
  "json_loads d h bs = bindr (decode_json bs) (json_loads_str d h)"

text \<open>Without hooks an object is a dict in which the last of several values of a key wins.\<close>

definition plain_pairs :: "(string \<times> json) list \<Rightarrow> json res" where
  "plain_pairs ps = Inr (JDict (dict_merge [] ps))"

definition plain_hooks :: json_hooks where
  "plain_hooks = \<lparr>pairs_hook = plain_pairs, float_hook = (\<lambda>t. Inr (JFloat t)),
     const_hook = (\<lambda>t. Inr (JFloat t))\<rparr>"

text \<open>The loop of every \<open>object_pairs_hook\<close> of the sources: build a dict, refuse a repeated
  key. The message differs from one source to the next.\<close>

fun unique_pairs :: "string \<Rightarrow> json dict \<Rightarrow> (string \<times> json) list \<Rightarrow> json dict res" where
  "unique_pairs msg obj [] = Inr obj"
| "unique_pairs msg obj ((key, value) # items) =
     (if has_key key obj then Inl (ValueError msg)
      else unique_pairs msg (AList.update key value obj) items)"

section \<open>The printer\<close>

definition hex4 :: "nat \<Rightarrow> string" where
  "hex4 n = [hex_digit (n div 4096 mod 16), hex_digit (n div 256 mod 16),
             hex_digit (n div 16 mod 16), hex_digit (n mod 16)]"

definition short_escape :: "char \<Rightarrow> char option" where
  "short_escape c =
     (if c = quote_char \<or> c = backslash then Some c
      else if c = CHR 0x08 then Some (CHR ''b'')
      else if c = CHR 0x0C then Some (CHR ''f'')
      else if c = CHR 0x0A then Some (CHR ''n'')
      else if c = CHR 0x0D then Some (CHR ''r'')
      else if c = CHR 0x09 then Some (CHR ''t'')
      else None)"

text \<open>A character of a string printed with \<open>ensure_ascii=False\<close>.\<close>

definition esc_char :: "char \<Rightarrow> string" where
  "esc_char c =
     (case short_escape c of
        Some e \<Rightarrow> [backslash, e]
      | None \<Rightarrow> if ord c < 32 then [backslash, CHR ''u''] @ hex4 (ord c) else [c])"

definition quote_str :: "string \<Rightarrow> string" where
  "quote_str s = quote_char # concat (map esc_char s) @ [quote_char]"

text \<open>The code points of a string, for \<open>ensure_ascii=True\<close>, which escapes every code point
  outside space to tilde.\<close>

fun code_points :: "string \<Rightarrow> nat list" where
  "code_points [] = []"
| "code_points (a # cs) =
     (if ord a < 0x80 then ord a # code_points cs
      else case cs of
        [] \<Rightarrow> [ord a]
      | b # ds \<Rightarrow>
          if ord a < 0xE0 then ((ord a - 0xC0) * 64 + (ord b - 0x80)) # code_points ds
          else case ds of
            [] \<Rightarrow> [ord a]
          | c # es \<Rightarrow>
              if ord a < 0xF0
              then ((ord a - 0xE0) * 4096 + (ord b - 0x80) * 64 + (ord c - 0x80)) # code_points es
              else case es of
                [] \<Rightarrow> [ord a]
              | d # fs \<Rightarrow>
                  ((ord a - 0xF0) * 262144 + (ord b - 0x80) * 4096 + (ord c - 0x80) * 64
                   + (ord d - 0x80)) # code_points fs)"

definition esc_ascii :: "nat \<Rightarrow> string" where
  "esc_ascii n =
     (if n < 128 \<and> short_escape (char_of n) \<noteq> None
      then [backslash, the (short_escape (char_of n))]
      else if 32 \<le> n \<and> n \<le> 126 then [char_of n]
      else if n < 0x10000 then [backslash, CHR ''u''] @ hex4 n
      else [backslash, CHR ''u''] @ hex4 (0xD800 + (n - 0x10000) div 1024)
           @ [backslash, CHR ''u''] @ hex4 (0xDC00 + (n - 0x10000) mod 1024))"

definition quote_ascii :: "string \<Rightarrow> string" where
  "quote_ascii s = quote_char # concat (map esc_ascii (code_points s)) @ [quote_char]"

text \<open>\<open>json.dumps\<close>: the quoting function and the two separators are arguments;
  \<open>sort_keys=True\<close> is \<open>sort_json\<close> before printing. Keys sort by code point, which is the
  order of their UTF-8 bytes.\<close>

primrec dumps :: "(string \<Rightarrow> string) \<Rightarrow> string \<Rightarrow> string \<Rightarrow> json \<Rightarrow> string" where
  "dumps q isep ksep JNull = ''null''"
| "dumps q isep ksep (JBool b) = (if b then ''true'' else ''false'')"
| "dumps q isep ksep (JInt i) = int_str i"
| "dumps q isep ksep (JFloat t) = t"
| "dumps q isep ksep (JStr s) = q s"
| "dumps q isep ksep (JList xs) = ''['' @ join_with isep (map (dumps q isep ksep) xs) @ '']''"
| "dumps q isep ksep (JDict d) =
     ''{'' @ join_with isep (map (\<lambda>(k, t). q k @ ksep @ t) (map (map_prod id (dumps q isep ksep)) d))
     @ ''}''"

primrec sort_json :: "json \<Rightarrow> json" where
  "sort_json JNull = JNull"
| "sort_json (JBool b) = JBool b"
| "sort_json (JInt i) = JInt i"
| "sort_json (JFloat t) = JFloat t"
| "sort_json (JStr s) = JStr s"
| "sort_json (JList xs) = JList (map sort_json xs)"
| "sort_json (JDict d) = JDict (sort_key fst (map (map_prod id sort_json) d))"

end
