(* ===== verification/Json_Laws.thy ===== *)
theory Json_Laws
  imports Json_Text "HOL-Library.Multiset"
begin

text \<open>
  Laws of the JSON scanner and printer: progress of the scanner, well-formedness of what it
  returns, and the round trip through the printer.
\<close>

lemma json_induct [case_names JNull JBool JInt JFloat JStr JList JDict]:
  assumes "P JNull" "\<And>b. P (JBool b)" "\<And>i. P (JInt i)" "\<And>t. P (JFloat t)" "\<And>s. P (JStr s)"
    and "\<And>xs. (\<And>x. x \<in> set xs \<Longrightarrow> P x) \<Longrightarrow> P (JList xs)"
    and "\<And>d. (\<And>k v. (k, v) \<in> set d \<Longrightarrow> P v) \<Longrightarrow> P (JDict d)"
  shows "P v"
proof (induction v)
  case (JDict d)
  have "P v" if "(k, v) \<in> set d" for k v
    using that by (rule JDict) (simp add: Basic_BNFs.snds.simps)
  then show ?case by (rule assms(7))
qed (use assms in auto)

section \<open>Shape predicates\<close>

text \<open>Every dict of a value has distinct keys; containers nest at most \<open>n\<close> deep; numbers
  are integers that \<open>int\<close> can read back.\<close>

primrec json_wf :: "json \<Rightarrow> bool" where
  "json_wf JNull = True"
| "json_wf (JBool b) = True"
| "json_wf (JInt i) = True"
| "json_wf (JFloat t) = True"
| "json_wf (JStr s) = True"
| "json_wf (JList xs) = list_all id (map json_wf xs)"
| "json_wf (JDict d) = (distinct (map fst d) \<and> list_all snd (map (map_prod id json_wf) d))"

primrec json_nest :: "json \<Rightarrow> nat" where
  "json_nest JNull = 0"
| "json_nest (JBool b) = 0"
| "json_nest (JInt i) = 0"
| "json_nest (JFloat t) = 0"
| "json_nest (JStr s) = 0"
| "json_nest (JList xs) = Suc (foldr max (map json_nest xs) 0)"
| "json_nest (JDict d) = Suc (foldr max (map snd (map (map_prod id json_nest) d)) 0)"

primrec json_exact :: "json \<Rightarrow> bool" where
  "json_exact JNull = True"
| "json_exact (JBool b) = True"
| "json_exact (JInt i) = (length (nat_str (nat \<bar>i\<bar>)) \<le> 4300)"
| "json_exact (JFloat t) = False"
| "json_exact (JStr s) = True"
| "json_exact (JList xs) = list_all id (map json_exact xs)"
| "json_exact (JDict d) = list_all snd (map (map_prod id json_exact) d)"

lemma json_wf_JList [simp]: "json_wf (JList xs) \<longleftrightarrow> (\<forall>x \<in> set xs. json_wf x)"
  by (simp add: list_all_iff)

lemma json_wf_JDict [simp]:
  "json_wf (JDict d) \<longleftrightarrow> distinct (map fst d) \<and> (\<forall>(k, v) \<in> set d. json_wf v)"
  by (auto simp: list_all_iff)

lemma json_exact_JList [simp]: "json_exact (JList xs) \<longleftrightarrow> (\<forall>x \<in> set xs. json_exact x)"
  by (simp add: list_all_iff)

lemma json_exact_JDict [simp]: "json_exact (JDict d) \<longleftrightarrow> (\<forall>(k, v) \<in> set d. json_exact v)"
  by (auto simp: list_all_iff)

lemma foldr_max_le: "foldr max xs (0::nat) \<le> n \<longleftrightarrow> (\<forall>x \<in> set xs. x \<le> n)"
  by (induction xs) auto

lemma json_nest_JList_le [simp]:
  "json_nest (JList xs) \<le> Suc n \<longleftrightarrow> (\<forall>x \<in> set xs. json_nest x \<le> n)"
  by (simp add: foldr_max_le)

lemma json_nest_JDict_le [simp]:
  "json_nest (JDict d) \<le> Suc n \<longleftrightarrow> (\<forall>(k, v) \<in> set d. json_nest v \<le> n)"
  by (auto simp: foldr_max_le)

declare json_wf.simps(6,7) [simp del] json_exact.simps(6,7) [simp del]
  json_nest.simps(6,7) [simp del]

lemma json_nest_pos: "json_nest (JList xs) \<noteq> 0" "json_nest (JDict d) \<noteq> 0"
  by (simp_all add: json_nest.simps)

section \<open>Hooks that refuse repeated keys\<close>

lemma unique_pairs_eq:
  assumes "distinct (map fst obj)"
  shows "unique_pairs msg obj ps =
     (if distinct (map fst (obj @ ps)) then Inr (obj @ ps) else Inl (ValueError msg))"
  using assms
proof (induction ps arbitrary: obj)
  case (Cons p ps)
  obtain key v where p: "p = (key, v)" by fastforce
  show ?case
  proof (cases "has_key key obj")
    case True
    then show ?thesis by (auto simp: p has_key_def)
  next
    case False
    then have "AList.update key v obj = obj @ [(key, v)]"
      by (simp add: update_new has_key_def)
    with False Cons show ?thesis by (simp add: p has_key_def)
  qed
qed simp

section \<open>Inversion and progress of the scanner\<close>

lemma scan_number_cases:
  assumes "scan_number h s = Inr (v, r)"
  obtains (int) i where "v = JInt i" | (float) t where "float_hook h t = Inr v"
  using assms by (auto simp: scan_number_def Let_def case_prod_beta split: if_splits)

lemma scan_elems_cases [consumes 1, case_names last more]:
  assumes "scan_elems pv s = Inr (vs, r)"
  obtains v r0 where "pv s = Inr (v, r0)" "skip_ws r0 = CHR '']'' # r" "vs = [v]"
  | v r0 r1 vs' where "pv s = Inr (v, r0)" "skip_ws r0 = CHR '','' # r1"
      "length (skip_ws r1) < length s" "scan_elems pv (skip_ws r1) = Inr (vs', r)" "vs = v # vs'"
proof -
  from assms obtain v r0 where v: "pv s = Inr (v, r0)"
    unfolding scan_elems.simps [of pv s] by auto
  with assms obtain c r1 where c: "skip_ws r0 = c # r1"
    unfolding scan_elems.simps [of pv s] by (auto split: list.split_asm)
  consider "c = CHR '']''" | "c = CHR '',''" "length (skip_ws r1) < length s"
    using assms v c unfolding scan_elems.simps [of pv s] by (auto split: if_split_asm)
  then show thesis
  proof cases
    case 1
    with assms v c that(1) show thesis unfolding scan_elems.simps [of pv s] by auto
  next
    case 2
    with assms v c obtain vs' where "scan_elems pv (skip_ws r1) = Inr (vs', r)" "vs = v # vs'"
      unfolding scan_elems.simps [of pv s] by auto
    with 2 v c that(2) show thesis by blast
  qed
qed

lemma scan_members_cases [consumes 1, case_names last more]:
  assumes "scan_members pv s = Inr (ms, r)"
  obtains cs k v r0 r1 r2 where "s = quote_char # cs" "scan_str cs = Inr (k, r0)"
      "skip_ws r0 = CHR '':'' # r1" "pv (skip_ws r1) = Inr (v, r2)"
      "skip_ws r2 = CHR ''}'' # r" "ms = [(k, v)]"
  | cs k v r0 r1 r2 r3 ms' where "s = quote_char # cs" "scan_str cs = Inr (k, r0)"
      "skip_ws r0 = CHR '':'' # r1" "pv (skip_ws r1) = Inr (v, r2)"
      "skip_ws r2 = CHR '','' # r3" "length (skip_ws r3) < length s"
      "scan_members pv (skip_ws r3) = Inr (ms', r)" "ms = (k, v) # ms'"
proof -
  note unf = scan_members.simps [of pv s]
  from assms obtain cs where s: "s = quote_char # cs"
    unfolding unf by (auto split: list.split_asm if_split_asm)
  with assms obtain k r0 where k: "scan_str cs = Inr (k, r0)" unfolding unf by auto
  with assms s obtain r1 where r1: "skip_ws r0 = CHR '':'' # r1"
    unfolding unf by (auto split: list.split_asm if_split_asm)
  with assms s k obtain v r2 where v: "pv (skip_ws r1) = Inr (v, r2)" unfolding unf by auto
  with assms s k r1 obtain c r3 where c: "skip_ws r2 = c # r3"
    unfolding unf by (auto split: list.split_asm)
  consider "c = CHR ''}''" | "c = CHR '',''" "length (skip_ws r3) < length s"
    using assms s k r1 v c unfolding unf by (auto split: if_split_asm)
  then show thesis
  proof cases
    case 1
    with assms s k r1 v c that(1) show thesis unfolding unf by auto
  next
    case 2
    with assms s k r1 v c obtain ms' where "scan_members pv (skip_ws r3) = Inr (ms', r)" "ms = (k, v) # ms'"
      unfolding unf by auto
    with 2 s k r1 v c that(2) show thesis by blast
  qed
qed

lemma skip_ws_le: "length (skip_ws s) \<le> length s"
  by (simp add: skip_ws_def length_dropWhile_le)

lemma skip_ws_Cons_less: "skip_ws s = c # r \<Longrightarrow> length r < length s"
  using skip_ws_le [of s] by auto

lemma push_Inr [simp]: "push x m = Inr (s, r) \<longleftrightarrow> (\<exists>s'. m = Inr (s', r) \<and> s = x @ s')"
  by (auto simp: push_def)

lemma scan_str_simps [simp]:
  "scan_str [] = Inl json_error"
  "scan_str (quote_char # cs) = Inr ([], cs)"
  "scan_str (backslash # CHR ''u'' # rest) =
     (case unicode_escape rest of None \<Rightarrow> Inl json_error | Some (x, rest') \<Rightarrow> push x (scan_str rest'))"
  "e \<noteq> CHR ''u'' \<Longrightarrow> scan_str (backslash # e # rest) =
     (case simple_escape e of None \<Rightarrow> Inl json_error | Some x \<Rightarrow> push [x] (scan_str rest))"
  "scan_str [backslash] = Inl json_error"
  by (subst scan_str.simps, simp)+

lemma scan_str_raw: "c \<noteq> quote_char \<Longrightarrow> c \<noteq> backslash \<Longrightarrow>
    scan_str (c # cs) = (if ord c < 32 then Inl json_error else push [c] (scan_str cs))"
  by (subst scan_str.simps) simp

lemma scan_str_cases [consumes 1, case_names close unicode escape raw]:
  assumes "scan_str s = Inr (x, r)"
  obtains "s = quote_char # r" "x = []"
  | rest rest' y x' where "s = backslash # CHR ''u'' # rest" "unicode_escape rest = Some (y, rest')"
      "scan_str rest' = Inr (x', r)" "x = y @ x'"
  | e rest y x' where "s = backslash # e # rest" "simple_escape e = Some y"
      "scan_str rest = Inr (x', r)" "x = y # x'"
  | c cs x' where "s = c # cs" "32 \<le> ord c" "scan_str cs = Inr (x', r)" "x = c # x'"
proof -
  from assms obtain c cs where s: "s = c # cs" by (cases s) auto
  consider "c = quote_char" | "c = backslash" "cs = []"
    | e rest where "c = backslash" "cs = e # rest" "e = CHR ''u''"
    | e rest where "c = backslash" "cs = e # rest" "e \<noteq> CHR ''u''"
    | "c \<noteq> quote_char" "c \<noteq> backslash"
    by (cases cs) auto
  then show thesis
  proof cases
    case 1
    with assms s that(1) show thesis by simp
  next
    case 2
    with assms s show thesis by simp
  next
    case (3 e rest)
    with assms s that(2) show thesis by (auto split: option.splits)
  next
    case (4 e rest)
    with assms s that(3) show thesis by (auto split: option.splits)
  next
    case 5
    with assms s that(4) show thesis by (auto simp: scan_str_raw split: if_splits)
  qed
qed

lemma scan_str_shorter: "scan_str s = Inr (x, r) \<Longrightarrow> length r < length s"
proof (induction s arbitrary: x rule: measure_induct_rule [where f = length])
  case (less s)
  from less.prems show ?case
  proof (cases rule: scan_str_cases)
    case (unicode rest rest' y x')
    with less.IH [of rest'] unicode_escape_shorter [of rest] show ?thesis by fastforce
    next
    case (escape e rest y x')
    with less.IH [of rest] show ?thesis by auto
  next
    case (raw c cs x')
    with less.IH [of cs] show ?thesis by auto
  qed simp
qed


lemma scan_int_part_shorter: "scan_int_part s = Inr (i, r) \<Longrightarrow> length r < length s"
proof -
  assume a: "scan_int_part s = Inr (i, r)"
  then obtain c cs where s: "s = c # cs" by (cases s) (auto simp: scan_int_part_def)
  have "length (dropWhile is_digit cs) < Suc (length cs)"
    using length_dropWhile_le [of is_digit cs] by simp
  with a s show ?thesis by (auto simp: scan_int_part_def split: if_splits)
qed

lemma dropWhile_Cons_le: "length (dropWhile P (c # cs)) \<le> Suc (length cs)"
  using length_dropWhile_le [of P "c # cs"] by simp

lemma scan_frac_le: "length (snd (scan_frac s)) \<le> length s"
proof -
  have "length (dropWhile is_digit (d # ds)) \<le> Suc (Suc (length ds))" for d ds
    using dropWhile_Cons_le [of is_digit d ds] by simp
  then show ?thesis
    by (simp add: scan_frac_def del: dropWhile.simps split: list.split)
qed

lemma scan_exp_le: "length (snd (scan_exp s)) \<le> length s"
proof -
  have "length (dropWhile is_digit (d # ds)) \<le> Suc (Suc (length ds))"
    "length (dropWhile is_digit (d # ds)) \<le> Suc (Suc (Suc (length ds)))" for d ds
    using dropWhile_Cons_le [of is_digit d ds] by simp_all
  then show ?thesis
    by (simp add: scan_exp_def del: dropWhile.simps split: list.split)
qed

lemma scan_number_shorter:
  assumes "scan_number h s = Inr (v, r)"
  shows "length r < length s"
proof -
  define s' where "s' = (if s \<noteq> [] \<and> hd s = CHR ''-'' then tl s else s)"
  note unf = scan_number_def Let_def s'_def [symmetric] case_prod_beta
  from assms obtain i r0 where i: "scan_int_part s' = Inr (i, r0)"
    unfolding unf by (cases "scan_int_part s'") auto
  from assms have "r = snd (scan_exp (snd (scan_frac r0)))"
    unfolding unf i bindr.simps fst_conv snd_conv
    by (cases "fst (scan_frac r0) = [] \<and> fst (scan_exp (snd (scan_frac r0))) = []")
      (auto split: if_split_asm)
  also have "length \<dots> \<le> length (snd (scan_frac r0))" by (rule scan_exp_le)
  also have "\<dots> \<le> length r0" by (rule scan_frac_le)
  also have "\<dots> < length s'" using i by (rule scan_int_part_shorter)
  also have "\<dots> \<le> length s" by (simp add: s'_def)
  finally show ?thesis .
qed

lemma startswith_drop_less: "startswith s p \<Longrightarrow> p \<noteq> [] \<Longrightarrow> length (drop (length p) s) < length s"
  by (auto simp: startswith_iff)

lemma scan_scalar_shorter: "scan_scalar h s = Inr (v, r) \<Longrightarrow> length r < length s"
  using startswith_drop_less [of s "''null''"] startswith_drop_less [of s "''true''"]
    startswith_drop_less [of s "''false''"] startswith_drop_less [of s "''NaN''"]
    startswith_drop_less [of s "''Infinity''"] startswith_drop_less [of s "''-Infinity''"]
    scan_number_shorter [of h s v r] scan_str_shorter [of "tl s" _ r]
  by (cases s) (auto simp: scan_scalar_def split: if_splits)

lemma scan_elems_shorter:
  assumes "\<And>s v r. pv s = Inr (v, r) \<Longrightarrow> length r < length s"
  shows "scan_elems pv s = Inr (vs, r) \<Longrightarrow> length r < length s"
proof (induction s arbitrary: vs rule: measure_induct_rule [where f = length])
  case (less s)
  from less.prems show ?case
  proof (cases rule: scan_elems_cases)
    case (last v r0)
    with assms [of s] skip_ws_Cons_less [of r0] show ?thesis by fastforce
  next
    case (more v r0 r1 vs')
    with less.IH [of "skip_ws r1"] show ?thesis by fastforce
  qed
qed

lemma scan_members_shorter:
  assumes "\<And>s v r. pv s = Inr (v, r) \<Longrightarrow> length r < length s"
  shows "scan_members pv s = Inr (ms, r) \<Longrightarrow> length r < length s"
proof (induction s arbitrary: ms rule: measure_induct_rule [where f = length])
  case (less s)
  from less.prems show ?case
  proof (cases rule: scan_members_cases)
    case (last cs k v r0 r1 r2)
    then have "length r < length r2" "length r2 < length (skip_ws r1)" "length r1 < length r0"
      "length r0 < length cs"
      using assms scan_str_shorter skip_ws_Cons_less by blast+
    with last(1) skip_ws_le [of r1] show ?thesis by simp
  next
    case (more cs k v r0 r1 r2 r3 ms')
    with less.IH [of "skip_ws r3"] show ?thesis by fastforce
  qed
qed

text \<open>The scanner consumes at least one character of every value it returns.\<close>

lemma parse_value_shorter: "parse_value d h s = Inr (v, r) \<Longrightarrow> length r < length s"
proof (induction d arbitrary: s v r)
  case 0
  then show ?case by (auto simp: scan_scalar_shorter split: if_splits)
next
  case (Suc d)
  consider "scan_scalar h s = Inr (v, r)" | "s \<noteq> []" "scan_object h (parse_value d h) (tl s) = Inr (v, r)"
    | "s \<noteq> []" "scan_array (parse_value d h) (tl s) = Inr (v, r)"
    using Suc.prems by (auto split: if_splits)
  then show ?case
  proof cases
    case 1
    then show ?thesis by (rule scan_scalar_shorter)
  next
    case 2
    note shorter = scan_members_shorter [of "parse_value d h" "skip_ws (tl s)", OF Suc.IH]
    from 2 consider "r = tl (skip_ws (tl s))" "skip_ws (tl s) \<noteq> []"
      | ms where "scan_members (parse_value d h) (skip_ws (tl s)) = Inr (ms, r)"
      by (auto simp: scan_object_def Let_def split: if_splits)
    then show ?thesis
      using skip_ws_le [of "tl s"] 2(1) by cases (use shorter in \<open>cases s; fastforce\<close>)+
  next
    case 3
    note shorter = scan_elems_shorter [of "parse_value d h" "skip_ws (tl s)", OF Suc.IH]
    from 3 consider "r = tl (skip_ws (tl s))" "skip_ws (tl s) \<noteq> []"
      | vs where "scan_elems (parse_value d h) (skip_ws (tl s)) = Inr (vs, r)"
      by (auto simp: scan_array_def Let_def split: if_splits)
    then show ?thesis
      using skip_ws_le [of "tl s"] 3(1) by cases (use shorter in \<open>cases s; fastforce\<close>)+
  qed
qed


section \<open>Reading back what was printed\<close>

lemma short_simple: "short_escape c = Some e \<Longrightarrow> simple_escape e = Some c \<and> e \<noteq> CHR ''u''"
  by (auto simp: short_escape_def simple_escape_def split: if_splits)

lemma is_hex_hex_digit: "n < 16 \<Longrightarrow> is_hex (hex_digit n)"
  by (simp add: is_hex_def)

lemma hex_nat_hex4: "n < 65536 \<Longrightarrow> hex_nat (hex4 n) = n"
  using mult_div_mod_eq [of 16 n] mult_div_mod_eq [of 16 "n div 16"] mult_div_mod_eq [of 16 "n div 256"]
  by (simp add: hex_nat_def hex4_def div_mult2_eq [symmetric])

lemma unicode_escape_hex4:
  assumes "n < 0xD800"
  shows "unicode_escape (hex4 n @ r) = Some (utf8_char n, r)"
proof -
  have "hex_nat [hex_digit (n div 4096 mod 16), hex_digit (n div 256 mod 16),
             hex_digit (n div 16 mod 16), hex_digit (n mod 16)] = n"
    using hex_nat_hex4 [of n] assms by (simp add: hex4_def)
  moreover have "\<not> is_high_surrogate n" using assms by (simp add: is_high_surrogate_def)
  ultimately show ?thesis
    by (simp add: unicode_escape_def hex4_def Let_def is_hex_hex_digit split: list.split)
qed

lemma scan_str_esc_char: "scan_str (esc_char c @ r) = push [c] (scan_str r)"
proof (cases "short_escape c")
  case (Some e)
  with short_simple [OF Some] show ?thesis by (simp add: esc_char_def)
next
  case None
  then have "c \<noteq> quote_char" "c \<noteq> backslash" by (auto simp: short_escape_def split: if_splits)
  moreover have "utf8_char (ord c) = [c]" if "ord c < 32"
    using that by (simp add: utf8_char_def)
  ultimately show ?thesis using None
    by (simp add: esc_char_def scan_str_raw unicode_escape_hex4)
qed

lemma scan_str_quoted: "scan_str (concat (map esc_char s) @ quote_char # r) = Inr (s, r)"
  by (induction s) (simp_all add: scan_str_esc_char)

text \<open>What may follow a printed value: the end of the text or a delimiter.\<close>

definition json_follow :: "string \<Rightarrow> bool" where
  "json_follow r \<longleftrightarrow> r = [] \<or> hd r = CHR '','' \<or> hd r = CHR '']'' \<or> hd r = CHR ''}''"

lemma scan_frac_follow: "json_follow r \<Longrightarrow> scan_frac r = ([], r)"
  by (auto simp: json_follow_def scan_frac_def split: list.split)

lemma scan_exp_follow: "json_follow r \<Longrightarrow> scan_exp r = ([], r)"
  by (auto simp: json_follow_def scan_exp_def split: list.split)

lemma digits_follow:
  assumes "list_all is_digit s" "json_follow r"
  shows "takeWhile is_digit (s @ r) = s" "dropWhile is_digit (s @ r) = r"
proof -
  have "r = [] \<or> \<not> is_digit (hd r)"
    using assms(2) by (auto simp: json_follow_def is_digit_def)
  then have "takeWhile is_digit r = []" "dropWhile is_digit r = r" by (cases r; simp)+
  with assms(1) show "takeWhile is_digit (s @ r) = s" "dropWhile is_digit (s @ r) = r"
    by (auto simp: list_all_iff takeWhile_append2 dropWhile_append2)
qed

lemma nat_str_all_digits: "list_all is_digit (nat_str n)"
  by (auto simp: list_all_iff nat_str_digits)

lemma scan_int_part_nat_str: "json_follow r \<Longrightarrow> scan_int_part (nat_str n @ r) = Inr (nat_str n, r)"
proof (cases "n = 0")
  case True
  then show ?thesis by (simp add: scan_int_part_def)
next
  case False
  assume r: "json_follow r"
  obtain c cs where c: "nat_str n = c # cs" by (cases "nat_str n") auto
  with False nat_str_hd [of n] nat_str_digits [of c n] have "c \<noteq> CHR ''0''" "is_digit c" by auto
  with c show ?thesis
    using digits_follow [OF nat_str_all_digits r, of n] by (simp add: scan_int_part_def)
qed

lemma nat_str_Cons: obtains c cs where "nat_str n = c # cs" "is_digit c" "c \<noteq> CHR ''-''"
proof -
  obtain c cs where c: "nat_str n = c # cs" by (cases "nat_str n") auto
  with nat_str_digits [of c n] have d: "is_digit c" by simp
  then have "c \<noteq> CHR ''-''" by (auto simp: is_digit_def)
  with c d show thesis by (rule that)
qed

lemma scan_number_int_str:
  assumes "json_follow r" "length (nat_str (nat \<bar>i\<bar>)) \<le> 4300"
  shows "scan_number h (int_str i @ r) = Inr (JInt i, r)"
proof -
  have "hd (nat_str (nat i) @ r) \<noteq> CHR ''-''" by (rule nat_str_Cons [of "nat i"]) simp
  with assms show ?thesis
    by (cases "i < 0") (auto simp: scan_number_def int_str_def scan_frac_follow scan_exp_follow
        scan_int_part_nat_str)
qed

lemma is_digit_noteq: "is_digit c \<Longrightarrow> c \<noteq> CHR ''n'' \<and> c \<noteq> CHR ''t'' \<and> c \<noteq> CHR ''f'' \<and> c \<noteq> CHR ''N''
    \<and> c \<noteq> CHR ''I'' \<and> c \<noteq> CHR ''{'' \<and> c \<noteq> CHR ''['' \<and> c \<noteq> quote_char \<and> c \<noteq> CHR '']'' \<and> c \<noteq> CHR ''}''"
  by (auto simp: is_digit_def)

lemma scan_scalar_int_str:
  assumes "json_follow r" "length (nat_str (nat \<bar>i\<bar>)) \<le> 4300"
  shows "scan_scalar h (int_str i @ r) = Inr (JInt i, r)"
proof -
  obtain c cs where c: "nat_str (nat \<bar>i\<bar>) = c # cs" "is_digit c" "c \<noteq> CHR ''-''" by (rule nat_str_Cons)
  note is_digit_noteq [OF c(2)]
  with c assms show ?thesis
    using scan_number_int_str [OF assms]
    by (cases "i < 0") (auto simp: scan_scalar_def int_str_def startswith_def)
qed

text \<open>The first character of a printed value is neither white space nor a closing bracket.\<close>

abbreviation print_json :: "json \<Rightarrow> string" where
  "print_json \<equiv> dumps quote_str '','' '':''"

definition value_start :: "char \<Rightarrow> bool" where
  "value_start c \<longleftrightarrow> \<not> is_json_ws c \<and> c \<noteq> CHR '']'' \<and> c \<noteq> CHR ''}''"

lemma print_json_start:
  assumes "json_exact v"
  obtains c cs where "print_json v = c # cs" "value_start c"
proof (cases v)
  case (JInt i)
  obtain c cs where c: "nat_str (nat \<bar>i\<bar>) = c # cs" "is_digit c" by (rule nat_str_Cons)
  then have "value_start c" "value_start (CHR ''-'')"
    by (auto simp: value_start_def is_json_ws_def is_digit_def)
  with JInt c that show ?thesis by (cases "i < 0") (auto simp: int_str_def)
next
  case (JBool b)
  then show ?thesis using that by (cases b) (auto simp: value_start_def is_json_ws_def)
qed (use assms that in \<open>auto simp: value_start_def is_json_ws_def quote_str_def split: if_splits\<close>)

lemma skip_ws_start: "value_start c \<Longrightarrow> skip_ws (c # cs) = c # cs"
  by (simp add: skip_ws_def value_start_def)

lemma skip_ws_print: "json_exact v \<Longrightarrow> skip_ws (print_json v @ r) = print_json v @ r"
  by (erule print_json_start [of v]) (simp add: skip_ws_start)

lemma skip_ws_delim [simp]:
  "skip_ws (CHR '']'' # t) = CHR '']'' # t" "skip_ws (CHR '','' # t) = CHR '','' # t"
  "skip_ws (CHR ''}'' # t) = CHR ''}'' # t" "skip_ws (CHR '':'' # t) = CHR '':'' # t"
  "skip_ws (quote_char # t) = quote_char # t" "skip_ws [] = []"
  by (simp_all add: skip_ws_def is_json_ws_def)

lemma scan_elems_print:
  assumes "xs \<noteq> []"
    and "\<And>x r. x \<in> set xs \<Longrightarrow> json_follow r \<Longrightarrow> pv (print_json x @ r) = Inr (x, r)"
    and "\<And>x. x \<in> set xs \<Longrightarrow> json_exact x"
  shows "scan_elems pv (join_with '','' (map print_json xs) @ CHR '']'' # r) = Inr (xs, r)"
  using assms
proof (induction xs)
  case (Cons x xs)
  show ?case
  proof (cases xs)
    case Nil
    have "pv (print_json x @ CHR '']'' # r) = Inr (x, CHR '']'' # r)"
      using Cons.prems(2) [of x] by (simp add: json_follow_def)
    with Nil show ?thesis by (subst scan_elems.simps) simp
  next
    case (Cons y ys)
    let ?t = "join_with '','' (map print_json xs) @ CHR '']'' # r"
    have pv: "pv (print_json x @ CHR '','' # ?t) = Inr (x, CHR '','' # ?t)"
      using Cons.prems(2) [of x] by (simp add: json_follow_def)
    have "scan_elems pv ?t = Inr (xs, r)"
      using Cons.IH Cons Cons.prems by simp
    moreover have "skip_ws ?t = ?t"
      using Cons Cons.prems(3) [of y] skip_ws_print [of y]
      by (cases ys) simp_all
    ultimately show ?thesis using pv Cons
      by (subst scan_elems.simps) simp
  qed
qed simp

abbreviation print_member :: "string \<times> json \<Rightarrow> string" where
  "print_member m \<equiv> quote_str (fst m) @ '':'' @ print_json (snd m)"

lemma print_json_JDict: "print_json (JDict d) = ''{'' @ join_with '','' (map print_member d) @ ''}''"
  by (simp add: comp_def case_prod_beta)

lemma scan_members_print:
  assumes "d \<noteq> []"
    and "\<And>k x r. (k, x) \<in> set d \<Longrightarrow> json_follow r \<Longrightarrow> pv (print_json x @ r) = Inr (x, r)"
    and "\<And>k x. (k, x) \<in> set d \<Longrightarrow> json_exact x"
  shows "scan_members pv (join_with '','' (map print_member d) @ CHR ''}'' # r) = Inr (d, r)"
  using assms
proof (induction d)
  case (Cons m d)
  obtain k x where m: "m = (k, x)" by fastforce
  have ws: "skip_ws (print_json x @ t) = print_json x @ t" for t
    using Cons.prems(3) [of k x] m by (simp add: skip_ws_print)
  show ?case
  proof (cases d)
    case Nil
    have "pv (print_json x @ CHR ''}'' # r) = Inr (x, CHR ''}'' # r)"
      using Cons.prems(2) [of k x] m by (simp add: json_follow_def)
    with Nil m show ?thesis
      by (subst scan_members.simps) (simp add: quote_str_def scan_str_quoted ws)
  next
    case (Cons y ys)
    let ?t = "join_with '','' (map print_member d) @ CHR ''}'' # r"
    have pv: "pv (print_json x @ CHR '','' # ?t) = Inr (x, CHR '','' # ?t)"
      using Cons.prems(2) [of k x] m by (simp add: json_follow_def)
    have "scan_members pv ?t = Inr (d, r)"
    proof (rule Cons.IH)
      show "d \<noteq> []" using Cons by simp
      show "pv (print_json x @ r) = Inr (x, r)" if "(k, x) \<in> set d" "json_follow r" for k x r
        using Cons.prems(2) [of k x r] that by simp
      show "json_exact x" if "(k, x) \<in> set d" for k x
        using Cons.prems(3) [of k x] that by simp
    qed
    moreover have "skip_ws ?t = ?t"
      using Cons by (cases ys) (simp_all add: quote_str_def)
    ultimately show ?thesis using pv Cons m
      by (subst scan_members.simps) (simp add: quote_str_def scan_str_quoted ws)
  qed
qed simp

section \<open>Errors of the scanner\<close>

definition json_exn :: "exn \<Rightarrow> bool" where
  "json_exn e \<longleftrightarrow> is_ValueError e \<or> e = RecursionError"

definition hooks_exn :: "json_hooks \<Rightarrow> bool" where
  "hooks_exn h \<longleftrightarrow> (\<forall>ps e. pairs_hook h ps = Inl e \<longrightarrow> is_ValueError e)
     \<and> (\<forall>t e. float_hook h t = Inl e \<longrightarrow> is_ValueError e) \<and> (\<forall>t e. const_hook h t = Inl e \<longrightarrow> is_ValueError e)"

lemma push_Inl: "push x m = Inl e \<longleftrightarrow> m = Inl e"
  by (cases m) (auto simp: push_def)

lemma scan_str_error: "scan_str s = Inl e \<Longrightarrow> is_ValueError e"
proof (induction s rule: measure_induct_rule [where f = length])
  case (less s)
  show ?case
  proof (cases s)
    case Nil
    with less.prems show ?thesis by (auto simp: scan_str.simps [of "[]"])
  next
    case (Cons c cs)
    have rest: "is_ValueError e" if "scan_str r = Inl e" "length r < length s" for r
      using less.IH that by blast
    show ?thesis
    proof (cases "c = backslash \<and> cs \<noteq> []")
      case False
      with less.prems rest Cons show ?thesis
        by (auto simp: scan_str.simps [of "c # cs"] push_Inl split: if_splits)
    next
      case True
      then obtain x r where cs: "cs = x # r" by (cases cs) auto
      have u: "is_ValueError e" if "unicode_escape r = Some (y, r')" "scan_str r' = Inl e" for y r'
        using unicode_escape_shorter [OF that(1)] rest [OF that(2)] Cons cs by simp
      with less.prems rest [of r] Cons True cs show ?thesis
        by (auto simp: scan_str.simps [of "backslash # x # r"] push_Inl split: if_splits option.splits)
    qed
  qed
qed

lemma scan_int_part_error: "scan_int_part s = Inl e \<Longrightarrow> is_ValueError e"
  by (auto simp: scan_int_part_def split: list.splits if_splits)

lemma scan_number_error: "hooks_exn h \<Longrightarrow> scan_number h s = Inl e \<Longrightarrow> is_ValueError e"
  by (auto simp: scan_number_def Let_def case_prod_beta bindr_eq_Inl hooks_exn_def
      split: if_splits dest: scan_int_part_error)

lemma scan_scalar_error: "hooks_exn h \<Longrightarrow> scan_scalar h s = Inl e \<Longrightarrow> is_ValueError e"
  using scan_number_error [of h s e] scan_str_error [of "tl s" e]
  by (auto simp: scan_scalar_def bindr_eq_Inl hooks_exn_def split: if_splits)

lemma scan_elems_error:
  assumes "\<And>s e. pv s = Inl e \<Longrightarrow> json_exn e"
  shows "scan_elems pv s = Inl e \<Longrightarrow> json_exn e"
proof (induction s rule: measure_induct_rule [where f = length])
  case (less s)
  show ?case
  proof (cases "pv s")
    case (Inl x)
    with less.prems assms show ?thesis by (simp add: scan_elems.simps [of pv s])
  next
    case (Inr p)
    then obtain v r where p: "pv s = Inr (v, r)" by (cases p) simp
    show ?thesis
    proof (cases "skip_ws r")
      case Nil
      with less.prems p show ?thesis by (auto simp: scan_elems.simps [of pv s] json_exn_def)
    next
      case (Cons c r1)
      have "length (skip_ws r1) < length s \<Longrightarrow> scan_elems pv (skip_ws r1) = Inl e \<Longrightarrow> json_exn e"
        using less.IH by blast
      with less.prems p Cons show ?thesis
        by (auto simp: scan_elems.simps [of pv s] bindr_eq_Inl json_exn_def split: if_splits)
    qed
  qed
qed

lemma scan_members_error:
  assumes pv: "\<And>s e. pv s = Inl e \<Longrightarrow> json_exn e"
  shows "scan_members pv s = Inl e \<Longrightarrow> json_exn e"
proof (induction s rule: measure_induct_rule [where f = length])
  case (less s)
  have fin: "json_exn json_error" by (simp add: json_exn_def)
  have rec: "json_exn e" if "length (skip_ws r3) < length s" "scan_members pv (skip_ws r3) = Inl e" for r3
    using less.IH that by blast
  have str: "json_exn e" if "scan_str cs = Inl e" for cs
    using scan_str_error [OF that] by (simp add: json_exn_def)
  note e = less.prems [unfolded scan_members.simps [of pv s]]
  show ?case
  proof (rule ccontr)
    assume n: "\<not> json_exn e"
    then have ne: "e \<noteq> json_error" using fin by auto
    with e obtain cs where s: "s = quote_char # cs"
      by (auto split: list.split_asm if_split_asm)
    with e n str obtain k r where k: "scan_str cs = Inr (k, r)" by (auto simp: bindr_eq_Inl)
    with e s ne obtain r1 where r1: "skip_ws r = CHR '':'' # r1"
      by (auto split: list.split_asm if_split_asm)
    with e s k n pv obtain v r2 where v: "pv (skip_ws r1) = Inr (v, r2)" by (auto simp: bindr_eq_Inl)
    with e s k r1 ne obtain c r3 where c: "skip_ws r2 = c # r3" by (auto split: list.split_asm)
    with e s k r1 v ne n rec [of r3] show False by (auto simp: bindr_eq_Inl split: if_split_asm)
  qed
qed

lemma parse_value_error: "hooks_exn h \<Longrightarrow> parse_value d h s = Inl e \<Longrightarrow> json_exn e"
proof (induction d arbitrary: s e)
  case 0
  then show ?case by (auto simp: json_exn_def dest: scan_scalar_error split: if_splits)
next
  case (Suc d)
  have pairs: "json_exn e" if "pairs_hook h ps = Inl e" for ps
    using Suc.prems(1) that by (auto simp: hooks_exn_def json_exn_def)
  consider "scan_scalar h s = Inl e" | "scan_object h (parse_value d h) (tl s) = Inl e"
    | "scan_array (parse_value d h) (tl s) = Inl e"
    using Suc.prems by (auto split: if_splits)
  then show ?case
  proof cases
    case 1
    then show ?thesis using Suc.prems(1) scan_scalar_error by (auto simp: json_exn_def)
  next
    case 2
    then show ?thesis
      using pairs scan_members_error [of "parse_value d h", OF Suc.IH [OF Suc.prems(1)]]
      by (auto simp: scan_object_def Let_def bindr_eq_Inl split: if_splits)
  next
    case 3
    then show ?thesis
      using scan_elems_error [of "parse_value d h", OF Suc.IH [OF Suc.prems(1)]]
      by (auto simp: scan_array_def Let_def bindr_eq_Inl split: if_splits)
  qed
qed

lemma utf16_units_error: "utf16_units le bs = Inl e \<Longrightarrow> is_ValueError e"
  by (induction le bs rule: utf16_units.induct) (auto simp: bindr_eq_Inl)

lemma utf32_text_error: "utf32_text le bs = Inl e \<Longrightarrow> is_ValueError e"
  by (induction le bs rule: utf32_text.induct) (auto simp: bindr_eq_Inl Let_def split: if_splits)

lemma utf8_text_error: "utf8_text bs = Inl e \<Longrightarrow> is_ValueError e"
  by (auto simp: utf8_text_def split: if_splits)

lemma decode_json_error: "decode_json bs = Inl e \<Longrightarrow> is_ValueError e"
  unfolding decode_json_def Let_def
  by (auto simp: bindr_eq_Inl simp del: utf32_text.simps utf16_units.simps split: if_splits list.splits
      dest: utf16_units_error utf32_text_error utf8_text_error)

lemma json_loads_error [exn_rules]:
  "hooks_exn h \<Longrightarrow> json_loads d h bs = Inl e \<Longrightarrow> is_ValueError e \<or> e = RecursionError"
  using decode_json_error [of bs e] parse_value_error [of h d _ e]
  by (auto simp: json_loads_def json_loads_str_def bindr_eq_Inl json_exn_def split: if_splits)

lemma hooks_exn_plain: "hooks_exn plain_hooks"
  by (simp add: hooks_exn_def plain_hooks_def plain_pairs_def)

section \<open>The interface of the object hooks\<close>

text \<open>What a client of \<open>json.loads\<close> relies on when it installs an \<open>object_pairs_hook\<close> that keeps
  pairs without repeated keys: printed values are read back.\<close>

locale object_hook =
  fixes h :: json_hooks
  assumes pairs_distinct: "distinct (map fst ps) \<Longrightarrow> pairs_hook h ps = Inr (JDict ps)"
begin

lemma parse_value_print:
  assumes "json_exact v" "json_wf v" "json_nest v \<le> d" "json_follow r"
  shows "parse_value d h (print_json v @ r) = Inr (v, r)"
  using assms
proof (induction v arbitrary: d r rule: json_induct)
  case (JInt i)
  obtain c cs where "nat_str (nat \<bar>i\<bar>) = c # cs" "is_digit c" by (rule nat_str_Cons)
  then have "hd (int_str i @ r) \<noteq> CHR ''{''" "hd (int_str i @ r) \<noteq> CHR ''[''"
    using is_digit_noteq [of c] by (cases "i < 0"; simp add: int_str_def)+
  with JInt scan_scalar_int_str [of r i h] show ?case by (cases d) auto
next
  case (JStr s)
  then show ?case
    by (cases d) (simp_all add: scan_scalar_def quote_str_def scan_str_quoted)
next
  case (JList xs)
  from JList.prems(3) json_nest_pos(1) [of xs] obtain d' where d: "d = Suc d'" by (cases d) auto
  have IH: "parse_value d' h (print_json x @ t) = Inr (x, t)" if "x \<in> set xs" "json_follow t" for x t
    using JList that d by simp
  show ?case
  proof (cases xs)
    case Nil
    with d show ?thesis by (simp add: scan_array_def)
  next
    case (Cons y ys)
    with JList.prems(1) have y: "json_exact y" by simp
    obtain c cs where c: "print_json y = c # cs" "value_start c" by (rule print_json_start [OF y])
    obtain t where t: "join_with '','' (map print_json xs) = c # t"
      using Cons c by (cases ys) auto
    have "scan_elems (parse_value d' h) (join_with '','' (map print_json xs) @ CHR '']'' # r) = Inr (xs, r)"
      by (rule scan_elems_print) (use IH JList.prems(1) Cons in auto)
    with d c t show ?thesis by (simp add: scan_array_def skip_ws_start value_start_def)
  qed
next
  case (JDict ms)
  from JDict.prems(3) json_nest_pos(2) [of ms] obtain d' where d: "d = Suc d'" by (cases d) auto
  have IH: "parse_value d' h (print_json x @ t) = Inr (x, t)" if "(k, x) \<in> set ms" "json_follow t" for k x t
    using JDict that d by fastforce
  show ?case
  proof (cases ms)
    case Nil
    with d show ?thesis by (simp add: scan_object_def pairs_distinct)
  next
    case (Cons y ys)
    then obtain t where t: "join_with '','' (map print_member ms) = quote_char # t"
      by (cases ys) (auto simp: quote_str_def)
    have "scan_members (parse_value d' h) (join_with '','' (map print_member ms) @ CHR ''}'' # r) = Inr (ms, r)"
    proof (rule scan_members_print)
      show "ms \<noteq> []" using Cons by simp
      show "json_exact x" if "(k, x) \<in> set ms" for k x using that JDict.prems(1) by auto
    qed (rule IH)
    moreover have "pairs_hook h ms = Inr (JDict ms)" using JDict.prems(2) by (simp add: pairs_distinct)
    ultimately have "scan_object h (parse_value d' h) (quote_char # t @ CHR ''}'' # r) = Inr (JDict ms, r)"
      unfolding t by (simp add: scan_object_def)
    then show ?thesis unfolding d print_json_JDict t by simp
  qed
next
  case JNull
  then show ?case by (cases d) (simp_all add: scan_scalar_def startswith_def)
next
  case (JBool b)
  then show ?case by (cases d; cases b) (simp_all add: scan_scalar_def startswith_def)
qed simp

lemma loads_print:
  assumes "json_exact v" "json_wf v" "json_nest v \<le> d"
  shows "json_loads_str d h (print_json v) = Inr v"
  using parse_value_print [OF assms, of "[]"] skip_ws_print [OF assms(1), of "[]"]
  by (simp add: json_loads_str_def json_follow_def)

end

lemma dict_merge_distinct:
  "distinct (map fst d @ map fst ps) \<Longrightarrow> dict_merge d ps = d @ ps"
  by (induction ps arbitrary: d) (auto simp: dict_merge_def update_new)

interpretation plain_json: object_hook plain_hooks
  by unfold_locales (simp add: plain_hooks_def plain_pairs_def dict_merge_distinct)

text \<open>A hook that also refuses repeated keys: the dicts of every result have distinct keys.\<close>

locale strict_hook = object_hook +
  assumes pairs_repeated: "\<not> distinct (map fst ps) \<Longrightarrow> \<exists>e. pairs_hook h ps = Inl e \<and> is_ValueError e"
    and float_wf: "float_hook h t = Inr v \<Longrightarrow> json_wf v"
    and const_wf: "const_hook h t = Inr v \<Longrightarrow> json_wf v"
begin

lemma pairs_Inr: "pairs_hook h ps = Inr v \<longleftrightarrow> v = JDict ps \<and> distinct (map fst ps)"
  using pairs_distinct [of ps] pairs_repeated [of ps] by (cases "distinct (map fst ps)") auto

lemma scan_number_wf: "scan_number h s = Inr (v, r) \<Longrightarrow> json_wf v"
  by (erule scan_number_cases) (auto dest: float_wf)

lemma scan_scalar_wf: "scan_scalar h s = Inr (v, r) \<Longrightarrow> json_wf v"
  using scan_number_wf [of s v r]
  by (auto simp: scan_scalar_def const_wf split: if_splits)

lemma scan_elems_wf:
  assumes "\<And>s v r. pv s = Inr (v, r) \<Longrightarrow> json_wf v"
  shows "scan_elems pv s = Inr (vs, r) \<Longrightarrow> \<forall>v \<in> set vs. json_wf v"
proof (induction s arbitrary: vs rule: measure_induct_rule [where f = length])
  case (less s)
  from less.prems show ?case
    by (cases rule: scan_elems_cases) (use less.IH assms in auto)
qed

lemma scan_members_wf:
  assumes "\<And>s v r. pv s = Inr (v, r) \<Longrightarrow> json_wf v"
  shows "scan_members pv s = Inr (ms, r) \<Longrightarrow> \<forall>(k, v) \<in> set ms. json_wf v"
proof (induction s arbitrary: ms rule: measure_induct_rule [where f = length])
  case (less s)
  from less.prems show ?case
  proof (cases rule: scan_members_cases)
    case last
    then show ?thesis by (auto dest: assms)
  next
    case (more cs k v r0 r1 r2 r3 ms')
    from less.IH [OF more(6,7)] more(4,8) assms show ?thesis by auto
  qed
qed

lemma parse_value_wf: "parse_value d h s = Inr (v, r) \<Longrightarrow> json_wf v"
proof (induction d arbitrary: s v r)
  case 0
  then show ?case by (auto dest: scan_scalar_wf split: if_splits)
next
  case (Suc d)
  consider "scan_scalar h s = Inr (v, r)" | "scan_object h (parse_value d h) (tl s) = Inr (v, r)"
    | "scan_array (parse_value d h) (tl s) = Inr (v, r)"
    using Suc.prems by (auto split: if_splits)
  then show ?case
  proof cases
    case 1
    then show ?thesis by (rule scan_scalar_wf)
  next
    case 2
    then show ?thesis
      using scan_members_wf [of "parse_value d h", OF Suc.IH]
      by (fastforce simp: scan_object_def Let_def pairs_Inr split: if_splits)
  next
    case 3
    then show ?thesis
      using scan_elems_wf [of "parse_value d h", OF Suc.IH]
      by (fastforce simp: scan_array_def Let_def split: if_splits)
  qed
qed

lemma loads_wf: "json_loads d h bs = Inr v \<Longrightarrow> json_wf v"
  by (auto simp: json_loads_def json_loads_str_def parse_value_wf split: if_splits)

end
section \<open>ASCII text\<close>

primrec json_ascii :: "json \<Rightarrow> bool" where
  "json_ascii JNull = True"
| "json_ascii (JBool b) = True"
| "json_ascii (JInt i) = True"
| "json_ascii (JFloat t) = True"
| "json_ascii (JStr s) = isascii s"
| "json_ascii (JList xs) = list_all id (map json_ascii xs)"
| "json_ascii (JDict d) = (list_all isascii (map fst d) \<and> list_all snd (map (map_prod id json_ascii) d))"

lemma json_ascii_JList [simp]: "json_ascii (JList xs) \<longleftrightarrow> (\<forall>x \<in> set xs. json_ascii x)"
  by (simp add: list_all_iff)

lemma json_ascii_JDict [simp]:
  "json_ascii (JDict d) \<longleftrightarrow> (\<forall>(k, v) \<in> set d. isascii k \<and> json_ascii v)"
  by (auto simp: list_all_iff)

declare json_ascii.simps(6,7) [simp del]

definition text_ascii :: "string \<Rightarrow> bool" where
  "text_ascii s \<longleftrightarrow> list_all (\<lambda>c. 0 < ord c \<and> ord c < 128) s"

lemma text_ascii_simps [simp]:
  "text_ascii []" "text_ascii (c # s) \<longleftrightarrow> 0 < ord c \<and> ord c < 128 \<and> text_ascii s"
  "text_ascii (s @ t) \<longleftrightarrow> text_ascii s \<and> text_ascii t"
  by (auto simp: text_ascii_def)

lemma text_ascii_join: "text_ascii sep \<Longrightarrow> (\<And>x. x \<in> set xs \<Longrightarrow> text_ascii x) \<Longrightarrow> text_ascii (join_with sep xs)"
  by (induction sep xs rule: join_with.induct) auto

lemma text_ascii_hex_digit: "n < 16 \<Longrightarrow> 0 < ord (hex_digit n) \<and> ord (hex_digit n) < 128"
  by (simp add: hex_digit_def)

lemma short_escape_ascii: "short_escape c = Some e \<Longrightarrow> 0 < ord e \<and> ord e < 128"
  by (auto simp: short_escape_def split: if_splits)

lemma text_ascii_esc: "ord c < 128 \<Longrightarrow> text_ascii (esc_char c)"
  by (auto simp: esc_char_def hex4_def text_ascii_hex_digit dest: short_escape_ascii split: option.split)

lemma text_ascii_quote: "isascii s \<Longrightarrow> text_ascii (quote_str s)"
  by (induction s) (auto simp: quote_str_def isascii_def text_ascii_esc)

lemma text_ascii_nat_str: "text_ascii (nat_str n)"
  using nat_str_digits [of _ n] by (fastforce simp: text_ascii_def list_all_iff is_digit_def)

lemma text_ascii_print: "json_ascii v \<Longrightarrow> json_exact v \<Longrightarrow> text_ascii (print_json v)"
proof (induction v rule: json_induct)
  case (JList xs)
  then show ?case by (auto intro!: text_ascii_join)
next
  case (JDict d)
  have "text_ascii (print_member m)" if "m \<in> set d" for m
  proof -
    obtain k v where m: "m = (k, v)" by fastforce
    with that JDict.prems have "isascii k" "json_ascii v" "json_exact v" by auto
    with m that JDict.IH [of k v] show ?thesis by (simp add: text_ascii_quote)
  qed
  then show ?case unfolding print_json_JDict by (auto intro!: text_ascii_join)
qed (auto simp: int_str_def text_ascii_nat_str text_ascii_quote)

lemma utf8_ok_ascii: "list_all (\<lambda>b. b < 0x80) bs \<Longrightarrow> utf8_ok bs"
  by (induction bs) auto

lemma word_of_char_less: "ord c < 128 \<Longrightarrow> (of_char c :: byte) < 0x80"
  by (simp add: word_less_nat_alt)

lemma word_of_char_pos: "0 < ord c \<Longrightarrow> (of_char c :: byte) \<noteq> 0"
proof
  assume "0 < ord c" "(of_char c :: byte) = 0"
  then have "unat (of_char c :: byte) = 0" by simp
  with \<open>0 < ord c\<close> show False by simp
qed

lemma decode_json_ascii:
  assumes "text_ascii s"
  shows "decode_json (encode_str s) = Inr s"
proof -
  let ?bs = "encode_str s"
  have small: "b \<noteq> 0 \<and> b < 0x80" if "b \<in> set ?bs" for b
    using that assms
    by (auto simp: encode_str_def text_ascii_def list_all_iff word_of_char_less word_of_char_pos)
  then have ok: "utf8_text ?bs = Inr s"
    by (simp add: utf8_text_def utf8_ok_ascii list_all_iff)
  have big: "b \<in> set ?bs \<Longrightarrow> b \<noteq> 0xFE \<and> b \<noteq> 0xFF \<and> b \<noteq> 0xEF" for b
    using small [of b] by auto
  show ?thesis
  proof (cases ?bs)
    case Nil
    then show ?thesis using ok by (simp add: decode_json_def)
  next
    case (Cons a bs1)
    then have "a \<noteq> 0" "a \<noteq> 0xFE" "a \<noteq> 0xFF" "a \<noteq> 0xEF" using small [of a] big [of a] by auto
    moreover have "hd bs1 \<noteq> 0" if "bs1 \<noteq> []"
      using small [of "hd bs1"] Cons that by auto
    ultimately show ?thesis using Cons ok
      by (auto simp: decode_json_def Let_def split: list.split)
  qed
qed

context object_hook
begin

text \<open>The printed bytes of an ASCII value are read back.\<close>

lemma loads_bytes:
  assumes "json_ascii v" "json_exact v" "json_wf v" "json_nest v \<le> d"
  shows "json_loads d h (encode_str (print_json v)) = Inr v"
  unfolding json_loads_def
  using decode_json_ascii [OF text_ascii_print [OF assms(1,2)]] loads_print [OF assms(2-4)] by simp

end

section \<open>Sorting of keys\<close>

lemma sort_json_set: "set (sort_key fst (map (map_prod id f) d)) = (\<lambda>(k, v). (k, f v)) ` set d"
  by (auto simp: map_prod_def)

lemma mset_sort_json_keys: "mset (map fst (sort_key fst (map (map_prod id f) d))) = mset (map fst d)"
proof -
  have "mset (map fst (sort_key fst (map (map_prod id f) d)))
      = image_mset fst (mset (map (map_prod id f) d))" by simp
  then show ?thesis by (simp add: multiset.map_comp comp_def)
qed

lemma sort_json_distinct:
  "distinct (map fst (sort_key fst (map (map_prod id f) d))) \<longleftrightarrow> distinct (map fst d)"
  by (metis mset_eq_imp_distinct_iff mset_sort_json_keys)

lemma json_wf_sort: "json_wf v \<Longrightarrow> json_wf (sort_json v)"
  by (induction v rule: json_induct)
    (auto simp: sort_json_distinct simp del: map_map)

lemma json_exact_sort: "json_exact v \<Longrightarrow> json_exact (sort_json v)"
proof (induction v rule: json_induct)
  case (JDict d)
  then show ?case by fastforce
qed auto

lemma json_ascii_sort: "json_ascii v \<Longrightarrow> json_ascii (sort_json v)"
proof (induction v rule: json_induct)
  case (JDict d)
  then show ?case by fastforce
qed auto

lemma json_nest_sort_le: "json_nest v \<le> n \<Longrightarrow> json_nest (sort_json v) \<le> n"
proof (induction v arbitrary: n rule: json_induct)
  case (JList xs)
  then show ?case using json_nest_pos(1) [of xs] by (cases n) auto
next
  case (JDict d)
  then obtain m where n: "n = Suc m" using json_nest_pos(2) [of d] by (cases n) auto
  with JDict show ?case by (fastforce simp: n)
qed simp_all

end
