(* ===== verification/Base64_Codec.thy ===== *)
theory Base64_Codec
  imports Adns_Prelude
begin

text \<open>
  The \<open>base64\<close> module as the sources use it: \<open>b64encode\<close> and \<open>urlsafe_b64encode\<close>, and
  \<open>b64decode(..., validate=True)\<close> with and without \<open>altchars=b"-_"\<close>, in which a character
  outside the alphabet, misplaced padding and a length that is not a multiple of four raise,
  while unused low bits of the last character are ignored. The codecs of the sources decode and
  then compare a fresh encoding with the input; the interface of such a codec is the locale
  \<open>canonical_codec\<close>.
\<close>

definition b64_std :: "nat \<Rightarrow> char" where
  "b64_std n =
     (if n < 26 then char_of (65 + n) else if n < 52 then char_of (71 + n)
      else if n < 62 then char_of (n - 4) else if n = 62 then CHR ''+'' else CHR ''/'')"

definition b64_url :: "nat \<Rightarrow> char" where
  "b64_url n = (if n = 62 then CHR ''-'' else if n = 63 then CHR ''_'' else b64_std n)"

definition b64_val :: "char \<Rightarrow> nat option" where
  "b64_val c =
     (if is_upper c then Some (ord c - 65) else if is_lower c then Some (ord c - 71)
      else if is_digit c then Some (ord c + 4)
      else if c = CHR ''+'' then Some 62 else if c = CHR ''/'' then Some 63 else None)"

text \<open>The characters that carry data, and the padding that brings them to a multiple of four.\<close>

fun b64_body :: "(nat \<Rightarrow> char) \<Rightarrow> bytes \<Rightarrow> string" where
  "b64_body f [] = []"
| "b64_body f [a] = [f (unat a div 4), f (unat a mod 4 * 16)]"
| "b64_body f [a, b] = [f (unat a div 4), f (unat a mod 4 * 16 + unat b div 16), f (unat b mod 16 * 4)]"
| "b64_body f (a # b # c # r) =
     f (unat a div 4) # f (unat a mod 4 * 16 + unat b div 16)
     # f (unat b mod 16 * 4 + unat c div 64) # f (unat c mod 64) # b64_body f r"

definition b64_pad :: "nat \<Rightarrow> string" where
  "b64_pad n = replicate ((4 - n mod 4) mod 4) (CHR ''='')"

definition b64encode :: "bytes \<Rightarrow> string" where
  "b64encode bs = b64_body b64_std bs @ b64_pad (length (b64_body b64_std bs))"

definition urlsafe_b64encode :: "bytes \<Rightarrow> string" where
  "urlsafe_b64encode bs = b64_body b64_url bs @ b64_pad (length (b64_body b64_url bs))"

text \<open>\<open>rstrip(b"=")\<close>.\<close>

definition rstrip_eq :: "string \<Rightarrow> string" where
  "rstrip_eq s = rev (dropWhile (\<lambda>c. c = CHR ''='') (rev s))"

fun a2b_base64 :: "string \<Rightarrow> bytes option" where
  "a2b_base64 [] = Some []"
| "a2b_base64 (a # b # c # d # r) =
     (case b64_val a of None \<Rightarrow> None | Some x \<Rightarrow>
      (case b64_val b of None \<Rightarrow> None | Some y \<Rightarrow>
       if c = CHR ''='' \<and> d = CHR ''='' \<and> r = [] then Some [word_of_nat (x * 4 + y div 16)]
       else (case b64_val c of None \<Rightarrow> None | Some z \<Rightarrow>
         if d = CHR ''='' \<and> r = []
         then Some [word_of_nat (x * 4 + y div 16), word_of_nat (y mod 16 * 16 + z div 4)]
         else (case b64_val d of None \<Rightarrow> None | Some w \<Rightarrow>
           (case a2b_base64 r of None \<Rightarrow> None | Some bs \<Rightarrow>
              Some (word_of_nat (x * 4 + y div 16) # word_of_nat (y mod 16 * 16 + z div 4)
                    # word_of_nat (z mod 4 * 64 + w) # bs))))))"
| "a2b_base64 _ = None"

definition b64_alt :: "char \<Rightarrow> char" where
  "b64_alt c = (if c = CHR ''-'' then CHR ''+'' else if c = CHR ''_'' then CHR ''/'' else c)"

definition b64decode :: "string \<Rightarrow> bytes res" where
  "b64decode s =
     (case a2b_base64 s of None \<Rightarrow> Inl (ValueError ''binascii.Error'') | Some bs \<Rightarrow> Inr bs)"

definition b64decode_alt :: "string \<Rightarrow> bytes res" where
  "b64decode_alt s = b64decode (map b64_alt s)"

section \<open>Laws\<close>

lemma b64_val_std [simp]: "n < 64 \<Longrightarrow> b64_val (b64_std n) = Some n"
  by (auto simp: b64_val_def b64_std_def is_upper_def is_lower_def is_digit_def)

lemma b64_alt_url [simp]: "n < 64 \<Longrightarrow> b64_alt (b64_url n) = b64_std n"
proof -
  assume n: "n < 64"
  have "b64_std n \<noteq> CHR ''-''" "b64_std n \<noteq> CHR ''_''"
    using n b64_val_std [of n] by (auto simp: b64_val_def is_upper_def is_lower_def is_digit_def)
  then have "b64_alt (b64_std n) = b64_std n" by (simp add: b64_alt_def)
  moreover have "b64_alt (b64_url 62) = b64_std 62" "b64_alt (b64_url 63) = b64_std 63"
    by (simp_all add: b64_url_def b64_alt_def b64_std_def)
  ultimately show ?thesis
    by (cases "n = 62"; cases "n = 63") (simp_all add: b64_url_def)
qed

lemma b64_std_not_eq [simp]: "n < 64 \<Longrightarrow> b64_std n \<noteq> CHR ''=''"
  using b64_val_std [of n] by (auto simp: b64_val_def is_upper_def is_lower_def is_digit_def)

lemma b64_url_not_eq [simp]: "n < 64 \<Longrightarrow> b64_url n \<noteq> CHR ''=''"
  by (simp add: b64_url_def)

lemma byte_parts [simp]:
  "unat (a :: byte) div 4 < 64" "unat a mod 4 * 16 < 64"
  "unat a mod 4 * 16 + unat (b :: byte) div 16 < 64"
  "unat b mod 16 * 4 < 64" "unat b mod 16 * 4 + unat (c :: byte) div 64 < 64"
  "unat c mod 64 < 64"
proof -
  have d: "unat (x :: byte) div 4 < 64" "unat x div 16 < 16" "unat x div 64 < 4" for x
    using unat_byte_less [of x] by linarith+
  have m: "unat (x :: byte) mod 4 \<le> 3" "unat x mod 16 \<le> 15" for x
    using mod_less_divisor [of 4 "unat x"] mod_less_divisor [of 16 "unat x"] by linarith+
  show "unat a div 4 < 64" by (rule d)
  show "unat a mod 4 * 16 < 64" using m(1) [of a] by linarith
  show "unat a mod 4 * 16 + unat b div 16 < 64" using m(1) [of a] d(2) [of b] by linarith
  show "unat b mod 16 * 4 < 64" using m(2) [of b] by linarith
  show "unat b mod 16 * 4 + unat c div 64 < 64" using m(2) [of b] d(3) [of c] by linarith
  show "unat c mod 64 < 64" by simp
qed

lemma b64_body_alt: "map b64_alt (b64_body b64_url bs) = b64_body b64_std bs"
  by (induction b64_url bs rule: b64_body.induct) auto

lemma b64_body_no_pad: "(\<And>n. n < 64 \<Longrightarrow> CHR ''='' \<noteq> f n) \<Longrightarrow> CHR ''='' \<notin> set (b64_body f bs)"
  by (induction f bs rule: b64_body.induct) simp_all

lemma b64_url_no_pad: "CHR ''='' \<notin> set (b64_body b64_url bs)"
  by (rule b64_body_no_pad) (metis b64_url_not_eq)

lemma dropWhile_replicate: "P x \<Longrightarrow> dropWhile P (replicate n x @ ys) = dropWhile P ys"
  by (induction n) auto

lemma dropWhile_none: "x \<notin> set ys \<Longrightarrow> dropWhile (\<lambda>c. c = x) ys = ys"
  by (cases ys) auto

lemma rstrip_eq_pad: "CHR ''='' \<notin> set s \<Longrightarrow> rstrip_eq (s @ replicate n (CHR ''='')) = s"
  by (simp add: rstrip_eq_def dropWhile_replicate dropWhile_none)

text \<open>Encoding without padding, as every \<open>rstrip(b"=")\<close> of the sources computes it.\<close>

lemma rstrip_urlsafe: "rstrip_eq (urlsafe_b64encode bs) = b64_body b64_url bs"
  by (simp add: urlsafe_b64encode_def b64_pad_def rstrip_eq_pad b64_url_no_pad)

lemma length_b64_body: "length (b64_body f bs) = (4 * length bs + 2) div 3"
  by (induction f bs rule: b64_body.induct) auto

lemma nat_parts:
  fixes x y z :: nat
  assumes "y < 256" "z < 256"
  shows "x div 4 * 4 + (x mod 4 * 16 + y div 16) div 16 = x"
    "x div 4 * 4 + x mod 4 * 16 div 16 = x"
    "(x mod 4 * 16 + y div 16) mod 16 * 16 + y mod 16 * 4 div 4 = y"
    "(x mod 4 * 16 + y div 16) mod 16 * 16 + (y mod 16 * 4 + z div 64) div 4 = y"
    "(y mod 16 * 4 + z div 64) mod 4 * 64 + z mod 64 = z"
proof -
  have "y div 16 < 16" "z div 64 < 4" using assms by linarith+
  then have "(x mod 4 * 16 + y div 16) div 16 = x mod 4" "(x mod 4 * 16 + y div 16) mod 16 = y div 16"
    "(y mod 16 * 4 + z div 64) div 4 = y mod 16" "(y mod 16 * 4 + z div 64) mod 4 = z div 64"
    by (simp_all add: div_add1_eq)
  then show "x div 4 * 4 + (x mod 4 * 16 + y div 16) div 16 = x"
    "x div 4 * 4 + x mod 4 * 16 div 16 = x"
    "(x mod 4 * 16 + y div 16) mod 16 * 16 + y mod 16 * 4 div 4 = y"
    "(x mod 4 * 16 + y div 16) mod 16 * 16 + (y mod 16 * 4 + z div 64) div 4 = y"
    "(y mod 16 * 4 + z div 64) mod 4 * 64 + z mod 64 = z"
    by (simp_all add: div_mult_mod_eq)
qed

lemma word_of_unat: "word_of_nat (unat (a :: byte)) = a"
  by simp

lemmas word_parts = nat_parts [OF unat_byte_less unat_byte_less] word_of_unat

lemma b64_pad_step: "b64_pad (Suc (Suc (Suc (Suc n)))) = b64_pad n"
  by (simp add: b64_pad_def)

lemma a2b_base64_encode: "a2b_base64 (b64encode bs) = Some bs"
proof (induction b64_std bs rule: b64_body.induct)
  case (4 a b c r)
  have "b64encode (a # b # c # r) = b64_std (unat a div 4) # b64_std (unat a mod 4 * 16 + unat b div 16)
     # b64_std (unat b mod 16 * 4 + unat c div 64) # b64_std (unat c mod 64) # b64encode r"
    by (simp add: b64encode_def b64_pad_step)
  then show ?case
    by (simp only: a2b_base64.simps b64_val_std b64_std_not_eq byte_parts option.case simp_thms
        if_False 4 word_parts)
next
  case (3 a b)
  have "b64encode [a, b] = [b64_std (unat a div 4), b64_std (unat a mod 4 * 16 + unat b div 16),
     b64_std (unat b mod 16 * 4), CHR ''='']"
    by (simp add: b64encode_def b64_pad_def)
  then show ?case
    by (simp only: a2b_base64.simps b64_val_std b64_std_not_eq byte_parts option.case simp_thms
        if_False if_True word_parts)
next
  case (2 a)
  have "b64encode [a] = [b64_std (unat a div 4), b64_std (unat a mod 4 * 16), CHR ''='', CHR ''='']"
    by (simp add: b64encode_def b64_pad_def numeral_2_eq_2)
  then show ?case
    by (simp only: a2b_base64.simps b64_val_std byte_parts option.case simp_thms if_True word_parts)
qed (simp add: b64encode_def b64_pad_def)

lemma b64decode_encode: "b64decode (b64encode bs) = Inr bs"
  by (simp add: b64decode_def a2b_base64_encode)

lemma b64_alt_pad: "map b64_alt (b64_pad n) = b64_pad n"
  by (simp add: b64_pad_def b64_alt_def)

lemma b64decode_alt_padded:
  "b64decode_alt (b64_body b64_url bs @ b64_pad (length (b64_body b64_url bs))) = Inr bs"
  using b64decode_encode [of bs]
  by (simp add: b64decode_alt_def b64_body_alt b64_alt_pad b64encode_def length_b64_body)

lemma b64decode_error: "b64decode s = Inl e \<Longrightarrow> is_ValueError e"
  by (auto simp: b64decode_def split: option.splits)

section \<open>The interface of a canonical codec\<close>

text \<open>A codec of the sources: an encoder, a decoder and the size it admits. The decoder returns
  exactly the admitted byte strings, and each from one text only.\<close>

locale canonical_codec =
  fixes enc :: "bytes \<Rightarrow> string" and dec :: "string \<Rightarrow> bytes res" and admitted :: "bytes \<Rightarrow> bool"
  assumes dec_enc: "admitted bs \<Longrightarrow> dec (enc bs) = Inr bs"
    and enc_dec: "dec t = Inr bs \<Longrightarrow> enc bs = t \<and> admitted bs"
begin

lemma dec_iff: "dec t = Inr bs \<longleftrightarrow> admitted bs \<and> t = enc bs"
  using dec_enc enc_dec by blast

lemma dec_inj: "dec s = Inr bs \<Longrightarrow> dec t = Inr bs \<Longrightarrow> s = t"
  using enc_dec by blast

lemma enc_inj: "admitted a \<Longrightarrow> admitted b \<Longrightarrow> enc a = enc b \<Longrightarrow> a = b"
  using dec_enc by (metis sum.inject(2))

lemma dec_domain: "(\<exists>bs. dec t = Inr bs) \<longleftrightarrow> t \<in> enc ` Collect admitted"
  by (auto simp: dec_iff)

end

end
