(* ===== verification/Net_Address.thy ===== *)
theory Net_Address
  imports Adns_Prelude
begin

text \<open>
  \<open>ipaddress.ip_address\<close> and \<open>str\<close> of its result, and \<open>urllib.parse.urlsplit\<close> with the
  properties of its result, as of Python 3.12. Both are used by the sources to accept only
  numeric peers and plain origins.
\<close>

section \<open>IP addresses\<close>

datatype ip = V4 nat | V6 nat "string option"

definition ip_version :: "ip \<Rightarrow> nat" where
  "ip_version a = (case a of V4 _ \<Rightarrow> 4 | V6 _ _ \<Rightarrow> 6)"

definition ip_int :: "ip \<Rightarrow> nat" where
  "ip_int a = (case a of V4 n \<Rightarrow> n | V6 n _ \<Rightarrow> n)"

definition is_loopback :: "ip \<Rightarrow> bool" where
  "is_loopback a = (case a of V4 n \<Rightarrow> n div 2 ^ 24 = 127 | V6 n _ \<Rightarrow> n = 1)"

definition parse_octet :: "string \<Rightarrow> nat option" where
  "parse_octet s =
     (if s \<noteq> [] \<and> list_all is_digit s \<and> length s \<le> 3 \<and> (length s > 1 \<longrightarrow> hd s \<noteq> CHR ''0'')
         \<and> digits_val s \<le> 255
      then Some (digits_val s) else None)"

definition parse_ipv4 :: "string \<Rightarrow> nat option" where
  "parse_ipv4 s =
     (case map parse_octet (split_on (CHR ''.'') s) of
        [Some a, Some b, Some c, Some d] \<Rightarrow> Some (((a * 256 + b) * 256 + c) * 256 + d)
      | _ \<Rightarrow> None)"

definition ipv4_str :: "nat \<Rightarrow> string" where
  "ipv4_str n = join_with ''.'' [nat_str (n div 2 ^ 24), nat_str (n div 2 ^ 16 mod 256),
     nat_str (n div 2 ^ 8 mod 256), nat_str (n mod 256)]"

text \<open>\<open>'%x' % n\<close>.\<close>

fun hex_str :: "nat \<Rightarrow> string" where
  "hex_str n = (if n < 16 then [hex_digit n] else hex_str (n div 16) @ [hex_digit (n mod 16)])"

declare hex_str.simps [simp del]

definition parse_hextet :: "string \<Rightarrow> nat option" where
  "parse_hextet s =
     (if s \<noteq> [] \<and> list_all is_hex s \<and> length s \<le> 4 then Some (hex_nat s) else None)"

fun parse_hextets :: "nat \<Rightarrow> string list \<Rightarrow> nat option" where
  "parse_hextets acc [] = Some acc"
| "parse_hextets acc (p # ps) =
     (case parse_hextet p of None \<Rightarrow> None | Some h \<Rightarrow> parse_hextets (acc * 65536 + h) ps)"

text \<open>The parts around the one empty inner part, which stands for \<open>::\<close>. Positions are those
  of the loop \<open>range(1, len(parts) - 1)\<close>.\<close>

definition skip_indices :: "string list \<Rightarrow> nat list" where
  "skip_indices ps = filter (\<lambda>i. ps ! i = []) [1..<length ps - 1]"

definition expand_v4_tail :: "string list \<Rightarrow> string list option" where
  "expand_v4_tail ps =
     (if CHR ''.'' \<in> set (last ps) then
        (case parse_ipv4 (last ps) of
           None \<Rightarrow> None
         | Some v \<Rightarrow> Some (butlast ps @ [hex_str (v div 65536), hex_str (v mod 65536)]))
      else Some ps)"

definition parse_ipv6_int :: "string \<Rightarrow> nat option" where
  "parse_ipv6_int s =
     (let parts = split_on (CHR '':'') s in
      if s = [] \<or> length parts < 3 then None
      else case expand_v4_tail parts of
        None \<Rightarrow> None
      | Some ps \<Rightarrow>
          if length ps > 9 then None
          else case skip_indices ps of
            [] \<Rightarrow>
              if length ps \<noteq> 8 \<or> hd ps = [] \<or> last ps = [] then None else parse_hextets 0 ps
          | [k] \<Rightarrow>
              (let hi = (if hd ps = [] then k - 1 else k);
                   lo0 = length ps - k - 1;
                   lo = (if last ps = [] then lo0 - 1 else lo0) in
               if hd ps = [] \<and> hi \<noteq> 0 \<or> last ps = [] \<and> lo \<noteq> 0 \<or> 8 < hi + lo + 1 then None
               else case parse_hextets 0 (take hi ps) of
                 None \<Rightarrow> None
               | Some h \<Rightarrow>
                   parse_hextets (h * 65536 ^ (8 - (hi + lo))) (drop (length ps - lo) ps))
          | _ \<Rightarrow> None)"

definition parse_ipv6 :: "string \<Rightarrow> ip option" where
  "parse_ipv6 s =
     (case partition_at (CHR ''%'') s of
        None \<Rightarrow> (case parse_ipv6_int s of None \<Rightarrow> None | Some n \<Rightarrow> Some (V6 n None))
      | Some (a, scope) \<Rightarrow>
          if scope = [] \<or> CHR ''%'' \<in> set scope then None
          else (case parse_ipv6_int a of None \<Rightarrow> None | Some n \<Rightarrow> Some (V6 n (Some scope))))"

text \<open>\<open>ipaddress.ip_address(text)\<close>.\<close>

definition ip_address :: "string \<Rightarrow> ip res" where
  "ip_address s =
     (let bad = Inl (ValueError ''does not appear to be an IPv4 or IPv6 address'') in
      if CHR ''/'' \<in> set s then bad
      else case parse_ipv4 s of
        Some n \<Rightarrow> Inr (V4 n)
      | None \<Rightarrow> (case parse_ipv6 s of Some a \<Rightarrow> Inr a | None \<Rightarrow> bad))"

text \<open>\<open>_compress_hextets\<close>: the first longest run of at least two zero hextets becomes
  \<open>::\<close>.\<close>

definition hextets :: "nat \<Rightarrow> nat list" where
  "hextets n = map (\<lambda>i. n div 65536 ^ (7 - i) mod 65536) [0..<8]"

definition zero_run :: "nat list \<Rightarrow> nat \<Rightarrow> nat" where
  "zero_run hs i = length (takeWhile (\<lambda>h. h = 0) (drop i hs))"

definition best_run :: "nat list \<Rightarrow> nat \<times> nat" where
  "best_run hs =
     foldl (\<lambda>(bi, bl) i. if zero_run hs i > bl then (i, zero_run hs i) else (bi, bl)) (0, 0)
       [0..<length hs]"

definition compress_hextets :: "nat list \<Rightarrow> string list" where
  "compress_hextets hs =
     (case best_run hs of (i, l) \<Rightarrow>
        if l > 1 then
          (if i = 0 then [[]] else []) @ map hex_str (take i hs) @ [[]]
          @ map hex_str (drop (i + l) hs) @ (if i + l = length hs then [[]] else [])
        else map hex_str hs)"

definition ip_str :: "ip \<Rightarrow> string" where
  "ip_str a =
     (case a of
        V4 n \<Rightarrow> ipv4_str n
      | V6 n scope \<Rightarrow> join_with '':'' (compress_hextets (hextets n))
          @ (case scope of None \<Rightarrow> [] | Some z \<Rightarrow> CHR ''%'' # z))"

lemma ip_address_error: "ip_address s = Inl e \<Longrightarrow> is_ValueError e"
  by (auto simp: ip_address_def Let_def split: if_splits option.splits)

lemma nat_str_no_char: "\<not> is_digit c \<Longrightarrow> c \<notin> set (nat_str n)"
  using nat_str_digits by blast

lemma length_nat_str_le: "n < 10 ^ k \<Longrightarrow> 0 < k \<Longrightarrow> length (nat_str n) \<le> k"
proof (induction k arbitrary: n)
  case (Suc k)
  show ?case
  proof (cases "n < 10")
    case True
    then show ?thesis by (simp add: nat_str.simps [of n])
  next
    case False
    with Suc.prems have k: "0 < k" by (cases k) auto
    from Suc.prems(1) have "n div 10 < 10 ^ k"
      by (simp add: div_less_iff_less_mult mult.commute)
    with Suc.IH k have "length (nat_str (n div 10)) \<le> k" by blast
    with False show ?thesis by (simp add: nat_str.simps [of n])
  qed
qed simp

lemma parse_octet_nat_str:
  assumes "n < 256"
  shows "parse_octet (nat_str n) = Some n"
proof -
  have "length (nat_str n) \<le> 3" using assms by (intro length_nat_str_le) auto
  moreover have "list_all is_digit (nat_str n)" using nat_str_digits by (auto simp: list_all_iff)
  moreover have "length (nat_str n) > 1 \<longrightarrow> hd (nat_str n) \<noteq> CHR ''0''"
    using nat_str_hd [of n] by (cases "n = 0") auto
  ultimately show ?thesis using assms by (simp add: parse_octet_def)
qed

lemma parse_ipv4_str:
  assumes "n < 2 ^ 32"
  shows "parse_ipv4 (ipv4_str n) = Some n"
proof -
  have nodot: "CHR ''.'' \<notin> set (nat_str m)" for m by (rule nat_str_no_char) (simp add: is_digit_def)
  have "n div 16777216 < 256" using assms by (simp add: div_less_iff_less_mult)
  moreover have "((n div 16777216 * 256 + n div 65536 mod 256) * 256 + n div 256 mod 256) * 256 + n mod 256 = n"
    using div_mult_mod_eq [of n 256] div_mult_mod_eq [of "n div 256" 256]
      div_mult_mod_eq [of "n div 65536" 256]
    by (simp add: div_mult2_eq [symmetric])
  moreover have "split_on (CHR ''.'') (ipv4_str n) = [nat_str (n div 2 ^ 24), nat_str (n div 2 ^ 16 mod 256),
     nat_str (n div 2 ^ 8 mod 256), nat_str (n mod 256)]"
    unfolding ipv4_str_def by (rule split_join) (use nodot in auto)
  ultimately show ?thesis by (simp add: parse_ipv4_def parse_octet_nat_str)
qed

text \<open>Python rejects octets with leading zeros, so that an accepted IPv4 text is the text of
  the address it denotes.\<close>

lemma digits_val_Cons: "digits_val (c # s) = digit_val c * 10 ^ length s + digits_val s"
  by (induction s rule: rev_induct) (auto simp: digits_val_def algebra_simps)

lemma nat_str_digits_val:
  assumes "s \<noteq> []" "list_all is_digit s" "length s > 1 \<longrightarrow> hd s \<noteq> CHR ''0''"
  shows "nat_str (digits_val s) = s"
  using assms
proof (induction s rule: rev_induct)
  case (snoc c s)
  have d: "digit_val c < 10" "digit_char (digit_val c) = c"
    using snoc.prems(2) by (auto simp: is_digit_def digit_val_def digit_char_def)
  show ?case
  proof (cases "s = []")
    case True
    with d show ?thesis by (simp add: digits_val_def nat_str.simps)
  next
    case False
    with snoc have IH: "nat_str (digits_val s) = s" by (cases s) auto
    obtain e t where s: "s = e # t" using False by (cases s) auto
    with snoc.prems have "is_digit e" "e \<noteq> CHR ''0''" by auto
    then have "ord e \<noteq> 48" using of_char_eq_iff [of e "CHR ''0''", where ?'a = nat] by simp
    with \<open>is_digit e\<close> have "digit_val e \<noteq> 0" by (simp add: is_digit_def digit_val_def)
    then have "digits_val s > 0" using s by (simp add: digits_val_Cons)
    with IH d show ?thesis
      by (subst nat_str.simps) (simp add: digits_val_snoc)
  qed
qed simp

lemma low_byte: "(d :: nat) < 256 \<Longrightarrow> (x * 256 + d) div 256 = x \<and> (x * 256 + d) mod 256 = d"
  by simp

lemma parse_octet_Some: "parse_octet s = Some n \<Longrightarrow> nat_str n = s \<and> n < 256"
  by (auto simp: parse_octet_def nat_str_digits_val split: if_splits)

lemma parse_ipv4_canonical:
  assumes "parse_ipv4 s = Some n"
  shows "ipv4_str n = s" "n < 2 ^ 32"
proof -
  from assms obtain a b c d where v: "map parse_octet (split_on (CHR ''.'') s) = [Some a, Some b, Some c, Some d]"
    and n: "n = ((a * 256 + b) * 256 + c) * 256 + d"
    by (auto simp: parse_ipv4_def split: list.splits option.splits)
  then have lt: "a < 256" "b < 256" "c < 256" "d < 256"
    and parts: "split_on (CHR ''.'') s = [nat_str a, nat_str b, nat_str c, nat_str d]"
    by (auto dest!: parse_octet_Some simp: map_eq_Cons_conv)
  have "n mod 256 = d" "n div 256 = (a * 256 + b) * 256 + c"
    unfolding n using low_byte lt by blast+
  moreover from this have "n div 256 mod 256 = c" "n div 256 div 256 = a * 256 + b"
    using low_byte [of c "a * 256 + b"] lt by simp_all
  moreover from this have "n div 256 div 256 mod 256 = b" "n div 256 div 256 div 256 = a"
    using low_byte [of b a] lt by simp_all
  moreover have "n div 2 ^ 16 = n div 256 div 256" "n div 2 ^ 24 = n div 256 div 256 div 256"
    by (simp_all add: div_mult2_eq [symmetric])
  ultimately have "n div 2 ^ 24 = a" "n div 2 ^ 16 mod 256 = b" "n div 2 ^ 8 mod 256 = c" "n mod 256 = d"
    by simp_all
  then have "ipv4_str n = join_with ''.'' (split_on (CHR ''.'') s)"
    unfolding parts ipv4_str_def by (simp only:)
  then show "ipv4_str n = s" by (simp add: join_split)
  show "n < 2 ^ 32" using lt n by simp
qed

lemma ip_address_V4: "ip_address s = Inr (V4 n) \<longleftrightarrow> n < 2 ^ 32 \<and> s = ipv4_str n"
proof
  assume "ip_address s = Inr (V4 n)"
  then have "parse_ipv4 s = Some n"
    by (auto simp: ip_address_def parse_ipv6_def Let_def split: if_splits option.splits)
  then show "n < 2 ^ 32 \<and> s = ipv4_str n" using parse_ipv4_canonical by blast
next
  assume n: "n < 2 ^ 32 \<and> s = ipv4_str n"
  have "CHR ''/'' \<notin> set (nat_str m)" for m by (rule nat_str_no_char) (simp add: is_digit_def)
  then have "CHR ''/'' \<notin> set s" using n by (simp add: ipv4_str_def)
  with n parse_ipv4_str [of n] show "ip_address s = Inr (V4 n)"
    by (simp add: ip_address_def Let_def)
qed

text \<open>Evaluation of the functions above on literals.\<close>

lemma nat_str_eval: "nat_str n = (if n < 10 then [char_of (48 + n)] else nat_str (n div 10) @ [char_of (48 + n mod 10)])"
  by (simp add: nat_str.simps [of n] digit_char_def)

lemmas ip_address_eval = ip_address_def parse_ipv4_def parse_octet_def parse_ipv6_def parse_ipv6_int_def
  ip_version_def ip_str_def ipv4_str_def digits_val_def digit_val_def is_digit_def Let_def

section \<open>URLs\<close>

record url_parts =
  url_scheme :: string
  url_netloc :: string
  url_path :: string
  url_query :: string
  url_fragment :: string

definition scheme_char :: "char \<Rightarrow> bool" where
  "scheme_char c \<longleftrightarrow> is_alnum c \<or> c \<in> {CHR ''+'', CHR ''-'', CHR ''.''}"

text \<open>The scheme in front of the first colon, lowered, and the rest.\<close>

definition split_scheme :: "string \<Rightarrow> string \<times> string" where
  "split_scheme s =
     (case partition_at (CHR '':'') s of
        Some (a, b) \<Rightarrow>
          if a \<noteq> [] \<and> (is_lower (hd a) \<or> is_upper (hd a)) \<and> list_all scheme_char a
          then (lower a, b) else ([], s)
      | None \<Rightarrow> ([], s))"

definition cut_at :: "char \<Rightarrow> string \<Rightarrow> string \<times> string" where
  "cut_at c s = (case partition_at c s of None \<Rightarrow> (s, []) | Some ab \<Rightarrow> ab)"

definition is_url_delim :: "char \<Rightarrow> bool" where
  "is_url_delim c \<longleftrightarrow> c \<in> {CHR ''/'', CHR ''?'', CHR ''#''}"

definition bracketed_ok :: "string \<Rightarrow> bool" where
  "bracketed_ok netloc =
     (let host = fst (cut_at (CHR '']'') (snd (cut_at (CHR ''['') netloc))) in
      if startswith host ''v'' then
        (case partition_at (CHR ''.'') (tl host) of
           Some (a, b) \<Rightarrow> a \<noteq> [] \<and> list_all is_hex a \<and> b \<noteq> []
         | None \<Rightarrow> False)
      else (case ip_address host of Inr (V6 _ _) \<Rightarrow> True | _ \<Rightarrow> False))"

text \<open>\<open>urlsplit(text)\<close>. Leading control characters and spaces are dropped, as are tabs and
  line breaks anywhere.\<close>

definition urlsplit :: "string \<Rightarrow> url_parts res" where
  "urlsplit text =
     (let url = filter (\<lambda>c. c \<notin> {CHR 0x09, CHR 0x0A, CHR 0x0D}) (dropWhile (\<lambda>c. ord c \<le> 32) text);
          (scheme, rest) = split_scheme url;
          authority = startswith rest ''//'';
          netloc = (if authority then takeWhile (\<lambda>c. \<not> is_url_delim c) (drop 2 rest) else []);
          rest1 = (if authority then dropWhile (\<lambda>c. \<not> is_url_delim c) (drop 2 rest) else rest);
          open_br = CHR ''['' \<in> set netloc; close_br = CHR '']'' \<in> set netloc;
          (rest2, fragment) = cut_at (CHR ''#'') rest1;
          (path, query) = cut_at (CHR ''?'') rest2 in
      if open_br \<noteq> close_br then Inl (ValueError ''Invalid IPv6 URL'')
      else if open_br \<and> \<not> bracketed_ok netloc then Inl (ValueError ''Invalid bracketed host'')
      else Inr \<lparr>url_scheme = scheme, url_netloc = netloc, url_path = path, url_query = query,
                url_fragment = fragment\<rparr>)"

definition url_hostinfo :: "url_parts \<Rightarrow> string \<times> string" where
  "url_hostinfo u =
     (let hostinfo = (case rpartition_at (CHR ''@'') (url_netloc u) of
                        None \<Rightarrow> url_netloc u | Some (_, h) \<Rightarrow> h) in
      case partition_at (CHR ''['') hostinfo of
        Some (_, bracketed) \<Rightarrow>
          (let (host, after) = cut_at (CHR '']'') bracketed in (host, snd (cut_at (CHR '':'') after)))
      | None \<Rightarrow> cut_at (CHR '':'') hostinfo)"

text \<open>The properties \<open>hostname\<close>, \<open>port\<close>, \<open>username\<close> and \<open>password\<close>; an absent value is
  \<open>None\<close>.\<close>

definition url_hostname :: "url_parts \<Rightarrow> string option" where
  "url_hostname u =
     (let host = fst (url_hostinfo u) in
      if host = [] then None
      else case partition_at (CHR ''%'') host of
        None \<Rightarrow> Some (lower host)
      | Some (h, zone) \<Rightarrow> Some (lower h @ CHR ''%'' # zone))"

definition url_port :: "url_parts \<Rightarrow> nat option res" where
  "url_port u =
     (let p = snd (url_hostinfo u) in
      if p = [] then Inr None
      else if \<not> list_all is_digit p then Inl (ValueError ''Port could not be cast to integer value'')
      else bindr (py_int p) (\<lambda>n.
        if n > 65535 then Inl (ValueError ''Port out of range 0-65535'') else Inr (Some (nat n))))"

definition url_userinfo :: "url_parts \<Rightarrow> string \<times> string" where
  "url_userinfo u =
     (case rpartition_at (CHR ''@'') (url_netloc u) of
        None \<Rightarrow> ([], [])
      | Some (info, _) \<Rightarrow> cut_at (CHR '':'') info)"

text \<open>The test \<open>parsed.username or parsed.password or parsed.query or parsed.fragment\<close> that
  every client of the sources refuses.\<close>

definition url_extras :: "url_parts \<Rightarrow> bool" where
  "url_extras u \<longleftrightarrow> fst (url_userinfo u) \<noteq> [] \<or> snd (url_userinfo u) \<noteq> [] \<or> url_query u \<noteq> []
     \<or> url_fragment u \<noteq> []"

lemma url_port_bound: "url_port u = Inr (Some p) \<Longrightarrow> p \<le> 65535"
  by (auto simp: url_port_def Let_def split: if_splits)

lemma urlsplit_error: "urlsplit s = Inl e \<Longrightarrow> is_ValueError e"
  by (auto simp: urlsplit_def Let_def case_prod_beta split: if_splits)

end
