(* ===== verification/Transaction_Id.thy ===== *)
theory Transaction_Id
  imports Net_Address
begin

text \<open>
  CCF transaction identifiers. The same regular expression and bound appear in
  \<open>ccf/host_driver.py\<close> (\<open>canonical_transaction\<close>), in \<open>ccf/telemetry.py\<close> (\<open>_attributes\<close>) and in
  \<open>ccf/run.py\<close> (\<open>provision_transfer_secret\<close>).
\<close>

section \<open>Transaction identifiers\<close>

text \<open>The regular expression \<open>(0|[1-9][0-9]{0,19})\<close>, matched against a whole string.\<close>

definition canonical_component :: "string \<Rightarrow> bool" where
  "canonical_component s \<longleftrightarrow>
     s \<noteq> [] \<and> length s \<le> 20 \<and> list_all is_digit s \<and> (hd s = CHR ''0'' \<longrightarrow> s = ''0'')"

definition canonical_transaction :: "string option \<Rightarrow> bool" where
  "canonical_transaction value =
     (case value of
        None \<Rightarrow> False
      | Some s \<Rightarrow>
          (case split_on (CHR ''.'') s of
             [view, seqno] \<Rightarrow> canonical_component view \<and> canonical_component seqno
               \<and> list_all (\<lambda>part. digits_val part < 2 ^ 64) [view, seqno]
           | _ \<Rightarrow> False))"

section \<open>Laws\<close>

lemma canonical_component_iff:
  "canonical_component s \<and> digits_val s < 2 ^ 64 \<longleftrightarrow> (\<exists>n < 2 ^ 64. s = nat_str n)"
proof
  assume s: "canonical_component s \<and> digits_val s < 2 ^ 64"
  then have "length s > 1 \<longrightarrow> hd s \<noteq> CHR ''0''" by (auto simp: canonical_component_def)
  with s have "nat_str (digits_val s) = s"
    by (intro nat_str_digits_val) (simp_all add: canonical_component_def)
  with s show "\<exists>n < 2 ^ 64. s = nat_str n" by metis
next
  assume "\<exists>n < 2 ^ 64. s = nat_str n"
  then obtain n where n: "n < 2 ^ 64" "s = nat_str n" by blast
  have "length (nat_str n) \<le> 20" using n by (intro length_nat_str_le) auto
  moreover have "hd (nat_str n) = CHR ''0'' \<longrightarrow> nat_str n = ''0''"
    using nat_str_hd [of n] by (cases "n = 0") auto
  ultimately show "canonical_component s \<and> digits_val s < 2 ^ 64"
    using n nat_str_digits by (auto simp: canonical_component_def list_all_iff)
qed

lemma split_two: "split_on d s = [a, b] \<longleftrightarrow> s = a @ d # b \<and> d \<notin> set a \<and> d \<notin> set b"
proof
  assume ab: "split_on d s = [a, b]"
  then have "s = a @ d # b" using join_split [of d s] by simp
  with ab split_on_parts [of _ d s] show "s = a @ d # b \<and> d \<notin> set a \<and> d \<notin> set b" by simp
qed (simp add: split_on_append split_on_no_sep)

section \<open>Properties\<close>

lemma canonical_transaction_text:
  "canonical_transaction value \<longleftrightarrow>
     (\<exists>view seqno. view < 2 ^ 64 \<and> seqno < 2 ^ 64 \<and> value = Some (nat_str view @ ''.'' @ nat_str seqno))"
proof
  assume "canonical_transaction value"
  then obtain s v q where "value = Some s" "split_on (CHR ''.'') s = [v, q]"
    "canonical_component v \<and> digits_val v < 2 ^ 64" "canonical_component q \<and> digits_val q < 2 ^ 64"
    by (auto simp: canonical_transaction_def split: option.splits list.splits)
  then show "\<exists>view seqno. view < 2 ^ 64 \<and> seqno < 2 ^ 64 \<and> value = Some (nat_str view @ ''.'' @ nat_str seqno)"
    unfolding canonical_component_iff split_two by auto
next
  assume "\<exists>view seqno. view < 2 ^ 64 \<and> seqno < 2 ^ 64 \<and> value = Some (nat_str view @ ''.'' @ nat_str seqno)"
  then obtain v q where v: "v < 2 ^ 64" "q < 2 ^ 64" "value = Some (nat_str v @ ''.'' @ nat_str q)" by blast
  have dot: "CHR ''.'' \<notin> set (nat_str n)" for n by (rule nat_str_no_char) (simp add: is_digit_def)
  have "split_on (CHR ''.'') (nat_str v @ ''.'' @ nat_str q) = [nat_str v, nat_str q]"
    using dot by (simp add: split_two)
  with v canonical_component_iff [of "nat_str v"] canonical_component_iff [of "nat_str q"]
  show "canonical_transaction value" by (auto simp: canonical_transaction_def)
qed

text \<open>A transaction identifier is accepted exactly when it is \<open>view.seqno\<close> with both
  parts the decimal text of a 64-bit number: no sign, no leading zero, no overflow.\<close>

theorem canonical_transaction_iff:
  "canonical_transaction value \<longleftrightarrow>
     (\<exists>view seqno. view < 2 ^ 64 \<and> seqno < 2 ^ 64 \<and> value = Some (nat_str view @ ''.'' @ nat_str seqno))"
  by (rule canonical_transaction_text)

end
