(* ===== verification/Driver_Wire.thy ===== *)
theory Driver_Wire
  imports Json_Laws Base64_Codec Net_Address Transaction_Id
begin

text \<open>
  The pure part of \<open>ccf/host_driver.py\<close>: the diagnostic reader of DNS messages, the base64url packet codec, numeric endpoints, the framing of zone transfers and
  the validation of work items. Values that the code obtains from JSON are of type
  \<^typ>\<open>json\<close>, so that its \<open>isinstance\<close> tests are cases of the model.
\<close>

section \<open>Limits\<close>

definition MAX_DNS :: nat where "MAX_DNS = 65535"
definition MAX_TRANSFER_BYTES :: nat where "MAX_TRANSFER_BYTES = 64 * 1024 * 1024"
definition MAX_TRANSFER_FRAMES :: nat where "MAX_TRANSFER_FRAMES = 4096"
definition MAX_TCP_CONNECTIONS :: nat where "MAX_TCP_CONNECTIONS = 8"
definition MAX_UDP_HANDLERS :: nat where "MAX_UDP_HANDLERS = 32"
definition MAX_REQUESTS_PER_CONNECTION :: nat where "MAX_REQUESTS_PER_CONNECTION = 16"
definition MAX_CONNECTION_SECONDS :: real where "MAX_CONNECTION_SECONDS = 60"
definition MAX_SECONDARY_WORK :: nat where "MAX_SECONDARY_WORK = 256"
definition SECONDARY_WORKERS :: nat where "SECONDARY_WORKERS = 8"
definition MAX_OUTSTANDING_EXCHANGES :: nat where "MAX_OUTSTANDING_EXCHANGES = 16"

lemmas [limit_defs] = MAX_DNS_def MAX_TRANSFER_BYTES_def MAX_TRANSFER_FRAMES_def
  MAX_TCP_CONNECTIONS_def MAX_UDP_HANDLERS_def MAX_REQUESTS_PER_CONNECTION_def
  MAX_CONNECTION_SECONDS_def MAX_SECONDARY_WORK_def SECONDARY_WORKERS_def
  MAX_OUTSTANDING_EXCHANGES_def

section \<open>Diagnostic metadata of DNS messages\<close>

definition label_char :: "char \<Rightarrow> bool" where
  "label_char c \<longleftrightarrow> is_lower c \<or> is_digit c \<or> c = CHR ''_'' \<or> c = CHR ''-''"

text \<open>The inner function \<open>name\<close>: at most 128 rounds, each at an offset not visited before.
  The first argument is the number of rounds left.\<close>

fun dns_name :: "nat \<Rightarrow> bytes \<Rightarrow> nat \<Rightarrow> string list \<Rightarrow> nat list \<Rightarrow> nat option \<Rightarrow> (string \<times> nat) res" where
  "dns_name 0 packet offset labels seen end_at = Inl (ValueError [])"
| "dns_name (Suc k) packet offset labels seen end_at =
     (if offset \<ge> length packet \<or> offset \<in> set seen then Inl (ValueError [])
      else
        let seen' = offset # seen; size = unat (packet ! offset) in
        if size div 64 = 3 then
          if length seen' > 10 \<or> offset + 1 \<ge> length packet then Inl (ValueError [])
          else dns_name k packet (size mod 64 * 256 + unat (packet ! (offset + 1))) labels seen'
                 (if end_at = None then Some (offset + 2) else end_at)
        else if size div 64 \<noteq> 0 \<or> size > 63 \<or> offset + 1 + size > length packet then Inl (ValueError [])
        else if size = 0 then
          let text = join_with ''.'' labels @ ''.'' in
          if length text > 255 then Inl (ValueError [])
          else Inr (text, case end_at of Some e \<Rightarrow> e | None \<Rightarrow> offset + 1)
        else
          bindr (decode_ascii (slice (offset + 1) (offset + 1 + size) packet)) (\<lambda>raw.
            let label = lower raw in
            if \<not> (1 \<le> length label \<and> length label \<le> 63 \<and> list_all label_char label)
            then Inl (ValueError [])
            else dns_name k packet (offset + 1 + size) (labels @ [label]) seen' end_at))"

definition name_at :: "bytes \<Rightarrow> nat \<Rightarrow> (string \<times> nat) res" where
  "name_at packet offset = dns_name 128 packet offset [] [] None"

text \<open>The loop over the answer records, up to the first \<open>SOA\<close>.\<close>

fun scan_answers :: "nat \<Rightarrow> bytes \<Rightarrow> nat \<Rightarrow> json dict \<Rightarrow> json dict res" where
  "scan_answers 0 packet offset result = Inr result"
| "scan_answers (Suc k) packet offset result =
     bindr (name_at packet offset) (\<lambda>(rr_owner, o1).
       if o1 + 10 > length packet then Inl (ValueError [])
       else
         let kind = be_nat (slice o1 (o1 + 2) packet);
             size = be_nat (slice (o1 + 8) (o1 + 10) packet);
             o2 = o1 + 10; end_at = o2 + size in
         if end_at > length packet then Inl (ValueError [])
         else if kind = 6 then
           bindr (name_at packet o2) (\<lambda>(_, c1).
           bindr (name_at packet c1) (\<lambda>(_, cursor).
             if cursor + 20 \<noteq> end_at then Inl (ValueError [])
             else Inr (dict_merge result
                    [(''dns.zone'', JStr rr_owner),
                     (''dns.zone.serial'', JInt (int (be_nat (slice cursor (cursor + 4) packet))))])))
         else scan_answers k packet end_at result)"

definition dns_metadata_body :: "bytes \<Rightarrow> json dict res" where
  "dns_metadata_body packet =
     (if \<not> (12 \<le> length packet \<and> length packet \<le> MAX_DNS) then Inr []
      else if be_nat (slice 4 6 packet) \<noteq> 1 then Inr []
      else bindr (name_at packet 12) (\<lambda>(owner, offset).
        if offset + 4 > length packet then Inr []
        else
          let qtype = be_nat (slice offset (offset + 2) packet);
              result = (if qtype \<in> {6, 251, 252} then [(''dns.zone'', JStr owner)] else []) in
          scan_answers (min (be_nat (slice 6 8 packet)) 16) packet (offset + 4) result))"

definition dns_metadata :: "bytes \<Rightarrow> json dict res" where
  "dns_metadata packet =
     (case dns_metadata_body packet of
        Inr r \<Rightarrow> Inr r
      | Inl e \<Rightarrow> if is_ValueError e \<or> is_IndexError e then Inr [] else Inl e)"

section \<open>Packet encoding\<close>

definition encode :: "bytes \<Rightarrow> string" where
  "encode data = rstrip_eq (urlsafe_b64encode data)"

definition decode :: "json \<Rightarrow> bytes res" where
  "decode value =
     (case value of
        JStr text \<Rightarrow>
          if length text > MAX_DNS * 4 div 3 + 4 then Inl (ValueError ''invalid DNS packet encoding'')
          else bindr (b64decode_alt (text @ b64_pad (length text))) (\<lambda>raw.
            if length raw > MAX_DNS \<or> encode raw \<noteq> text
            then Inl (ValueError ''noncanonical DNS packet encoding'')
            else Inr raw)
      | _ \<Rightarrow> Inl (ValueError ''invalid DNS packet encoding''))"

section \<open>Endpoints\<close>

text \<open>\<open>text.partition("]:")\<close>.\<close>

fun partition_bracket :: "string \<Rightarrow> (string \<times> string) option" where
  "partition_bracket (c # d # cs) =
     (if c = CHR '']'' \<and> d = CHR '':'' then Some ([], cs)
      else (case partition_bracket (d # cs) of None \<Rightarrow> None | Some (a, b) \<Rightarrow> Some (c # a, b)))"
| "partition_bracket cs = None"

definition socket_text :: "ip \<Rightarrow> int \<Rightarrow> string" where
  "socket_text address port =
     (if ip_version address = 6 then ''['' @ ip_str address @ '']:'' @ int_str port
      else ip_str address @ '':'' @ int_str port)"

definition endpoint :: "string \<Rightarrow> (string \<times> nat) res" where
  "endpoint text =
     bindr (if startswith text ''['' then
              (case partition_bracket (tl text) of
                 None \<Rightarrow> Inl (ValueError ''IPv6 endpoint must be [address]:port'')
               | Some hp \<Rightarrow> Inr hp)
            else
              (case rpartition_at (CHR '':'') text of
                 None \<Rightarrow> Inl (ValueError ''endpoint must be address:port'')
               | Some hp \<Rightarrow> Inr hp)) (\<lambda>(host, port_text).
     bindr (ip_address host) (\<lambda>address.
     bindr (py_int port_text) (\<lambda>port.
       if \<not> (0 < port \<and> port \<le> 65535) then Inl (ValueError ''invalid endpoint port'')
       else if text \<noteq> socket_text address port
       then Inl (ValueError ''endpoint must use canonical numeric socket presentation'')
       else Inr (host, nat port))))"

section \<open>Zone transfer frames\<close>

function frames_loop :: "bytes \<Rightarrow> nat \<Rightarrow> nat \<Rightarrow> nat res" where
  "frames_loop data position n =
     (if position < length data then
        if length data - position < 2 then Inl (ValueError ''truncated DNS TCP length'')
        else
          let len = be_nat (slice position (position + 2) data); start = position + 2 in
          if len < 12 \<or> len > length data - start then Inl (ValueError ''invalid DNS TCP frame'')
          else if n + 1 > MAX_TRANSFER_FRAMES
          then Inl (ValueError ''zone transfer exceeds frame bound'')
          else frames_loop data (start + len) (n + 1)
      else Inr n)"
  by pat_completeness auto
termination by (relation "measure (\<lambda>(data, position, _). length data - position)") auto

declare frames_loop.simps [simp del]

definition validate_frames :: "bytes \<Rightarrow> unit res" where
  "validate_frames data =
     (if length data > MAX_TRANSFER_BYTES then Inl (ValueError ''zone transfer exceeds byte bound'')
      else bindr (frames_loop data 0 0) (\<lambda>n.
        if n = 0 then Inl (ValueError ''empty zone transfer'') else Inr ()))"

section \<open>Work items\<close>

definition work_id_ok :: "json \<Rightarrow> bool" where
  "work_id_ok v = (case v of JStr s \<Rightarrow> length s = 32 \<and> list_all is_lower_hex s | _ \<Rightarrow> False)"

definition validate_work :: "json \<Rightarrow> json dict res" where
  "validate_work work =
     (case work of
        JDict d \<Rightarrow>
          if \<not> same_keys d [''id'', ''endpoint'', ''kind'', ''packet_base64url'']
          then Inl (ValueError ''invalid secondary work fields'')
          else
            bindr (dict_index d ''id'') (\<lambda>id_value.
            if \<not> work_id_ok id_value then Inl (ValueError ''invalid secondary work ID'')
            else
              bindr (dict_index d ''endpoint'') (\<lambda>endpoint_value.
              bindr (dict_index d ''kind'') (\<lambda>kind.
              case endpoint_value of
                JStr text \<Rightarrow>
                  if kind \<noteq> JStr ''soa'' \<and> kind \<noteq> JStr ''notify''
                  then Inl (ValueError ''invalid secondary work scope'')
                  else
                    bindr (endpoint text) (\<lambda>_.
                    bindr (dict_index d ''packet_base64url'') (\<lambda>packet_value.
                    bindr (decode packet_value) (\<lambda>packet.
                    if \<not> (12 \<le> length packet \<and> length packet \<le> MAX_DNS)
                    then Inl (ValueError ''invalid outbound DNS message'')
                    else Inr d)))
              | _ \<Rightarrow> Inl (ValueError ''invalid secondary work scope''))))
      | _ \<Rightarrow> Inl (ValueError ''invalid secondary work fields''))"

section \<open>Laws\<close>

subsection \<open>Names and metadata\<close>

definition zone_text :: "string \<Rightarrow> bool" where
  "zone_text z \<longleftrightarrow> z \<noteq> [] \<and> length z \<le> 255 \<and> list_all (\<lambda>c. label_char c \<or> c = CHR ''.'') z
     \<and> last z = CHR ''.''"

lemma set_join_with: "set (join_with sep xs) \<subseteq> set sep \<union> (\<Union>x \<in> set xs. set x)"
  by (induction sep xs rule: join_with.induct) auto

lemma dns_name_zone:
  "dns_name k packet offset labels seen e = Inr (t, e') \<Longrightarrow>
   (\<forall>l \<in> set labels. list_all label_char l) \<Longrightarrow> zone_text t"
proof (induction k arbitrary: offset labels seen e)
  case (Suc k)
  have stop: "zone_text (join_with ''.'' labels @ ''.'')"
    if "length (join_with ''.'' labels @ ''.'') \<le> 255"
    using that Suc.prems(2) set_join_with [of "''.''" labels] by (auto simp: zone_text_def list_all_iff)
  consider "unat (packet ! offset) div 64 = 3" | "unat (packet ! offset) = 0"
    | "unat (packet ! offset) div 64 \<noteq> 3" "unat (packet ! offset) \<noteq> 0" by blast
  then show ?case
  proof cases
    case 1
    then show ?thesis using Suc.prems Suc.IH by (auto simp: Let_def split: if_splits)
  next
    case 2
    then show ?thesis using stop Suc.prems by (auto simp: Let_def split: if_splits)
  next
    case 3
    have "zone_text t" if "dns_name k packet off (labels @ [lower x]) s' e = Inr (t, e')"
      "list_all label_char (lower x)" for off x s'
      using Suc.IH [OF that(1)] that(2) Suc.prems(2) by simp
    with 3 Suc.prems(1) show ?thesis by (auto simp: Let_def split: if_splits)
  qed
qed simp

lemma dns_name_error [exn_rules]: "dns_name k packet offset labels seen e = Inl x \<Longrightarrow> is_ValueError x"
proof (induction k arbitrary: offset labels seen e)
  case (Suc k)
  then show ?case
    by (auto simp: Let_def bindr_eq_Inl split: if_splits dest: decode_ascii_error)
qed auto

lemma name_at_zone: "name_at packet offset = Inr (t, e) \<Longrightarrow> zone_text t"
  by (rule dns_name_zone) (auto simp: name_at_def)

lemma name_at_error [exn_rules]: "name_at packet offset = Inl e \<Longrightarrow> is_ValueError e"
  by (simp add: name_at_def dns_name_error)

text \<open>The three shapes of the metadata: none, a zone, a zone with the serial of its \<open>SOA\<close>.\<close>

definition metadata_ok :: "json dict \<Rightarrow> bool" where
  "metadata_ok m \<longleftrightarrow>
     m = [] \<or> (\<exists>z. m = [(''dns.zone'', JStr z)] \<and> zone_text z)
     \<or> (\<exists>z n. m = [(''dns.zone'', JStr z), (''dns.zone.serial'', JInt (int n))] \<and> zone_text z \<and> n < 2 ^ 32)"

lemma be_nat_slice: "be_nat (slice i j packet) < 256 ^ (j - i)"
proof -
  have "be_nat (slice i j packet) < 256 ^ length (slice i j packet)" by (rule be_nat_less)
  also have "\<dots> \<le> 256 ^ (j - i)" by (intro power_increasing) (simp_all add: length_slice)
  finally show ?thesis .
qed

definition no_serial :: "json dict \<Rightarrow> bool" where
  "no_serial m \<longleftrightarrow> m = [] \<or> (\<exists>z. m = [(''dns.zone'', JStr z)] \<and> zone_text z)"

lemma merge_soa:
  assumes "no_serial m" "zone_text z" "n < 2 ^ 32"
  shows "metadata_ok (dict_merge m [(''dns.zone'', JStr z), (''dns.zone.serial'', JInt (int n))])"
  using assms by (auto simp: no_serial_def metadata_ok_def dict_merge_def)

lemma scan_answers_ok:
  "scan_answers k packet offset m = Inr r \<Longrightarrow> no_serial m \<Longrightarrow> metadata_ok r"
proof (induction k arbitrary: offset)
  case 0
  then show ?case by (auto simp: no_serial_def metadata_ok_def)
next
  case (Suc k)
  from Suc.prems(1) obtain owner o1 where owner: "name_at packet offset = Inr (owner, o1)" by auto
  have serial: "be_nat (slice c (c + 4) packet) < 2 ^ 32" for c
    using be_nat_slice [of c "c + 4" packet] by simp
  show ?case
  proof (cases "be_nat (slice o1 (o1 + 2) packet) = 6")
    case True
    with Suc.prems(1) owner obtain cursor where
      "r = dict_merge m [(''dns.zone'', JStr owner),
         (''dns.zone.serial'', JInt (int (be_nat (slice cursor (cursor + 4) packet))))]"
      by (auto simp: Let_def split: if_splits)
    then show ?thesis
      using merge_soa [OF Suc.prems(2) name_at_zone [OF owner] serial] by simp
  next
    case False
    with Suc.prems owner show ?thesis by (auto simp: Let_def split: if_splits intro: Suc.IH)
  qed
qed

lemma scan_answers_error [exn_rules]: "scan_answers k packet offset m = Inl e \<Longrightarrow> is_ValueError e"
  by (induction k arbitrary: offset)
    (auto simp: Let_def bindr_eq_Inl split: if_splits dest: name_at_error)

lemma dns_metadata_ok: "\<exists>r. dns_metadata packet = Inr r \<and> metadata_ok r"
proof (cases "dns_metadata_body packet")
  case (Inl e)
  then have "is_ValueError e"
    by (auto simp: dns_metadata_body_def Let_def bindr_eq_Inl split: if_splits
        dest: name_at_error scan_answers_error)
  with Inl show ?thesis by (auto simp: dns_metadata_def metadata_ok_def)
next
  case (Inr r)
  have "metadata_ok r" if "scan_answers k packet o' m = Inr r" "no_serial m" for k o' m
    using that by (rule scan_answers_ok)
  moreover have "no_serial []" "\<And>z. zone_text z \<Longrightarrow> no_serial [(''dns.zone'', JStr z)]"
    by (auto simp: no_serial_def)
  ultimately have "metadata_ok r"
    using Inr by (auto simp: dns_metadata_body_def Let_def metadata_ok_def split: if_splits dest: name_at_zone)
  with Inr show ?thesis by (simp add: dns_metadata_def)
qed

subsection \<open>The packet codec\<close>

definition packet_size_ok :: "bytes \<Rightarrow> bool" where
  "packet_size_ok raw \<longleftrightarrow> length raw \<le> MAX_DNS"

lemma encode_body: "encode raw = b64_body b64_url raw"
  by (simp add: encode_def rstrip_urlsafe)

lemma length_encode: "length (encode raw) = (4 * length raw + 2) div 3"
  by (simp add: encode_body length_b64_body)

interpretation packet_codec: canonical_codec encode "\<lambda>t. decode (JStr t)" packet_size_ok
proof unfold_locales
  fix raw :: bytes
  assume raw: "packet_size_ok raw"
  then have "length (encode raw) \<le> MAX_DNS * 4 div 3 + 4"
    by (simp add: length_encode packet_size_ok_def MAX_DNS_def)
  moreover have "b64decode_alt (encode raw @ b64_pad (length (encode raw))) = Inr raw"
    by (simp add: encode_body b64decode_alt_padded)
  ultimately show "decode (JStr (encode raw)) = Inr raw"
    using raw by (simp add: decode_def packet_size_ok_def)
next
  fix t raw
  assume "decode (JStr t) = Inr raw"
  then show "encode raw = t \<and> packet_size_ok raw"
    by (auto simp: decode_def packet_size_ok_def split: if_splits)
qed

lemma decode_JStr: "decode v = Inr raw \<Longrightarrow> v = JStr (encode raw) \<and> length raw \<le> MAX_DNS"
proof -
  assume v: "decode v = Inr raw"
  then obtain t where t: "v = JStr t" by (cases v) (simp_all add: decode_def)
  with v packet_codec.enc_dec [of t raw] show ?thesis by (simp add: packet_size_ok_def)
qed

lemma decode_error [exn_rules]: "decode v = Inl e \<Longrightarrow> is_ValueError e"
  by (auto simp: decode_def bindr_eq_Inl b64decode_alt_def split: json.splits if_splits
      dest: b64decode_error)

subsection \<open>Endpoints\<close>

lemma partition_bracket_Some:
  "partition_bracket s = Some (a, b) \<Longrightarrow> s = a @ '']:'' @ b"
  by (induction s arbitrary: a rule: partition_bracket.induct) (auto split: if_splits option.splits)

lemma partition_bracket_first:
  "partition_bracket (x # y) = Some (a, b) \<Longrightarrow> \<not> (\<exists>u v. a = u @ '']:'' @ v)"
proof (induction "x # y" arbitrary: x y a rule: partition_bracket.induct)
  case (1 c d cs)
  show ?case
  proof (cases "c = CHR '']'' \<and> d = CHR '':''")
    case False
    with 1(2) obtain a' where a: "a = c # a'" "partition_bracket (d # cs) = Some (a', b)"
      by (auto split: if_splits option.splits)
    from a(2) have "d # cs = a' @ '']:'' @ b" by (rule partition_bracket_Some)
    then have hd: "a' \<noteq> [] \<Longrightarrow> hd a' = d" by (cases a') auto
    show ?thesis
    proof
      assume "\<exists>u v. a = u @ '']:'' @ v"
      then obtain u v where uv: "c # a' = u @ '']:'' @ v" using a by auto
      show False
      proof (cases u)
        case Nil
        with uv hd False show False by auto
      next
        case (Cons e u')
        with uv have "a' = u' @ '']:'' @ v" by simp
        with "1.hyps" [OF False a(2)] show False by blast
      qed
    qed
  qed (use 1 in auto)
qed auto

text \<open>An accepted endpoint is the canonical text of the address and port it denotes.\<close>

lemma endpoint_Inr:
  assumes "endpoint text = Inr (host, port)"
  obtains address where "ip_address host = Inr address" "0 < port" "port \<le> 65535"
    "text = socket_text address (int port)"
  using assms
  by (auto simp: endpoint_def split: if_splits option.splits prod.splits)

lemma endpoint_error [exn_rules]: "endpoint text = Inl e \<Longrightarrow> is_ValueError e"
  by (auto simp: endpoint_def bindr_eq_Inl split: if_splits option.splits
      dest: ip_address_error py_int_error)

subsection \<open>Frames\<close>

text \<open>A DNS message as a zone transfer carries it: two length octets and the message.\<close>

definition dns_frame :: "bytes \<Rightarrow> bytes" where
  "dns_frame m = word_of_nat (length m div 256) # word_of_nat (length m mod 256) # m"

definition frame_size_ok :: "bytes \<Rightarrow> bool" where
  "frame_size_ok m \<longleftrightarrow> 12 \<le> length m \<and> length m \<le> 65535"

lemma be_nat_pair: "be_nat [a, b] = 256 * unat a + unat b"
  by (simp add: be_nat_def)

lemma dns_frame_of_prefix:
  assumes "length m = be_nat [a, b]"
  shows "dns_frame m = a # b # m"
proof -
  have "length m div 256 = unat a" "length m mod 256 = unat b"
    using assms unat_byte_less [of b] by (simp_all add: be_nat_pair)
  then show ?thesis by (simp add: dns_frame_def)
qed

lemma be_nat_dns_frame:
  assumes "length m \<le> 65535"
  shows "be_nat [word_of_nat (length m div 256), word_of_nat (length m mod 256)] = length m"
proof -
  have "length m div 256 < 256" using assms by simp
  then have "unat (word_of_nat (length m div 256) :: byte) = length m div 256"
    "unat (word_of_nat (length m mod 256) :: byte) = length m mod 256"
    by (simp_all add: unat_of_nat take_bit_eq_mod)
  then show ?thesis by (simp add: be_nat_pair)
qed

lemma frames_loop_step:
  assumes "drop position data = a # b # rest" "length m = be_nat [a, b]" "12 \<le> length m" "rest = m @ r"
  shows "frames_loop data position n =
    (if n + 1 > MAX_TRANSFER_FRAMES then Inl (ValueError ''zone transfer exceeds frame bound'')
     else frames_loop data (position + 2 + length m) (n + 1))"
    and "drop (position + 2 + length m) data = r"
proof -
  have len: "length data - position = 2 + length rest"
    using arg_cong [OF assms(1), of length] by simp
  then have "position < length data" "\<not> length data - position < 2"
    "\<not> (be_nat [a, b] < 12 \<or> be_nat [a, b] > length data - (position + 2))"
    using assms by simp_all
  moreover have "slice position (position + 2) data = [a, b]" by (simp add: slice_def assms(1))
  ultimately show "frames_loop data position n =
    (if n + 1 > MAX_TRANSFER_FRAMES then Inl (ValueError ''zone transfer exceeds frame bound'')
     else frames_loop data (position + 2 + length m) (n + 1))"
    using assms(2) by (simp add: frames_loop.simps [of data position n] Let_def)
  have "drop (position + 2 + length m) data = drop (length m) (drop 2 (drop position data))"
    by (simp add: ac_simps)
  then show "drop (position + 2 + length m) data = r" using assms by simp
qed

lemma frames_loop_concat:
  assumes "drop position data = concat (map dns_frame fs)" "list_all frame_size_ok fs"
    "n + length fs \<le> MAX_TRANSFER_FRAMES"
  shows "frames_loop data position n = Inr (n + length fs)"
  using assms
proof (induction fs arbitrary: position n)
  case Nil
  then show ?case by (subst frames_loop.simps) simp
next
  case (Cons f fs)
  let ?a = "word_of_nat (length f div 256) :: byte" and ?b = "word_of_nat (length f mod 256) :: byte"
  have d: "drop position data = ?a # ?b # (f @ concat (map dns_frame fs))"
    using Cons.prems(1) by (simp add: dns_frame_def [of f])
  have f: "length f = be_nat [?a, ?b]" "12 \<le> length f"
    using Cons.prems(2) be_nat_dns_frame [of f] by (simp_all add: frame_size_ok_def)
  note step = frames_loop_step [OF d f refl]
  from Cons.IH [OF step(2)] Cons.prems step(1) [of n] show ?case by simp
qed

lemma frames_loop_frames:
  assumes "frames_loop data position n = Inr k"
  shows "\<exists>fs. drop position data = concat (map dns_frame fs) \<and> list_all frame_size_ok fs
    \<and> k = n + length fs \<and> (fs = [] \<or> k \<le> MAX_TRANSFER_FRAMES)"
  using assms
proof (induction data position n rule: frames_loop.induct)
  case (1 data position n)
  show ?case
  proof (cases "position < length data")
    case False
    then show ?thesis using 1(2) by (subst (asm) frames_loop.simps) simp
  next
    case True
    let ?len = "be_nat (slice position (position + 2) data)"
    from 1(2) True have g: "\<not> length data - position < 2" "\<not> (?len < 12 \<or> ?len > length data - (position + 2))"
      "\<not> n + 1 > MAX_TRANSFER_FRAMES" "frames_loop data (position + 2 + ?len) (n + 1) = Inr k"
      by (simp_all add: frames_loop.simps [of data position n] Let_def split: if_splits)
    from g(1) have "Suc (Suc 0) \<le> length (drop position data)" by simp
    then obtain a b rest where d: "drop position data = a # b # rest"
      unfolding Suc_le_length_iff by blast
    have len: "?len = be_nat [a, b]" by (simp add: slice_def d)
    have rest: "rest = drop (position + 2) data" using arg_cong [OF d, of "drop 2"] by (simp add: ac_simps)
    let ?m = "take ?len rest"
    have m: "length ?m = be_nat [a, b]" "12 \<le> length ?m" using g(2) len rest by simp_all
    have split: "rest = ?m @ drop ?len rest" by simp
    note step = frames_loop_step [OF d m split]
    have "frame_size_ok ?m"
      using m be_nat_less [of "[a, b]"] by (simp add: frame_size_ok_def)
    moreover from "1.IH" [OF True g(1) refl refl g(2,3,4)] obtain fs where
      fs: "drop (position + 2 + ?len) data = concat (map dns_frame fs)" "list_all frame_size_ok fs"
        "k = n + 1 + length fs" "fs = [] \<or> k \<le> MAX_TRANSFER_FRAMES" by blast
    moreover from step(2) fs(1) m(1) len have "drop ?len rest = concat (map dns_frame fs)" by simp
    then have "rest = ?m @ concat (map dns_frame fs)" by (metis append_take_drop_id)
    ultimately have "drop position data = concat (map dns_frame (?m # fs)) \<and> list_all frame_size_ok (?m # fs)
      \<and> k = n + length (?m # fs) \<and> k \<le> MAX_TRANSFER_FRAMES"
      using d dns_frame_of_prefix [OF m(1)] g(3) fs(2-4) by auto
    then show ?thesis by blast
  qed
qed

lemma frames_loop_error [exn_rules]: "frames_loop data position n = Inl e \<Longrightarrow> is_ValueError e"
proof (induction data position n rule: frames_loop.induct)
  case (1 data position n)
  from 1(2) show ?case
    unfolding frames_loop.simps [of data position n] using 1(1) by (auto simp: Let_def split: if_splits)
qed

lemma validate_frames_Inr:
  "validate_frames data = Inr () \<longleftrightarrow>
     (\<exists>fs. data = concat (map dns_frame fs) \<and> fs \<noteq> [] \<and> length fs \<le> MAX_TRANSFER_FRAMES
       \<and> list_all frame_size_ok fs \<and> length data \<le> MAX_TRANSFER_BYTES)"
proof
  assume "validate_frames data = Inr ()"
  then obtain k where "frames_loop data 0 0 = Inr k" "k \<noteq> 0" "length data \<le> MAX_TRANSFER_BYTES"
    by (auto simp: validate_frames_def split: if_splits)
  with frames_loop_frames [of data 0 0 k] show "\<exists>fs. data = concat (map dns_frame fs) \<and> fs \<noteq> []
    \<and> length fs \<le> MAX_TRANSFER_FRAMES \<and> list_all frame_size_ok fs \<and> length data \<le> MAX_TRANSFER_BYTES"
    by auto
next
  assume "\<exists>fs. data = concat (map dns_frame fs) \<and> fs \<noteq> [] \<and> length fs \<le> MAX_TRANSFER_FRAMES
    \<and> list_all frame_size_ok fs \<and> length data \<le> MAX_TRANSFER_BYTES"
  then show "validate_frames data = Inr ()"
    using frames_loop_concat [of 0 data _ 0] by (auto simp: validate_frames_def)
qed

lemma validate_frames_error [exn_rules]: "validate_frames data = Inl e \<Longrightarrow> is_ValueError e"
  by (auto simp: validate_frames_def bindr_eq_Inl split: if_splits dest: frames_loop_error)

subsection \<open>Work items\<close>

lemma validate_work_Inr:
  assumes "validate_work work = Inr d"
  obtains work_id target kind packet where "work = JDict d"
    "set (map fst d) = {''id'', ''endpoint'', ''kind'', ''packet_base64url''}"
    "map_of d ''id'' = Some (JStr work_id)" "length work_id = 32" "list_all is_lower_hex work_id"
    "map_of d ''endpoint'' = Some (JStr target)" "\<exists>hp. endpoint target = Inr hp"
    "map_of d ''kind'' = Some (JStr kind)" "kind \<in> {''soa'', ''notify''}"
    "map_of d ''packet_base64url'' = Some (JStr (encode packet))" "12 \<le> length packet" "length packet \<le> MAX_DNS"
proof -
  obtain d' where w: "work = JDict d'" using assms by (cases work) (simp_all add: validate_work_def)
  have keys: "same_keys d' [''id'', ''endpoint'', ''kind'', ''packet_base64url'']"
    using assms w by (simp add: validate_work_def split: if_splits)
  obtain i e k p where *: "map_of d' ''id'' = Some i" "map_of d' ''endpoint'' = Some e"
    "map_of d' ''kind'' = Some k" "map_of d' ''packet_base64url'' = Some p"
    using same_keys_lookup [OF keys] by fastforce
  then have id: "work_id_ok i"
    using assms w keys by (simp add: validate_work_def split: if_splits)
  from * obtain target where e: "e = JStr target"
    using assms w keys by (cases e) (simp_all add: validate_work_def split: if_splits)
  from id obtain work_id where i: "i = JStr work_id" "length work_id = 32" "list_all is_lower_hex work_id"
    by (auto simp: work_id_ok_def split: json.splits)
  from assms w keys * e have k: "k = JStr ''soa'' \<or> k = JStr ''notify''" and hp: "\<exists>hp. endpoint target = Inr hp"
    and d: "d' = d" and p: "\<exists>packet. decode p = Inr packet \<and> 12 \<le> length packet"
    by (auto simp: validate_work_def split: if_splits)
  from k obtain kind where kind: "k = JStr kind" "kind \<in> {''soa'', ''notify''}" by blast
  from p obtain packet where packet: "decode p = Inr packet" "12 \<le> length packet" by blast
  have set: "set (map fst d) = {''id'', ''endpoint'', ''kind'', ''packet_base64url''}"
    using keys d by (simp only: same_keys_def list.set)
  show thesis
    by (rule that [of work_id target kind packet]) (use w d set * i e kind hp packet decode_JStr in \<open>simp_all\<close>)
qed

lemma validate_work_error [exn_rules]: "validate_work work = Inl x \<Longrightarrow> is_ValueError x"
proof -
  assume x: "validate_work work = Inl x"
  let ?ks = "[''id'', ''endpoint'', ''kind'', ''packet_base64url'']"
  show ?thesis
  proof (cases "\<exists>d. work = JDict d \<and> same_keys d ?ks")
    case False
    with x show ?thesis by (auto simp: validate_work_def split: json.splits if_splits)
  next
    case True
    then obtain d where d: "work = JDict d" "same_keys d ?ks" by blast
    obtain i e k p where *: "map_of d ''id'' = Some i" "map_of d ''endpoint'' = Some e"
      "map_of d ''kind'' = Some k" "map_of d ''packet_base64url'' = Some p"
      using same_keys_lookup [OF d(2)] by fastforce
    from d * x show ?thesis
      by (cases e) (auto simp: validate_work_def dict_index_def bindr_eq_Inl split: if_splits
          dest: endpoint_error decode_error)
  qed
qed

section \<open>Properties\<close>

text \<open>The diagnostic reader never raises, whatever the packet. What it returns is empty, a
  zone, or a zone with a 32-bit serial; a zone is a lower-case name of at most 255 characters that
  ends in a dot. In particular a result with a serial always has the zone that the callers index.\<close>

theorem dns_metadata_total:
  "\<exists>m. dns_metadata packet = Inr m \<and>
     (m = [] \<or> (\<exists>z. m = [(''dns.zone'', JStr z)] \<and> zone_text z) \<or>
      (\<exists>z n. m = [(''dns.zone'', JStr z), (''dns.zone.serial'', JInt (int n))] \<and> zone_text z \<and> n < 2 ^ 32))"
  using dns_metadata_ok [of packet] unfolding metadata_ok_def by blast

text \<open>(C34) The packet codec is canonical: \<open>decode\<close> returns a packet exactly on the one text that
  \<open>encode\<close> gives for it, and only for packets of at most 65535 bytes.\<close>

theorem decode_iff_encode: "decode v = Inr raw \<longleftrightarrow> v = JStr (encode raw) \<and> length raw \<le> 65535"
  using decode_JStr [of v raw] packet_codec.dec_iff [of "encode raw" raw]
  by (auto simp: packet_size_ok_def MAX_DNS_def)

text \<open>An accepted endpoint is numeric and canonical: the text is the presentation of an IP
  address, never a host name, with a port between 1 and 65535.\<close>

theorem endpoint_canonical:
  assumes "endpoint target = Inr (host, port)"
  shows "\<exists>address. ip_address host = Inr address \<and> 0 < port \<and> port \<le> 65535
    \<and> target = (if ip_version address = 6 then ''['' @ ip_str address @ '']:'' @ nat_str port
                else ip_str address @ '':'' @ nat_str port)"
  using assms by (rule endpoint_Inr) (auto simp: socket_text_def int_str_def)

theorem endpoint_canonical_witness:
  "\<exists>address. ip_address ''127.0.0.1'' = Inr address \<and> 0 < (53::nat) \<and> (53::nat) \<le> 65535
    \<and> ''127.0.0.1:53'' = (if ip_version address = 6 then ''['' @ ip_str address @ '']:'' @ nat_str 53
                else ip_str address @ '':'' @ nat_str 53)"
proof (rule endpoint_canonical)
  show "endpoint ''127.0.0.1:53'' = Inr (''127.0.0.1'', 53)"
    by (simp add: endpoint_def startswith_def rpartition_at_def ip_address_eval py_int_def unsigned_int_def
        strip_def is_space_def socket_text_def int_str_def nat_str_eval char_of_def bit_0)
qed

text \<open>(C18) A zone transfer is accepted exactly when it is a sequence of between 1 and 4096 DNS
  messages of 12 to 65535 bytes, each behind its two length octets, and at most 64 MiB in all. The
  check terminates on every input.\<close>

theorem validate_frames_iff:
  "validate_frames data = Inr () \<longleftrightarrow>
     (\<exists>fs. data = concat (map dns_frame fs) \<and> fs \<noteq> [] \<and> length fs \<le> 4096
       \<and> list_all (\<lambda>m. 12 \<le> length m \<and> length m \<le> 65535) fs \<and> length data \<le> 64 * 1024 * 1024)"
  unfolding validate_frames_Inr frame_size_ok_def [abs_def] MAX_TRANSFER_FRAMES_def MAX_TRANSFER_BYTES_def ..

end
