(* ===== verification/Socket_Io.thy ===== *)
theory Socket_Io
  imports Adns_Prelude
begin

text \<open>
  Sockets, clocks and deadlines. An effectful function takes the state and returns its result with
  the new state. The peer of a connection is the queue of what its \<open>recv\<close> calls will meet, chosen
  freely by the environment, and the clock gives one reading per call of \<open>time.monotonic\<close>.

  The file holds the operations on that state, the absolute deadlines (\<open>SocketDeadline\<close>) and the
  interface of the bounded readers, with the laws that each of them has.
\<close>

section \<open>Effects\<close>

type_synonym ('s, 'a) act = "'s \<Rightarrow> 'a res \<times> 's"

definition ret_act :: "'a \<Rightarrow> ('s, 'a) act" where
  "ret_act x s = (Inr x, s)"

definition raise_act :: "exn \<Rightarrow> ('s, 'a) act" where
  "raise_act e s = (Inl e, s)"

definition lift_res :: "'a res \<Rightarrow> ('s, 'a) act" where
  "lift_res r s = (r, s)"

definition bind_act :: "('s, 'a) act \<Rightarrow> ('a \<Rightarrow> ('s, 'b) act) \<Rightarrow> ('s, 'b) act" where
  "bind_act m f s = (case m s of (Inl e, s') \<Rightarrow> (Inl e, s') | (Inr x, s') \<Rightarrow> f x s')"

text \<open>\<open>try: m except <class>: h\<close>, where the class is a predicate on exceptions.\<close>

definition catch_act :: "(exn \<Rightarrow> bool) \<Rightarrow> (exn \<Rightarrow> ('s, 'a) act) \<Rightarrow> ('s, 'a) act \<Rightarrow> ('s, 'a) act" where
  "catch_act p h m s =
     (case m s of (Inl e, s') \<Rightarrow> if p e then h e s' else (Inl e, s') | (Inr x, s') \<Rightarrow> (Inr x, s'))"

text \<open>\<open>try: m finally: f\<close> for a clean-up that does not raise.\<close>

definition finally_act :: "('s \<Rightarrow> 's) \<Rightarrow> ('s, 'a) act \<Rightarrow> ('s, 'a) act" where
  "finally_act f m s = (case m s of (r, s') \<Rightarrow> (r, f s'))"

lemma bind_act_Inr [simp]:
  "bind_act m f s = (Inr y, s') \<longleftrightarrow> (\<exists>x s1. m s = (Inr x, s1) \<and> f x s1 = (Inr y, s'))"
  by (auto simp: bind_act_def split: prod.splits sum.splits)

lemma bind_act_Inl:
  "bind_act m f s = (Inl e, s') \<longleftrightarrow>
     m s = (Inl e, s') \<or> (\<exists>x s1. m s = (Inr x, s1) \<and> f x s1 = (Inl e, s'))"
  by (auto simp: bind_act_def split: prod.splits sum.splits)

lemma ret_act_iff [simp]: "ret_act x s = (r, s') \<longleftrightarrow> r = Inr x \<and> s' = s"
  by (auto simp: ret_act_def)

lemma raise_act_iff [simp]: "raise_act e s = (r, s') \<longleftrightarrow> r = Inl e \<and> s' = s"
  by (auto simp: raise_act_def)

lemma lift_res_iff [simp]: "lift_res x s = (r, s') \<longleftrightarrow> r = x \<and> s' = s"
  by (auto simp: lift_res_def)

lemma catch_act_Inr:
  "catch_act p h m s = (Inr x, s') \<longleftrightarrow>
     m s = (Inr x, s') \<or> (\<exists>e s1. m s = (Inl e, s1) \<and> p e \<and> h e s1 = (Inr x, s'))"
  by (auto simp: catch_act_def split: prod.splits sum.splits if_splits)

lemma catch_act_Inl:
  "catch_act p h m s = (Inl e, s') \<longleftrightarrow>
     m s = (Inl e, s') \<and> \<not> p e \<or> (\<exists>e' s1. m s = (Inl e', s1) \<and> p e' \<and> h e' s1 = (Inl e, s'))"
  by (auto simp: catch_act_def split: prod.splits sum.splits if_splits)

lemma finally_act_iff [simp]: "finally_act f m s = (r, s') \<longleftrightarrow> (\<exists>s1. m s = (r, s1) \<and> s' = f s1)"
  by (auto simp: finally_act_def split: prod.splits)

section \<open>Connections\<close>

text \<open>What a \<open>recv\<close> can meet: bytes, an orderly end of the stream, or an error. A peer that stays
  silent is the empty queue, on which the socket timeout expires.\<close>

datatype rx = Data bytes | Closed | RxErr exn

type_synonym clock = "nat \<Rightarrow> real"

record net =
  ticks :: nat
  inbox :: "rx list"
  sock_timeout :: "real option"
  outbox :: "bytes list"

definition now :: "clock \<Rightarrow> 'z net_scheme \<Rightarrow> real \<times> 'z net_scheme" where
  "now clk s = (clk (ticks s), s\<lparr>ticks := Suc (ticks s)\<rparr>)"

fun recv_queue :: "nat \<Rightarrow> rx list \<Rightarrow> bytes res \<times> rx list" where
  "recv_queue n [] = (Inl (TimeoutError ''timed out''), [])"
| "recv_queue n (Closed # q) = (Inr [], Closed # q)"
| "recv_queue n (RxErr e # q) = (Inl e, q)"
| "recv_queue n (Data b # q) =
     (if length b \<le> n then (Inr b, q) else (Inr (take n b), Data (drop n b) # q))"

definition recv :: "nat \<Rightarrow> ('z net_scheme, bytes) act" where
  "recv n s = (case recv_queue n (inbox s) of (r, q) \<Rightarrow> (r, s\<lparr>inbox := q\<rparr>))"

definition settimeout :: "real \<Rightarrow> 'z net_scheme \<Rightarrow> 'z net_scheme" where
  "settimeout t s = s\<lparr>sock_timeout := Some t\<rparr>"

definition sendall :: "bytes \<Rightarrow> 'z net_scheme \<Rightarrow> 'z net_scheme" where
  "sendall b s = s\<lparr>outbox := outbox s @ [b]\<rparr>"

text \<open>The bytes that the peer has sent up to the end of the stream, and whether it ends it.\<close>

fun rx_data :: "rx list \<Rightarrow> bytes" where
  "rx_data (Data b # q) = (if b = [] then [] else b @ rx_data q)"
| "rx_data q = []"

fun rx_closed :: "rx list \<Rightarrow> bool" where
  "rx_closed (Data b # q) = (b = [] \<or> rx_closed q)"
| "rx_closed (Closed # q) = True"
| "rx_closed q = False"

lemma recv_queue_size: "recv_queue n q = (Inr b, q') \<Longrightarrow> length b \<le> n"
  by (cases "(n, q)" rule: recv_queue.cases) (auto split: if_splits)

lemma recv_queue_data:
  "recv_queue n q = (Inr b, q') \<Longrightarrow> b \<noteq> [] \<Longrightarrow> rx_data q = b @ rx_data q' \<and> (rx_closed q' \<longleftrightarrow> rx_closed q)"
  by (cases "(n, q)" rule: recv_queue.cases) (auto split: if_splits)

lemma recv_queue_end:
  "recv_queue n q = (Inr [], q') \<Longrightarrow> 0 < n \<Longrightarrow> rx_data q = [] \<and> rx_closed q"
  by (cases "(n, q)" rule: recv_queue.cases) (auto split: if_splits)

lemma recv_queue_closed:
  "rx_closed q \<Longrightarrow> 0 < n \<Longrightarrow> \<exists>b q'. recv_queue n q = (Inr b, q') \<and> (b = [] \<longrightarrow> rx_data q = [])"
  by (cases "(n, q)" rule: recv_queue.cases) (auto split: if_splits)

lemma recv_queue_sub: "recv_queue n q = (r, q') \<Longrightarrow> RxErr e \<in> set q' \<Longrightarrow> RxErr e \<in> set q"
  by (cases "(n, q)" rule: recv_queue.cases) (auto split: if_splits)

lemma recv_queue_error: "recv_queue n q = (Inl e, q') \<Longrightarrow> e = TimeoutError ''timed out'' \<or> RxErr e \<in> set q"
  by (cases "(n, q)" rule: recv_queue.cases) (auto split: if_splits)

lemma now_simps [simp]:
  "fst (now clk s) = clk (ticks s)"
  "inbox (snd (now clk s)) = inbox s" "ticks (snd (now clk s)) = Suc (ticks s)"
  "outbox (snd (now clk s)) = outbox s" "sock_timeout (snd (now clk s)) = sock_timeout s"
  by (simp_all add: now_def)

lemma recv_Inr: "recv n s = (Inr b, s') \<longleftrightarrow>
    (\<exists>q. recv_queue n (inbox s) = (Inr b, q) \<and> s' = s\<lparr>inbox := q\<rparr>)"
  by (auto simp: recv_def split: prod.splits)

section \<open>Bounded readers\<close>

text \<open>The loops that read a response body under a size bound and an absolute deadline share one
  recursion equation, which each source file writes out on its own. The laws of such a loop are
  proved here once.\<close>

locale bounded_reader =
  fixes clk :: clock and maximum :: nat and deadline :: real and late big :: exn
    and loop :: "bytes \<Rightarrow> ('z net_scheme, bytes) act"
  assumes loop_step: "length data \<le> maximum \<Longrightarrow> loop data s =
    (let (t, s1) = now clk s in
     if t \<ge> deadline then (Inl late, s1)
     else case recv (min 65536 (maximum + 1 - length data)) s1 of
       (Inl e, s2) \<Rightarrow> (Inl e, s2)
     | (Inr block, s2) \<Rightarrow>
         if block = [] then (Inr data, s2)
         else if length (data @ block) > maximum then (Inl big, s2)
         else loop (data @ block) s2)"
begin

lemma loop_cases:
  assumes "length data \<le> maximum" "loop data s = (Inr d, s')"
  obtains (stop) q where "clk (ticks s) < deadline" "rx_data (inbox s) = []" "rx_closed (inbox s)" "d = data"
      "s' = s\<lparr>ticks := Suc (ticks s), inbox := q\<rparr>"
  | (more) b s2 where "clk (ticks s) < deadline" "b \<noteq> []" "length (data @ b) \<le> maximum"
      "rx_data (inbox s) = b @ rx_data (inbox s2)" "rx_closed (inbox s2) \<longleftrightarrow> rx_closed (inbox s)"
      "ticks s2 = Suc (ticks s)" "loop (data @ b) s2 = (Inr d, s')"
proof -
  let ?n = "min 65536 (maximum + 1 - length data)"
  have n: "0 < ?n" using assms(1) by simp
  from assms obtain b q where t: "clk (ticks s) < deadline"
    and q: "recv_queue ?n (inbox s) = (Inr b, q)"
    and rest: "(if b = [] then (Inr data, s\<lparr>ticks := Suc (ticks s), inbox := q\<rparr>)
      else if length (data @ b) > maximum then (Inl big, s\<lparr>ticks := Suc (ticks s), inbox := q\<rparr>)
      else loop (data @ b) (s\<lparr>ticks := Suc (ticks s), inbox := q\<rparr>)) = (Inr d, s')"
    by (auto simp: loop_step [OF assms(1)] now_def recv_def Let_def split: if_splits prod.splits sum.splits)
  show thesis
  proof (cases "b = []")
    case True
    with q n rest t show thesis by (intro stop) (auto dest: recv_queue_end)
  next
    case False
    with recv_queue_data [OF q] rest t show thesis by (intro more [of b]) (auto split: if_splits)
  qed
qed

text \<open>A reader touches the clock and the incoming bytes only, and raises its own two errors or one
  of the socket.\<close>

lemma loop_frame:
  "length data \<le> maximum \<Longrightarrow> loop data s = (r, s') \<Longrightarrow>
    (\<exists>n q. s' = s\<lparr>ticks := n, inbox := q\<rparr>) \<and>
    (\<forall>e. r = Inl e \<longrightarrow> e = late \<or> e = big \<or> e = TimeoutError ''timed out'' \<or> RxErr e \<in> set (inbox s))"
proof (induction "maximum - length data" arbitrary: data s rule: less_induct)
  case less
  obtain x q where q: "recv_queue (min 65536 (maximum + 1 - length data)) (inbox s) = (x, q)" by fastforce
  let ?s = "s\<lparr>ticks := Suc (ticks s), inbox := q\<rparr>"
  have sub: "RxErr e \<in> set q \<Longrightarrow> RxErr e \<in> set (inbox s)" for e using recv_queue_sub [OF q] by auto
  have "loop data s = (if clk (ticks s) \<ge> deadline then (Inl late, s\<lparr>ticks := Suc (ticks s)\<rparr>)
     else case x of Inl e \<Rightarrow> (Inl e, ?s)
     | Inr b \<Rightarrow> if b = [] then (Inr data, ?s) else if length (data @ b) > maximum then (Inl big, ?s)
         else loop (data @ b) ?s)"
    using q by (cases x) (simp_all add: loop_step [OF less(2)] now_def recv_def)
  note r = this [unfolded less(3)]
  show ?case
  proof (cases "\<exists>b. x = Inr b \<and> b \<noteq> [] \<and> length (data @ b) \<le> maximum \<and> clk (ticks s) < deadline")
    case True
    then obtain b where b: "x = Inr b" "b \<noteq> []" "length (data @ b) \<le> maximum" "clk (ticks s) < deadline" by blast
    then have l: "loop (data @ b) ?s = (r, s')" using r by simp
    have "maximum - length (data @ b) < maximum - length data" using b by (cases b) auto
    from less(1) [OF this b(3) l] sub show ?thesis by force
  next
    case False
    have tick: "s\<lparr>ticks := Suc (ticks s)\<rparr> = s\<lparr>ticks := Suc (ticks s), inbox := inbox s\<rparr>" by simp
    from False consider (late) "clk (ticks s) \<ge> deadline" | (err) e where "x = Inl e" "\<not> clk (ticks s) \<ge> deadline"
      | (stop) "x = Inr []" "\<not> clk (ticks s) \<ge> deadline"
      | (big) b where "x = Inr b" "b \<noteq> []" "length (data @ b) > maximum" "\<not> clk (ticks s) \<ge> deadline"
      by (cases x) force+
    then show ?thesis
    proof cases
      case late
      then have "r = Inl late" "s' = s\<lparr>ticks := Suc (ticks s)\<rparr>" using r by simp_all
      then show ?thesis using tick by blast
    next
      case err
      then have "r = Inl e" "s' = ?s" using r by simp_all
      then show ?thesis using recv_queue_error [OF q [unfolded err(1)]] by blast
    next
      case stop
      then have "r = Inr data" "s' = ?s" using r by simp_all
      then show ?thesis by blast
    next
      case big
      then have "r = Inl big" "s' = ?s" using r by simp_all
      then show ?thesis by blast
    qed
  qed
qed

text \<open>What a reader returns is within the bound and is all that the peer sent.\<close>

lemma loop_result:
  "length data \<le> maximum \<Longrightarrow> loop data s = (Inr d, s') \<Longrightarrow>
    length d \<le> maximum \<and> d = data @ rx_data (inbox s) \<and> rx_closed (inbox s)"
proof (induction "maximum - length data" arbitrary: data s rule: less_induct)
  case less
  from less(2,3) show ?case
  proof (cases rule: loop_cases)
    case stop
    with less(2) show ?thesis by simp
  next
    case (more b s2)
    then have "maximum - length (data @ b) < maximum - length data" by (cases b) auto
    from less(1) [OF this more(3) more(7)] more(4,5) show ?thesis by auto
  qed
qed

text \<open>It read the clock before every block and never at or after the deadline.\<close>

lemma loop_in_time:
  "length data \<le> maximum \<Longrightarrow> loop data s = (Inr d, s') \<Longrightarrow>
    ticks s < ticks s' \<and> (\<forall>i. ticks s \<le> i \<and> i < ticks s' \<longrightarrow> clk i < deadline)"
proof (induction "maximum - length data" arbitrary: data s rule: less_induct)
  case less
  from less(2,3) show ?case
  proof (cases rule: loop_cases)
    case stop
    then show ?thesis by (auto simp: less_Suc_eq_le)
  next
    case (more b s2)
    then have "maximum - length (data @ b) < maximum - length data" by (cases b) auto
    from less(1) [OF this more(3) more(7)] more(1,6)
    show ?thesis by (metis Suc_leI le_neq_implies_less lessI less_trans)
  qed
qed

text \<open>A body within the bound is returned, whatever the sizes of its blocks, when the clock stays
  short of the deadline; a longer one is refused.\<close>

lemma loop_returns:
  assumes "length data \<le> maximum" "rx_closed (inbox s)" "\<And>i. clk i < deadline"
  shows "fst (loop data s) =
    (if length (data @ rx_data (inbox s)) \<le> maximum then Inr (data @ rx_data (inbox s)) else Inl big)"
  using assms(1,2)
proof (induction "maximum - length data" arbitrary: data s rule: less_induct)
  case less
  let ?n = "min 65536 (maximum + 1 - length data)"
  have n: "0 < ?n" using less(2) by simp
  from recv_queue_closed [OF less(3) n] obtain b q where q: "recv_queue ?n (inbox s) = (Inr b, q)"
    "b = [] \<Longrightarrow> rx_data (inbox s) = []" by auto
  have step: "loop data s = (if b = [] then (Inr data, s\<lparr>ticks := Suc (ticks s), inbox := q\<rparr>)
      else if length (data @ b) > maximum then (Inl big, s\<lparr>ticks := Suc (ticks s), inbox := q\<rparr>)
      else loop (data @ b) (s\<lparr>ticks := Suc (ticks s), inbox := q\<rparr>))"
    using q assms(3) [of "ticks s"] by (simp add: loop_step [OF less(2)] now_def recv_def)
  show ?case
  proof (cases "b = []")
    case True
    with q step less(2) show ?thesis by simp
  next
    case b: False
    note d = recv_queue_data [OF q(1) b]
    show ?thesis
    proof (cases "length (data @ b) \<le> maximum")
      case True
      have "maximum - length (data @ b) < maximum - length data" using b True by (cases b) auto
      from less(1) [OF this True, of "s\<lparr>ticks := Suc (ticks s), inbox := q\<rparr>"] d less(3) step b True
      show ?thesis by simp
    qed (use b d step in simp)
  qed
qed

lemma loop_forward: "length data \<le> maximum \<Longrightarrow> loop data s = (r, s') \<Longrightarrow> ticks s \<le> ticks s'"
proof (induction "maximum - length data" arbitrary: data s rule: less_induct)
  case less
  obtain x q where q: "recv_queue (min 65536 (maximum + 1 - length data)) (inbox s) = (x, q)" by fastforce
  let ?s = "s\<lparr>ticks := Suc (ticks s), inbox := q\<rparr>"
  have "loop data s = (if clk (ticks s) \<ge> deadline then (Inl late, s\<lparr>ticks := Suc (ticks s)\<rparr>)
     else case x of Inl e \<Rightarrow> (Inl e, ?s)
     | Inr b \<Rightarrow> if b = [] then (Inr data, ?s) else if length (data @ b) > maximum then (Inl big, ?s)
         else loop (data @ b) ?s)"
    using q by (cases x) (simp_all add: loop_step [OF less(2)] now_def recv_def)
  note r = this [unfolded less(3)]
  show ?case
  proof (cases "\<exists>b. x = Inr b \<and> b \<noteq> [] \<and> length (data @ b) \<le> maximum \<and> clk (ticks s) < deadline")
    case True
    then obtain b where b: "x = Inr b" "b \<noteq> []" "length (data @ b) \<le> maximum" "clk (ticks s) < deadline" by blast
    then have l: "loop (data @ b) ?s = (r, s')" using r by simp
    have "maximum - length (data @ b) < maximum - length data" using b by (cases b) auto
    from less(1) [OF this b(3) l] show ?thesis by simp
  next
    case False
    with r show ?thesis by (cases x) (auto split: if_splits)
  qed
qed

end

section \<open>Absolute deadlines\<close>

text \<open>A block under \<open>with SocketDeadline(stream, deadline)\<close>. The timer that the class starts runs
  until the deadline, so that its event at the exit implies that the clock has reached it; the
  exit raises over whatever the block did. The exception is the one of the source file.\<close>

definition with_deadline :: "clock \<Rightarrow> exn \<Rightarrow> real \<Rightarrow> ('z net_scheme, 'a) act \<Rightarrow> ('z net_scheme, 'a) act" where
  "with_deadline clk late deadline body s =
     (let (t, s1) = now clk s in
      if deadline - t \<le> 0 then (Inl late, s1)
      else
        let (r, s2) = body (settimeout (deadline - t) s1); (t', s3) = now clk s2 in
        if t' \<ge> deadline then (Inl late, s3) else (r, s3))"

lemma with_deadline_Inr:
  "with_deadline clk late deadline body s = (Inr x, s') \<longleftrightarrow>
     clk (ticks s) < deadline \<and> (\<exists>s2. body (settimeout (deadline - clk (ticks s)) (snd (now clk s))) = (Inr x, s2)
       \<and> clk (ticks s2) < deadline \<and> s' = snd (now clk s2))"
  by (auto simp: with_deadline_def now_def Let_def split: prod.splits if_splits)

lemma with_deadline_Inl:
  "with_deadline clk late deadline body s = (Inl e, s') \<Longrightarrow>
     e = late \<or> (\<exists>s1 s2. body s1 = (Inl e, s2))"
  by (auto simp: with_deadline_def now_def Let_def split: prod.splits if_splits)

section \<open>HTTP clients\<close>

text \<open>One HTTP exchange as the client meets it: whether the connection and the TLS handshake
  succeed, and the reply or the error of \<open>getresponse\<close>. The environment supplies a queue of such
  attempts; with an empty queue the connection is refused. Requests are logged once they are
  written to the connection.\<close>

record http_reply =
  reply_status :: int
  reply_headers :: "(string \<times> string) list"
  reply_body :: "rx list"

record attempt =
  at_connect :: "unit res"
  at_handshake :: "unit res"
  at_reply :: "http_reply res"

record http_request =
  rq_host :: string
  rq_port :: nat
  rq_method :: string
  rq_path :: string
  rq_body :: bytes
  rq_headers :: "string dict"

record web = net +
  attempts :: "attempt list"
  requests :: "http_request list"

definition no_peer :: attempt where
  "no_peer = \<lparr>at_connect = Inl ConnectionRefused, at_handshake = Inr (), at_reply = Inl (OSError ''closed'')\<rparr>"

text \<open>\<open>socket.create_connection\<close>: the next attempt of the environment.\<close>

definition create_connection :: "('z web_scheme, attempt) act" where
  "create_connection s =
     (let (a, rest) = (case attempts s of [] \<Rightarrow> (no_peer, []) | a # rest \<Rightarrow> (a, rest)) in
      (bindr (at_connect a) (\<lambda>_. Inr a), s\<lparr>attempts := rest\<rparr>))"

text \<open>\<open>request\<close> followed by \<open>getresponse\<close>; the body is then read from the connection.\<close>

definition http_exchange :: "attempt \<Rightarrow> http_request \<Rightarrow> ('z web_scheme, http_reply) act" where
  "http_exchange a rq s =
     (let s1 = s\<lparr>requests := requests s @ [rq]\<rparr> in
      case at_reply a of
        Inl e \<Rightarrow> (Inl e, s1)
      | Inr r \<Rightarrow> (Inr r, s1\<lparr>inbox := reply_body r\<rparr>))"

text \<open>A request runs on a connection of its own: the caller's connection is as before
  afterwards.\<close>

definition own_connection :: "('z net_scheme, 'a) act \<Rightarrow> ('z net_scheme, 'a) act" where
  "own_connection m s =
     (let (r, s') = m s in (r, s'\<lparr>inbox := inbox s, sock_timeout := sock_timeout s\<rparr>))"

text \<open>\<open>response.getheader(name)\<close>: the values of the headers of that name, in any case of letters,
  joined by commas.\<close>

definition getheader :: "http_reply \<Rightarrow> string \<Rightarrow> string option" where
  "getheader r name =
     (case map snd (filter (\<lambda>(k, v). lower k = lower name) (reply_headers r)) of
        [] \<Rightarrow> None | vs \<Rightarrow> Some (join_with '', '' vs))"

text \<open>An environment whose errors are all of a class: what the connection attempts and the bodies
  may raise.\<close>

definition attempt_sane :: "(exn \<Rightarrow> bool) \<Rightarrow> attempt \<Rightarrow> bool" where
  "attempt_sane p a \<longleftrightarrow> (\<forall>e. at_connect a = Inl e \<longrightarrow> p e) \<and> (\<forall>e. at_handshake a = Inl e \<longrightarrow> p e)
     \<and> (\<forall>e. at_reply a = Inl e \<longrightarrow> p e)
     \<and> (\<forall>r. at_reply a = Inr r \<longrightarrow> (\<forall>e. RxErr e \<in> set (reply_body r) \<longrightarrow> p e))"

definition web_sane :: "(exn \<Rightarrow> bool) \<Rightarrow> 'z web_scheme \<Rightarrow> bool" where
  "web_sane p s \<longleftrightarrow> (\<forall>a \<in> set (attempts s). attempt_sane p a)"

lemma create_connection_Inr:
  assumes "create_connection s = (Inr a, s')"
  shows "\<exists>rest. attempts s = a # rest \<and> s' = s\<lparr>attempts := rest\<rparr>" "at_connect a = Inr ()"
  using assms by (auto simp: create_connection_def no_peer_def split: list.splits)

lemma create_connection_Inl:
  assumes "create_connection s = (Inl e, s')" "web_sane p s" "p ConnectionRefused"
  shows "p e"
  using assms by (auto simp: create_connection_def no_peer_def web_sane_def attempt_sane_def bindr_eq_Inl
      split: list.splits)

lemma create_connection_frame:
  "create_connection s = (r, s') \<Longrightarrow> requests s' = requests s \<and> (web_sane p s \<longrightarrow> web_sane p s')"
  by (auto simp: create_connection_def web_sane_def split: list.splits)

section \<open>The clock moves forward\<close>

text \<open>An action is forward when it never sets the count of clock readings back.\<close>

definition forward :: "('z net_scheme, 'a) act \<Rightarrow> bool" where
  "forward m \<longleftrightarrow> (\<forall>s r s'. m s = (r, s') \<longrightarrow> ticks s \<le> ticks s')"

named_theorems forward_intros

lemma forwardD: "forward m \<Longrightarrow> m s = (r, s') \<Longrightarrow> ticks s \<le> ticks s'"
  by (simp add: forward_def)

lemma forward_bind [forward_intros]: "forward m \<Longrightarrow> (\<And>x. forward (f x)) \<Longrightarrow> forward (bind_act m f)"
  unfolding forward_def bind_act_def by (fastforce split: prod.splits sum.splits dest: le_trans)

lemma forward_lift [forward_intros]: "forward (lift_res r)"
  by (simp add: forward_def lift_res_def)

lemma forward_create [forward_intros]: "forward create_connection"
  by (auto simp: forward_def create_connection_def split: list.splits)

lemma forward_exchange [forward_intros]: "forward (http_exchange a rq)"
  by (auto simp: forward_def http_exchange_def Let_def split: sum.splits)

lemma forward_own [forward_intros]: "forward m \<Longrightarrow> forward (own_connection m)"
  by (fastforce simp: forward_def own_connection_def split: prod.splits)

lemma forward_deadline [forward_intros]: "forward m \<Longrightarrow> forward (with_deadline clk late deadline m)"
  unfolding forward_def with_deadline_def now_def settimeout_def
  by (fastforce simp: Let_def split: prod.splits if_splits)

section \<open>What a request leaves alone\<close>

text \<open>An action that changes the fields of the network only.\<close>

definition web_framed :: "('z web_scheme, 'a) act \<Rightarrow> bool" where
  "web_framed m \<longleftrightarrow> (\<forall>s r s'. m s = (r, s') \<longrightarrow> web.more s' = web.more s)"

named_theorems framed_intros

lemma framed_bind [framed_intros]: "web_framed m \<Longrightarrow> (\<And>x. web_framed (f x)) \<Longrightarrow> web_framed (bind_act m f)"
  unfolding web_framed_def bind_act_def by (fastforce split: prod.splits sum.splits)

lemma framed_basic [framed_intros]: "web_framed (lift_res r)" "web_framed (ret_act x)" "web_framed create_connection"
  "web_framed (http_exchange a rq)"
  by (auto simp: web_framed_def lift_res_def ret_act_def create_connection_def http_exchange_def Let_def
      split: list.splits sum.splits)

lemma framed_own [framed_intros]: "web_framed m \<Longrightarrow> web_framed (own_connection m)"
  by (fastforce simp: web_framed_def own_connection_def split: prod.splits)

lemma framed_catch [framed_intros]: "web_framed m \<Longrightarrow> (\<And>e. web_framed (h e)) \<Longrightarrow> web_framed (catch_act P h m)"
  unfolding web_framed_def catch_act_def by (fastforce split: prod.splits sum.splits if_splits)

lemma framed_now:
  assumes "\<And>t. web_framed (m t)"
  shows "web_framed (\<lambda>s. case now clk s of (t, s1) \<Rightarrow> m t s1)"
  unfolding web_framed_def now_def
proof (intro allI impI)
  fix s r s'
  assume "(case (clk (ticks s), s\<lparr>ticks := Suc (ticks s)\<rparr>) of (t, s1) \<Rightarrow> m t s1) = (r, s')"
  then have "m (clk (ticks s)) (s\<lparr>ticks := Suc (ticks s)\<rparr>) = (r, s')" by simp
  with assms [of "clk (ticks s)"] show "web.more s' = web.more s" unfolding web_framed_def by fastforce
qed

lemma framed_raise [framed_intros]: "web_framed (raise_act e)"
  by (simp add: web_framed_def)

end
