(* ===== verification/Telemetry_Spans.thy ===== *)
theory Telemetry_Spans
  imports Json_Laws Transaction_Id Socket_Io
begin

text \<open>
  Spans of \<open>ccf/telemetry.py\<close>: the allowlists, the decoder of native span datagrams and the link
  cache. The OpenTelemetry SDK is not part of the sources. A span context is the value the SDK
  gives for an identity (the argument \<open>mk_context\<close>), with the attributes that the code reads.
\<close>

section \<open>Allowlists\<close>

definition MAX_DATAGRAM :: nat where "MAX_DATAGRAM = 60000"
definition MAX_LINKS :: nat where "MAX_LINKS = 8"

definition NATIVE_NAMES :: "string list" where
  "NATIVE_NAMES = [''ccf.request'', ''ccf.commit.wait'', ''ccf.receipt'',
     ''adns.application'', ''adns.request.parse'', ''adns.auth.signature'',
     ''adns.auth.idempotency'', ''adns.auth.nonce'', ''adns.auth.grant'',
     ''adns.attest.appraise'', ''adns.attest.cose'', ''adns.attest.amd_chain'',
     ''adns.attest.snp_report'', ''adns.attest.uvm'', ''adns.attest.key_binding'',
     ''adns.admission'', ''adns.dnssec.sign'', ''adns.storage.stage'', ''adns.read'',
     ''adns.maintenance'', ''adns.transfer'', ''adns.secondary.requests'',
     ''adns.secondary.response'', ''adns.dns.query'', ''adns.transfer.provision'',
     ''adns.receipt.claims'']"

definition APP_ROUTES :: "string list" where
  "APP_ROUTES = [''/service/nonce'', ''/service/register'', ''/service/renew'', ''/service/deregister'',
     ''/service/registration'', ''/service/request'', ''/zone/acme-challenge'',
     ''/zone/operator/records'', ''/zone/status'', ''/governance/ksk-receipt'', ''/dns-query'',
     ''/internal/maintenance'', ''/internal/secondary/requests'', ''/internal/secondary/response'',
     ''/internal/axfr'', ''/internal/udp'', ''/internal/transfer-key'']"

definition ROUTES :: "string list" where
  "ROUTES = APP_ROUTES @ map (\<lambda>route. ''/app'' @ route) APP_ROUTES @ [''/node/state'']"

definition STRING_ENUMS :: "string list dict" where
  "STRING_ENUMS = [(''http.request.method'', [''GET'', ''POST'', ''DELETE'']),
     (''agentdns.outcome'', [''committed'', ''rejected'', ''invalid'', ''receipt_error''])]"

definition INTEGER_ATTRIBUTES :: "(int \<times> int) dict" where
  "INTEGER_ATTRIBUTES = [(''http.response.status_code'', (100, 599)),
     (''dns.zone.serial'', (0, 2 ^ 32 - 1)), (''dns.record.count'', (0, 2 ^ 31 - 1)),
     (''agentdns.telemetry.dropped_batches'', (0, 2 ^ 63 - 1))]"

definition TX_ATTRIBUTES :: "string list" where
  "TX_ATTRIBUTES = [''ccf.transaction_id'', ''ccf.observation_transaction_id'']"

definition ERROR_TYPES :: "string list" where
  "ERROR_TYPES = [''OSError'', ''TimeoutError'', ''Timeout'', ''ValueError'', ''RuntimeError'',
     ''EOFError'', ''HTTPException'', ''SSLError'', ''ConnectionError'', ''RemoteDisconnected'',
     ''IncompleteRead'', ''BrokenPipeError'', ''ConnectionResetError'', ''ConnectionRefusedError'']"

definition DRIVER_NAMES :: "string list" where
  "DRIVER_NAMES = [''driver.ccf.request'', ''driver.ccf.commit_wait'', ''driver.lifecycle.poll'',
     ''driver.secondary.requests'', ''driver.secondary.exchange'', ''driver.secondary.response'',
     ''driver.dns.axfr'', ''driver.dns.udp'']"

lemmas [limit_defs] = MAX_DATAGRAM_def MAX_LINKS_def

section \<open>Typed attributes\<close>

definition hex_id :: "json \<Rightarrow> nat \<Rightarrow> nat res" where
  "hex_id value n =
     (case value of
        JStr s \<Rightarrow>
          if length s = n \<and> list_all is_lower_hex s \<and> hex_nat s \<noteq> 0 then Inr (hex_nat s)
          else Inl (ValueError ''invalid span identity'')
      | _ \<Rightarrow> Inl (ValueError ''invalid span identity''))"

definition zone_label :: "string \<Rightarrow> bool" where
  "zone_label l \<longleftrightarrow> 1 \<le> length l \<and> length l \<le> 63
     \<and> list_all (\<lambda>c. is_lower c \<or> is_digit c \<or> c = CHR ''_'' \<or> c = CHR ''-'') l"

definition zone_ok :: "json \<Rightarrow> bool" where
  "zone_ok value =
     (case value of
        JStr s \<Rightarrow> str_len s \<le> 255 \<and> endswith s ''.'' \<and> list_all zone_label (split_on (CHR ''.'') (butlast s))
      | _ \<Rightarrow> False)"

definition str_in :: "json \<Rightarrow> string list \<Rightarrow> bool" where
  "str_in value allowed = (case value of JStr s \<Rightarrow> s \<in> set allowed | _ \<Rightarrow> False)"

definition int_in :: "json \<Rightarrow> int \<times> int \<Rightarrow> bool" where
  "int_in value bounds = (case value of JInt i \<Rightarrow> fst bounds \<le> i \<and> i \<le> snd bounds | _ \<Rightarrow> False)"

text \<open>The test of one key of \<open>_attributes\<close>.\<close>

definition attribute_ok :: "string \<Rightarrow> json \<Rightarrow> bool" where
  "attribute_ok key value =
     (case map_of INTEGER_ATTRIBUTES key of
        Some bounds \<Rightarrow> int_in value bounds
      | None \<Rightarrow>
          (case map_of STRING_ENUMS key of
             Some allowed \<Rightarrow> str_in value allowed
           | None \<Rightarrow>
               if key = ''http.route'' then str_in value ROUTES
               else if key \<in> set TX_ATTRIBUTES
               then (case value of JStr s \<Rightarrow> canonical_transaction (Some s) | _ \<Rightarrow> False)
               else if key = ''dns.zone'' then zone_ok value
               else False))"

definition span_attributes :: "json \<Rightarrow> json dict res" where
  "span_attributes vals =
     (case vals of
        JDict d \<Rightarrow>
          if length d > 16 then Inl (ValueError ''attribute map exceeds bound'')
          else if \<not> list_all (\<lambda>(key, value). attribute_ok key value) d
          then Inl (ValueError ''attribute is not an allowed typed value'')
          else Inr d
      | _ \<Rightarrow> Inl (ValueError ''attribute map exceeds bound''))"

definition driver_attribute_ok :: "string \<Rightarrow> json \<Rightarrow> bool" where
  "driver_attribute_ok key value =
     (if key \<in> {''http.route'', ''http.request.method'', ''http.response.status_code'', ''ccf.transaction_id'',
                ''dns.zone'', ''dns.zone.serial''}
      then (case span_attributes (JDict [(key, value)]) of Inr _ \<Rightarrow> True | Inl _ \<Rightarrow> False)
      else if key \<in> {''agentdns.committed'', ''agentdns.rejected''}
      then (case value of JBool _ \<Rightarrow> True | _ \<Rightarrow> False)
      else if key = ''agentdns.work.kind'' then str_in value [''soa'', ''notify'']
      else if key = ''agentdns.work.id''
      then (case value of JStr s \<Rightarrow> length s = 32 \<and> list_all is_lower_hex s | _ \<Rightarrow> False)
      else if key \<in> {''agentdns.queue.depth'', ''agentdns.queue.age_ms'', ''agentdns.transfer.bytes'',
                     ''agentdns.transfer.frames''}
      then int_in value (0, 2 ^ 63 - 1)
      else if key = ''network.transport'' then str_in value [''tcp'', ''udp'']
      else if key = ''error.type'' then str_in value ERROR_TYPES
      else False)"

fun driver_attributes :: "json dict \<Rightarrow> json dict \<Rightarrow> json dict" where
  "driver_attributes [] safe = safe"
| "driver_attributes ((key, value) # vals) safe =
     (let safe' = (if driver_attribute_ok key value then AList.update key value safe else safe) in
      if length safe' = 16 then safe' else driver_attributes vals safe')"

section \<open>Native spans\<close>

record span_context =
  trace_id :: nat
  span_id :: nat
  trace_flags :: nat
  is_valid :: bool

record native_span =
  ns_name :: string
  ns_context :: span_context
  ns_parent :: "span_context option"
  ns_attributes :: "json dict"
  ns_links :: "span_context list"
  ns_kind :: string
  ns_status :: string
  ns_start :: int
  ns_end :: int

definition native_hooks :: json_hooks where
  "native_hooks =
     \<lparr>pairs_hook = (\<lambda>ps. bindr (unique_pairs ''duplicate native span field'' [] ps) (\<lambda>d. Inr (JDict d))),
      float_hook = (\<lambda>t. Inr (JFloat t)),
      const_hook = (\<lambda>_. Inl (ValueError ''nonfinite JSON''))\<rparr>"

definition native_fields :: "string list" where
  "native_fields = [''v'', ''trace_id'', ''span_id'', ''parent_span_id'', ''name'', ''kind'',
     ''start_unix_nanos'', ''end_unix_nanos'', ''status'', ''attributes'', ''links'']"

definition span_kinds :: "string dict" where
  "span_kinds = [(''internal'', ''INTERNAL''), (''server'', ''SERVER''), (''client'', ''CLIENT''),
     (''producer'', ''PRODUCER''), (''consumer'', ''CONSUMER'')]"

definition span_statuses :: "string dict" where
  "span_statuses = [(''unset'', ''UNSET''), (''ok'', ''OK''), (''error'', ''ERROR'')]"

definition enum_lookup :: "string dict \<Rightarrow> json \<Rightarrow> string option" where
  "enum_lookup table value = (case value of JStr s \<Rightarrow> map_of table s | _ \<Rightarrow> None)"

definition decode_link :: "(nat \<Rightarrow> nat \<Rightarrow> nat \<Rightarrow> span_context) \<Rightarrow> json \<Rightarrow> span_context res" where
  "decode_link mk_context item =
     (case item of
        JDict d \<Rightarrow>
          if \<not> same_keys d [''trace_id'', ''span_id''] then Inl (ValueError ''invalid span link'')
          else
            bindr (dict_index d ''trace_id'') (\<lambda>t. bindr (hex_id t 32) (\<lambda>tid.
            bindr (dict_index d ''span_id'') (\<lambda>sp. bindr (hex_id sp 16) (\<lambda>sid.
              Inr (mk_context tid sid 1)))))
      | _ \<Rightarrow> Inl (ValueError ''invalid span link''))"

text \<open>The end of \<open>decode_native\<close>: identities, links and attributes of an object whose fields are
  all present.\<close>

definition decode_identity ::
    "(nat \<Rightarrow> nat \<Rightarrow> nat \<Rightarrow> span_context) \<Rightarrow> json dict \<Rightarrow> (span_context \<times> span_context option) res" where
  "decode_identity mk_context d =
     bindr (dict_index d ''trace_id'') (\<lambda>t.
     bindr (hex_id t 32) (\<lambda>tid.
     bindr (dict_index d ''span_id'') (\<lambda>sp.
     bindr (hex_id sp 16) (\<lambda>sid.
     bindr (dict_index d ''parent_span_id'') (\<lambda>p.
       if p = JNull then Inr (mk_context tid sid 1, None)
       else bindr (hex_id p 16) (\<lambda>pid. Inr (mk_context tid sid 1, Some (mk_context tid pid 1))))))))"

definition decode_links :: "(nat \<Rightarrow> nat \<Rightarrow> nat \<Rightarrow> span_context) \<Rightarrow> json \<Rightarrow> span_context list res" where
  "decode_links mk_context value =
     (case value of
        JList items \<Rightarrow>
          if length items > MAX_LINKS then Inl (ValueError ''links exceed bound'')
          else map_res (decode_link mk_context) items
      | _ \<Rightarrow> Inl (ValueError ''links exceed bound''))"

definition span_times :: "json \<Rightarrow> json \<Rightarrow> (int \<times> int) res" where
  "span_times start_value end_value =
     (case (start_value, end_value) of
        (JInt start, JInt stop) \<Rightarrow>
          if 0 < start \<and> start \<le> stop \<and> stop < 2 ^ 63 \<and> stop - start \<le> 3600 * 10 ^ 9 then Inr (start, stop)
          else Inl (ValueError ''span time outside bounds'')
      | _ \<Rightarrow> Inl (ValueError ''span time outside bounds''))"

definition decode_fields ::
    "(nat \<Rightarrow> nat \<Rightarrow> nat \<Rightarrow> span_context) \<Rightarrow> json dict \<Rightarrow> native_span res" where
  "decode_fields mk_context d =
     bindr (dict_index d ''v'') (\<lambda>v.
     if v \<noteq> JInt 1 then Inl (ValueError ''native span schema mismatch'')
     else bindr (dict_index d ''name'') (\<lambda>name.
     if \<not> str_in name NATIVE_NAMES then Inl (ValueError ''unknown native operation'')
     else bindr (dict_index d ''kind'') (\<lambda>kind. bindr (dict_index d ''status'') (\<lambda>status.
     case (name, enum_lookup span_kinds kind, enum_lookup span_statuses status) of
       (JStr nm, Some k, Some st) \<Rightarrow>
         bindr (dict_index d ''start_unix_nanos'') (\<lambda>start_value.
         bindr (dict_index d ''end_unix_nanos'') (\<lambda>end_value.
         bindr (span_times start_value end_value) (\<lambda>(start, stop).
         bindr (decode_identity mk_context d) (\<lambda>(context, parent).
         bindr (dict_index d ''links'') (\<lambda>links_value.
         bindr (decode_links mk_context links_value) (\<lambda>links.
         bindr (dict_index d ''attributes'') (\<lambda>attributes_value.
         bindr (span_attributes attributes_value) (\<lambda>attributes.
           Inr \<lparr>ns_name = nm, ns_context = context, ns_parent = parent, ns_attributes = attributes,
                ns_links = links, ns_kind = k, ns_status = st, ns_start = start, ns_end = stop\<rparr>))))))))
     | _ \<Rightarrow> Inl (ValueError ''unknown span enum'')))))"

definition decode_native ::
    "nat \<Rightarrow> (nat \<Rightarrow> nat \<Rightarrow> nat \<Rightarrow> span_context) \<Rightarrow> bytes \<Rightarrow> native_span res" where
  "decode_native depth mk_context data =
     (if length data > MAX_DATAGRAM then Inl (ValueError ''native span datagram exceeds bound'')
      else bindr (json_loads depth native_hooks data) (\<lambda>value.
        case value of
          JDict d \<Rightarrow>
            if \<not> same_keys d native_fields then Inl (ValueError ''native span schema mismatch'')
            else decode_fields mk_context d
        | _ \<Rightarrow> Inl (ValueError ''native span schema mismatch'')))"

section \<open>The link cache\<close>

datatype link_key = ZoneSerial string int | Work string | ObservedZone string

record link_cache =
  cache_maximum :: nat
  cache_lifetime :: real
  cache_rows :: "(link_key \<times> real \<times> span_context) list"

definition new_cache :: link_cache where
  "new_cache = \<lparr>cache_maximum = 256, cache_lifetime = 600, cache_rows = []\<rparr>"

text \<open>\<open>put\<close> with the reading of the clock as an argument: the row moves to the end, and the oldest
  rows leave while there are too many.\<close>

definition cache_put :: "real \<Rightarrow> link_key \<Rightarrow> span_context option \<Rightarrow> link_cache \<Rightarrow> link_cache" where
  "cache_put t key context c =
     (case context of
        None \<Rightarrow> c
      | Some ctx \<Rightarrow>
          if \<not> is_valid ctx then c
          else
            let rows = AList.delete key (cache_rows c) @ [(key, t, ctx)] in
            c\<lparr>cache_rows := drop (length rows - cache_maximum c) rows\<rparr>)"

definition cache_get :: "real \<Rightarrow> link_key \<Rightarrow> link_cache \<Rightarrow> span_context option \<times> link_cache" where
  "cache_get t key c =
     (case map_of (cache_rows c) key of
        None \<Rightarrow> (None, c)
      | Some (t0, ctx) \<Rightarrow>
          if t - t0 > cache_lifetime c then (None, c\<lparr>cache_rows := AList.delete key (cache_rows c)\<rparr>)
          else (Some ctx, c))"

section \<open>Laws of the decoder\<close>

interpretation native_json: strict_hook native_hooks
  by unfold_locales (auto simp: native_hooks_def unique_pairs_eq)

lemma hooks_exn_native: "hooks_exn native_hooks"
  by (auto simp: hooks_exn_def native_hooks_def unique_pairs_eq split: if_splits)

definition attributes_ok :: "json dict \<Rightarrow> bool" where
  "attributes_ok d \<longleftrightarrow> length d \<le> 16 \<and> list_all (\<lambda>(key, value). attribute_ok key value) d"

lemma span_attributes_Inr: "span_attributes v = Inr d \<longleftrightarrow> v = JDict d \<and> attributes_ok d"
  by (cases v) (auto simp: span_attributes_def attributes_ok_def)

lemma span_attributes_error [exn_rules]: "span_attributes v = Inl e \<Longrightarrow> is_ValueError e"
  by (cases v) (auto simp: span_attributes_def split: if_splits)

lemma is_hex_lower: "is_lower_hex c \<Longrightarrow> hex_val c < 16"
  by (auto simp: is_lower_hex_def is_digit_def hex_val_def)

lemma hex_nat_less: "list_all is_lower_hex s \<Longrightarrow> hex_nat s < 16 ^ length s"
proof (induction s rule: rev_induct)
  case (snoc c s)
  have "hex_nat (s @ [c]) = 16 * hex_nat s + hex_val c" by (simp add: hex_nat_def)
  moreover have "hex_val c < 16" "hex_nat s < 16 ^ length s" using snoc by (simp_all add: is_hex_lower)
  ultimately show ?case by simp
qed (simp add: hex_nat_def)

lemma hex_id_bounds: "hex_id v n = Inr i \<Longrightarrow> 0 < i \<and> i < 16 ^ n"
  using hex_nat_less by (auto simp: hex_id_def split: json.splits if_splits)

lemma hex_id_error [exn_rules]: "hex_id v n = Inl e \<Longrightarrow> is_ValueError e"
  by (auto simp: hex_id_def split: json.splits if_splits)

text \<open>A context that stands for a nonzero 128-bit trace and a nonzero 64-bit span.\<close>

definition context_ok :: "(nat \<Rightarrow> nat \<Rightarrow> nat \<Rightarrow> span_context) \<Rightarrow> span_context \<Rightarrow> bool" where
  "context_ok mk_context c \<longleftrightarrow> (\<exists>t i. c = mk_context t i 1 \<and> 0 < t \<and> t < 2 ^ 128 \<and> 0 < i \<and> i < 2 ^ 64)"

lemma context_okI: "hex_id v 32 = Inr t \<Longrightarrow> hex_id w 16 = Inr i \<Longrightarrow> context_ok mk_context (mk_context t i (Suc 0))"
  using hex_id_bounds [of v 32 t] hex_id_bounds [of w 16 i] by (auto simp: context_ok_def)

lemma decode_link_ok: "decode_link mk_context v = Inr c \<Longrightarrow> context_ok mk_context c"
  by (cases v) (auto simp: decode_link_def split: if_splits intro: context_okI)

lemma decode_links_ok:
  "decode_links mk_context v = Inr cs \<Longrightarrow> length cs \<le> MAX_LINKS \<and> list_all (context_ok mk_context) cs"
  by (cases v) (auto simp: decode_links_def map_res_Inr list_all2_conv_all_nth list_all_length
      split: if_splits intro: decode_link_ok)

lemma decode_identity_ok:
  "decode_identity mk_context d = Inr (c, p) \<Longrightarrow>
   context_ok mk_context c \<and> (\<forall>c'. p = Some c' \<longrightarrow> context_ok mk_context c')"
  by (auto simp: decode_identity_def split: if_splits intro: context_okI)

definition native_ok :: "(nat \<Rightarrow> nat \<Rightarrow> nat \<Rightarrow> span_context) \<Rightarrow> native_span \<Rightarrow> bool" where
  "native_ok mk_context sp \<longleftrightarrow>
     ns_name sp \<in> set NATIVE_NAMES \<and> context_ok mk_context (ns_context sp)
     \<and> (\<forall>p. ns_parent sp = Some p \<longrightarrow> context_ok mk_context p)
     \<and> attributes_ok (ns_attributes sp) \<and> dict_ok (ns_attributes sp)
     \<and> length (ns_links sp) \<le> MAX_LINKS \<and> list_all (context_ok mk_context) (ns_links sp)
     \<and> 0 < ns_start sp \<and> ns_start sp \<le> ns_end sp \<and> ns_end sp < 2 ^ 63
     \<and> ns_end sp - ns_start sp \<le> 3600 * 10 ^ 9"

lemma span_times_Inr: "span_times v w = Inr (a, b) \<Longrightarrow>
   0 < a \<and> a \<le> b \<and> b < 2 ^ 63 \<and> b - a \<le> 3600 * 10 ^ 9"
  by (cases v; cases w) (auto simp: span_times_def split: if_splits)

lemma decode_fields_cases:
  assumes "decode_fields mk_context d = Inr sp"
  obtains nm start_value end_value links_value attributes_value where
    "map_of d ''name'' = Some (JStr nm)" "nm \<in> set NATIVE_NAMES"
    "span_times start_value end_value = Inr (ns_start sp, ns_end sp)"
    "decode_identity mk_context d = Inr (ns_context sp, ns_parent sp)"
    "decode_links mk_context links_value = Inr (ns_links sp)"
    "map_of d ''attributes'' = Some attributes_value"
    "span_attributes attributes_value = Inr (ns_attributes sp)" "ns_name sp = nm"
proof -
  from assms obtain name kind status where n: "map_of d ''name'' = Some name" "str_in name NATIVE_NAMES"
    "map_of d ''kind'' = Some kind" "map_of d ''status'' = Some status"
    by (auto simp: decode_fields_def split: if_splits)
  then obtain nm where nm: "name = JStr nm" "nm \<in> set NATIVE_NAMES"
    by (cases name) (auto simp: str_in_def)
  from assms n nm obtain k st where "enum_lookup span_kinds kind = Some k" "enum_lookup span_statuses status = Some st"
    by (auto simp: decode_fields_def split: if_splits option.splits)
  with assms n nm that show thesis
    by (auto simp: decode_fields_def split: if_splits)
qed

lemma decode_fields_ok:
  assumes "decode_fields mk_context d = Inr sp" "json_wf (JDict d)"
  shows "native_ok mk_context sp"
  using assms(1)
proof (cases rule: decode_fields_cases)
  case (1 nm start_value end_value links_value attributes_value)
  have a: "attributes_value = JDict (ns_attributes sp)" "attributes_ok (ns_attributes sp)"
    using 1 by (auto simp: span_attributes_Inr)
  have "json_wf attributes_value"
    using assms(2) 1(6) by (auto dest!: map_of_SomeD)
  then have "dict_ok (ns_attributes sp)" using a by (simp add: dict_ok_def)
  with 1 a decode_identity_ok [OF 1(4)] decode_links_ok [OF 1(5)] span_times_Inr [OF 1(3)]
  show ?thesis by (simp add: native_ok_def)
qed

lemma decode_native_cases:
  assumes "decode_native depth mk_context data = Inr sp"
  obtains d where "json_loads depth native_hooks data = Inr (JDict d)" "same_keys d native_fields"
    "decode_fields mk_context d = Inr sp" "length data \<le> MAX_DATAGRAM"
proof -
  from assms obtain v where v: "json_loads depth native_hooks data = Inr v" "length data \<le> MAX_DATAGRAM"
    by (auto simp: decode_native_def split: if_splits)
  with assms that show thesis by (cases v) (auto simp: decode_native_def split: if_splits)
qed

lemma decode_native_ok: "decode_native depth mk_context data = Inr sp \<Longrightarrow> native_ok mk_context sp"
  by (erule decode_native_cases) (metis decode_fields_ok native_json.loads_wf)

text \<open>Every refusal is of a class that the receiver catches.\<close>

lemma span_times_error [exn_rules]: "span_times v w = Inl e \<Longrightarrow> is_ValueError e"
  by (cases v; cases w) (auto simp: span_times_def split: if_splits)

lemma decode_link_error [exn_rules]: "decode_link mk_context v = Inl e \<Longrightarrow> is_ValueError e"
proof (cases "\<exists>d. v = JDict d \<and> same_keys d [''trace_id'', ''span_id'']")
  case True
  then obtain d where d: "v = JDict d" "same_keys d [''trace_id'', ''span_id'']" by blast
  obtain t i where "map_of d ''trace_id'' = Some t" "map_of d ''span_id'' = Some i"
    using same_keys_lookup [OF d(2)] by fastforce
  then show "decode_link mk_context v = Inl e \<Longrightarrow> is_ValueError e"
    using d by (auto simp: decode_link_def dict_index_def bindr_eq_Inl dest: hex_id_error)
qed (auto simp: decode_link_def split: json.splits if_splits)

lemma map_res_error: "map_res f xs = Inl e \<Longrightarrow> \<exists>x \<in> set xs. f x = Inl e"
  by (induction xs) (auto simp: bindr_eq_Inl)

lemma decode_links_error [exn_rules]: "decode_links mk_context v = Inl e \<Longrightarrow> is_ValueError e"
  by (cases v) (auto simp: decode_links_def split: if_splits dest!: map_res_error decode_link_error)

lemma native_fields_index: "same_keys d native_fields \<Longrightarrow> k \<in> set native_fields \<Longrightarrow> dict_index d k \<noteq> Inl e"
  using same_keys_lookup by (fastforce simp: dict_index_def)

lemma decode_identity_error [exn_rules]:
  "same_keys d native_fields \<Longrightarrow> decode_identity mk_context d = Inl e \<Longrightarrow> is_ValueError e"
  using native_fields_index [of d]
  by (auto simp: decode_identity_def native_fields_def bindr_eq_Inl split: if_splits dest: hex_id_error)

lemma decode_fields_error [exn_rules]:
  assumes keys: "same_keys d native_fields" and e: "decode_fields mk_context d = Inl e"
  shows "is_ValueError e"
proof -
  have ex: "\<exists>v. map_of d k = Some v" if "k \<in> set native_fields" for k
    using same_keys_lookup [OF keys that] .
  have "''v'' \<in> set native_fields" "''name'' \<in> set native_fields" "''kind'' \<in> set native_fields"
    "''status'' \<in> set native_fields" "''start_unix_nanos'' \<in> set native_fields"
    "''end_unix_nanos'' \<in> set native_fields" "''links'' \<in> set native_fields" "''attributes'' \<in> set native_fields"
    by (simp_all add: native_fields_def)
  from this [THEN ex] obtain v name kind status start stop links attrs where
    vs: "map_of d ''v'' = Some v" "map_of d ''name'' = Some name" "map_of d ''kind'' = Some kind"
      "map_of d ''status'' = Some status" "map_of d ''start_unix_nanos'' = Some start"
      "map_of d ''end_unix_nanos'' = Some stop" "map_of d ''links'' = Some links"
      "map_of d ''attributes'' = Some attrs" by blast
  note eval = decode_fields_def dict_index_def vs
  show ?thesis
  proof (cases "v = JInt 1 \<and> str_in name NATIVE_NAMES")
    case False
    with e show ?thesis by (auto simp: eval split: if_splits)
  next
    case True
    then obtain nm where nm: "name = JStr nm" by (cases name) (auto simp: str_in_def)
    have id: "is_ValueError e" if "decode_identity mk_context d = Inl e"
      using decode_identity_error [OF keys that] .
    show ?thesis
      by (cases "enum_lookup span_kinds kind"; cases "enum_lookup span_statuses status")
        (use e True nm id in \<open>auto simp: eval bindr_eq_Inl
          dest: span_times_error decode_links_error span_attributes_error\<close>)
  qed
qed

lemma decode_native_error [exn_rules]:
  assumes "decode_native depth mk_context data = Inl e"
  shows "is_ValueError e \<or> e = RecursionError"
proof (cases "json_loads depth native_hooks data")
  case (Inl x)
  with assms json_loads_error [OF hooks_exn_native Inl] show ?thesis
    by (auto simp: decode_native_def split: if_splits)
next
  case (Inr v)
  with assms decode_fields_error show ?thesis
    by (cases v) (auto simp: decode_native_def split: if_splits)
qed

section \<open>Laws of the driver's attributes\<close>

definition driver_attributes_ok :: "json dict \<Rightarrow> bool" where
  "driver_attributes_ok d \<longleftrightarrow>
     length d \<le> 16 \<and> dict_ok d \<and> list_all (\<lambda>(key, value). driver_attribute_ok key value) d"

lemma driver_attributes_inv:
  "driver_attributes_ok safe \<Longrightarrow> length safe < 16 \<Longrightarrow> driver_attributes_ok (driver_attributes vals safe)"
proof (induction vals safe rule: driver_attributes.induct)
  case (2 key v vals safe)
  let ?safe = "if driver_attribute_ok key v then AList.update key v safe else safe"
  have len: "length ?safe \<le> 16" using 2(3) length_update_le [of key v safe] by simp
  then have ok: "driver_attributes_ok ?safe"
    using 2(2) by (auto simp: driver_attributes_ok_def list_all_update)
  show ?case
  proof (cases "length ?safe = 16")
    case True
    with ok show ?thesis by simp
  next
    case False
    with len have "length ?safe < 16" by simp
    from 2(1) [OF refl False ok this] False show ?thesis by simp
  qed
qed simp

lemma driver_attributes_safe: "driver_attributes_ok (driver_attributes vals [])"
  by (rule driver_attributes_inv) (simp_all add: driver_attributes_ok_def dict_ok_def)

section \<open>Laws of the link cache\<close>

definition cache_inv :: "link_cache \<Rightarrow> bool" where
  "cache_inv c \<longleftrightarrow> length (cache_rows c) \<le> cache_maximum c \<and> distinct (map fst (cache_rows c))"

text \<open>A run of the cache: the operations with the readings of the clock, the oldest first.\<close>

datatype cache_op = CPut link_key "span_context option" | CGet link_key

fun cache_step :: "real \<times> cache_op \<Rightarrow> link_cache \<Rightarrow> link_cache" where
  "cache_step (t, CPut key context) c = cache_put t key context c"
| "cache_step (t, CGet key) c = snd (cache_get t key c)"

definition cache_run :: "(real \<times> cache_op) list \<Rightarrow> link_cache \<Rightarrow> link_cache" where
  "cache_run ops c = fold cache_step ops c"

text \<open>The last valid context put under a key, with its time.\<close>

fun last_put :: "link_key \<Rightarrow> (real \<times> cache_op) list \<Rightarrow> (real \<times> span_context) option" where
  "last_put key [] = None"
| "last_put key ((t, CPut k (Some ctx)) # ops) =
     (case last_put key ops of
        Some r \<Rightarrow> Some r
      | None \<Rightarrow> if k = key \<and> is_valid ctx then Some (t, ctx) else None)"
| "last_put key (op # ops) = last_put key ops"

lemma new_cache_inv [inv_intros]: "cache_inv new_cache"
  by (simp add: cache_inv_def new_cache_def)

lemma distinct_delete_keys: "distinct (map fst rows) \<Longrightarrow> distinct (map fst (AList.delete key rows))"
  by (rule distinct_delete)

lemma moved_rows_distinct:
  "distinct (map fst rows) \<Longrightarrow> distinct (map fst (AList.delete key rows @ [(key, r)]))"
  by (simp add: delete_keys distinct_removeAll)

lemma last_rows_inv: "distinct (map fst rows) \<Longrightarrow>
    length (drop (length rows - m) rows) \<le> m \<and> distinct (map fst (drop (length rows - m) rows))"
  by (simp add: drop_map [symmetric])

lemma cache_put_inv [inv_intros]: "cache_inv c \<Longrightarrow> cache_inv (cache_put t key context c)"
proof (cases "\<exists>ctx. context = Some ctx \<and> is_valid ctx")
  case True
  then obtain ctx where ctx: "context = Some ctx" "is_valid ctx" by blast
  let ?rows = "AList.delete key (cache_rows c) @ [(key, t, ctx)]"
  assume "cache_inv c"
  then have "distinct (map fst ?rows)" by (simp only: cache_inv_def moved_rows_distinct)
  note last_rows_inv [OF this, of "cache_maximum c"]
  then show ?thesis using ctx
    by (simp add: cache_put_def cache_inv_def Let_def del: drop_append length_append length_drop)
qed (auto simp: cache_put_def split: option.splits)

lemma cache_get_inv [inv_intros]: "cache_inv c \<Longrightarrow> cache_inv (snd (cache_get t key c))"
  by (auto simp: cache_inv_def cache_get_def distinct_delete_keys split: option.splits
      intro: order_trans [OF length_delete_le])

lemma cache_fixed [simp]:
  "cache_maximum (cache_step op c) = cache_maximum c" "cache_lifetime (cache_step op c) = cache_lifetime c"
  by (cases "(op, c)" rule: cache_step.cases;
      simp add: cache_put_def cache_get_def Let_def split: option.splits)+

lemma cache_step_inv [inv_intros]: "cache_inv c \<Longrightarrow> cache_inv (cache_step op c)"
  by (cases "(op, c)" rule: cache_step.cases) (auto intro: inv_intros)

lemma cache_run_inv: "cache_inv c \<Longrightarrow> cache_inv (cache_run ops c)"
  unfolding cache_run_def by (induction ops arbitrary: c) (auto intro: inv_intros)

lemma cache_run_snoc: "cache_run (ops @ [op]) c = cache_step op (cache_run ops c)"
  by (simp add: cache_run_def)

lemma cache_run_fixed [simp]:
  "cache_maximum (cache_run ops c) = cache_maximum c" "cache_lifetime (cache_run ops c) = cache_lifetime c"
  unfolding cache_run_def by (induction ops arbitrary: c) auto

lemma last_put_snoc:
  "last_put key (ops @ [(t, CPut k (Some ctx))]) =
     (if k = key \<and> is_valid ctx then Some (t, ctx) else last_put key ops)"
  "last_put key (ops @ [(t, CPut k None)]) = last_put key ops"
  "last_put key (ops @ [(t, CGet k)]) = last_put key ops"
  by (induction key ops rule: last_put.induct) (auto split: option.splits)

lemma map_of_drop: "distinct (map fst xs) \<Longrightarrow> map_of (drop n xs) k = Some v \<Longrightarrow> map_of xs k = Some v"
proof -
  assume "distinct (map fst xs)" "map_of (drop n xs) k = Some v"
  then show ?thesis
    by (metis in_set_dropD map_of_SomeD map_of_eq_Some_iff)
qed

lemma cache_rows_put:
  assumes "cache_inv c" "is_valid ctx" "map_of (cache_rows (cache_put t k (Some ctx) c)) key = Some r"
  shows "if k = key then r = (t, ctx) else map_of (cache_rows c) key = Some r"
proof -
  let ?rows = "AList.delete k (cache_rows c) @ [(k, t, ctx)]"
  have "distinct (map fst ?rows)"
    using assms(1) by (simp only: cache_inv_def moved_rows_distinct)
  moreover have "map_of (drop (length ?rows - cache_maximum c) ?rows) key = Some r"
    using assms(2,3) by (simp add: cache_put_def Let_def del: drop_append length_append)
  ultimately have "map_of ?rows key = Some r" by (rule map_of_drop)
  then show ?thesis by (auto simp: map_add_Some_iff delete_conv' split: if_splits)
qed

lemma cache_rows_get: "map_of (cache_rows (snd (cache_get t k c))) key = Some r \<Longrightarrow> map_of (cache_rows c) key = Some r"
  by (auto simp: cache_get_def delete_conv' split: option.splits if_splits)

lemma cache_rows_last_put:
  "map_of (cache_rows (cache_run ops new_cache)) key = Some r \<Longrightarrow> last_put key ops = Some r"
proof (induction ops arbitrary: r rule: rev_induct)
  case Nil
  then show ?case by (simp add: cache_run_def new_cache_def)
next
  case (snoc op ops)
  let ?c = "cache_run ops new_cache"
  have inv: "cache_inv ?c" by (intro cache_run_inv inv_intros)
  obtain t o' where op: "op = (t, o')" by (cases op)
  show ?case
  proof (cases o')
    case (CGet k)
    with snoc op show ?thesis
      using cache_rows_get [of t k ?c key] by (simp add: cache_run_snoc last_put_snoc)
  next
    case (CPut k x)
    show ?thesis
    proof (cases "\<exists>ctx. x = Some ctx \<and> is_valid ctx")
      case True
      then obtain ctx where x: "x = Some ctx" "is_valid ctx" by blast
      from snoc.prems op CPut x have "map_of (cache_rows (cache_put t k (Some ctx) ?c)) key = Some r"
        by (simp add: cache_run_snoc)
      from cache_rows_put [OF inv x(2) this] snoc.IH [of r] op CPut x show ?thesis
        by (cases "k = key") (simp_all add: last_put_snoc)
    next
      case False
      then have "cache_put t k x ?c = ?c" by (cases x) (auto simp: cache_put_def)
      with False snoc op CPut show ?thesis
        by (cases x) (auto simp: cache_run_snoc last_put_snoc)
    qed
  qed
qed

text \<open>A row stays in the cache while fewer than the maximum of other rows are put after it.\<close>

definition keeps_row :: "link_key \<Rightarrow> real \<Rightarrow> span_context \<Rightarrow> nat \<Rightarrow> link_cache \<Rightarrow> bool" where
  "keeps_row key t0 ctx n c \<longleftrightarrow> (\<exists>xs ys. cache_rows c = xs @ (key, t0, ctx) # ys \<and> length ys \<le> n)"

definition spares_row :: "link_key \<Rightarrow> real \<Rightarrow> real \<times> cache_op \<Rightarrow> bool" where
  "spares_row key t1 op \<longleftrightarrow> fst op \<le> t1 \<and> (\<forall>k x. snd op = CPut k x \<longrightarrow> k \<noteq> key)"

lemma keeps_row_put:
  assumes "keeps_row key t0 ctx n c" "k \<noteq> key" "n + 2 \<le> cache_maximum c"
  shows "keeps_row key t0 ctx (Suc n) (cache_put t k x c)"
proof (cases "\<exists>v. x = Some v \<and> is_valid v")
  case False
  then have "cache_put t k x c = c" by (cases x) (auto simp: cache_put_def)
  with assms(1) show ?thesis by (auto simp: keeps_row_def intro: le_SucI)
next
  case True
  then obtain v where v: "x = Some v" "is_valid v" by blast
  from assms(1) obtain xs ys where c: "cache_rows c = xs @ (key, t0, ctx) # ys" "length ys \<le> n"
    by (auto simp: keeps_row_def)
  let ?xs = "AList.delete k xs" and ?ys = "AList.delete k ys @ [(k, t, v)]"
  have app: "AList.delete k (as @ bs) = AList.delete k as @ AList.delete k bs" for as bs :: "(link_key \<times> real \<times> span_context) list"
    by (simp add: AList.delete_eq)
  have ys: "length ?ys \<le> Suc n" using c(2) length_delete_le [of k ys] by simp
  let ?d = "length ?xs + length ?ys + 1 - cache_maximum c"
  have "cache_rows (cache_put t k x c) = drop ?d (?xs @ (key, t0, ctx) # ?ys)"
    using v c assms(2) by (simp add: cache_put_def Let_def app AList.delete_eq)
  also have "\<dots> = drop ?d ?xs @ (key, t0, ctx) # ?ys"
    using ys assms(3) by simp
  finally show ?thesis using ys unfolding keeps_row_def by blast
qed

lemma keeps_row_lookup:
  assumes "keeps_row key t0 ctx n c" "cache_inv c"
  shows "map_of (cache_rows c) key = Some (t0, ctx)"
  using assms by (auto simp: keeps_row_def cache_inv_def map_of_eq_Some_iff)

lemma keeps_row_get:
  assumes "keeps_row key t0 ctx n c" "cache_inv c" "t - t0 \<le> cache_lifetime c"
  shows "keeps_row key t0 ctx n (snd (cache_get t k c))"
proof (cases "k = key")
  case True
  with assms keeps_row_lookup [OF assms(1,2)] show ?thesis by (simp add: cache_get_def)
next
  case False
  from assms(1) obtain xs ys where c: "cache_rows c = xs @ (key, t0, ctx) # ys" "length ys \<le> n"
    by (auto simp: keeps_row_def)
  have "AList.delete k (cache_rows c) = AList.delete k xs @ (key, t0, ctx) # AList.delete k ys"
    using c False by (simp add: AList.delete_eq)
  moreover have "length (AList.delete k ys) \<le> n" using c length_delete_le [of k ys] by linarith
  ultimately have "keeps_row key t0 ctx n (c\<lparr>cache_rows := AList.delete k (cache_rows c)\<rparr>)"
    unfolding keeps_row_def by auto
  with assms(1) show ?thesis by (simp add: cache_get_def split: option.splits prod.splits)
qed

lemma keeps_row_run:
  assumes "keeps_row key t0 ctx n c" "cache_inv c" "n + length ops < cache_maximum c"
    "list_all (spares_row key (t0 + cache_lifetime c)) ops"
  shows "keeps_row key t0 ctx (n + length ops) (cache_run ops c)"
  using assms
proof (induction ops arbitrary: n c)
  case Nil
  then show ?case by (simp add: cache_run_def)
next
  case (Cons op ops)
  obtain t o' where op: "op = (t, o')" by (cases op)
  have "keeps_row key t0 ctx (Suc n) (cache_step op c)"
  proof (cases o')
    case (CPut k x)
    with Cons.prems op show ?thesis by (auto simp: spares_row_def intro!: keeps_row_put)
  next
    case (CGet k)
    with Cons.prems op have "keeps_row key t0 ctx n (cache_step op c)"
      by (auto simp: spares_row_def intro!: keeps_row_get)
    then show ?thesis by (auto simp: keeps_row_def intro: le_SucI)
  qed
  from Cons.IH [OF this cache_step_inv [OF Cons.prems(2)]] Cons.prems(3,4)
  show ?case by (simp add: cache_run_def)
qed

lemma keeps_row_new: "is_valid ctx \<Longrightarrow> 0 < cache_maximum c \<Longrightarrow> keeps_row key t0 ctx 0 (cache_put t0 key (Some ctx) c)"
  by (auto simp: keeps_row_def cache_put_def Let_def)

section \<open>Properties\<close>

text \<open>(C29) No arbitrary text enters through the native span socket. Whatever the datagram, the
  decoder either raises an error of a class that the receiver catches, or returns a span whose name
  is allowlisted, whose identities are nonzero 128-bit and 64-bit numbers, whose attributes are at
  most 16 distinct allowlisted keys with values of the allowed type, with at most 8 links and a
  duration of at most an hour.\<close>

theorem decode_native_allowlisted:
  "case decode_native depth mk_context data of
     Inl e \<Rightarrow> is_ValueError e \<or> e = RecursionError
   | Inr sp \<Rightarrow> native_ok mk_context sp"
  by (auto simp: decode_native_ok dest: decode_native_error split: sum.splits)

text \<open>(C37) The link cache returns, for a key, only the last valid context that was put under it, and
  only within its lifetime of 600 seconds, whatever the operations before; it never holds more than
  256 rows.\<close>

theorem cache_returns_last_put:
  "length (cache_rows (cache_run ops new_cache)) \<le> 256 \<and>
   (case fst (cache_get t key (cache_run ops new_cache)) of
      None \<Rightarrow> True
    | Some ctx \<Rightarrow> (\<exists>t0. last_put key ops = Some (t0, ctx) \<and> t - t0 \<le> 600))"
proof -
  have "cache_inv (cache_run ops new_cache)" by (intro cache_run_inv inv_intros)
  then show ?thesis
    using cache_rows_last_put [of ops key]
    by (auto simp: cache_inv_def cache_get_def new_cache_def split: option.splits if_splits)
qed

text \<open>A valid context is found again during its lifetime as long as fewer operations than the
  maximum of the cache follow, none of which puts the same key.\<close>

theorem cache_retains:
  assumes "is_valid ctx" "cache_inv c" "length ops < cache_maximum c"
    and "list_all (spares_row key (t0 + cache_lifetime c)) ops" "t \<le> t0 + cache_lifetime c"
  shows "fst (cache_get t key (cache_run ops (cache_put t0 key (Some ctx) c))) = Some ctx"
proof -
  let ?c = "cache_put t0 key (Some ctx) c"
  have inv: "cache_inv ?c" "cache_inv (cache_run ops ?c)"
    using assms(2) by (auto intro: inv_intros cache_run_inv)
  have fixed: "cache_maximum ?c = cache_maximum c" "cache_lifetime ?c = cache_lifetime c"
    using cache_fixed [of "(t0, CPut key (Some ctx))" c] by simp_all
  have "keeps_row key t0 ctx (0 + length ops) (cache_run ops ?c)"
    by (rule keeps_row_run) (use assms inv fixed keeps_row_new [of ctx c key t0] in auto)
  then have "map_of (cache_rows (cache_run ops ?c)) key = Some (t0, ctx)"
    using inv(2) by (rule keeps_row_lookup)
  with assms(5) fixed show ?thesis by (simp add: cache_get_def)
qed

theorem cache_retains_witness:
  "fst (cache_get 5 (Work ''a'') (cache_run [(1, CPut (Work ''b'') None), (2, CGet (Work ''a''))]
     (cache_put 0 (Work ''a'') (Some \<lparr>trace_id = 1, span_id = 2, trace_flags = 1, is_valid = True\<rparr>) new_cache)))
   = Some \<lparr>trace_id = 1, span_id = 2, trace_flags = 1, is_valid = True\<rparr>"
  by (rule cache_retains) (simp_all add: new_cache_inv, simp_all add: new_cache_def spares_row_def)

end
