(* ===== verification/Telemetry_Config.thy ===== *)
theory Telemetry_Config
  imports Json_Text Net_Address
begin

text \<open>
  The export configuration of \<open>ccf/telemetry.py\<close>: the trace endpoint, the comma-separated
  pairs of headers and resource attributes, and the trust material. The environment is a dict of
  strings, the certificate file what the file system shows of it, and the TLS library's reading of
  PEM text an argument.
\<close>

section \<open>The trace endpoint\<close>

definition env_get :: "string dict \<Rightarrow> string \<Rightarrow> string \<Rightarrow> string" where
  "env_get environ key other = (case map_of environ key of None \<Rightarrow> other | Some v \<Rightarrow> v)"

text \<open>The regular expression \<open>(?:/_ops/telemetry/[a-z][a-z0-9-]{0,39})?/v1/traces\<close>.\<close>

definition gateway_name :: "string \<Rightarrow> bool" where
  "gateway_name g \<longleftrightarrow> g \<noteq> [] \<and> length g \<le> 40 \<and> is_lower (hd g)
     \<and> list_all (\<lambda>c. is_lower c \<or> is_digit c \<or> c = CHR ''-'') g"

definition trace_path :: "string \<Rightarrow> bool" where
  "trace_path p \<longleftrightarrow> p = ''/v1/traces'' \<or>
     (startswith p ''/_ops/telemetry/'' \<and> endswith p ''/v1/traces'' \<and> 26 \<le> length p
      \<and> gateway_name (take (length p - 26) (drop 16 p)))"

definition loopback_host :: "string \<Rightarrow> bool" where
  "loopback_host host =
     (case ip_address host of Inr a \<Rightarrow> is_loopback a | Inl _ \<Rightarrow> host = ''localhost'')"

definition trace_endpoint :: "string dict \<Rightarrow> string res" where
  "trace_endpoint environ =
     (let value = (case map_of environ ''OTEL_EXPORTER_OTLP_TRACES_ENDPOINT'' of
                     Some v \<Rightarrow> v
                   | None \<Rightarrow> rstrip_char (CHR ''/'') (env_get environ ''OTEL_EXPORTER_OTLP_ENDPOINT''
                       ''http://127.0.0.1:4318'') @ ''/v1/traces'');
          bad = ValueError ''OTLP endpoint must be a credential-free HTTP(S) trace URL with an optional scoped gateway prefix'' in
      bindr (urlsplit value) (\<lambda>parsed.
      if str_len value > 2048 \<or> url_scheme parsed \<notin> {''http'', ''https''} \<or> url_hostname parsed = None
         \<or> url_extras parsed \<or> \<not> trace_path (url_path parsed)
      then Inl bad
      else bindr (url_port parsed) (\<lambda>port.
        if \<not> (1 \<le> (case port of None \<Rightarrow> 443 | Some p \<Rightarrow> p) \<and> (case port of None \<Rightarrow> 443 | Some p \<Rightarrow> p) \<le> 65535)
        then Inl bad
        else if url_scheme parsed = ''http''
          \<and> \<not> (case url_hostname parsed of None \<Rightarrow> False | Some host \<Rightarrow> loopback_host host)
        then Inl (ValueError ''unencrypted OTLP export is restricted to loopback'')
        else Inr value)))"

section \<open>Pairs\<close>

definition printable :: "char \<Rightarrow> bool" where
  "printable c \<longleftrightarrow> 32 \<le> ord c \<and> ord c \<le> 126"

text \<open>\<open>re.search(r'%(?![0-9A-Fa-f]{2})', item)\<close> finds a match.\<close>

fun bad_percent :: "string \<Rightarrow> bool" where
  "bad_percent [] = False"
| "bad_percent (c # cs) =
     ((c = CHR ''%'' \<and> \<not> (2 \<le> length cs \<and> is_hex (cs ! 0) \<and> is_hex (cs ! 1))) \<or> bad_percent cs)"

text \<open>\<open>urllib.parse.unquote(s, errors='strict')\<close> on ASCII text.\<close>

fun unquote_bytes :: "string \<Rightarrow> bytes" where
  "unquote_bytes (p # a # b # cs) =
     (if p = CHR ''%'' \<and> is_hex a \<and> is_hex b
      then word_of_nat (16 * hex_val a + hex_val b) # unquote_bytes cs
      else of_char p # unquote_bytes (a # b # cs))"
| "unquote_bytes cs = encode_str cs"

definition unquote :: "string \<Rightarrow> string res" where
  "unquote s = utf8_text (unquote_bytes s)"

definition split_pair :: "string \<Rightarrow> (string \<times> string) res" where
  "split_pair item =
     (case partition_at (CHR ''='') item of
        None \<Rightarrow> Inl (ValueError ''invalid telemetry configuration pair'')
      | Some kv \<Rightarrow>
          if bad_percent item then Inl (ValueError ''invalid telemetry configuration pair'') else Inr kv)"

definition decode_pair :: "string \<Rightarrow> (string \<times> string) res" where
  "decode_pair item =
     bindr (split_pair item) (\<lambda>(k0, v0).
     bindr (unquote k0) (\<lambda>k1.
     bindr (unquote v0) (\<lambda>v1.
       if \<not> list_all printable (k1 @ v1)
       then Inl (ValueError ''invalid decoded telemetry configuration characters'')
       else
         let key = lower (strip k1); value = strip v1 in
         if key = [] \<or> str_len key > 64 \<or> str_len value > 2048 \<or> \<not> list_all printable (key @ value)
         then Inl (ValueError ''invalid telemetry configuration characters'')
         else Inr (key, value))))"

fun pairs_loop :: "string list \<Rightarrow> string dict \<Rightarrow> string dict res" where
  "pairs_loop [] values = Inr values"
| "pairs_loop (item # items) values =
     (if strip item = [] then pairs_loop items values
      else bindr (decode_pair item) (\<lambda>(key, value). pairs_loop items (AList.update key value values)))"

definition pairs_size :: "string dict \<Rightarrow> nat" where
  "pairs_size values = sum_list (map (\<lambda>(key, value). str_len key + str_len value + 4) values)"

definition configured_pairs :: "string \<Rightarrow> string dict res" where
  "configured_pairs raw =
     (if length raw > 4096 \<or> length (split_on (CHR '','') raw) > 16 \<or> \<not> list_all printable raw
      then Inl (ValueError ''telemetry configuration pairs exceed bound'')
      else bindr (pairs_loop (split_on (CHR '','') raw) []) (\<lambda>values.
        if pairs_size values > 4096
        then Inl (ValueError ''decoded telemetry configuration exceeds bound'')
        else Inr values))"

section \<open>The export configuration\<close>

text \<open>What \<open>pathlib\<close> and \<open>open\<close> show of the certificate file.\<close>

record file_view =
  view_symlink :: bool
  view_file :: bool
  view_size :: nat
  view_read :: "bytes res"

datatype tls_context = DefaultTrust | OnlyTrust string

definition header_char :: "char \<Rightarrow> bool" where
  "header_char c \<longleftrightarrow> is_lower c \<or> is_digit c
     \<or> c \<in> {CHR ''!'', CHR ''#'', CHR ''$'', CHR ''%'', CHR ''&'', CHR 0x27, CHR ''*'', CHR ''+'', CHR ''.'',
            CHR ''^'', CHR ''_'', CHR 0x60, CHR ''|'', CHR ''~'', CHR ''-''}"

definition forbidden_headers :: "string list" where
  "forbidden_headers = [''host'', ''content-type'', ''content-length'', ''connection'', ''cookie'',
     ''set-cookie'', ''proxy-authorization'', ''transfer-encoding'', ''te'', ''upgrade'', ''content-encoding'']"

definition header_ok :: "string \<Rightarrow> bool" where
  "header_ok key \<longleftrightarrow> key \<noteq> [] \<and> list_all header_char key \<and> key \<notin> set forbidden_headers"

definition client_key_names :: "string list" where
  "client_key_names = [''OTEL_EXPORTER_OTLP_CLIENT_KEY'', ''OTEL_EXPORTER_OTLP_CLIENT_CERTIFICATE'',
     ''OTEL_EXPORTER_OTLP_TRACES_CLIENT_KEY'', ''OTEL_EXPORTER_OTLP_TRACES_CLIENT_CERTIFICATE'']"

definition read_ca :: "(string \<Rightarrow> file_view) \<Rightarrow> string \<Rightarrow> string res" where
  "read_ca files path =
     (let f = files path in
      if \<not> startswith path ''/'' \<or> view_symlink f \<or> \<not> view_file f \<or> view_size f > 1024 * 1024
      then Inl (ValueError ''OTLP CA must be a bounded absolute regular file'')
      else bindr (view_read f) (\<lambda>content.
        let data = take (1024 * 1024 + 1) content in
        if length data > 1024 * 1024 \<or> contains (encode_str ''PRIVATE KEY'') data
        then Inl (ValueError ''invalid public OTLP CA data'')
        else decode_ascii data))"

definition export_configuration ::
    "(string \<Rightarrow> file_view) \<Rightarrow> (string \<Rightarrow> unit res) \<Rightarrow> string dict
     \<Rightarrow> (string \<times> string dict \<times> tls_context option) res" where
  "export_configuration files load_pem environ =
     bindr (trace_endpoint environ) (\<lambda>endpoint.
     let protocol = env_get environ ''OTEL_EXPORTER_OTLP_TRACES_PROTOCOL''
           (env_get environ ''OTEL_EXPORTER_OTLP_PROTOCOL'' ''http/protobuf'') in
     if protocol \<noteq> ''http/protobuf'' then Inl (ValueError ''only OTLP HTTP/protobuf is supported'')
     else bindr (configured_pairs (env_get environ ''OTEL_EXPORTER_OTLP_TRACES_HEADERS''
                   (env_get environ ''OTEL_EXPORTER_OTLP_HEADERS'' []))) (\<lambda>headers.
       if \<not> list_all header_ok (dict_keys headers)
       then Inl (ValueError ''unsupported OTLP transport header'')
       else
         let certificate = (case map_of environ ''OTEL_EXPORTER_OTLP_TRACES_CERTIFICATE'' of
                              Some c \<Rightarrow> Some c
                            | None \<Rightarrow> map_of environ ''OTEL_EXPORTER_OTLP_CERTIFICATE'') in
         if list_ex (\<lambda>name. env_get environ name [] \<noteq> []) client_key_names
         then Inl (ValueError ''client certificates are not supported; use bounded TLS authorization headers'')
         else bindr (urlsplit endpoint) (\<lambda>parsed.
           let secure = (url_scheme parsed = ''https'') in
           if (headers \<noteq> [] \<or> certificate \<noteq> None) \<and> \<not> secure
           then Inl (ValueError ''OTLP authorization headers and custom trust require TLS'')
           else case certificate of
             None \<Rightarrow> Inr (endpoint, headers, if secure then Some DefaultTrust else None)
           | Some path \<Rightarrow>
               bindr (read_ca files path) (\<lambda>pem.
               bindr (load_pem pem) (\<lambda>_. Inr (endpoint, headers, Some (OnlyTrust pem)))))))"

section \<open>Resource attributes\<close>

definition resource_char :: "char \<Rightarrow> bool" where
  "resource_char c \<longleftrightarrow> is_alnum c \<or> c \<in> {CHR ''_'', CHR ''.'', CHR '':'', CHR ''/'', CHR ''-''}"

definition resource_pair_ok :: "string \<times> string \<Rightarrow> bool" where
  "resource_pair_ok kv \<longleftrightarrow>
     fst kv \<in> {''deployment.environment'', ''service.namespace'', ''service.instance.id''}
     \<and> 1 \<le> length (snd kv) \<and> length (snd kv) \<le> 128 \<and> list_all resource_char (snd kv)"

definition resource_attributes :: "string dict \<Rightarrow> string dict res" where
  "resource_attributes environ =
     bindr (configured_pairs (env_get environ ''OTEL_RESOURCE_ATTRIBUTES'' [])) (\<lambda>values.
       if \<not> list_all resource_pair_ok values
       then Inl (ValueError ''unsupported or invalid telemetry resource attribute'')
       else Inr values)"

section \<open>Laws\<close>

lemma utf8_text_Inr: "utf8_text bs = Inr s \<Longrightarrow> s = bytes_str bs"
  by (auto simp: utf8_text_def split: if_splits)

definition pair_ok :: "string \<times> string \<Rightarrow> bool" where
  "pair_ok kv \<longleftrightarrow> fst kv \<noteq> [] \<and> length (fst kv) \<le> 64 \<and> length (snd kv) \<le> 2048
     \<and> list_all printable (fst kv) \<and> list_all printable (snd kv) \<and> lower (fst kv) = fst kv"

lemma printable_ascii: "list_all printable s \<Longrightarrow> str_len s = length s"
  by (rule str_len_ascii) (auto simp: list_all_iff printable_def)

lemma decode_pair_ok: "decode_pair item = Inr kv \<Longrightarrow> pair_ok kv"
  by (auto simp: decode_pair_def Let_def pair_ok_def printable_ascii split: if_splits)

lemma pairs_loop_ok:
  "pairs_loop items vals = Inr r \<Longrightarrow> list_all pair_ok vals \<Longrightarrow> dict_ok vals \<Longrightarrow>
   list_all pair_ok r \<and> dict_ok r \<and> length r \<le> length vals + length items"
proof (induction items arbitrary: vals)
  case (Cons item items)
  show ?case
  proof (cases "strip item = []")
    case True
    with Cons.prems Cons.IH show ?thesis by fastforce
  next
    case False
    with Cons.prems(1) obtain k v where kv: "decode_pair item = Inr (k, v)"
      "pairs_loop items (AList.update k v vals) = Inr r" by auto
    from Cons.IH [OF kv(2)] decode_pair_ok [OF kv(1)] Cons.prems(2,3) length_update_le [of k v vals]
    show ?thesis by (force simp: list_all_update)
  qed
qed simp

lemma unquote_error [exn_rules]: "unquote s = Inl e \<Longrightarrow> is_ValueError e"
  by (auto simp: unquote_def utf8_text_def split: if_splits)

lemma decode_pair_error [exn_rules]: "decode_pair item = Inl e \<Longrightarrow> is_ValueError e"
  by (auto simp: decode_pair_def split_pair_def Let_def bindr_eq_Inl split: if_splits option.splits
      dest: unquote_error)

lemma pairs_loop_error [exn_rules]: "pairs_loop items vals = Inl e \<Longrightarrow> is_ValueError e"
  by (induction items arbitrary: vals) (auto simp: bindr_eq_Inl split: if_splits dest: decode_pair_error)

lemma configured_pairs_error [exn_rules]: "configured_pairs raw = Inl e \<Longrightarrow> is_ValueError e"
  by (auto simp: configured_pairs_def bindr_eq_Inl split: if_splits dest: pairs_loop_error)

lemma url_port_error [exn_rules]: "url_port u = Inl e \<Longrightarrow> is_ValueError e"
  by (auto simp: url_port_def Let_def bindr_eq_Inl split: if_splits dest: py_int_error)

lemma trace_endpoint_error [exn_rules]: "trace_endpoint environ = Inl e \<Longrightarrow> is_ValueError e"
  unfolding trace_endpoint_def Let_def
  by (auto simp: bindr_eq_Inl split: if_splits dest: urlsplit_error url_port_error)

lemma trace_endpoint_Inr:
  assumes "trace_endpoint environ = Inr value"
  obtains parsed host port where "urlsplit value = Inr parsed" "url_hostname parsed = Some host"
    "trace_path (url_path parsed)" "\<not> url_extras parsed" "url_port parsed = Inr port"
    "url_scheme parsed = ''https'' \<or> url_scheme parsed = ''http'' \<and> loopback_host host"
proof -
  let ?v = "case map_of environ ''OTEL_EXPORTER_OTLP_TRACES_ENDPOINT'' of Some v \<Rightarrow> v
      | None \<Rightarrow> rstrip_char (CHR ''/'') (env_get environ ''OTEL_EXPORTER_OTLP_ENDPOINT''
                       ''http://127.0.0.1:4318'') @ ''/v1/traces''"
  from assms have v: "value = ?v"
    unfolding trace_endpoint_def Let_def by (auto split: if_splits)
  from assms obtain parsed where p: "urlsplit ?v = Inr parsed"
    unfolding trace_endpoint_def Let_def by auto
  with assms have "\<exists>port. url_port parsed = Inr port" "url_scheme parsed \<in> {''http'', ''https''}" "url_hostname parsed \<noteq> None"
    "\<not> url_extras parsed" "trace_path (url_path parsed)"
    "url_scheme parsed = ''http'' \<longrightarrow> (case url_hostname parsed of None \<Rightarrow> False | Some host \<Rightarrow> loopback_host host)"
    unfolding trace_endpoint_def Let_def by (auto split: if_splits)
  with p v that [of parsed] show thesis by auto
qed

lemma default_url:
  "urlsplit ''http://127.0.0.1:4318/v1/traces'' = Inr \<lparr>url_scheme = ''http'', url_netloc = ''127.0.0.1:4318'',
     url_path = ''/v1/traces'', url_query = [], url_fragment = []\<rparr>"
  by (simp add: urlsplit_def split_scheme_def startswith_def cut_at_def is_url_delim_def scheme_char_def
      is_alnum_def is_lower_def is_upper_def is_digit_def lower_def)

lemma default_trace_endpoint: "trace_endpoint [] = Inr ''http://127.0.0.1:4318/v1/traces''"
proof -
  let ?u = "\<lparr>url_scheme = ''http'', url_netloc = ''127.0.0.1:4318'', url_path = ''/v1/traces'', url_query = [],
     url_fragment = []\<rparr>"
  have port: "url_port ?u = Inr (Some 4318)"
    by (simp add: url_port_def url_hostinfo_def rpartition_at_def cut_at_def Let_def is_digit_def py_int_def
        unsigned_int_def strip_def is_space_def digits_val_def digit_val_def)
  have host: "url_hostname ?u = Some ''127.0.0.1''"
    by (simp add: url_hostname_def url_hostinfo_def rpartition_at_def cut_at_def Let_def lower_def is_upper_def)
  have loop: "loopback_host ''127.0.0.1''"
    by (simp add: loopback_host_def ip_address_eval is_loopback_def)
  have "\<not> url_extras ?u" by (simp add: url_extras_def url_userinfo_def rpartition_at_def)
  with port host loop show ?thesis
    by (simp add: trace_endpoint_def env_get_def rstrip_char_def Let_def str_len_def trace_path_def default_url)
qed

section \<open>Properties\<close>

text \<open>Whatever the configuration text, the pairs that are accepted are at most 16, have
  distinct lower-case printable keys of 1 to 64 characters and printable vals of at most 2048,
  and their total size stays within 4096; a refusal is a \<open>ValueError\<close>.\<close>

theorem configured_pairs_bounds:
  "case configured_pairs raw of
     Inl e \<Rightarrow> is_ValueError e
   | Inr vals \<Rightarrow>
       length vals \<le> 16 \<and> distinct (map fst vals)
       \<and> list_all (\<lambda>(key, value). key \<noteq> [] \<and> length key \<le> 64 \<and> length value \<le> 2048
            \<and> list_all printable key \<and> list_all printable value \<and> lower key = key) vals
       \<and> pairs_size vals \<le> 4096"
proof (cases "configured_pairs raw")
  case (Inl e)
  then show ?thesis by (simp add: configured_pairs_error)
next
  case (Inr vals)
  then have "pairs_loop (split_on (CHR '','') raw) [] = Inr vals" "length (split_on (CHR '','') raw) \<le> 16"
    "pairs_size vals \<le> 4096"
    by (auto simp: configured_pairs_def split: if_splits)
  with pairs_loop_ok [of "split_on (CHR '','') raw" "[]" vals]
  have "list_all pair_ok vals" "dict_ok vals" "length vals \<le> 16" "pairs_size vals \<le> 4096"
    by (auto simp: dict_ok_def)
  with Inr show ?thesis by (auto simp: pair_ok_def dict_ok_def list_all_iff)
qed

text \<open>(C40) Credentials and custom trust never leave in the clear. An accepted export configuration
  either goes over TLS, or goes to a loopback host with no header and no certificate; in both cases
  the URL carries no user information, query or fragment, and no header overrides the transport.\<close>

theorem export_configuration_confined:
  assumes "export_configuration files load_pem environ = Inr (target, headers, context)"
  shows "\<exists>parsed host. urlsplit target = Inr parsed \<and> url_hostname parsed = Some host \<and> \<not> url_extras parsed
    \<and> (url_scheme parsed = ''https'' \<and> context \<noteq> None
       \<or> url_scheme parsed = ''http'' \<and> loopback_host host \<and> headers = [] \<and> context = None)
    \<and> list_all header_ok (map fst headers)"
proof -
  from assms have e: "trace_endpoint environ = Inr target"
    unfolding export_configuration_def Let_def by (auto split: if_splits option.splits)
  then obtain parsed host where p: "urlsplit target = Inr parsed" "url_hostname parsed = Some host"
    "\<not> url_extras parsed" "url_scheme parsed = ''https'' \<or> url_scheme parsed = ''http'' \<and> loopback_host host"
    by (rule trace_endpoint_Inr) blast
  from assms e p(1) have "list_all header_ok (map fst headers)"
    "url_scheme parsed = ''https'' \<and> context \<noteq> None \<or> url_scheme parsed \<noteq> ''https'' \<and> headers = [] \<and> context = None"
    unfolding export_configuration_def Let_def
    by (auto simp: dict_keys_def split: if_splits option.splits)
  with p show ?thesis by auto
qed

theorem export_configuration_confined_witness:
  "\<exists>parsed host. urlsplit ''http://127.0.0.1:4318/v1/traces'' = Inr parsed \<and> url_hostname parsed = Some host
    \<and> \<not> url_extras parsed
    \<and> (url_scheme parsed = ''https'' \<and> (None :: tls_context option) \<noteq> None
       \<or> url_scheme parsed = ''http'' \<and> loopback_host host \<and> ([] :: string dict) = [] \<and> (None :: tls_context option) = None)
    \<and> list_all header_ok (map fst ([] :: string dict))"
proof (rule export_configuration_confined)
  have "configured_pairs [] = Inr []"
    by (simp add: configured_pairs_def strip_def pairs_size_def)
  then show "export_configuration (\<lambda>_. \<lparr>view_symlink = False, view_file = False, view_size = 0,
      view_read = Inl FileNotFoundError\<rparr>) (\<lambda>_. Inr ()) [] = Inr (''http://127.0.0.1:4318/v1/traces'', [], None)"
    by (simp add: export_configuration_def env_get_def dict_keys_def client_key_names_def
        default_trace_endpoint default_url)
qed

end
