(* ===== verification/Telemetry_Trace.thy ===== *)
theory Telemetry_Trace
  imports Telemetry_Spans Telemetry_Config
begin

text \<open>
  The running part of \<open>ccf/telemetry.py\<close>: bounded reading, the exporter's HTTP session, the context
  manager \<open>span\<close>, \<open>traceparent\<close> and the receiver of native spans.

  The state extends the HTTP client state of \<open>Socket_Io\<close>. Calls into the SDK are logged in
  order; the context that the SDK gives to the n-th span is an argument (\<open>span_ctx\<close>). The flag
  \<open>tracing\<close> tells a \<open>Telemetry\<close> object from a \<open>NoTelemetry\<close> object.
\<close>

section \<open>State\<close>

datatype sdk_call =
    StartSpan nat string "json dict" "span_context list" string
  | SetAttribute nat string json
  | AddLink nat span_context
  | SetError nat
  | EndSpan nat
  | OnEnd native_span

record sdk =
  span_ctx :: "nat \<Rightarrow> span_context"
  mk_context :: "nat \<Rightarrow> nat \<Rightarrow> nat \<Rightarrow> span_context"

record tel = web +
  tracing :: bool
  cache :: link_cache
  sdk_log :: "sdk_call list"
  active :: "nat list"
  next_span :: nat
  received :: nat
  rejected :: nat

definition log_call :: "sdk_call \<Rightarrow> 'z tel_scheme \<Rightarrow> 'z tel_scheme" where
  "log_call call s = s\<lparr>sdk_log := sdk_log s @ [call]\<rparr>"

section \<open>Bounded reading and deadlines\<close>

definition telemetry_late :: exn where
  "telemetry_late = TimeoutError ''absolute socket deadline expired''"

function read_bounded_loop :: "clock \<Rightarrow> nat \<Rightarrow> real \<Rightarrow> bytes \<Rightarrow> ('z net_scheme, bytes) act" where
  "read_bounded_loop clk maximum deadline data s =
     (let (t, s1) = now clk s in
      if t \<ge> deadline then (Inl (TimeoutError ''absolute HTTP deadline expired''), s1)
      else case recv (min 65536 (maximum + 1 - length data)) s1 of
        (Inl e, s2) \<Rightarrow> (Inl e, s2)
      | (Inr block, s2) \<Rightarrow>
          if block = [] then (Inr data, s2)
          else if length (data @ block) > maximum then (Inl (ValueError ''HTTP response exceeds bound''), s2)
          else read_bounded_loop clk maximum deadline (data @ block) s2)"
  by pat_completeness auto
termination
  by (relation "measure (\<lambda>(_, maximum, _, data, _). maximum + 1 - length data)") (auto simp: neq_Nil_conv)

declare read_bounded_loop.simps [simp del]

definition read_bounded :: "clock \<Rightarrow> nat \<Rightarrow> real \<Rightarrow> ('z net_scheme, bytes) act" where
  "read_bounded clk maximum deadline = read_bounded_loop clk maximum deadline []"

interpretation telemetry_reader: bounded_reader clk maximum deadline
  "TimeoutError ''absolute HTTP deadline expired''" "ValueError ''HTTP response exceeds bound''"
  "read_bounded_loop clk maximum deadline"
  for clk maximum deadline
  by unfold_locales (rule read_bounded_loop.simps)

section \<open>The exporter's session\<close>

text \<open>\<open>BoundedSession.post\<close>: the status code of the response object that it returns. The
  configuration (endpoint, headers) is the validated one; certificates of the caller are
  refused.\<close>

definition EXPORT_SECONDS :: real where "EXPORT_SECONDS = 1"

definition export_exn :: "exn \<Rightarrow> bool" where
  "export_exn e \<longleftrightarrow> is_OSError e \<or> is_ValueError e \<or> is_HTTPException e"

definition export_request :: "url_parts \<Rightarrow> nat option \<Rightarrow> string dict \<Rightarrow> bytes \<Rightarrow> http_request" where
  "export_request parsed port headers data =
     \<lparr>rq_host = (case url_hostname parsed of None \<Rightarrow> [] | Some h \<Rightarrow> h),
      rq_port = (case port of
                   Some p \<Rightarrow> if p = 0 then (if url_scheme parsed = ''https'' then 443 else 80) else p
                 | None \<Rightarrow> if url_scheme parsed = ''https'' then 443 else 80),
      rq_method = ''POST'', rq_path = url_path parsed, rq_body = data,
      rq_headers = dict_merge headers [(''Content-Type'', ''application/x-protobuf''), (''Connection'', ''close'')]\<rparr>"

definition export_attempt ::
    "clock \<Rightarrow> real \<Rightarrow> bool \<Rightarrow> http_request \<Rightarrow> ('z web_scheme, int) act" where
  "export_attempt clk deadline secure rq =
     bind_act create_connection (\<lambda>a.
     bind_act (if secure then with_deadline clk telemetry_late deadline (lift_res (at_handshake a))
               else ret_act ()) (\<lambda>_.
     with_deadline clk telemetry_late deadline (
       bind_act (http_exchange a rq) (\<lambda>response.
       bind_act (read_bounded clk 65536 deadline) (\<lambda>_.
       ret_act (if 300 \<le> reply_status response \<and> reply_status response < 400 then 400
                else reply_status response))))))"

definition session_post ::
    "clock \<Rightarrow> string \<Rightarrow> string dict \<Rightarrow> string \<Rightarrow> bytes \<Rightarrow> real \<Rightarrow> bool \<Rightarrow> ('z web_scheme, int) act" where
  "session_post clk endpoint headers url data timeout cert s =
     (if url \<noteq> endpoint \<or> cert \<or> length data > 4 * 1024 * 1024 then (Inr 503, s)
      else bind_act (lift_res (urlsplit endpoint)) (\<lambda>parsed s1.
        let duration = min EXPORT_SECONDS (max 0 timeout) in
        if duration \<le> 0 then (Inr 503, s1)
        else
          let (t, s2) = now clk s1 in
          bind_act (lift_res (url_port parsed)) (\<lambda>port.
            catch_act export_exn (\<lambda>_. ret_act 400)
              (export_attempt clk (t + duration) (url_scheme parsed = ''https'')
                 (export_request parsed port headers data))) s2) s)"

section \<open>Spans of the driver\<close>

text \<open>\<open>type(error).__name__\<close>. The subclasses of \<open>ValueError\<close> that the libraries raise carry
  their own names.\<close>

fun exn_name :: "exn \<Rightarrow> string" where
  "exn_name (ValueError m) = (if m = ''JSONDecodeError'' then m else if m = ''binascii.Error'' then ''Error'' else ''ValueError'')"
| "exn_name (UnicodeError _) = ''UnicodeDecodeError''"
| "exn_name (TypeError _) = ''TypeError''"
| "exn_name (KeyError _) = ''KeyError''"
| "exn_name (IndexError _) = ''IndexError''"
| "exn_name (AttributeError _) = ''AttributeError''"
| "exn_name (AssertionError _) = ''AssertionError''"
| "exn_name (RuntimeError _) = ''RuntimeError''"
| "exn_name RecursionError = ''RecursionError''"
| "exn_name (OSError _) = ''OSError''"
| "exn_name (TimeoutError _) = ''TimeoutError''"
| "exn_name FileNotFoundError = ''FileNotFoundError''"
| "exn_name PermissionError = ''PermissionError''"
| "exn_name ProcessLookupError = ''ProcessLookupError''"
| "exn_name BlockingIOError = ''BlockingIOError''"
| "exn_name ConnectionRefused = ''ConnectionRefusedError''"
| "exn_name (EOFError _) = ''EOFError''"
| "exn_name (HTTPException _) = ''HTTPException''"
| "exn_name (HTTPError _) = ''HTTPError''"
| "exn_name InvalidSignature = ''InvalidSignature''"
| "exn_name ExtensionNotFound = ''ExtensionNotFound''"

definition error_type :: "exn \<Rightarrow> json" where
  "error_type e = JStr (if exn_name e \<in> set ERROR_TYPES then exn_name e else ''Error'')"

definition valid_links :: "span_context option list \<Rightarrow> span_context list" where
  "valid_links links = filter is_valid (List.map_filter id (take MAX_LINKS links))"

definition set_attribute :: "nat option \<Rightarrow> string \<Rightarrow> json \<Rightarrow> 'z tel_scheme \<Rightarrow> 'z tel_scheme" where
  "set_attribute sp key value s =
     (case sp of None \<Rightarrow> s | Some h \<Rightarrow> log_call (SetAttribute h key value) s)"

text \<open>\<open>with tracer.span(name, attributes, links, kind) as span: body\<close>. The body gets \<open>None\<close> when
  there is no telemetry or the name is not allowlisted.\<close>

definition with_span ::
    "string \<Rightarrow> json dict \<Rightarrow> span_context option list \<Rightarrow> string \<Rightarrow> (nat option \<Rightarrow> ('z tel_scheme, 'a) act)
     \<Rightarrow> ('z tel_scheme, 'a) act" where
  "with_span name attributes links kind body s =
     (if \<not> tracing s \<or> name \<notin> set DRIVER_NAMES then body None s
      else
        let h = next_span s;
            s1 = log_call (StartSpan h name (driver_attributes attributes []) (valid_links links) kind)
                   (s\<lparr>next_span := Suc h, active := h # active s\<rparr>);
            (r, s2) = body (Some h) s1;
            s3 = (case r of
                    Inr _ \<Rightarrow> s2
                  | Inl e \<Rightarrow> log_call (SetError h) (log_call (SetAttribute h ''error.type'' (error_type e)) s2)) in
        (r, log_call (EndSpan h) (s3\<lparr>active := active s\<rparr>)))"

text \<open>\<open>'{:0nx}'.format\<close>.\<close>

definition hex_pad :: "nat \<Rightarrow> nat \<Rightarrow> string" where
  "hex_pad n x = replicate (n - length (hex_str x)) (CHR ''0'') @ hex_str x"

definition traceparent :: "sdk \<Rightarrow> 'z tel_scheme \<Rightarrow> string option" where
  "traceparent k s =
     (case active s of
        [] \<Rightarrow> None
      | h # _ \<Rightarrow>
          if \<not> tracing s \<or> \<not> is_valid (span_ctx k h) then None
          else Some (''00-'' @ hex_pad 32 (trace_id (span_ctx k h)) @ ''-'' @ hex_pad 16 (span_id (span_ctx k h))
                     @ ''-'' @ hex_pad 2 (trace_flags (span_ctx k h))))"

section \<open>The cache of a running tracer\<close>

definition tracer_put :: "clock \<Rightarrow> link_key \<Rightarrow> span_context option \<Rightarrow> 'z tel_scheme \<Rightarrow> 'z tel_scheme" where
  "tracer_put clk key context s =
     (case context of
        None \<Rightarrow> s
      | Some ctx \<Rightarrow>
          if \<not> is_valid ctx then s
          else let (t, s1) = now clk s in s1\<lparr>cache := cache_put t key context (cache s1)\<rparr>)"

definition tracer_get :: "clock \<Rightarrow> link_key \<Rightarrow> 'z tel_scheme \<Rightarrow> span_context option \<times> 'z tel_scheme" where
  "tracer_get clk key s =
     (if map_of (cache_rows (cache s)) key = None then (None, s)
      else
        let (t, s1) = now clk s; (r, c) = cache_get t key (cache s1) in (r, s1\<lparr>cache := c\<rparr>))"

section \<open>The receiver of native spans\<close>

definition receiver_exn :: "exn \<Rightarrow> bool" where
  "receiver_exn e \<longleftrightarrow> is_ValueError e \<or> is_TypeError e \<or> is_KeyError e \<or> e = RecursionError"

definition zone_key :: "native_span \<Rightarrow> string option" where
  "zone_key sp = (case map_of (ns_attributes sp) ''dns.zone'' of Some (JStr z) \<Rightarrow> Some z | _ \<Rightarrow> None)"

definition serial_key :: "native_span \<Rightarrow> int option" where
  "serial_key sp = (case map_of (ns_attributes sp) ''dns.zone.serial'' of Some (JInt n) \<Rightarrow> Some n | _ \<Rightarrow> None)"

text \<open>The link to the last authenticated observation of the zone, for a signing span.\<close>

definition observe_link :: "clock \<Rightarrow> native_span \<Rightarrow> 'z tel_scheme \<Rightarrow> native_span \<times> 'z tel_scheme" where
  "observe_link clk sp s =
     (case zone_key sp of
        Some zone \<Rightarrow>
          if ns_name sp = ''adns.dnssec.sign'' then
            let (observed, s1) = tracer_get clk (ObservedZone zone) s in
            (case observed of
               Some ctx \<Rightarrow>
                 if length (ns_links sp) < MAX_LINKS then (sp\<lparr>ns_links := ns_links sp @ [ctx]\<rparr>, s1) else (sp, s1)
             | None \<Rightarrow> (sp, s1))
          else (sp, s)
      | None \<Rightarrow> (sp, s))"

definition remember_serial :: "clock \<Rightarrow> native_span \<Rightarrow> 'z tel_scheme \<Rightarrow> 'z tel_scheme" where
  "remember_serial clk sp s =
     (case (zone_key sp, serial_key sp) of
        (Some zone, Some serial) \<Rightarrow>
          if ns_name sp \<in> {''adns.dnssec.sign'', ''ccf.request''}
          then tracer_put clk (ZoneSerial zone serial) (Some (ns_context sp)) s else s
      | _ \<Rightarrow> s)"

definition receive_datagram :: "nat \<Rightarrow> sdk \<Rightarrow> clock \<Rightarrow> bytes \<Rightarrow> ('z tel_scheme, unit) act" where
  "receive_datagram depth k clk data s =
     (case decode_native depth (mk_context k) data of
        Inl e \<Rightarrow> if receiver_exn e then (Inr (), s\<lparr>rejected := rejected s + 1\<rparr>) else (Inl e, s)
      | Inr sp0 \<Rightarrow>
          let (sp, s1) = observe_link clk sp0 s;
              s2 = log_call (OnEnd sp) s1 in
          (Inr (), remember_serial clk sp (s2\<lparr>received := received s2 + 1\<rparr>)))"

text \<open>The loop of the receiver thread. It ends when \<open>stop\<close> is set, which is the end of the list, or
  on an error of the socket other than its timeout.\<close>

fun receive_loop :: "nat \<Rightarrow> sdk \<Rightarrow> clock \<Rightarrow> rx list \<Rightarrow> ('z tel_scheme, unit) act" where
  "receive_loop depth k clk [] s = (Inr (), s)"
| "receive_loop depth k clk (Closed # q) s =
     bind_act (receive_datagram depth k clk []) (\<lambda>_. receive_loop depth k clk q) s"
| "receive_loop depth k clk (Data b # q) s =
     bind_act (receive_datagram depth k clk (take (MAX_DATAGRAM + 1) b)) (\<lambda>_. receive_loop depth k clk q) s"
| "receive_loop depth k clk (RxErr e # q) s =
     (case e of
        TimeoutError _ \<Rightarrow> receive_loop depth k clk q s
      | _ \<Rightarrow> if is_OSError e then (Inr (), s) else (Inl e, s))"

section \<open>Laws\<close>

lemma read_bounded_Inr:
  assumes "read_bounded clk maximum deadline s = (Inr d, s')"
  shows "length d \<le> maximum" "d = rx_data (inbox s)" "rx_closed (inbox s)"
    "ticks s \<le> i \<Longrightarrow> i < ticks s' \<Longrightarrow> clk i < deadline"
  using telemetry_reader.loop_result [of "[]" maximum clk deadline s d s']
    telemetry_reader.loop_in_time [of "[]" maximum clk deadline s d s'] assms
  by (auto simp: read_bounded_def)

lemma log_call_simps [simp]:
  "sdk_log (log_call call s) = sdk_log s @ [call]" "cache (log_call call s) = cache s"
  "received (log_call call s) = received s" "rejected (log_call call s) = rejected s"
  "tracing (log_call call s) = tracing s" "requests (log_call call s) = requests s"
  "active (log_call call s) = active s" "ticks (log_call call s) = ticks s" "inbox (log_call call s) = inbox s"
  by (simp_all add: log_call_def)

subsection \<open>The receiver\<close>

definition tel_keeps :: "'z tel_scheme \<Rightarrow> 'z tel_scheme \<Rightarrow> bool" where
  "tel_keeps s s' \<longleftrightarrow> received s' = received s \<and> rejected s' = rejected s \<and> sdk_log s' = sdk_log s
     \<and> (cache_inv (cache s) \<longrightarrow> cache_inv (cache s'))"

lemma tracer_put_keeps: "tel_keeps s (tracer_put clk key context s)"
  by (auto simp: tel_keeps_def tracer_put_def now_def intro: inv_intros split: option.splits)

lemma tracer_get_keeps: "tel_keeps s (snd (tracer_get clk key s))"
  by (auto simp: tel_keeps_def tracer_get_def now_def Let_def split: prod.splits intro: inv_intros)
    (metis cache_get_inv snd_conv)

text \<open>What the receiver may hand to the exporter.\<close>

definition export_safe :: "native_span \<Rightarrow> bool" where
  "export_safe sp \<longleftrightarrow> ns_name sp \<in> set NATIVE_NAMES \<and> attributes_ok (ns_attributes sp)
     \<and> length (ns_links sp) \<le> MAX_LINKS"

lemma native_export_safe: "native_ok f sp \<Longrightarrow> export_safe sp"
  by (simp add: native_ok_def export_safe_def)

lemma observe_link_keeps:
  assumes "observe_link clk sp s = (sp', s')"
  shows "tel_keeps s s'" "export_safe sp \<Longrightarrow> export_safe sp'"
proof -
  have "tel_keeps s s" by (simp add: tel_keeps_def)
  with assms show "tel_keeps s s'"
    by (auto simp: observe_link_def case_prod_beta Let_def tracer_get_keeps split: option.splits if_splits)
  from assms show "export_safe sp \<Longrightarrow> export_safe sp'"
    by (auto simp: observe_link_def case_prod_beta Let_def export_safe_def split: option.splits if_splits)
qed

lemma remember_serial_keeps: "tel_keeps s (remember_serial clk sp s)"
  using tracer_put_keeps by (auto simp: remember_serial_def tel_keeps_def split: option.splits)

definition only_safe_exports :: "'z tel_scheme \<Rightarrow> bool" where
  "only_safe_exports s \<longleftrightarrow> (\<forall>sp. OnEnd sp \<in> set (sdk_log s) \<longrightarrow> export_safe sp)"

lemma receive_datagram_ok:
  obtains s' where "receive_datagram depth k clk data s = (Inr (), s')"
    "received s' + rejected s' = Suc (received s + rejected s)"
    "cache_inv (cache s) \<longrightarrow> cache_inv (cache s')" "only_safe_exports s \<longrightarrow> only_safe_exports s'"
proof (cases "decode_native depth (mk_context k) data")
  case (Inl e)
  then have "receiver_exn e" using decode_native_error by (auto simp: receiver_exn_def)
  with Inl show thesis
    by (intro that [of "s\<lparr>rejected := rejected s + 1\<rparr>"])
      (auto simp: receive_datagram_def only_safe_exports_def)
next
  case (Inr sp0)
  obtain sp s1 where o: "observe_link clk sp0 s = (sp, s1)" by fastforce
  have safe: "export_safe sp"
    using observe_link_keeps(2) [OF o] native_export_safe [OF decode_native_ok [OF Inr]] .
  let ?s2 = "log_call (OnEnd sp) s1"
  let ?s3 = "?s2\<lparr>received := received ?s2 + 1\<rparr>"
  have "receive_datagram depth k clk data s = (Inr (), remember_serial clk sp ?s3)"
    using Inr o by (simp add: receive_datagram_def)
  then show thesis
    using observe_link_keeps(1) [OF o] remember_serial_keeps [of ?s3 clk sp] safe
    by (intro that) (auto simp: tel_keeps_def only_safe_exports_def)
qed

text \<open>The number of datagrams that the loop meets before its socket fails.\<close>

fun datagrams :: "rx list \<Rightarrow> nat" where
  "datagrams [] = 0"
| "datagrams (RxErr (TimeoutError m) # q) = datagrams q"
| "datagrams (RxErr e # q) = 0"
| "datagrams (_ # q) = Suc (datagrams q)"

lemma receive_loop_ok:
  assumes "\<forall>e. RxErr e \<in> set q \<longrightarrow> is_OSError e"
  shows "\<exists>s'. receive_loop depth k clk q s = (Inr (), s')
    \<and> received s' + rejected s' = received s + rejected s + datagrams q
    \<and> (cache_inv (cache s) \<longrightarrow> cache_inv (cache s')) \<and> (only_safe_exports s \<longrightarrow> only_safe_exports s')"
  using assms
proof (induction q arbitrary: s)
  case Nil
  then show ?case by simp
next
  case (Cons x q)
  have tl: "\<forall>e. RxErr e \<in> set q \<longrightarrow> is_OSError e" using Cons.prems by simp
  have step: ?case if "receive_loop depth k clk (x # q) s =
      bind_act (receive_datagram depth k clk b) (\<lambda>_. receive_loop depth k clk q) s"
    "datagrams (x # q) = Suc (datagrams q)" for b
  proof -
    obtain s1 where s1: "receive_datagram depth k clk b s = (Inr (), s1)"
      "received s1 + rejected s1 = Suc (received s + rejected s)"
      "cache_inv (cache s) \<longrightarrow> cache_inv (cache s1)" "only_safe_exports s \<longrightarrow> only_safe_exports s1"
      by (rule receive_datagram_ok)
    with Cons.IH [OF tl, of s1] that show ?thesis by (auto simp: bind_act_def)
  qed
  show ?case
  proof (cases x)
    case (RxErr e)
    with Cons.prems have "is_OSError e" by simp
    with RxErr Cons.IH [OF tl, of s] show ?thesis by (cases e) auto
  qed (use step in auto)
qed

subsection \<open>The exporter\<close>

lemma read_bounded_frame:
  fixes s :: "'z web_scheme"
  assumes "read_bounded clk maximum deadline s = (r, s')"
  shows "requests s' = requests s"
    "r = Inl e \<Longrightarrow> is_OSError e \<or> is_ValueError e \<or> RxErr e \<in> set (inbox s)"
  using telemetry_reader.loop_frame [of "[]" maximum clk deadline s r s'] assms
  by (auto simp: read_bounded_def)

lemma with_deadline_frame:
  fixes s :: "'z web_scheme"
  assumes "with_deadline clk late deadline body s = (r, s')"
    and "\<And>s1 s2 x. requests s1 = requests s \<Longrightarrow> attempts s1 = attempts s \<Longrightarrow> body s1 = (x, s2) \<Longrightarrow>
      P (requests s2) \<and> (\<forall>e. x = Inl e \<longrightarrow> Q e) \<and> (\<forall>y. x = Inr y \<longrightarrow> R y)"
    and "P (requests s)" "Q late"
  shows "P (requests s') \<and> (\<forall>e. r = Inl e \<longrightarrow> Q e) \<and> (\<forall>y. r = Inr y \<longrightarrow> R y)"
proof -
  let ?s = "settimeout (deadline - clk (ticks s)) (snd (now clk s))"
  obtain x s2 where x: "body ?s = (x, s2)" by fastforce
  have "requests ?s = requests s" "attempts ?s = attempts s"
    by (simp_all add: settimeout_def now_def)
  from assms(2) [OF this x] have f: "P (requests s2)" "\<forall>e. x = Inl e \<longrightarrow> Q e" "\<forall>y. x = Inr y \<longrightarrow> R y" by auto
  from assms(1) x have "r = Inl late \<and> (requests s' = requests s \<or> requests s' = requests s2)
    \<or> r = x \<and> requests s' = requests s2"
    by (auto simp: with_deadline_def now_def Let_def split: if_splits)
  with f assms(3,4) show ?thesis by auto
qed

lemma http_exchange_cases:
  assumes "http_exchange a rq s = (r, s')"
  shows "requests s' = requests s @ [rq]" "r = at_reply a" "r = Inr y \<Longrightarrow> inbox s' = reply_body y"
  using assms by (auto simp: http_exchange_def Let_def split: sum.splits)

text \<open>The status that \<open>BoundedSession.post\<close> reports is never a redirect, and at most the one
  request of the validated configuration is written.\<close>

definition sent_at_most :: "http_request \<Rightarrow> http_request list \<Rightarrow> http_request list \<Rightarrow> bool" where
  "sent_at_most rq before after \<longleftrightarrow> after = before \<or> after = before @ [rq]"

definition not_redirect :: "int \<Rightarrow> bool" where
  "not_redirect status \<longleftrightarrow> \<not> (300 \<le> status \<and> status < 400)"

lemma export_body:
  assumes a: "attempt_sane export_exn a" and b: "bind_act (http_exchange a rq) (\<lambda>response.
       bind_act (read_bounded clk 65536 deadline) (\<lambda>_.
       ret_act (if 300 \<le> reply_status response \<and> reply_status response < 400 then 400
                else reply_status response))) s = (r, s')"
  shows "requests s' = requests s @ [rq] \<and> (\<forall>e. r = Inl e \<longrightarrow> export_exn e) \<and> (\<forall>y. r = Inr y \<longrightarrow> not_redirect y)"
proof -
  obtain x s1 where x: "http_exchange a rq s = (x, s1)" by fastforce
  note h = http_exchange_cases [OF x]
  show ?thesis
  proof (cases x)
    case (Inl e)
    then have e: "at_reply a = Inl e" using h(2) by simp
    with a have "export_exn e" by (simp add: attempt_sane_def)
    with b x Inl h(1) show ?thesis by (auto simp: bind_act_def)
  next
    case (Inr reply)
    obtain z s2 where z: "read_bounded clk 65536 deadline s1 = (z, s2)" by fastforce
    have reply: "at_reply a = Inr reply" "inbox s1 = reply_body reply" using h(2,3) Inr by simp_all
    have "export_exn e" if "z = Inl e" for e
      using read_bounded_frame(2) [OF z that] reply a by (auto simp: attempt_sane_def export_exn_def)
    with b x Inr z read_bounded_frame(1) [OF z] h(1) show ?thesis
      by (cases z) (auto simp: bind_act_def ret_act_def not_redirect_def split: if_splits)
  qed
qed

lemma export_attempt_ok:
  assumes "export_attempt clk deadline secure rq s = (r, s')" "web_sane export_exn s"
  shows "sent_at_most rq (requests s) (requests s') \<and> (\<forall>e. r = Inl e \<longrightarrow> export_exn e)
    \<and> (\<forall>y. r = Inr y \<longrightarrow> not_redirect y)"
proof -
  have late: "export_exn telemetry_late" by (simp add: telemetry_late_def export_exn_def)
  obtain x s1 where x: "create_connection s = (x, s1)" by fastforce
  have f: "requests s1 = requests s" using create_connection_frame [OF x] by blast
  show ?thesis
  proof (cases x)
    case (Inl e)
    have "export_exn e"
      using create_connection_Inl [OF x [unfolded Inl] assms(2)] by (simp add: export_exn_def)
    with assms(1) x Inl f show ?thesis by (auto simp: export_attempt_def bind_act_def sent_at_most_def)
  next
    case (Inr a)
    have a: "attempt_sane export_exn a"
      using create_connection_Inr(1) [OF x [unfolded Inr]] assms(2) by (auto simp: web_sane_def)
    let ?hs = "if secure then with_deadline clk telemetry_late deadline (lift_res (at_handshake a)) else ret_act ()"
    obtain y s2 where y: "?hs s1 = (y, s2)" by fastforce
    have hs: "requests s2 = requests s \<and> (\<forall>e. y = Inl e \<longrightarrow> export_exn e)"
    proof (cases secure)
      case True
      then have w: "with_deadline clk telemetry_late deadline (lift_res (at_handshake a)) s1 = (y, s2)" using y by simp
      have "requests s2 = requests s \<and> (\<forall>e. y = Inl e \<longrightarrow> export_exn e) \<and> (\<forall>z. y = Inr z \<longrightarrow> True)"
        by (rule with_deadline_frame [OF w]) (use a f late in \<open>auto simp: attempt_sane_def\<close>)
      then show ?thesis by simp
    qed (use y f in auto)
    show ?thesis
    proof (cases y)
      case (Inl e)
      with assms(1) x Inr y hs show ?thesis by (auto simp: export_attempt_def bind_act_def sent_at_most_def)
    next
      case (Inr u)
      let ?body = "bind_act (http_exchange a rq) (\<lambda>response. bind_act (read_bounded clk 65536 deadline) (\<lambda>_.
         ret_act (if 300 \<le> reply_status response \<and> reply_status response < 400 then 400
                  else reply_status response)))"
      have w: "with_deadline clk telemetry_late deadline ?body s2 = (r, s')"
        using assms(1) x \<open>x = Inr a\<close> y Inr by (simp add: export_attempt_def bind_act_def)
      show ?thesis
      proof (rule with_deadline_frame [OF w])
        fix s3 s4 z
        assume "requests s3 = requests s2" "?body s3 = (z, s4)"
        with export_body [OF a, of rq clk deadline s3 z s4] hs
        show "sent_at_most rq (requests s) (requests s4) \<and> (\<forall>e. z = Inl e \<longrightarrow> export_exn e)
          \<and> (\<forall>y. z = Inr y \<longrightarrow> not_redirect y)" by (simp add: sent_at_most_def)
      qed (use hs late in \<open>simp_all add: sent_at_most_def\<close>)
    qed
  qed
qed

section \<open>Properties\<close>

text \<open>A response body that \<open>read_bounded\<close> returns is complete and within its bound, and every
  block was read before the deadline. Conversely a complete body is returned when it fits and
  refused when it does not, however the peer cuts it into blocks, as long as the clock has not
  reached the deadline.\<close>

theorem read_bounded_exact:
  "(read_bounded clk maximum deadline s = (Inr d, s') \<longrightarrow>
      length d \<le> maximum \<and> d = rx_data (inbox s) \<and> rx_closed (inbox s)
      \<and> (\<forall>i. ticks s \<le> i \<and> i < ticks s' \<longrightarrow> clk i < deadline))
   \<and> (rx_closed (inbox s) \<and> (\<forall>i. clk i < deadline) \<longrightarrow>
      fst (read_bounded clk maximum deadline s) =
        (if length (rx_data (inbox s)) \<le> maximum then Inr (rx_data (inbox s))
         else Inl (ValueError ''HTTP response exceeds bound'')))"
  using read_bounded_Inr [of clk maximum deadline s d s']
    telemetry_reader.loop_returns [of "[]" maximum s clk deadline]
  by (simp add: read_bounded_def)

theorem read_bounded_exact_witness:
  "fst (read_bounded (\<lambda>_. 0) 4 1
     \<lparr>ticks = 0, inbox = [Data [1, 2], Data [3], Closed], sock_timeout = None, outbox = []\<rparr>) = Inr [1, 2, 3]
   \<and> fst (read_bounded (\<lambda>_. 0) 2 1
     \<lparr>ticks = 0, inbox = [Data [1, 2], Data [3], Closed], sock_timeout = None, outbox = []\<rparr>)
     = Inl (ValueError ''HTTP response exceeds bound'')"
  using read_bounded_exact [of "\<lambda>_. 0" 4 1
      "\<lparr>ticks = 0, inbox = [Data [1, 2], Data [3], Closed], sock_timeout = None, outbox = []\<rparr>"]
    read_bounded_exact [of "\<lambda>_. 0" 2 1
      "\<lparr>ticks = 0, inbox = [Data [1, 2], Data [3], Closed], sock_timeout = None, outbox = []\<rparr>"]
  by simp

text \<open>The exporter's session is contained. For an endpoint that the configuration accepted and
  sockets that raise only their documented errors, \<open>post\<close> always returns a response, whose status
  is never a redirect, and writes at most one request, to the host, port and path of the endpoint
  and with the configured headers.\<close>

theorem session_post_contained:
  assumes "trace_endpoint environ = Inr endpoint" "web_sane export_exn s"
  shows "\<exists>status s' parsed port. session_post clk endpoint headers url data timeout cert s = (Inr status, s')
    \<and> \<not> (300 \<le> status \<and> status < 400) \<and> urlsplit endpoint = Inr parsed \<and> url_port parsed = Inr port
    \<and> (requests s' = requests s \<or> requests s' = requests s @ [export_request parsed port headers data])"
proof -
  from assms(1) obtain parsed port where p: "urlsplit endpoint = Inr parsed" "url_port parsed = Inr port"
    by (rule trace_endpoint_Inr) blast
  let ?dur = "min EXPORT_SECONDS (max 0 timeout)"
  let ?s = "snd (now clk s)"
  show ?thesis
  proof (cases "url \<noteq> endpoint \<or> cert \<or> length data > 4 * 1024 * 1024 \<or> ?dur \<le> 0")
    case True
    then show ?thesis using p by (auto simp: session_post_def bind_act_def lift_res_def Let_def)
  next
    case False
    obtain r s' where r: "export_attempt clk (clk (ticks s) + ?dur) (url_scheme parsed = ''https'')
        (export_request parsed port headers data) ?s = (r, s')" by fastforce
    have "web_sane export_exn ?s" "requests ?s = requests s"
      using assms(2) by (simp_all add: web_sane_def now_def)
    with export_attempt_ok [OF r] have ok: "sent_at_most (export_request parsed port headers data) (requests s) (requests s')"
      "\<forall>e. r = Inl e \<longrightarrow> export_exn e" "\<forall>y. r = Inr y \<longrightarrow> not_redirect y" by simp_all
    have "session_post clk endpoint headers url data timeout cert s =
        (case r of Inl e \<Rightarrow> (Inr 400, s') | Inr y \<Rightarrow> (Inr y, s'))"
      using False p r ok(2) by (cases r) (simp_all add: session_post_def bind_act_def lift_res_def Let_def
          now_def catch_act_def ret_act_def)
    with ok p show ?thesis by (cases r) (auto simp: sent_at_most_def not_redirect_def)
  qed
qed

theorem session_post_contained_witness:
  "\<exists>status s' parsed port. session_post (\<lambda>_. 0) ''http://127.0.0.1:4318/v1/traces'' [] [] [] 1 False
     \<lparr>ticks = 0, inbox = [], sock_timeout = None, outbox = [], attempts = [], requests = []\<rparr> = (Inr status, s')
    \<and> \<not> (300 \<le> status \<and> status < 400) \<and> urlsplit ''http://127.0.0.1:4318/v1/traces'' = Inr parsed
    \<and> url_port parsed = Inr port
    \<and> (requests s' = requests \<lparr>ticks = 0, inbox = [], sock_timeout = None, outbox = [], attempts = [], requests = []\<rparr>
       \<or> requests s' = requests \<lparr>ticks = 0, inbox = [], sock_timeout = None, outbox = [], attempts = [], requests = []\<rparr>
           @ [export_request parsed port [] []])"
  by (rule session_post_contained [OF default_trace_endpoint]) (simp add: web_sane_def)

text \<open>(C36) The receiver survives every datagram. As long as its socket raises only \<open>OSError\<close>s, the
  thread ends normally, every datagram before a socket failure is counted as received or rejected,
  and only spans with an allowlisted name, allowlisted attributes and at most 8 links reach the
  exporter, with the link cache within its bound.\<close>

theorem receiver_survives:
  assumes "\<forall>e. RxErr e \<in> set q \<longrightarrow> is_OSError e" "sdk_log s = []" "cache_inv (cache s)"
  shows "\<exists>s'. receive_loop depth k clk q s = (Inr (), s')
    \<and> received s' + rejected s' = received s + rejected s + datagrams q
    \<and> cache_inv (cache s') \<and> (\<forall>sp. OnEnd sp \<in> set (sdk_log s') \<longrightarrow> export_safe sp)"
  using receive_loop_ok [OF assms(1), of depth k clk s] assms(2,3)
  by (auto simp: only_safe_exports_def)

theorem receiver_survives_witness:
  "\<exists>s'. receive_loop 10 \<lparr>span_ctx = (\<lambda>n. \<lparr>trace_id = 1, span_id = n, trace_flags = 1, is_valid = True\<rparr>),
      mk_context = (\<lambda>t i f. \<lparr>trace_id = t, span_id = i, trace_flags = f, is_valid = True\<rparr>)\<rparr> (\<lambda>_. 0) [Data [1], RxErr (TimeoutError []), Data []]
      \<lparr>ticks = 0, inbox = [], sock_timeout = None, outbox = [], attempts = [], requests = [], tracing = True,
       cache = new_cache, sdk_log = [], active = [], next_span = 0, received = 0, rejected = 0\<rparr> = (Inr (), s')
    \<and> received s' + rejected s' = 2
    \<and> cache_inv (cache s') \<and> (\<forall>sp. OnEnd sp \<in> set (sdk_log s') \<longrightarrow> export_safe sp)"
  using receiver_survives [of "[Data [1], RxErr (TimeoutError []), Data []]"
      "\<lparr>ticks = 0, inbox = [], sock_timeout = None, outbox = [], attempts = [], requests = [], tracing = True,
       cache = new_cache, sdk_log = [], active = [], next_span = 0, received = 0, rejected = 0\<rparr>" 10
      "\<lparr>span_ctx = (\<lambda>n. \<lparr>trace_id = 1, span_id = n, trace_flags = 1, is_valid = True\<rparr>),
      mk_context = (\<lambda>t i f. \<lparr>trace_id = t, span_id = i, trace_flags = f, is_valid = True\<rparr>)\<rparr>" "\<lambda>_. 0"]
  by (simp add: new_cache_inv numeral_2_eq_2)

end
