(* ===== verification/Driver_Net.thy ===== *)
theory Driver_Net
  imports Driver_Wire Telemetry_Trace
begin

text \<open>
  The effectful part of \<open>ccf/host_driver.py\<close>: the client of the enclave (\<open>Enclave.post\<close>), the exact
  reader of client connections, the TCP and UDP handlers and the exchange with a secondary.

  The state extends that of telemetry with the results of the sends to a client, the datagrams of
  secondaries, and the log of what a handler sent or refused.
\<close>

section \<open>State\<close>

record drv = tel +
  send_results :: "unit res list"
  udp_results :: "bytes res list"
  udp_sent :: "(string \<times> nat \<times> bytes) list"
  stage :: string
  completed :: nat
  warnings :: "(string \<times> nat) list"

definition context_of :: "sdk \<Rightarrow> nat option \<Rightarrow> span_context option" where
  "context_of k sp = map_option (span_ctx k) sp"

text \<open>The metadata of a packet for the callers, which do not expect an exception: the reader never
  raises one.\<close>

definition metadata_of :: "bytes \<Rightarrow> ('s, json dict) act" where
  "metadata_of packet = lift_res (dns_metadata packet)"

definition snapshot_key :: "json dict \<Rightarrow> link_key option" where
  "snapshot_key metadata =
     (case (map_of metadata ''dns.zone'', map_of metadata ''dns.zone.serial'') of
        (Some (JStr zone), Some (JInt serial)) \<Rightarrow> Some (ZoneSerial zone serial)
      | _ \<Rightarrow> None)"

definition link_snapshot :: "sdk \<Rightarrow> clock \<Rightarrow> nat option \<Rightarrow> json dict \<Rightarrow> 'z tel_scheme \<Rightarrow> 'z tel_scheme" where
  "link_snapshot k clk sp metadata s =
     (case (sp, snapshot_key metadata) of
        (Some h, Some key) \<Rightarrow>
          let (previous, s1) = tracer_get clk key s;
              s2 = (case previous of
                      Some ctx \<Rightarrow> if ctx \<noteq> span_ctx k h then log_call (AddLink h ctx) s1 else s1
                    | None \<Rightarrow> s1) in
          fold (\<lambda>(key, value). set_attribute sp key value) metadata s2
      | _ \<Rightarrow> s)"

section \<open>The enclave client\<close>

record enclave =
  en_host :: string
  en_port :: nat
  en_timeout :: real

definition enclave_init :: "string \<Rightarrow> real \<Rightarrow> enclave res" where
  "enclave_init base_url timeout =
     bindr (urlsplit base_url) (\<lambda>parsed.
     if url_scheme parsed \<noteq> ''https'' \<or> url_extras parsed
     then Inl (ValueError ''CCF base URL must be an HTTPS origin'')
     else if url_path parsed \<notin> {[], ''/''} then Inl (ValueError ''CCF base URL cannot contain a path'')
     else case url_hostname parsed of
       None \<Rightarrow> Inl (ValueError ''CCF base URL requires a host'')
     | Some host \<Rightarrow>
         bindr (url_port parsed) (\<lambda>port.
           Inr \<lparr>en_host = host,
                en_port = (case port of None \<Rightarrow> 443 | Some p \<Rightarrow> if p = 0 then 443 else p),
                en_timeout = timeout\<rparr>))"

datatype post_body = Packet bytes | JsonBody json
datatype post_result = RawBytes bytes | JsonValue json

definition body_bytes :: "post_body \<Rightarrow> bytes" where
  "body_bytes body =
     (case body of Packet b \<Rightarrow> b | JsonBody v \<Rightarrow> encode_str (dumps quote_ascii '','' '':'' v))"

definition response_limit :: "bool \<Rightarrow> bool \<Rightarrow> nat" where
  "response_limit binary framed =
     (if binary then (if framed then MAX_TRANSFER_BYTES else 1232) else 4 * 1024 * 1024)"

definition confirm_json :: "json \<Rightarrow> post_result res" where
  "confirm_json result =
     (case result of
        JDict d \<Rightarrow>
          if map_of d ''status'' = Some (JStr ''committed'') then Inr (JsonValue result)
          else Inl (RuntimeError ''CCF response does not confirm global commitment'')
      | _ \<Rightarrow> Inl (RuntimeError ''CCF response does not confirm global commitment''))"

text \<open>The tests of a response, in the order of the code.\<close>

definition check_response :: "nat \<Rightarrow> bool \<Rightarrow> bool \<Rightarrow> http_reply \<Rightarrow> bytes \<Rightarrow> post_result res" where
  "check_response depth binary framed response data =
     (if reply_status response \<noteq> 200 then Inl (RuntimeError ''CCF returned HTTP status'')
      else if getheader response ''x-agentdns-commit-status'' \<noteq> Some ''committed''
      then Inl (RuntimeError ''CCF response is not globally committed'')
      else if binary then
        if framed then bindr (validate_frames data) (\<lambda>_. Inr (RawBytes data))
        else if \<not> (12 \<le> length data \<and> length data \<le> 1232)
        then Inl (ValueError ''invalid authenticated UDP response size'')
        else Inr (RawBytes data)
      else bindr (json_loads depth plain_hooks data) confirm_json)"

definition set_both :: "nat option \<Rightarrow> nat option \<Rightarrow> string \<Rightarrow> json \<Rightarrow> 'z tel_scheme \<Rightarrow> 'z tel_scheme" where
  "set_both a b key value s = set_attribute b key value (set_attribute a key value s)"

definition mark_committed :: "nat option \<Rightarrow> nat option \<Rightarrow> string option \<Rightarrow> 'z tel_scheme \<Rightarrow> 'z tel_scheme" where
  "mark_committed a b transaction s =
     (let mark = (\<lambda>sp s. let s1 = set_attribute sp ''agentdns.committed'' (JBool True) s in
                    case transaction of
                      Some tx \<Rightarrow> if canonical_transaction transaction
                                then set_attribute sp ''ccf.transaction_id'' (JStr tx) s1 else s1
                    | None \<Rightarrow> s1) in
      mark b (mark a s))"

definition post_attributes :: "string \<Rightarrow> json dict" where
  "post_attributes path = [(''http.route'', JStr (''/app/internal/'' @ path)),
     (''http.request.method'', JStr ''POST''), (''agentdns.committed'', JBool False)]"

definition post_request :: "enclave \<Rightarrow> string \<Rightarrow> bytes \<Rightarrow> string \<Rightarrow> string option \<Rightarrow> http_request" where
  "post_request en path body content_type parent =
     \<lparr>rq_host = en_host en, rq_port = en_port en, rq_method = ''POST'', rq_path = ''/app/internal/'' @ path,
      rq_body = body,
      rq_headers = (''Content-Type'', content_type) # (case parent of None \<Rightarrow> [] | Some p \<Rightarrow> [(''traceparent'', p)])\<rparr>"

text \<open>The block under the span \<open>driver.ccf.commit_wait\<close>.\<close>

definition commit_wait ::
    "nat \<Rightarrow> clock \<Rightarrow> attempt \<Rightarrow> http_request \<Rightarrow> bool \<Rightarrow> bool \<Rightarrow> real \<Rightarrow> nat option \<Rightarrow> nat option
     \<Rightarrow> ('z tel_scheme, post_result) act" where
  "commit_wait depth clk a rq binary framed deadline sp wait =
     bind_act (http_exchange a rq) (\<lambda>response.
     bind_act (read_bounded clk (response_limit binary framed) deadline) (\<lambda>data s.
       let s1 = set_both sp wait ''http.response.status_code'' (JInt (reply_status response)) s in
       case check_response depth binary framed response data of
         Inl e \<Rightarrow> (Inl e, s1)
       | Inr result \<Rightarrow> (Inr result, mark_committed sp wait (getheader response ''x-agentdns-transaction-id'') s1)))"

definition enclave_post ::
    "nat \<Rightarrow> sdk \<Rightarrow> clock \<Rightarrow> enclave \<Rightarrow> string \<Rightarrow> post_body \<Rightarrow> string \<Rightarrow> bool \<Rightarrow> bool
     \<Rightarrow> ('z tel_scheme, post_result) act" where
  "enclave_post depth k clk en path body content_type binary framed =
     with_span ''driver.ccf.request'' (post_attributes path) [] ''CLIENT'' (\<lambda>sp s.
       let (t, s1) = now clk s; deadline = t + en_timeout en in
       own_connection (
         bind_act create_connection (\<lambda>a.
         with_deadline clk telemetry_late deadline (
           bind_act (lift_res (at_handshake a)) (\<lambda>_ s2.
             let rq = post_request en path (body_bytes body) content_type (traceparent k s2) in
             with_span ''driver.ccf.commit_wait'' (post_attributes path) [] ''INTERNAL''
               (commit_wait depth clk a rq binary framed deadline sp) s2)))) s1)"

section \<open>Readers\<close>

function bounded_response_loop :: "clock \<Rightarrow> nat \<Rightarrow> real \<Rightarrow> bytes \<Rightarrow> ('z net_scheme, bytes) act" where
  "bounded_response_loop clk maximum deadline chunks s =
     (if length chunks \<le> maximum then
        let (t, s1) = now clk s in
        if t \<ge> deadline then (Inl (TimeoutError ''CCF response deadline exceeded''), s1)
        else case recv (min 65536 (maximum + 1 - length chunks)) s1 of
          (Inl e, s2) \<Rightarrow> (Inl e, s2)
        | (Inr chunk, s2) \<Rightarrow>
            if chunk = [] then (Inr chunks, s2)
            else bounded_response_loop clk maximum deadline (chunks @ chunk) s2
      else (Inl (ValueError ''CCF response too large''), s))"
  by pat_completeness auto
termination
  by (relation "measure (\<lambda>(_, maximum, _, chunks, _). maximum + 1 - length chunks)") (auto simp: neq_Nil_conv)

declare bounded_response_loop.simps [simp del]

definition bounded_response :: "clock \<Rightarrow> nat \<Rightarrow> real \<Rightarrow> ('z net_scheme, bytes) act" where
  "bounded_response clk maximum timeout s =
     (let (t, s1) = now clk s in bounded_response_loop clk maximum (t + timeout) [] s1)"

interpretation driver_reader: bounded_reader clk maximum deadline
  "TimeoutError ''CCF response deadline exceeded''" "ValueError ''CCF response too large''"
  "bounded_response_loop clk maximum deadline"
  for clk maximum deadline
  by unfold_locales
    (subst bounded_response_loop.simps,
     auto simp: bounded_response_loop.simps [of clk maximum deadline "_ @ _"] Let_def split: prod.splits sum.splits)

text \<open>\<open>exact\<close>: the message of a time-out tells the bytes received and expected, which the model
  leaves out.\<close>

function exact_loop :: "clock \<Rightarrow> nat \<Rightarrow> real option \<Rightarrow> bytes \<Rightarrow> ('z net_scheme, bytes option) act" where
  "exact_loop clk want deadline data s =
     (if length data < want then
        let (expired, s2) = (case deadline of
              None \<Rightarrow> (False, s)
            | Some d \<Rightarrow>
                let (t, s1) = now clk s in
                if d - t \<le> 0 then (True, s1) else (False, settimeout (min 10 (d - t)) s1)) in
        if expired then (Inl (TimeoutError ''DNS connection deadline exceeded''), s2)
        else case recv (want - length data) s2 of
          (Inl e, s3) \<Rightarrow>
            (case e of
               TimeoutError _ \<Rightarrow> (Inl (TimeoutError ''DNS TCP read timed out''), s3)
             | _ \<Rightarrow> (Inl e, s3))
        | (Inr block, s3) \<Rightarrow>
            if block = [] then
              (if data = [] then (Inr None, s3) else (Inl (EOFError ''truncated TCP request''), s3))
            else exact_loop clk want deadline (data @ block) s3
      else (Inr (Some data), s))"
  by pat_completeness auto
termination
  by (relation "measure (\<lambda>(_, want, _, data, _). want - length data)") (auto simp: neq_Nil_conv)

declare exact_loop.simps [simp del]

definition exact :: "clock \<Rightarrow> nat \<Rightarrow> real option \<Rightarrow> ('z net_scheme, bytes option) act" where
  "exact clk want deadline = exact_loop clk want deadline []"

section \<open>The TCP handler\<close>

text \<open>A send to the client, whose outcome the environment decides.\<close>

definition send_client :: "bytes \<Rightarrow> ('z drv_scheme, unit) act" where
  "send_client b s =
     (case send_results s of
        Inl e # rest \<Rightarrow> (Inl e, s\<lparr>send_results := rest\<rparr>)
      | Inr _ # rest \<Rightarrow> (Inr (), sendall b (s\<lparr>send_results := rest\<rparr>))
      | [] \<Rightarrow> (Inr (), sendall b s))"

definition set_stage :: "string \<Rightarrow> ('z drv_scheme, unit) act" where
  "set_stage st s = (Inr (), s\<lparr>stage := st\<rparr>)"

definition raw_of :: "post_result \<Rightarrow> bytes res" where
  "raw_of r = (case r of RawBytes b \<Rightarrow> Inr b | JsonValue _ \<Rightarrow> Inl (TypeError ''bytes expected''))"

text \<open>The part of a request under the span \<open>driver.dns.axfr\<close>: the snapshot that the transfer
  carries is linked before it is sent and remembered after.\<close>

definition note_transfer ::
    "sdk \<Rightarrow> clock \<Rightarrow> nat option \<Rightarrow> bytes \<Rightarrow> ('z drv_scheme, json dict) act" where
  "note_transfer k clk sp signed_frames =
     (case sp of
        None \<Rightarrow> ret_act []
      | Some h \<Rightarrow>
          bind_act (metadata_of (slice 2 (2 + be_nat (take 2 signed_frames)) signed_frames)) (\<lambda>transferred s.
            (Inr transferred, set_attribute sp ''agentdns.transfer.bytes'' (JInt (int (length signed_frames)))
                                (link_snapshot k clk sp transferred s))))"

definition remember_snapshot ::
    "sdk \<Rightarrow> clock \<Rightarrow> nat option \<Rightarrow> json dict \<Rightarrow> 'z tel_scheme \<Rightarrow> 'z tel_scheme" where
  "remember_snapshot k clk sp metadata s =
     (case (sp, snapshot_key metadata) of
        (Some h, Some key) \<Rightarrow> tracer_put clk key (Some (span_ctx k h)) s
      | _ \<Rightarrow> s)"

definition transfer_answer ::
    "nat \<Rightarrow> sdk \<Rightarrow> clock \<Rightarrow> enclave \<Rightarrow> real \<Rightarrow> bytes \<Rightarrow> nat option \<Rightarrow> ('z drv_scheme, unit) act" where
  "transfer_answer depth k clk en deadline packet sp =
     bind_act (set_stage ''authority_request'') (\<lambda>_.
     bind_act (enclave_post depth k clk en ''axfr'' (Packet packet) ''application/dns-message'' True True) (\<lambda>r.
     bind_act (lift_res (raw_of r)) (\<lambda>signed_frames.
     bind_act (note_transfer k clk sp signed_frames) (\<lambda>transferred s.
       let (t, s1) = now clk s in
       if deadline - t \<le> 0 then (Inl (TimeoutError ''DNS connection deadline exceeded''), s1)
       else bind_act (set_stage ''response_send'') (\<lambda>_ s2.
         bind_act (send_client signed_frames) (\<lambda>_ s3.
           (Inr (), remember_snapshot k clk sp transferred (s3\<lparr>completed := completed s3 + 1\<rparr>)))
           (settimeout (min 10 (deadline - t)) s2)) s1))))"

text \<open>One request of a connection: \<open>False\<close> when the client has closed it.\<close>

definition transfer_request ::
    "nat \<Rightarrow> sdk \<Rightarrow> clock \<Rightarrow> enclave \<Rightarrow> real \<Rightarrow> ('z drv_scheme, bool) act" where
  "transfer_request depth k clk en deadline =
     bind_act (set_stage ''request_length'') (\<lambda>_.
     bind_act (exact clk 2 (Some deadline)) (\<lambda>prefix.
     case prefix of
       None \<Rightarrow> ret_act False
     | Some len_bytes \<Rightarrow>
         if be_nat len_bytes < 12 then raise_act (ValueError ''short DNS request'')
         else
           bind_act (set_stage ''request_body'') (\<lambda>_.
           bind_act (exact clk (be_nat len_bytes) (Some deadline)) (\<lambda>message.
           case message of
             None \<Rightarrow> raise_act (EOFError ''missing DNS request'')
           | Some packet \<Rightarrow>
               bind_act (metadata_of packet) (\<lambda>metadata.
               bind_act (with_span ''driver.dns.axfr'' (dict_merge metadata [(''network.transport'', JStr ''tcp'')]) []
                           ''SERVER'' (transfer_answer depth k clk en deadline packet)) (\<lambda>_. ret_act True))))))"

fun transfer_loop ::
    "nat \<Rightarrow> sdk \<Rightarrow> clock \<Rightarrow> enclave \<Rightarrow> real \<Rightarrow> nat \<Rightarrow> ('z drv_scheme, unit) act" where
  "transfer_loop depth k clk en deadline 0 s = (Inr (), s)"
| "transfer_loop depth k clk en deadline (Suc n) s =
     bind_act (transfer_request depth k clk en deadline) (\<lambda>more.
       if more then transfer_loop depth k clk en deadline n else ret_act ()) s"

definition handler_exn :: "exn \<Rightarrow> bool" where
  "handler_exn e \<longleftrightarrow> is_OSError e \<or> is_ValueError e \<or> is_RuntimeError e \<or> is_HTTPException e"

definition transfer_handle :: "nat \<Rightarrow> sdk \<Rightarrow> clock \<Rightarrow> enclave \<Rightarrow> ('z drv_scheme, unit) act" where
  "transfer_handle depth k clk en s =
     catch_act (\<lambda>e. handler_exn e \<or> is_EOFError e)
       (\<lambda>_ s. (Inr (), s\<lparr>warnings := warnings s @ [(stage s, completed s)]\<rparr>))
       (\<lambda>s. let (t, s1) = now clk s in
            transfer_loop depth k clk en (t + MAX_CONNECTION_SECONDS) MAX_REQUESTS_PER_CONNECTION s1)
       (s\<lparr>stage := ''request_length'', completed := 0\<rparr>)"

section \<open>The UDP handler\<close>

definition udp_answer :: "nat \<Rightarrow> sdk \<Rightarrow> clock \<Rightarrow> enclave \<Rightarrow> bytes \<Rightarrow> nat option \<Rightarrow> ('z drv_scheme, unit) act" where
  "udp_answer depth k clk en packet sp =
     bind_act (enclave_post depth k clk en ''udp'' (Packet packet) ''application/dns-message'' True False) (\<lambda>r.
     bind_act (lift_res (raw_of r)) (\<lambda>response.
     bind_act (metadata_of response) (\<lambda>metadata s. send_client response (link_snapshot k clk sp metadata s))))"

definition udp_handle :: "nat \<Rightarrow> sdk \<Rightarrow> clock \<Rightarrow> enclave \<Rightarrow> bytes \<Rightarrow> ('z drv_scheme, unit) act" where
  "udp_handle depth k clk en packet =
     catch_act handler_exn (\<lambda>_ s. (Inr (), s\<lparr>warnings := warnings s @ [(''udp'', 0)]\<rparr>))
       (if \<not> (12 \<le> length packet \<and> length packet \<le> MAX_DNS) then ret_act ()
        else bind_act (metadata_of packet) (\<lambda>metadata.
          with_span ''driver.dns.udp'' (dict_merge metadata [(''network.transport'', JStr ''udp'')]) [] ''SERVER''
            (udp_answer depth k clk en packet)))"

section \<open>The exchange with a secondary\<close>

text \<open>The connected UDP socket: one datagram out, the environment's answer in, cut at the size
  that \<open>recv\<close> asks for.\<close>

definition udp_exchange :: "string \<Rightarrow> nat \<Rightarrow> bytes \<Rightarrow> ('z drv_scheme, bytes) act" where
  "udp_exchange host port packet s =
     (let s1 = s\<lparr>udp_sent := udp_sent s @ [(host, port, packet)]\<rparr> in
      case udp_results s of
        [] \<Rightarrow> (Inl (TimeoutError ''timed out''), s1)
      | r # rest \<Rightarrow> (bindr r (\<lambda>b. Inr (take (MAX_DNS + 1) b)), s1\<lparr>udp_results := rest\<rparr>))"

definition notified_serial :: "json \<Rightarrow> int option" where
  "notified_serial result =
     (case result of
        JDict d \<Rightarrow>
          (case map_of d ''secondary'' of
             Some (JDict state) \<Rightarrow>
               (case map_of state ''last_notified_serial'' of
                  Some (JInt value) \<Rightarrow> if 0 \<le> value \<and> value < 2 ^ 32 then Some value else None
                | _ \<Rightarrow> None)
           | _ \<Rightarrow> None)
      | _ \<Rightarrow> None)"

text \<open>The metadata that is linked once the enclave has accepted the response. A NOTIFY carries no
  serial; only the one that the committed response records counts.\<close>

definition confirmed_metadata :: "json \<Rightarrow> json dict \<Rightarrow> json dict \<Rightarrow> json \<Rightarrow> json dict" where
  "confirmed_metadata kind metadata answered result =
     (case (map_of metadata ''dns.zone'', notified_serial result) of
        (Some zone, Some serial) \<Rightarrow>
          if kind = JStr ''notify'' then [(''dns.zone'', zone), (''dns.zone.serial'', JInt serial)] else answered
      | _ \<Rightarrow> answered)"

definition json_of :: "post_result \<Rightarrow> json res" where
  "json_of r = (case r of JsonValue v \<Rightarrow> Inr v | RawBytes _ \<Rightarrow> Inl (TypeError ''dict expected''))"

definition response_body :: "json dict \<Rightarrow> bytes \<Rightarrow> json dict res" where
  "response_body work response =
     bindr (dict_index work ''id'') (\<lambda>i. bindr (dict_index work ''endpoint'') (\<lambda>e.
       Inr [(''id'', i), (''endpoint'', e), (''response_base64url'', JStr (encode response))]))"

definition confirm_response ::
    "nat \<Rightarrow> sdk \<Rightarrow> clock \<Rightarrow> enclave \<Rightarrow> json dict \<Rightarrow> json dict \<Rightarrow> bytes \<Rightarrow> nat option \<Rightarrow> nat option
     \<Rightarrow> ('z drv_scheme, unit) act" where
  "confirm_response depth k clk en work metadata response sp accepted =
     bind_act (lift_res (response_body work response)) (\<lambda>body.
     bind_act (enclave_post depth k clk en ''secondary/response'' (JsonBody (JDict body)) ''application/json'' False True) (\<lambda>r.
     bind_act (lift_res (json_of r)) (\<lambda>result.
     bind_act (metadata_of response) (\<lambda>answered.
     bind_act (lift_res (dict_index work ''kind'')) (\<lambda>kind s.
       let confirmed = confirmed_metadata kind metadata answered result;
           s1 = link_snapshot k clk sp confirmed (link_snapshot k clk accepted confirmed s);
           s2 = set_attribute accepted ''agentdns.committed'' (JBool True) s1;
           s3 = remember_snapshot k clk sp confirmed s2 in
       (Inr (), case (sp, snapshot_key confirmed) of
                  (Some _, Some (ZoneSerial zone _)) \<Rightarrow>
                    if kind = JStr ''soa'' then tracer_put clk (ObservedZone zone) (context_of k accepted) s3 else s3
                | _ \<Rightarrow> s3))))))"

definition exchange_span ::
    "nat \<Rightarrow> sdk \<Rightarrow> clock \<Rightarrow> enclave \<Rightarrow> json dict \<Rightarrow> string \<Rightarrow> nat \<Rightarrow> bytes \<Rightarrow> json dict \<Rightarrow> json dict \<Rightarrow> nat option
     \<Rightarrow> ('z drv_scheme, unit) act" where
  "exchange_span depth k clk en work host port packet metadata attributes sp s =
     bind_act (udp_exchange host port packet) (\<lambda>response.
       if length response > MAX_DNS then raise_act (ValueError ''oversized secondary response'')
       else with_span ''driver.secondary.response'' attributes [] ''INTERNAL''
              (confirm_response depth k clk en work metadata response sp))
       (link_snapshot k clk sp metadata s)"

definition exchange ::
    "nat \<Rightarrow> sdk \<Rightarrow> clock \<Rightarrow> enclave \<Rightarrow> json \<Rightarrow> real option \<Rightarrow> ('z drv_scheme, unit) act" where
  "exchange depth k clk en work_value queued =
     bind_act (lift_res (validate_work work_value)) (\<lambda>work.
     bind_act (lift_res (bindr (dict_index work ''endpoint'') (\<lambda>e.
                 case e of JStr target \<Rightarrow> endpoint target | _ \<Rightarrow> Inl (TypeError ''str expected'')))) (\<lambda>(host, port).
     bind_act (lift_res (bindr (dict_index work ''packet_base64url'') decode)) (\<lambda>packet.
     if \<not> (12 \<le> length packet \<and> length packet \<le> MAX_DNS) then raise_act (ValueError ''invalid outbound DNS message'')
     else
       bind_act (metadata_of packet) (\<lambda>metadata.
       bind_act (lift_res (dict_index work ''kind'')) (\<lambda>kind.
       bind_act (lift_res (dict_index work ''id'')) (\<lambda>work_id s.
         let base = dict_merge metadata [(''agentdns.work.kind'', kind), (''agentdns.work.id'', work_id),
                      (''network.transport'', JStr ''udp'')];
             (attributes, s1) =
               (case queued of
                  None \<Rightarrow> (base, s)
                | Some t0 \<Rightarrow>
                    let (t, s1) = now clk s in
                    (AList.update ''agentdns.queue.age_ms'' (JInt (max 0 \<lfloor>(t - t0) * 1000\<rfloor>)) base, s1));
             (link, s2) =
               (case work_id of JStr i \<Rightarrow> tracer_get clk (Work i) s1 | _ \<Rightarrow> (None, s1)) in
         with_span ''driver.secondary.exchange'' attributes [link] ''CLIENT''
           (exchange_span depth k clk en work host port packet metadata attributes) s2))))))"

section \<open>The input and output of a step\<close>

text \<open>The state without the clock, the socket timeout and the diagnostics. Two states that agree on
  it have the same connections, queues and logs of what was sent.\<close>

definition io_of :: "'z tel_scheme \<Rightarrow> 'z tel_scheme" where
  "io_of s = s\<lparr>ticks := 0, sock_timeout := None, cache := new_cache, sdk_log := [], active := [], next_span := 0\<rparr>"

definition same_io :: "'z tel_scheme \<Rightarrow> 'z tel_scheme \<Rightarrow> bool" where
  "same_io s t \<longleftrightarrow> io_of s = io_of t"

lemma same_io_refl [simp]: "same_io s s"
  by (simp add: same_io_def)

lemma same_io_trans [trans]: "same_io s t \<Longrightarrow> same_io t u \<Longrightarrow> same_io s u"
  by (simp add: same_io_def)

lemma same_io_sym: "same_io s t \<Longrightarrow> same_io t s"
  by (simp add: same_io_def)

lemma same_io_fields:
  assumes "same_io s t"
  shows "inbox t = inbox s" "outbox t = outbox s" "attempts t = attempts s" "requests t = requests s"
    "tracing t = tracing s"
proof -
  note e = assms [unfolded same_io_def]
  show "inbox t = inbox s" "outbox t = outbox s" "attempts t = attempts s" "requests t = requests s"
    "tracing t = tracing s"
    using arg_cong [OF e, of inbox] arg_cong [OF e, of outbox] arg_cong [OF e, of attempts]
      arg_cong [OF e, of requests] arg_cong [OF e, of tracing] by (simp_all add: io_of_def)
qed

lemma same_io_drv:
  fixes s :: "'z drv_scheme"
  assumes "same_io s t"
  shows "send_results t = send_results s" "udp_results t = udp_results s" "udp_sent t = udp_sent s"
    "warnings t = warnings s" "completed t = completed s" "stage t = stage s"
proof -
  note e = assms [unfolded same_io_def]
  show "send_results t = send_results s" "udp_results t = udp_results s" "udp_sent t = udp_sent s"
    "warnings t = warnings s" "completed t = completed s" "stage t = stage s"
    using arg_cong [OF e, of send_results] arg_cong [OF e, of udp_results] arg_cong [OF e, of udp_sent]
      arg_cong [OF e, of warnings] arg_cong [OF e, of completed] arg_cong [OF e, of stage]
    by (simp_all add: io_of_def)
qed

lemma same_io_updates [simp]:
  "same_io s (s\<lparr>ticks := n\<rparr>)" "same_io s (s\<lparr>sock_timeout := to\<rparr>)" "same_io s (s\<lparr>cache := c\<rparr>)"
  "same_io s (s\<lparr>sdk_log := l\<rparr>)" "same_io s (s\<lparr>active := a\<rparr>)" "same_io s (s\<lparr>next_span := n\<rparr>)"
  by (simp_all add: same_io_def io_of_def)

lemma io_of_updates:
  "io_of (s\<lparr>inbox := q\<rparr>) = (io_of s)\<lparr>inbox := q\<rparr>" "io_of (s\<lparr>outbox := o'\<rparr>) = (io_of s)\<lparr>outbox := o'\<rparr>"
  "io_of (s\<lparr>requests := rs\<rparr>) = (io_of s)\<lparr>requests := rs\<rparr>" "io_of (s\<lparr>attempts := as\<rparr>) = (io_of s)\<lparr>attempts := as\<rparr>"
  by (simp_all add: io_of_def)

lemma same_io_inbox: "same_io s t \<Longrightarrow> same_io (s\<lparr>inbox := q\<rparr>) (t\<lparr>inbox := q\<rparr>)"
  by (simp add: same_io_def io_of_updates)

lemma same_io_outbox: "same_io s t \<Longrightarrow> same_io (s\<lparr>outbox := q\<rparr>) (t\<lparr>outbox := q\<rparr>)"
  by (simp add: same_io_def io_of_updates)

lemma same_io_requests: "same_io s t \<Longrightarrow> same_io (s\<lparr>requests := q\<rparr>) (t\<lparr>requests := q\<rparr>)"
  by (simp add: same_io_def io_of_updates)

lemma same_io_attempts: "same_io s t \<Longrightarrow> same_io (s\<lparr>attempts := q\<rparr>) (t\<lparr>attempts := q\<rparr>)"
  by (simp add: same_io_def io_of_updates)

lemma same_io_now [simp]: "same_io s (snd (now clk s))"
  by (simp add: now_def)

lemma same_io_log [simp]: "same_io s (log_call call s)"
  by (simp add: log_call_def)

lemma same_io_set_attribute [simp]: "same_io s (set_attribute sp key v s)"
  by (simp add: set_attribute_def split: option.splits)

lemma same_io_tracer_put [simp]: "same_io s (tracer_put clk key x s)"
  by (auto simp: tracer_put_def now_def split: option.splits) (simp add: same_io_def io_of_def)

lemma same_io_tracer_get [simp]: "same_io s (snd (tracer_get clk key s))"
  by (auto simp: tracer_get_def now_def Let_def split: prod.splits) (simp add: same_io_def io_of_def)

lemma same_io_absorb: "same_io t t' \<Longrightarrow> same_io s t' \<longleftrightarrow> same_io s t"
  by (auto simp: same_io_def)

lemmas same_io_steps [simp] = same_io_absorb [OF same_io_set_attribute] same_io_absorb [OF same_io_log]
  same_io_absorb [OF same_io_tracer_put] same_io_absorb [OF same_io_tracer_get] same_io_absorb [OF same_io_now]

lemma same_io_fold: "(\<And>x s. same_io s (f x s)) \<Longrightarrow> same_io s (fold f xs s)"
  by (induction xs arbitrary: s) (auto intro: same_io_trans)

lemma same_io_link_snapshot [simp]: "same_io s (link_snapshot k clk sp metadata s)"
proof -
  have attrs: "same_io t (fold (\<lambda>(key, v). set_attribute sp' key v) metadata t)" for t sp'
    by (rule same_io_fold) auto
  show ?thesis
    unfolding link_snapshot_def
    by (auto simp: Let_def case_prod_beta split: option.splits intro: same_io_trans [OF _ attrs])
qed

lemma same_io_remember [simp]: "same_io s (remember_snapshot k clk sp metadata s)"
  by (auto simp: remember_snapshot_def split: option.splits)

lemma same_io_set_both [simp]: "same_io s (set_both a b key v s)"
  by (simp add: set_both_def)

lemma same_io_mark [simp]: "same_io s (mark_committed a b tx s)"
  unfolding mark_committed_def Let_def
  by (auto split: option.splits)

lemmas same_io_more_steps [simp] = same_io_absorb [OF same_io_link_snapshot] same_io_absorb [OF same_io_remember]
  same_io_absorb [OF same_io_set_both] same_io_absorb [OF same_io_mark]

lemma with_span_io_ticks:
  assumes "with_span name attrs links kind body s = (r, s')"
  obtains sp s1 s2 where "same_io s s1" "body sp s1 = (r, s2)" "same_io s2 s'" "ticks s1 = ticks s" "ticks s' = ticks s2"
proof (cases "\<not> tracing s \<or> name \<notin> set DRIVER_NAMES")
  case True
  with assms have "body None s = (r, s')" by (simp add: with_span_def)
  then show thesis by (intro that) auto
next
  case False
  let ?h = "next_span s"
  let ?s1 = "log_call (StartSpan ?h name (driver_attributes attrs []) (valid_links links) kind)
      (s\<lparr>next_span := Suc ?h, active := ?h # active s\<rparr>)"
  obtain x s2 where x: "body (Some ?h) ?s1 = (x, s2)" by fastforce
  have "same_io s ?s1" "ticks ?s1 = ticks s" by (simp_all add: same_io_def io_of_def log_call_def)
  moreover have "r = x" "same_io s2 s'" "ticks s' = ticks s2"
    using assms False x by (auto simp: with_span_def Let_def same_io_def io_of_def log_call_def split: sum.splits)
  ultimately show thesis using x by (intro that [of ?s1 "Some ?h" s2]) auto
qed

lemma with_span_io:
  assumes "with_span name attrs links kind body s = (r, s')"
  obtains sp s1 s2 where "same_io s s1" "body sp s1 = (r, s2)" "same_io s2 s'"
  using with_span_io_ticks [OF assms] by metis

section \<open>Laws of the enclave client\<close>

lemma read_bounded_io:
  fixes s :: "'z tel_scheme"
  assumes "read_bounded clk maximum deadline s = (r, s')"
  shows "same_io (s\<lparr>inbox := inbox s'\<rparr>) s'"
proof -
  obtain n q where "s' = s\<lparr>ticks := n, inbox := q\<rparr>"
    using telemetry_reader.loop_frame [of "[]" maximum clk deadline s r s'] assms
    by (auto simp: read_bounded_def)
  then show ?thesis by (simp add: same_io_def io_of_def)
qed

lemma with_deadline_io:
  fixes s :: "'z tel_scheme"
  assumes "with_deadline clk late deadline body s = (r, s')"
  obtains (early) "r = Inl late" "same_io s s'"
  | (ran) s1 s2 x where "same_io s s1" "body s1 = (x, s2)" "same_io s2 s'" "r = x \<or> r = Inl late"
proof -
  let ?s1 = "settimeout (deadline - clk (ticks s)) (snd (now clk s))"
  obtain x s2 where x: "body ?s1 = (x, s2)" by fastforce
  have s1: "same_io s ?s1" by (simp add: settimeout_def now_def same_io_def io_of_def)
  show thesis
  proof (cases "deadline - clk (ticks s) \<le> 0")
    case True
    with assms early show thesis by (auto simp: with_deadline_def now_def Let_def)
  next
    case False
    with assms x have "r = x \<or> r = Inl late" "s' = snd (now clk s2)"
      by (auto simp: with_deadline_def now_def Let_def split: if_splits)
    moreover from this have "same_io s2 s'" by simp
    ultimately show thesis using s1 x by (intro ran)
  qed
qed

definition committed_answer :: "nat \<Rightarrow> bool \<Rightarrow> bool \<Rightarrow> attempt \<Rightarrow> post_result \<Rightarrow> bool" where
  "committed_answer depth binary framed a result \<longleftrightarrow>
     (\<exists>reply. at_reply a = Inr reply \<and> rx_closed (reply_body reply)
        \<and> check_response depth binary framed reply (rx_data (reply_body reply)) = Inr result)"

lemma check_response_error [exn_rules]:
  "check_response depth binary framed response data = Inl e \<Longrightarrow> handler_exn e"
proof -
  assume e: "check_response depth binary framed response data = Inl e"
  have "is_ValueError x \<or> x = RecursionError" if "json_loads depth plain_hooks data = Inl x" for x
    using json_loads_error [OF hooks_exn_plain that] .
  moreover have "is_RuntimeError x" if "confirm_json v = Inl x" for v x
    using that by (cases v) (auto simp: confirm_json_def split: if_splits)
  ultimately show ?thesis
    using e by (auto simp: check_response_def handler_exn_def bindr_eq_Inl split: if_splits
        dest: validate_frames_error)
qed

lemma read_bounded_error:
  "read_bounded clk maximum deadline s = (Inl e, s') \<Longrightarrow> is_OSError e \<or> is_ValueError e \<or> RxErr e \<in> set (inbox s)"
  using telemetry_reader.loop_frame [of "[]" maximum clk deadline s "Inl e" s']
  by (auto simp: read_bounded_def)

lemma commit_wait_io:
  assumes "commit_wait depth clk a rq binary framed deadline sp wait s = (r, s')"
  shows "same_io (s\<lparr>requests := requests s @ [rq], inbox := inbox s'\<rparr>) s'"
    "r = Inr result \<Longrightarrow> committed_answer depth binary framed a result"
    "r = Inl e \<Longrightarrow> attempt_sane handler_exn a \<Longrightarrow> handler_exn e"
proof -
  let ?lim = "response_limit binary framed"
  let ?s1 = "s\<lparr>requests := requests s @ [rq]\<rparr>"
  have *: "same_io (s\<lparr>requests := requests s @ [rq], inbox := inbox s'\<rparr>) s' \<and>
    (\<forall>result. r = Inr result \<longrightarrow> committed_answer depth binary framed a result) \<and>
    (\<forall>e. r = Inl e \<longrightarrow> attempt_sane handler_exn a \<longrightarrow> handler_exn e)"
  proof (cases "at_reply a")
    case (Inl x)
    with assms have "r = Inl x" "s' = ?s1"
      by (simp_all add: commit_wait_def bind_act_def http_exchange_def Let_def)
    with Inl show ?thesis by (auto simp: attempt_sane_def)
  next
    case (Inr reply)
    let ?s2 = "?s1\<lparr>inbox := reply_body reply\<rparr>"
    obtain x s3 where x: "read_bounded clk ?lim deadline ?s2 = (x, s3)" by fastforce
    have h: "http_exchange a rq s = (Inr reply, ?s2)" using Inr by (simp add: http_exchange_def Let_def)
    have io: "same_io (s\<lparr>requests := requests s @ [rq], inbox := inbox s3\<rparr>) s3"
      using read_bounded_io [OF x] by simp
    show ?thesis
    proof (cases x)
      case (Inl y)
      with assms h x have "r = Inl y" "s' = s3" by (simp_all add: commit_wait_def bind_act_def)
      with io read_bounded_error [OF x [unfolded Inl]] Inr show ?thesis
        by (auto simp: attempt_sane_def handler_exn_def)
    next
      case (Inr data)
      let ?c = "check_response depth binary framed reply data"
      let ?s4 = "set_both sp wait ''http.response.status_code'' (JInt (reply_status reply)) s3"
      have d: "data = rx_data (reply_body reply)" "rx_closed (reply_body reply)"
        using read_bounded_Inr [OF x [unfolded Inr]] by simp_all
      have r: "r = ?c" "same_io s3 s'"
        using assms h x Inr by (auto simp: commit_wait_def bind_act_def Let_def split: sum.splits)
      have "same_io (s\<lparr>requests := requests s @ [rq], inbox := inbox s'\<rparr>) s'"
        using io r(2) same_io_fields(1) [OF r(2)] by (auto intro: same_io_trans)
      with r(1) d \<open>at_reply a = Inr reply\<close> check_response_error show ?thesis
        by (auto simp: committed_answer_def)
    qed
  qed
  then show "same_io (s\<lparr>requests := requests s @ [rq], inbox := inbox s'\<rparr>) s'"
    "r = Inr result \<Longrightarrow> committed_answer depth binary framed a result"
    "r = Inl e \<Longrightarrow> attempt_sane handler_exn a \<Longrightarrow> handler_exn e" by auto
qed

text \<open>The effect of \<open>post\<close>: it takes one attempt from the environment, writes at most one request and
  leaves the caller's connection alone.\<close>

lemma own_connection_io:
  fixes s :: "'z tel_scheme"
  assumes "own_connection m s = (r, s')"
  obtains s2 where "m s = (r, s2)" "same_io (s2\<lparr>inbox := inbox s\<rparr>) s'"
  using assms by (auto simp: own_connection_def same_io_def io_of_def split: prod.splits)

lemma late_handler_exn: "handler_exn telemetry_late"
  by (simp add: telemetry_late_def handler_exn_def)

lemma post_connected_io:
  fixes s :: "'z tel_scheme"
  assumes "with_deadline clk telemetry_late deadline (
           bind_act (lift_res (at_handshake a)) (\<lambda>_ s2.
             let rq = post_request en path body content_type (traceparent k s2) in
             with_span ''driver.ccf.commit_wait'' attrs [] ''INTERNAL''
               (commit_wait depth clk a rq binary framed deadline sp) s2)) s = (r, s')" (is "with_deadline _ _ _ ?body s = _")
  shows "\<exists>rqs. same_io (s\<lparr>requests := requests s @ rqs, inbox := inbox s'\<rparr>) s'
      \<and> (rqs = [] \<and> (\<exists>e. r = Inl e) \<or> (\<exists>parent. rqs = [post_request en path body content_type parent]))
      \<and> (\<forall>result. r = Inr result \<longrightarrow> at_handshake a = Inr () \<and> committed_answer depth binary framed a result)
      \<and> (\<forall>e. r = Inl e \<longrightarrow> attempt_sane handler_exn a \<longrightarrow> handler_exn e)"
  using assms
proof (cases rule: with_deadline_io)
  case early
  then show ?thesis
    using late_handler_exn same_io_fields(1) [OF early(2)] by (intro exI [of _ "[]"]) (auto simp: same_io_def io_of_def)
next
  case (ran s1 s2 x)
  note f1 = same_io_fields [OF ran(1)] and f2 = same_io_fields [OF ran(3)]
  show ?thesis
  proof (cases "at_handshake a")
    case (Inl e)
    with ran(2) have x: "x = Inl e" "s2 = s1" by (auto simp: bind_act_def lift_res_def)
    have "same_io s s'" using ran(1,3) x by (auto intro: same_io_trans)
    moreover have "r = Inl e \<or> r = Inl telemetry_late" using ran(4) x by simp
    ultimately show ?thesis
      using Inl late_handler_exn same_io_fields(1) [of s s']
      by (intro exI [of _ "[]"]) (auto simp: attempt_sane_def same_io_def io_of_def)
  next
    case (Inr u)
    let ?rq = "post_request en path body content_type (traceparent k s1)"
    from ran(2) Inr have "with_span ''driver.ccf.commit_wait'' attrs [] ''INTERNAL''
        (commit_wait depth clk a ?rq binary framed deadline sp) s1 = (x, s2)"
      by (simp add: bind_act_def Let_def lift_res_def)
    then obtain w s3 s4 where w: "same_io s1 s3"
      "commit_wait depth clk a ?rq binary framed deadline sp w s3 = (x, s4)" "same_io s4 s2"
      by (rule with_span_io)
    note c = commit_wait_io [OF w(2)]
    have "same_io (s3\<lparr>requests := requests s3 @ [?rq], inbox := inbox s4\<rparr>) s'"
      using c(1) w(3) ran(3) by (auto intro: same_io_trans)
    moreover have "same_io s s3" using ran(1) w(1) by (auto intro: same_io_trans)
    moreover have "inbox s4 = inbox s'" using same_io_fields(1) [OF w(3)] f2 by simp
    ultimately have "same_io (s\<lparr>requests := requests s @ [?rq], inbox := inbox s'\<rparr>) s'"
      using same_io_fields(4) [of s s3] by (simp add: same_io_def io_of_updates)
    with c(2,3) ran(4) Inr late_handler_exn show ?thesis
      by (intro exI [of _ "[?rq]"]) auto
  qed
qed

lemma enclave_post_io:
  fixes s :: "'z tel_scheme"
  assumes "enclave_post depth k clk en path body content_type binary framed s = (r, s')"
  shows "\<exists>rqs. same_io (s\<lparr>attempts := tl (attempts s), requests := requests s @ rqs\<rparr>) s'
      \<and> (rqs = [] \<and> (\<exists>e. r = Inl e) \<or> (\<exists>parent. rqs = [post_request en path (body_bytes body) content_type parent]))
      \<and> (\<forall>result. r = Inr result \<longrightarrow> (\<exists>a rest. attempts s = a # rest \<and> at_connect a = Inr () \<and> at_handshake a = Inr ()
            \<and> committed_answer depth binary framed a result))
      \<and> (\<forall>e. r = Inl e \<longrightarrow> web_sane handler_exn s \<longrightarrow> handler_exn e)"
  using assms unfolding enclave_post_def
proof (rule with_span_io)
  fix sp s1 s2
  assume s1: "same_io s s1" and s2: "same_io s2 s'" and
    b: "(let (t, s1) = now clk s1; deadline = t + en_timeout en in
       own_connection (bind_act create_connection (\<lambda>a. with_deadline clk telemetry_late deadline (
           bind_act (lift_res (at_handshake a)) (\<lambda>_ s2.
             let rq = post_request en path (body_bytes body) content_type (traceparent k s2) in
             with_span ''driver.ccf.commit_wait'' (post_attributes path) [] ''INTERNAL''
               (commit_wait depth clk a rq binary framed deadline sp) s2)))) s1) = (r, s2)"
  let ?s = "snd (now clk s1)"
  have io: "same_io s ?s" using s1 by simp
  note f = same_io_fields [OF io] and f' = same_io_fields [OF s2]
  from b obtain s3 where s3: "bind_act create_connection (\<lambda>a. with_deadline clk telemetry_late (clk (ticks s1) + en_timeout en) (
           bind_act (lift_res (at_handshake a)) (\<lambda>_ s2.
             let rq = post_request en path (body_bytes body) content_type (traceparent k s2) in
             with_span ''driver.ccf.commit_wait'' (post_attributes path) [] ''INTERNAL''
               (commit_wait depth clk a rq binary framed (clk (ticks s1) + en_timeout en) sp) s2))) ?s = (r, s3)"
    "same_io (s3\<lparr>inbox := inbox ?s\<rparr>) s2"
    by (auto simp: now_def Let_def elim: own_connection_io)
  obtain x s4 where x: "create_connection ?s = (x, s4)" by fastforce
  have s4: "s4 = ?s\<lparr>attempts := tl (attempts ?s)\<rparr>"
    using x by (auto simp: create_connection_def Let_def split: list.splits)
  show ?thesis
  proof (cases x)
    case (Inl e)
    with s3(1) x have r: "r = Inl e" "s3 = s4" by (simp_all add: bind_act_def)
    have "same_io (s\<lparr>attempts := tl (attempts s)\<rparr>) (?s\<lparr>attempts := tl (attempts ?s)\<rparr>)"
      using same_io_attempts [OF io] f(3) by simp
    moreover have "s3\<lparr>inbox := inbox ?s\<rparr> = ?s\<lparr>attempts := tl (attempts ?s)\<rparr>" using r(2) s4 by simp
    ultimately have "same_io (s\<lparr>attempts := tl (attempts s)\<rparr>) s'" using s3(2) s2 by (metis same_io_trans)
    moreover have "s\<lparr>attempts := tl (attempts s), requests := requests s @ []\<rparr> = s\<lparr>attempts := tl (attempts s)\<rparr>"
      by simp
    ultimately have "same_io (s\<lparr>attempts := tl (attempts s), requests := requests s @ []\<rparr>) s'" by metis
    moreover have "web_sane handler_exn s \<longrightarrow> handler_exn e"
      using create_connection_Inl [OF x [unfolded Inl], of handler_exn] f(3)
      by (auto simp: web_sane_def handler_exn_def)
    ultimately show ?thesis using r by (intro exI [of _ "[]"]) auto
  next
    case (Inr a)
    note a = create_connection_Inr [OF x [unfolded Inr]]
    have w: "with_deadline clk telemetry_late (clk (ticks s1) + en_timeout en) (
           bind_act (lift_res (at_handshake a)) (\<lambda>_ s2.
             let rq = post_request en path (body_bytes body) content_type (traceparent k s2) in
             with_span ''driver.ccf.commit_wait'' (post_attributes path) [] ''INTERNAL''
               (commit_wait depth clk a rq binary framed (clk (ticks s1) + en_timeout en) sp) s2)) s4 = (r, s3)"
      using s3(1) x Inr by (simp add: bind_act_def)
    from post_connected_io [OF w] obtain rqs where q: "same_io (s4\<lparr>requests := requests s4 @ rqs, inbox := inbox s3\<rparr>) s3"
      "rqs = [] \<and> (\<exists>e. r = Inl e) \<or> (\<exists>parent. rqs = [post_request en path (body_bytes body) content_type parent])"
      "\<forall>result. r = Inr result \<longrightarrow> at_handshake a = Inr () \<and> committed_answer depth binary framed a result"
      "\<forall>e. r = Inl e \<longrightarrow> attempt_sane handler_exn a \<longrightarrow> handler_exn e" by blast
    have A: "same_io (s\<lparr>attempts := tl (attempts s), requests := requests s @ rqs\<rparr>)
        (?s\<lparr>attempts := tl (attempts ?s), requests := requests ?s @ rqs\<rparr>)"
      using same_io_requests [OF same_io_attempts [OF io]] f(3,4) by simp
    have B: "?s\<lparr>attempts := tl (attempts ?s), requests := requests ?s @ rqs\<rparr> =
        s4\<lparr>requests := requests s4 @ rqs, inbox := inbox s3\<rparr>\<lparr>inbox := inbox ?s\<rparr>" using s4 by simp
    have C: "same_io (s4\<lparr>requests := requests s4 @ rqs, inbox := inbox s3\<rparr>\<lparr>inbox := inbox ?s\<rparr>) s'"
      using same_io_inbox [OF q(1), of "inbox ?s"] s3(2) s2 by (metis same_io_trans)
    have D: "same_io (s\<lparr>attempts := tl (attempts s), requests := requests s @ rqs\<rparr>) s'"
      by (rule same_io_trans [OF A [unfolded B] C])
    obtain rest where E: "attempts s = a # rest" using a(1) f(3) by auto
    have sane: "web_sane handler_exn s \<longrightarrow> attempt_sane handler_exn a"
      unfolding web_sane_def E by simp
    have ok: "r = Inr result \<longrightarrow> (\<exists>a rest. attempts s = a # rest \<and> at_connect a = Inr () \<and> at_handshake a = Inr ()
            \<and> committed_answer depth binary framed a result)" for result
      using q(3) a(2) E by blast
    from D q(2) sane ok q(4) show ?thesis by blast
  qed
qed

section \<open>Laws of the exact reader\<close>

definition exact_recv :: "clock \<Rightarrow> nat \<Rightarrow> real option \<Rightarrow> bytes \<Rightarrow> ('z net_scheme, bytes option) act" where
  "exact_recv clk want deadline data s2 =
     (case recv (want - length data) s2 of
        (Inl e, s3) \<Rightarrow>
          (case e of
             TimeoutError _ \<Rightarrow> (Inl (TimeoutError ''DNS TCP read timed out''), s3)
           | _ \<Rightarrow> (Inl e, s3))
      | (Inr block, s3) \<Rightarrow>
          if block = [] then
            (if data = [] then (Inr None, s3) else (Inl (EOFError ''truncated TCP request''), s3))
          else exact_loop clk want deadline (data @ block) s3)"

lemma exact_loop_step:
  fixes s :: "'z tel_scheme"
  assumes "length data < want"
  obtains (late) s2 where "same_io s s2" "exact_loop clk want deadline data s =
      (Inl (TimeoutError ''DNS connection deadline exceeded''), s2)"
  | (recv) s2 where "same_io s s2" "exact_loop clk want deadline data s = exact_recv clk want deadline data s2"
proof (cases deadline)
  case None
  then show thesis using assms
    by (intro recv [of s]) (simp_all add: exact_loop.simps [of clk want None data s] exact_recv_def)
next
  case (Some d)
  show thesis
  proof (cases "d - clk (ticks s) \<le> 0")
    case True
    with Some assms show thesis
      by (intro late [of "snd (now clk s)"])
        (simp_all add: exact_loop.simps [of clk want "Some d" data s] now_def Let_def)
  next
    case False
    let ?s2 = "settimeout (min 10 (d - clk (ticks s))) (snd (now clk s))"
    have "same_io s ?s2" by (simp add: settimeout_def now_def same_io_def io_of_def)
    with Some False assms show thesis
      by (intro recv [of ?s2])
        (simp_all add: exact_loop.simps [of clk want "Some d" data s] exact_recv_def now_def Let_def)
  qed
qed

lemma exact_recv_cases:
  assumes "exact_recv clk want deadline data s = (r, s')" "length data < want"
  obtains (error) e q where "r = Inl e" "s' = s\<lparr>inbox := q\<rparr>" "is_OSError e \<or> is_EOFError e \<or> RxErr e \<in> set (inbox s)"
  | (none) q where "r = Inr None" "data = []" "s' = s\<lparr>inbox := q\<rparr>"
  | (more) b q where "b \<noteq> []" "length (data @ b) \<le> want" "rx_data (inbox s) = b @ rx_data q"
      "\<And>e. RxErr e \<in> set q \<Longrightarrow> RxErr e \<in> set (inbox s)"
      "exact_loop clk want deadline (data @ b) (s\<lparr>inbox := q\<rparr>) = (r, s')"
proof -
  obtain x q where x: "recv_queue (want - length data) (inbox s) = (x, q)" by fastforce
  note sub = recv_queue_sub [OF x]
  show thesis
  proof (cases x)
    case (Inl e)
    have "is_OSError e \<or> RxErr e \<in> set (inbox s)" using recv_queue_error [OF x [unfolded Inl]] by auto
    with assms x Inl show thesis
      by (cases e) (auto simp: exact_recv_def recv_def intro!: error)
  next
    case (Inr b)
    show thesis
    proof (cases "b = []")
      case True
      with assms x Inr show thesis
        by (cases "data = []") (auto simp: exact_recv_def recv_def intro: error none)
    next
      case False
      have "length b \<le> want - length data" using recv_queue_size [OF x [unfolded Inr]] .
      with assms False x Inr recv_queue_data [OF x [unfolded Inr] False] sub show thesis
        by (intro more [of b q]) (auto simp: exact_recv_def recv_def)
    qed
  qed
qed

definition exact_ok :: "nat \<Rightarrow> bytes \<Rightarrow> 'z tel_scheme \<Rightarrow> bytes option res \<Rightarrow> 'z tel_scheme \<Rightarrow> bool" where
  "exact_ok want data s r s' \<longleftrightarrow>
     same_io (s\<lparr>inbox := inbox s'\<rparr>) s' \<and>
     (case r of
        Inl e \<Rightarrow> is_OSError e \<or> is_EOFError e \<or> RxErr e \<in> set (inbox s)
      | Inr None \<Rightarrow> data = []
      | Inr (Some d) \<Rightarrow> length d = want \<and> (\<exists>x. d = data @ x \<and> rx_data (inbox s) = x @ rx_data (inbox s'))
          \<and> (\<forall>e. RxErr e \<in> set (inbox s') \<longrightarrow> RxErr e \<in> set (inbox s)))"

lemma exact_loop_ok:
  "length data \<le> want \<Longrightarrow> exact_loop clk want deadline data s = (r, s') \<Longrightarrow> exact_ok want data s r s'"
proof (induction "want - length data" arbitrary: data s rule: less_induct)
  case less
  show ?case
  proof (cases "length data < want")
    case False
    with less(2,3) show ?thesis
      by (auto simp: exact_loop.simps [of clk want deadline data s] exact_ok_def)
  next
    case True
    then show ?thesis
    proof (cases rule: exact_loop_step [of data want s clk deadline, case_names late recv])
      case (late s2)
      with less(3) same_io_fields(1) [OF late(1)] show ?thesis
        by (auto simp: exact_ok_def same_io_def io_of_updates)
    next
      case (recv s2)
      have f: "inbox s2 = inbox s" using same_io_fields(1) [OF recv(1)] .
      have upd: "same_io (s\<lparr>inbox := q\<rparr>) (s2\<lparr>inbox := q\<rparr>)" for q using recv(1) by (rule same_io_inbox)
      from recv(2) less(3) have "exact_recv clk want deadline data s2 = (r, s')" by simp
      then show ?thesis
        using True
      proof (cases rule: exact_recv_cases)
        case (error e q)
        with upd f show ?thesis by (auto simp: exact_ok_def)
      next
        case (none q)
        with upd show ?thesis by (simp add: exact_ok_def)
      next
        case (more b q)
        have "want - length (data @ b) < want - length data" using more(1) True by (cases b) auto
        from less(1) [OF this more(2,5)] have ih: "exact_ok want (data @ b) (s2\<lparr>inbox := q\<rparr>) r s'" .
        then have "same_io (s2\<lparr>inbox := inbox s'\<rparr>) s'" by (simp add: exact_ok_def)
        then have "same_io (s\<lparr>inbox := inbox s'\<rparr>) s'" using upd by (metis same_io_trans)
        with ih more f show ?thesis by (auto simp: exact_ok_def split: sum.splits option.splits)
      qed
    qed
  qed
qed

lemma exact_result: "exact clk want deadline s = (r, s') \<Longrightarrow> exact_ok want [] s r s'"
  unfolding exact_def by (rule exact_loop_ok) auto

end
