(* ===== verification/Driver_Relay.thy ===== *)
theory Driver_Relay
  imports Driver_Net
begin

text \<open>
  Laws of the TCP and UDP handlers and of the exchange with a secondary: what they post to the
  enclave, what they send on, and that they end normally on every behaviour of their peers.
\<close>

section \<open>Laws of the TCP handler\<close>

definition drv_sane :: "'z drv_scheme \<Rightarrow> bool" where
  "drv_sane s \<longleftrightarrow> web_sane handler_exn s \<and> (\<forall>e. Inl e \<in> set (send_results s) \<longrightarrow> handler_exn e)
     \<and> (\<forall>e. RxErr e \<in> set (inbox s) \<longrightarrow> handler_exn e) \<and> (\<forall>e. Inl e \<in> set (udp_results s) \<longrightarrow> handler_exn e)"

lemma drv_sane_io: "same_io s t \<Longrightarrow> drv_sane s \<Longrightarrow> drv_sane t"
  by (simp add: drv_sane_def web_sane_def same_io_fields same_io_drv)

lemma drv_sane_io_eq: "same_io s t \<Longrightarrow> drv_sane t = drv_sane s"
  using drv_sane_io same_io_sym by blast

text \<open>What a part of a connection relayed: the messages that it posted to the enclave and the
  answers that it sent, the committed answers that the enclave gave to them, in order.\<close>

definition relayed :: "nat \<Rightarrow> enclave \<Rightarrow> 'z drv_scheme \<Rightarrow> 'z drv_scheme \<Rightarrow> bytes list \<Rightarrow> bytes list \<Rightarrow> bool" where
  "relayed depth en s s' packets frames \<longleftrightarrow>
     (\<exists>rqs. requests s' = requests s @ rqs \<and> map rq_body rqs = packets
        \<and> list_all (\<lambda>rq. rq_host rq = en_host en \<and> rq_port rq = en_port en \<and> rq_path rq = ''/app/internal/axfr'') rqs)
     \<and> outbox s' = outbox s @ frames
     \<and> list_all2 (\<lambda>a f. committed_answer depth True True a (RawBytes f)) (take (length frames) (attempts s)) frames
     \<and> set (attempts s') \<subseteq> set (attempts s) \<and> warnings s' = warnings s
     \<and> set (send_results s') \<subseteq> set (send_results s) \<and> udp_results s' = udp_results s"

lemma relayed_trans:
  assumes "relayed depth en s s1 p1 f1" "attempts s1 = drop (length f1) (attempts s)" "relayed depth en s1 s2 p2 f2"
  shows "relayed depth en s s2 (p1 @ p2) (f1 @ f2)"
proof -
  let ?P = "\<lambda>rq. rq_host rq = en_host en \<and> rq_port rq = en_port en \<and> rq_path rq = ''/app/internal/axfr''"
  from assms obtain r1 r2 where r: "requests s1 = requests s @ r1" "map rq_body r1 = p1" "list_all ?P r1"
    "requests s2 = requests s1 @ r2" "map rq_body r2 = p2" "list_all ?P r2"
    unfolding relayed_def by blast
  then have "requests s2 = requests s @ (r1 @ r2)" "map rq_body (r1 @ r2) = p1 @ p2" "list_all ?P (r1 @ r2)" by simp_all
  moreover have "list_all2 (\<lambda>a f. committed_answer depth True True a (RawBytes f))
      (take (length (f1 @ f2)) (attempts s)) (f1 @ f2)"
    using assms by (simp add: relayed_def take_add list_all2_appendI)
  moreover have "outbox s2 = outbox s @ (f1 @ f2)" "set (attempts s2) \<subseteq> set (attempts s)" "warnings s2 = warnings s"
    "set (send_results s2) \<subseteq> set (send_results s)" "udp_results s2 = udp_results s"
    using assms by (auto simp: relayed_def)
  ultimately show ?thesis unfolding relayed_def by blast
qed

lemma relayed_same_io: "same_io s s' \<Longrightarrow> relayed depth en s s' [] []"
  by (auto simp: relayed_def same_io_fields same_io_drv)

lemma relayed_io_right: "relayed depth en s s1 ps fs \<Longrightarrow> same_io s1 s2 \<Longrightarrow> relayed depth en s s2 ps fs"
  by (auto simp: relayed_def same_io_fields same_io_drv)

lemma send_client_cases:
  assumes "send_client b s = (r, s')"
  obtains (sent) "r = Inr ()" "outbox s' = outbox s @ [b]" "requests s' = requests s" "inbox s' = inbox s"
      "attempts s' = attempts s" "warnings s' = warnings s" "set (send_results s') \<subseteq> set (send_results s)"
      "udp_results s' = udp_results s"
  | (failed) e where "r = Inl e" "Inl e \<in> set (send_results s)" "outbox s' = outbox s" "requests s' = requests s"
      "inbox s' = inbox s" "attempts s' = attempts s" "warnings s' = warnings s"
      "set (send_results s') \<subseteq> set (send_results s)" "udp_results s' = udp_results s"
proof (cases "send_results s")
  case Nil
  with assms show thesis by (intro sent) (auto simp: send_client_def sendall_def)
next
  case (Cons x rest)
  show thesis
  proof (cases x)
    case (Inl e)
    with assms Cons show thesis by (intro failed [of e]) (auto simp: send_client_def)
  next
    case (Inr u)
    with assms Cons show thesis by (intro sent) (auto simp: send_client_def sendall_def)
  qed
qed

lemma set_stage_io [simp]:
  "set_stage st s = (r, s') \<longleftrightarrow> r = Inr () \<and> s' = s\<lparr>stage := st\<rparr>"
  by (auto simp: set_stage_def)

lemma note_transfer_Inr:
  obtains m s' where "note_transfer k clk sp frames s = (Inr m, s')" "same_io s s'"
proof (cases sp)
  case None
  then show thesis by (intro that [of "[]" s]) (simp_all add: note_transfer_def)
next
  case (Some h)
  obtain m where "dns_metadata (slice 2 (2 + be_nat (take 2 frames)) frames) = Inr m"
    using dns_metadata_ok by blast
  then have "note_transfer k clk sp frames s = (Inr m, set_attribute sp ''agentdns.transfer.bytes''
      (JInt (int (length frames))) (link_snapshot k clk sp m s))"
    using Some by (simp add: note_transfer_def bind_act_def metadata_of_def lift_res_def)
  then show thesis by (rule that) simp
qed

lemma raw_answer: "committed_answer depth True framed a r \<Longrightarrow> \<exists>b. r = RawBytes b"
  by (auto simp: committed_answer_def check_response_def split: if_splits)

lemma transfer_answer_relays:
  fixes s :: "'z drv_scheme"
  assumes "transfer_answer depth k clk en deadline packet sp s = (r, s')"
  obtains (answered) f where "r = Inr ()" "relayed depth en s s' [packet] [f]" "inbox s' = inbox s"
      "attempts s' = tl (attempts s)"
  | (failed) e packets where "r = Inl e" "relayed depth en s s' packets []" "packets = [] \<or> packets = [packet]"
      "drv_sane s \<longrightarrow> handler_exn e" "inbox s' = inbox s"
proof -
  let ?s0 = "s\<lparr>stage := ''authority_request''\<rparr>"
  obtain x s1 where x: "enclave_post depth k clk en ''axfr'' (Packet packet) ''application/dns-message'' True True ?s0 = (x, s1)"
    by fastforce
  from enclave_post_io [OF x] obtain rqs where
    q: "same_io (?s0\<lparr>attempts := tl (attempts s), requests := requests s @ rqs\<rparr>) s1"
      "rqs = [] \<and> (\<exists>e. x = Inl e) \<or> (\<exists>parent. rqs = [post_request en ''axfr'' (body_bytes (Packet packet)) ''application/dns-message'' parent])"
      "\<forall>result. x = Inr result \<longrightarrow> (\<exists>a rest. attempts ?s0 = a # rest \<and> at_connect a = Inr () \<and> at_handshake a = Inr ()
            \<and> committed_answer depth True True a result)"
      "\<forall>e. x = Inl e \<longrightarrow> web_sane handler_exn ?s0 \<longrightarrow> handler_exn e" by auto
  note f = same_io_fields [OF q(1)] same_io_drv [OF q(1)]
  have tl: "set (tl (attempts s)) \<subseteq> set (attempts s)" by (cases "attempts s") auto
  have rqs: "map rq_body rqs = [] \<or> map rq_body rqs = [packet]"
    "list_all (\<lambda>rq. rq_host rq = en_host en \<and> rq_port rq = en_port en \<and> rq_path rq = ''/app/internal/axfr'') rqs"
    using q(2) by (auto simp: post_request_def body_bytes_def)
  have relay: "relayed depth en s s1 (map rq_body rqs) []"
    using f rqs(2) tl by (auto simp: relayed_def)
  show thesis
  proof (cases x)
    case (Inl e)
    with assms x have "r = Inl e" "s' = s1" by (simp_all add: transfer_answer_def bind_act_def set_stage_def)
    with Inl relay rqs(1) q(4) f show thesis by (intro failed [of e]) (auto simp: drv_sane_def web_sane_def)
  next
    case (Inr result)
    with q(3) obtain a rest where "attempts s = a # rest" "committed_answer depth True True a result" by auto
    then have a: "take 1 (attempts s) = [a]" "committed_answer depth True True a result" by simp_all
    then obtain b where b: "result = RawBytes b" using raw_answer by blast
    have packet: "map rq_body rqs = [packet]" using q(2) Inr by (auto simp: post_request_def body_bytes_def)
    obtain m s2 where m: "note_transfer k clk sp b s1 = (Inr m, s2)" "same_io s1 s2" by (rule note_transfer_Inr)
    let ?s3 = "snd (now clk s2)"
    have io3: "same_io s1 ?s3" using m(2) by simp
    note f3 = same_io_fields [OF io3] same_io_drv [OF io3]
    have r: "(if deadline - clk (ticks s2) \<le> 0 then (Inl (TimeoutError ''DNS connection deadline exceeded''), ?s3)
       else bind_act (send_client b) (\<lambda>_ s3. (Inr (), remember_snapshot k clk sp m (s3\<lparr>completed := completed s3 + 1\<rparr>)))
           (settimeout (min 10 (deadline - clk (ticks s2))) (?s3\<lparr>stage := ''response_send''\<rparr>))) = (r, s')"
      using assms x Inr b m(1)
      by (cases "deadline - clk (ticks s2) \<le> 0")
        (simp_all add: transfer_answer_def bind_act_def set_stage_def lift_res_def raw_of_def now_def Let_def)
    show thesis
    proof (cases "deadline - clk (ticks s2) \<le> 0")
      case True
      with r relay f3 packet f show thesis
        by (intro failed [of "TimeoutError ''DNS connection deadline exceeded''" "[packet]"])
          (auto simp: relayed_def handler_exn_def)
    next
      case False
      let ?s4 = "settimeout (min 10 (deadline - clk (ticks s2))) (?s3\<lparr>stage := ''response_send''\<rparr>)"
      obtain y s5 where y: "send_client b ?s4 = (y, s5)" by fastforce
      have f4: "outbox ?s4 = outbox s" "requests ?s4 = requests s @ rqs" "inbox ?s4 = inbox s"
        "attempts ?s4 = tl (attempts s)" "warnings ?s4 = warnings s" "send_results ?s4 = send_results s"
        "udp_results ?s4 = udp_results s"
        using f f3 by (simp_all add: settimeout_def)
      from y show thesis
      proof (cases rule: send_client_cases)
        case sent
        then have r': "r = Inr ()" "s' = remember_snapshot k clk sp m (s5\<lparr>completed := completed s5 + 1\<rparr>)"
          using r False y by (simp_all add: bind_act_def)
        have io: "same_io (s5\<lparr>completed := completed s5 + 1\<rparr>) s'" using r'(2) by simp
        note f5 = same_io_fields [OF io] same_io_drv [OF io]
        have "relayed depth en s s' [packet] [b]"
          unfolding relayed_def using sent f4 f5 packet rqs(2) a b tl by auto
        with r' sent f4 f5 show thesis by (intro answered) auto
      next
        case (failed e)
        then have r': "r = Inl e" "s' = s5" using r False y by (simp_all add: bind_act_def)
        have "relayed depth en s s' [packet] []"
          unfolding relayed_def using failed f4 r' packet rqs(2) tl by auto
        with r' failed f4 show thesis
          by (intro that(2) [of e "[packet]"]) (auto simp: drv_sane_def)
      qed
    qed
  qed
qed

subsection \<open>A whole request\<close>

lemma relayed_inbox:
  fixes s :: "'z drv_scheme"
  shows "same_io (s\<lparr>stage := st, inbox := q\<rparr>) s' \<Longrightarrow> relayed depth en s s' [] []"
  by (auto simp: relayed_def same_io_fields same_io_drv)

text \<open>What one turn of the loop did.\<close>

datatype turn = Stop | Answered bytes bytes | Failed exn "bytes list"

definition turn_ok :: "nat \<Rightarrow> enclave \<Rightarrow> 'z drv_scheme \<Rightarrow> bool res \<Rightarrow> 'z drv_scheme \<Rightarrow> turn \<Rightarrow> bool" where
  "turn_ok depth en s r s' t =
     (case t of
        Stop \<Rightarrow> r = Inr False \<and> relayed depth en s s' [] []
      | Answered p f \<Rightarrow> r = Inr True \<and> relayed depth en s s' [p] [f] \<and> frame_size_ok p
          \<and> rx_data (inbox s) = dns_frame p @ rx_data (inbox s') \<and> attempts s' = tl (attempts s)
          \<and> (\<forall>e. RxErr e \<in> set (inbox s') \<longrightarrow> RxErr e \<in> set (inbox s))
      | Failed e ps \<Rightarrow> r = Inl e \<and> relayed depth en s s' ps [] \<and> (drv_sane s \<longrightarrow> handler_exn e \<or> is_EOFError e)
          \<and> (ps = [] \<or> (\<exists>p rest. ps = [p] \<and> frame_size_ok p \<and> rx_data (inbox s) = dns_frame p @ rest)))"

lemma sane_inbox_exn: "drv_sane s \<Longrightarrow> is_OSError e \<or> is_EOFError e \<or> RxErr e \<in> set (inbox s) \<Longrightarrow> handler_exn e \<or> is_EOFError e"
  by (auto simp: drv_sane_def handler_exn_def)

lemma transfer_body_turn:
  fixes s1 s2 :: "'z drv_scheme"
  assumes io: "relayed depth en s s2 [] []" and att: "attempts s2 = attempts s" and sane: "drv_sane s \<Longrightarrow> drv_sane s2"
    and size: "frame_size_ok packet" and data: "rx_data (inbox s) = dns_frame packet @ rx_data (inbox s2)"
    and sub: "\<forall>e. RxErr e \<in> set (inbox s2) \<longrightarrow> RxErr e \<in> set (inbox s)"
    and run: "bind_act (metadata_of packet) (\<lambda>metadata.
               bind_act (with_span ''driver.dns.axfr'' (dict_merge metadata [(''network.transport'', JStr ''tcp'')]) []
                           ''SERVER'' (transfer_answer depth k clk en deadline packet)) (\<lambda>_. ret_act True)) s2 = (r, s')"
  shows "\<exists>t. turn_ok depth en s r s' t"
proof -
  obtain m where m: "dns_metadata packet = Inr m" using dns_metadata_ok by blast
  obtain x s3 where x: "with_span ''driver.dns.axfr'' (dict_merge m [(''network.transport'', JStr ''tcp'')]) []
      ''SERVER'' (transfer_answer depth k clk en deadline packet) s2 = (x, s3)" by fastforce
  from x obtain sp s4 s5 where w: "same_io s2 s4" "transfer_answer depth k clk en deadline packet sp s4 = (x, s5)" "same_io s5 s3"
    by (rule with_span_io)
  have pre: "relayed depth en s s4 [] []" using relayed_trans [OF io _ relayed_same_io [OF w(1)]] att by simp
  have post: "relayed depth en s5 s3 [] []" by (rule relayed_same_io [OF w(3)])
  have box: "inbox s4 = inbox s2" "inbox s3 = inbox s5" using same_io_fields(1) w(1,3) by blast+
  have att4: "attempts s4 = attempts s" using same_io_fields(3) [OF w(1)] att by simp
  have att3: "attempts s3 = attempts s5" using same_io_fields(3) [OF w(3)] by simp
  have r: "r = (case x of Inl e \<Rightarrow> Inl e | Inr _ \<Rightarrow> Inr True)" "s' = s3"
    using run m x by (auto simp: bind_act_def metadata_of_def lift_res_def ret_act_def split: sum.splits)
  from w(2) show ?thesis
  proof (cases rule: transfer_answer_relays)
    case (answered f)
    have "relayed depth en s s3 [packet] [f]"
      using relayed_trans [OF relayed_trans [OF pre _ answered(2)] _ post] att4 answered(4) by (simp add: drop_Suc)
    with answered r box size data sub att4 att3 show ?thesis
      by (intro exI [of _ "Answered packet f"]) (simp add: turn_ok_def)
  next
    case (failed e ps)
    have "relayed depth en s s3 ps []"
      using relayed_trans [OF pre _ failed(2)] att4 relayed_io_right [OF _ w(3)] by simp
    moreover have "drv_sane s \<longrightarrow> handler_exn e" using failed(4) sane drv_sane_io [OF w(1)] by blast
    ultimately show ?thesis
      using failed r size data by (intro exI [of _ "Failed e ps"]) (auto simp: turn_ok_def)
  qed
qed

lemma transfer_request_turn:
  fixes s :: "'z drv_scheme"
  assumes "transfer_request depth k clk en deadline s = (r, s')"
  shows "\<exists>t. turn_ok depth en s r s' t"
proof -
  let ?s0 = "s\<lparr>stage := ''request_length''\<rparr>"
  obtain x s1 where x: "exact clk 2 (Some deadline) ?s0 = (x, s1)" by fastforce
  have ok1: "exact_ok 2 [] ?s0 x s1" using exact_result [OF x] .
  then have io1: "same_io (s\<lparr>stage := ''request_length'', inbox := inbox s1\<rparr>) s1" by (simp add: exact_ok_def)
  note f1 = same_io_fields [OF io1] same_io_drv [OF io1]
  have rel1: "relayed depth en s s1 [] []" using io1 by (rule relayed_inbox)
  show ?thesis
  proof (cases x)
    case (Inl e)
    with assms x have "r = Inl e" "s' = s1" by (simp_all add: transfer_request_def bind_act_def set_stage_def)
    with ok1 Inl rel1 sane_inbox_exn [of s e] show ?thesis
      by (intro exI [of _ "Failed e []"]) (auto simp: turn_ok_def exact_ok_def)
  next
    case (Inr prefix)
    show ?thesis
    proof (cases prefix)
      case None
      with assms x Inr have "r = Inr False" "s' = s1"
        by (simp_all add: transfer_request_def bind_act_def set_stage_def ret_act_def)
      with rel1 show ?thesis by (intro exI [of _ Stop]) (simp add: turn_ok_def)
    next
      case (Some len)
      with ok1 Inr have len: "length len = 2" "rx_data (inbox s) = len @ rx_data (inbox s1)"
        and sub1: "\<forall>e. RxErr e \<in> set (inbox s1) \<longrightarrow> RxErr e \<in> set (inbox s)" by (auto simp: exact_ok_def)
      obtain a b where ab: "len = [a, b]" using len(1) by (cases len; cases "tl len") auto
      show ?thesis
      proof (cases "be_nat len < 12")
        case True
        with assms x Inr Some have "r = Inl (ValueError ''short DNS request'')" "s' = s1"
          by (simp_all add: transfer_request_def bind_act_def set_stage_def raise_act_def)
        with rel1 show ?thesis
          by (intro exI [of _ "Failed (ValueError ''short DNS request'') []"]) (simp add: turn_ok_def handler_exn_def)
      next
        case False
        let ?s1 = "s1\<lparr>stage := ''request_body''\<rparr>"
        obtain y s2 where y: "exact clk (be_nat len) (Some deadline) ?s1 = (y, s2)" by fastforce
        have ok2: "exact_ok (be_nat len) [] ?s1 y s2" using exact_result [OF y] .
        then have io2: "same_io (s1\<lparr>stage := ''request_body'', inbox := inbox s2\<rparr>) s2" by (simp add: exact_ok_def)
        note f2 = same_io_fields [OF io2] same_io_drv [OF io2]
        have rel2: "relayed depth en s s2 [] []" using relayed_trans [OF rel1 _ relayed_inbox [OF io2]] f1 by simp
        have att: "attempts s2 = attempts s" using f1 f2 by simp
        have sane: "drv_sane s2" if "drv_sane s" "\<forall>e. RxErr e \<in> set (inbox s2) \<longrightarrow> RxErr e \<in> set (inbox s1)"
          using that sub1 f1 f2 by (auto simp: drv_sane_def web_sane_def)
        show ?thesis
        proof (cases y)
          case (Inl e)
          with assms x \<open>x = Inr prefix\<close> Some False y have "r = Inl e" "s' = s2"
            by (simp_all add: transfer_request_def bind_act_def set_stage_def)
          with ok2 Inl rel2 sub1 sane_inbox_exn [of s e] show ?thesis
            by (intro exI [of _ "Failed e []"]) (auto simp: turn_ok_def exact_ok_def)
        next
          case (Inr message)
          show ?thesis
          proof (cases message)
            case None
            with assms x \<open>x = Inr prefix\<close> Some False y Inr have "r = Inl (EOFError ''missing DNS request'')" "s' = s2"
              by (simp_all add: transfer_request_def bind_act_def set_stage_def raise_act_def)
            with rel2 show ?thesis
              by (intro exI [of _ "Failed (EOFError ''missing DNS request'') []"]) (simp add: turn_ok_def)
          next
            case packet: (Some packet)
            have p: "length packet = be_nat [a, b]" "rx_data (inbox s1) = packet @ rx_data (inbox s2)"
              "\<forall>e. RxErr e \<in> set (inbox s2) \<longrightarrow> RxErr e \<in> set (inbox s1)"
              using ok2 Inr packet ab by (auto simp: exact_ok_def)
            have size: "frame_size_ok packet"
              using p(1) False ab be_nat_less [of "[a, b]"] by (simp add: frame_size_ok_def)
            have data: "rx_data (inbox s) = dns_frame packet @ rx_data (inbox s2)"
              using len(2) ab p(1,2) dns_frame_of_prefix [OF p(1)] by simp
            have "bind_act (metadata_of packet) (\<lambda>metadata.
               bind_act (with_span ''driver.dns.axfr'' (dict_merge metadata [(''network.transport'', JStr ''tcp'')]) []
                           ''SERVER'' (transfer_answer depth k clk en deadline packet)) (\<lambda>_. ret_act True)) s2 = (r, s')"
              using assms x \<open>x = Inr prefix\<close> Some False y Inr packet
              by (simp add: transfer_request_def bind_act_def [of "set_stage _"] bind_act_def [of "exact _ _ _"] set_stage_def)
            from transfer_body_turn [OF rel2 att sane size data _ this] p(3) sub1 show ?thesis by blast
          qed
        qed
      qed
    qed
  qed
qed

subsection \<open>A connection\<close>

definition conn_ok :: "nat \<Rightarrow> enclave \<Rightarrow> nat \<Rightarrow> 'z drv_scheme \<Rightarrow> unit res \<Rightarrow> 'z drv_scheme \<Rightarrow> bytes list \<Rightarrow> bytes list \<Rightarrow> bool" where
  "conn_ok depth en n s r s' packets frames \<longleftrightarrow>
     relayed depth en s s' packets frames \<and> list_all frame_size_ok packets
     \<and> (\<exists>rest. rx_data (inbox s) = concat (map dns_frame packets) @ rest)
     \<and> length packets \<le> n \<and> length frames \<le> length packets \<and> length packets \<le> Suc (length frames)
     \<and> (\<forall>e. r = Inl e \<longrightarrow> drv_sane s \<longrightarrow> handler_exn e \<or> is_EOFError e)"

lemma relayed_sane:
  "relayed depth en s s1 ps fs \<Longrightarrow> \<forall>e. RxErr e \<in> set (inbox s1) \<longrightarrow> RxErr e \<in> set (inbox s) \<Longrightarrow>
   drv_sane s \<Longrightarrow> drv_sane s1"
  by (auto simp: relayed_def drv_sane_def web_sane_def)

lemma transfer_loop_conn:
  "transfer_loop depth k clk en deadline n s = (r, s') \<Longrightarrow> \<exists>packets frames. conn_ok depth en n s r s' packets frames"
proof (induction n arbitrary: s)
  case 0
  then have "r = Inr ()" "s' = s" by simp_all
  then show ?case by (intro exI [of _ "[]"]) (simp add: conn_ok_def relayed_same_io)
next
  case (Suc n)
  obtain x s1 where x: "transfer_request depth k clk en deadline s = (x, s1)" by fastforce
  obtain t where t: "turn_ok depth en s x s1 t" using transfer_request_turn [OF x] by blast
  show ?case
  proof (cases t)
    case Stop
    with t x Suc.prems have "r = Inr ()" "s' = s1" "relayed depth en s s1 [] []"
      by (simp_all add: turn_ok_def bind_act_def)
    then show ?thesis by (intro exI [of _ "[]"]) (simp add: conn_ok_def)
  next
    case (Failed e ps)
    with t x Suc.prems have r: "r = Inl e" "s' = s1" and ps: "relayed depth en s s1 ps []"
      "drv_sane s \<longrightarrow> handler_exn e \<or> is_EOFError e"
      "ps = [] \<or> (\<exists>p rest. ps = [p] \<and> frame_size_ok p \<and> rx_data (inbox s) = dns_frame p @ rest)"
      by (simp_all add: turn_ok_def bind_act_def)
    then have "conn_ok depth en (Suc n) s r s' ps []" by (auto simp: conn_ok_def)
    then show ?thesis by blast
  next
    case (Answered p f)
    with t have a: "x = Inr True" "relayed depth en s s1 [p] [f]" "frame_size_ok p"
      "rx_data (inbox s) = dns_frame p @ rx_data (inbox s1)" "attempts s1 = tl (attempts s)"
      "\<forall>e. RxErr e \<in> set (inbox s1) \<longrightarrow> RxErr e \<in> set (inbox s)" by (simp_all add: turn_ok_def)
    with x Suc.prems have "transfer_loop depth k clk en deadline n s1 = (r, s')" by (simp add: bind_act_def)
    from Suc.IH [OF this] obtain ps fs where ih: "conn_ok depth en n s1 r s' ps fs" by blast
    then have "relayed depth en s s' (p # ps) (f # fs)"
      using relayed_trans [OF a(2)] a(5) by (fastforce simp: conn_ok_def drop_Suc)
    with ih a relayed_sane [OF a(2,6)] have "conn_ok depth en (Suc n) s r s' (p # ps) (f # fs)"
      by (auto simp: conn_ok_def)
    then show ?thesis by blast
  qed
qed

lemma transfer_handle_conn:
  fixes s :: "'z drv_scheme"
  assumes "transfer_handle depth k clk en s = (r, s')"
  shows "\<exists>s1 r1 packets frames. conn_ok depth en MAX_REQUESTS_PER_CONNECTION s r1 s1 packets frames
    \<and> requests s' = requests s1 \<and> outbox s' = outbox s1 \<and> (drv_sane s \<longrightarrow> r = Inr ())
    \<and> (\<exists>w. warnings s' = warnings s @ w \<and> length w \<le> 1)"
proof -
  let ?s0 = "s\<lparr>stage := ''request_length'', completed := 0\<rparr>"
  let ?s1 = "snd (now clk ?s0)"
  let ?d = "clk (ticks s) + MAX_CONNECTION_SECONDS"
  obtain x s2 where x: "transfer_loop depth k clk en ?d MAX_REQUESTS_PER_CONNECTION ?s1 = (x, s2)" by fastforce
  from transfer_loop_conn [OF x] obtain ps fs where c: "conn_ok depth en MAX_REQUESTS_PER_CONNECTION ?s1 x s2 ps fs" by blast
  have f: "requests ?s1 = requests s" "outbox ?s1 = outbox s" "attempts ?s1 = attempts s" "inbox ?s1 = inbox s"
    "warnings ?s1 = warnings s" "send_results ?s1 = send_results s" "udp_results ?s1 = udp_results s"
    by (simp_all add: now_def)
  have rel: "relayed depth en s s2 ps fs = relayed depth en ?s1 s2 ps fs" "drv_sane s = drv_sane ?s1"
    unfolding relayed_def drv_sane_def web_sane_def f by simp_all
  have c': "conn_ok depth en MAX_REQUESTS_PER_CONNECTION s x s2 ps fs"
    using c unfolding conn_ok_def rel f by simp
  have w: "warnings s2 = warnings s" using c' by (simp add: conn_ok_def relayed_def)
  show ?thesis
  proof (cases x)
    case (Inr u)
    with assms x have "r = Inr ()" "s' = s2" by (simp_all add: transfer_handle_def catch_act_def now_def)
    with c' w show ?thesis by fastforce
  next
    case (Inl e)
    show ?thesis
    proof (cases "handler_exn e \<or> is_EOFError e")
      case True
      with assms x Inl have "r = Inr ()" "s' = s2\<lparr>warnings := warnings s2 @ [(stage s2, completed s2)]\<rparr>"
        by (auto simp: transfer_handle_def catch_act_def now_def)
      with c' w show ?thesis by fastforce
    next
      case False
      with assms x Inl have "r = Inl e" "s' = s2" by (simp_all add: transfer_handle_def catch_act_def now_def)
      with c' w False Inl show ?thesis by (fastforce simp: conn_ok_def)
    qed
  qed
qed

section \<open>Laws of the UDP handler\<close>

text \<open>The effect of a post, on the fields of the driver.\<close>

lemma post_effect:
  fixes s :: "'z drv_scheme"
  assumes "enclave_post depth k clk en path body ct binary framed s = (x, s1)"
  obtains rqs where "requests s1 = requests s @ rqs"
    "rqs = [] \<and> (\<exists>e. x = Inl e) \<or> (\<exists>parent. rqs = [post_request en path (body_bytes body) ct parent])"
    "\<And>result. x = Inr result \<Longrightarrow> \<exists>a \<in> set (attempts s). committed_answer depth binary framed a result"
    "\<And>e. x = Inl e \<Longrightarrow> drv_sane s \<Longrightarrow> handler_exn e"
    "outbox s1 = outbox s" "inbox s1 = inbox s" "warnings s1 = warnings s" "send_results s1 = send_results s"
    "udp_results s1 = udp_results s" "udp_sent s1 = udp_sent s"
proof -
  from enclave_post_io [OF assms] obtain rqs where
    q: "same_io (s\<lparr>attempts := tl (attempts s), requests := requests s @ rqs\<rparr>) s1"
      "rqs = [] \<and> (\<exists>e. x = Inl e) \<or> (\<exists>parent. rqs = [post_request en path (body_bytes body) ct parent])"
      "\<forall>result. x = Inr result \<longrightarrow> (\<exists>a rest. attempts s = a # rest \<and> at_connect a = Inr () \<and> at_handshake a = Inr ()
            \<and> committed_answer depth binary framed a result)"
      "\<forall>e. x = Inl e \<longrightarrow> web_sane handler_exn s \<longrightarrow> handler_exn e" by auto
  note f = same_io_fields [OF q(1)] same_io_drv [OF q(1)]
  have "\<exists>a \<in> set (attempts s). committed_answer depth binary framed a result" if "x = Inr result" for result
    using q(3) that by (metis list.set_intros(1))
  moreover have "handler_exn e" if "x = Inl e" "drv_sane s" for e
    using q(4) that by (simp add: drv_sane_def)
  ultimately show thesis using q(2) f by (intro that [of rqs]) simp_all
qed

definition udp_ok :: "nat \<Rightarrow> enclave \<Rightarrow> bytes \<Rightarrow> 'z drv_scheme \<Rightarrow> unit res \<Rightarrow> 'z drv_scheme \<Rightarrow> bool" where
  "udp_ok depth en packet s r s' \<longleftrightarrow>
     (\<exists>rqs outs. requests s' = requests s @ rqs \<and> outbox s' = outbox s @ outs \<and> warnings s' = warnings s
        \<and> (rqs = [] \<or> (\<exists>parent. rqs = [post_request en ''udp'' packet ''application/dns-message'' parent]))
        \<and> (outs = [] \<or> (\<exists>f. outs = [f] \<and> (\<exists>a \<in> set (attempts s). committed_answer depth True False a (RawBytes f))))
        \<and> (\<forall>e. r = Inl e \<longrightarrow> drv_sane s \<longrightarrow> handler_exn e))"

lemma udp_answer_ok:
  fixes s :: "'z drv_scheme"
  assumes "udp_answer depth k clk en packet sp s = (r, s')"
  shows "udp_ok depth en packet s r s'"
proof -
  obtain x s1 where x: "enclave_post depth k clk en ''udp'' (Packet packet) ''application/dns-message'' True False s = (x, s1)"
    by fastforce
  from x obtain rqs where q: "requests s1 = requests s @ rqs"
    "rqs = [] \<and> (\<exists>e. x = Inl e) \<or> (\<exists>parent. rqs = [post_request en ''udp'' (body_bytes (Packet packet)) ''application/dns-message'' parent])"
    "\<And>result. x = Inr result \<Longrightarrow> \<exists>a \<in> set (attempts s). committed_answer depth True False a result"
    "\<And>e. x = Inl e \<Longrightarrow> drv_sane s \<Longrightarrow> handler_exn e"
    "outbox s1 = outbox s" "warnings s1 = warnings s" "send_results s1 = send_results s"
    by (rule post_effect) blast
  have rqs: "rqs = [] \<or> (\<exists>parent. rqs = [post_request en ''udp'' packet ''application/dns-message'' parent])"
    using q(2) by (auto simp: body_bytes_def)
  show ?thesis
  proof (cases x)
    case (Inl e)
    with assms x have "r = Inl e" "s' = s1" by (simp_all add: udp_answer_def bind_act_def)
    with q rqs Inl show ?thesis unfolding udp_ok_def by fastforce
  next
    case (Inr result)
    from q(3) [OF Inr] obtain a where a: "a \<in> set (attempts s)" "committed_answer depth True False a result" by blast
    then obtain b where b: "result = RawBytes b" using raw_answer by blast
    obtain m where m: "dns_metadata b = Inr m" using dns_metadata_ok by blast
    let ?s2 = "link_snapshot k clk sp m s1"
    have "same_io s1 ?s2" by simp
    note f2 = same_io_fields [OF this] same_io_drv [OF this]
    have send: "send_client b ?s2 = (r, s')"
      using assms x Inr b m by (simp add: udp_answer_def bind_act_def lift_res_def raw_of_def metadata_of_def)
    then show ?thesis
    proof (cases rule: send_client_cases)
      case sent
      with q rqs f2 a b show ?thesis unfolding udp_ok_def
        by (intro exI [of _ rqs] exI [of _ "[b]"]) auto
    next
      case (failed e)
      with q rqs f2 show ?thesis unfolding udp_ok_def
        by (intro exI [of _ rqs] exI [of _ "[]"]) (auto simp: drv_sane_def)
    qed
  qed
qed

lemma udp_ok_io:
  "same_io s s1 \<Longrightarrow> udp_ok depth en packet s1 r s2 \<Longrightarrow> same_io s2 s3 \<Longrightarrow> udp_ok depth en packet s r s3"
  unfolding udp_ok_def by (simp add: same_io_fields same_io_drv drv_sane_io_eq)

lemma udp_handle_result:
  fixes s :: "'z drv_scheme"
  assumes "udp_handle depth k clk en packet s = (r, s')"
  shows "\<exists>s1 r1. udp_ok depth en packet s r1 s1 \<and> requests s' = requests s1 \<and> outbox s' = outbox s1
    \<and> (drv_sane s \<longrightarrow> r = Inr ())
    \<and> (\<not> (12 \<le> length packet \<and> length packet \<le> MAX_DNS) \<longrightarrow> s' = s \<and> r = Inr ())"
proof (cases "12 \<le> length packet \<and> length packet \<le> MAX_DNS")
  case False
  with assms have "r = Inr ()" "s' = s" by (auto simp: udp_handle_def catch_act_def ret_act_def)
  then show ?thesis unfolding udp_ok_def by fastforce
next
  case True
  obtain m where m: "dns_metadata packet = Inr m" using dns_metadata_ok by blast
  obtain x s1 where x: "with_span ''driver.dns.udp'' (dict_merge m [(''network.transport'', JStr ''udp'')]) [] ''SERVER''
            (udp_answer depth k clk en packet) s = (x, s1)" by fastforce
  then obtain sp s2 s3 where w: "same_io s s2" "udp_answer depth k clk en packet sp s2 = (x, s3)" "same_io s3 s1"
    by (rule with_span_io)
  have ok: "udp_ok depth en packet s x s1" by (rule udp_ok_io [OF w(1) udp_answer_ok [OF w(2)] w(3)])
  have h: "(case x of Inl e \<Rightarrow> if handler_exn e then (Inr (), s1\<lparr>warnings := warnings s1 @ [(''udp'', 0)]\<rparr>) else (Inl e, s1)
      | Inr u \<Rightarrow> (Inr u, s1)) = (r, s')"
    using assms True m x by (simp add: udp_handle_def catch_act_def bind_act_def metadata_of_def lift_res_def)
  show ?thesis
  proof (cases "\<exists>e. x = Inl e \<and> \<not> handler_exn e")
    case e: True
    then have "\<not> drv_sane s" using ok by (auto simp: udp_ok_def)
    with e h ok True show ?thesis by (intro exI [of _ s1] exI [of _ x]) auto
  next
    case False
    then have "r = Inr ()" "requests s' = requests s1" "outbox s' = outbox s1"
      using h by (auto split: sum.splits)
    with ok True show ?thesis by (intro exI [of _ s1] exI [of _ x]) auto
  qed
qed

section \<open>Laws of the exchange with a secondary\<close>

text \<open>The effect of an exchange for a validated work item: at most one datagram, to the endpoint of
  the item and with its packet, and at most one post, which carries the answer.\<close>

definition exchange_ok :: "enclave \<Rightarrow> json dict \<Rightarrow> string \<Rightarrow> nat \<Rightarrow> bytes \<Rightarrow> 'z drv_scheme \<Rightarrow> unit res \<Rightarrow> 'z drv_scheme \<Rightarrow> bool" where
  "exchange_ok en work host port packet s r s' \<longleftrightarrow>
     udp_sent s' = udp_sent s @ [(host, port, packet)] \<and> outbox s' = outbox s
     \<and> (\<exists>rqs. requests s' = requests s @ rqs
          \<and> (rqs = [] \<and> (\<exists>e. r = Inl e) \<or>
             (\<exists>answer body parent. Inr answer \<in> set (udp_results s) \<and> length answer \<le> MAX_DNS
                \<and> response_body work answer = Inr body
                \<and> rqs = [post_request en ''secondary/response'' (body_bytes (JsonBody (JDict body)))
                     ''application/json'' parent])))
     \<and> (\<forall>e. r = Inl e \<longrightarrow> drv_sane s \<longrightarrow> handler_exn e)"

lemma confirm_json_Inr: "confirm_json v = Inr r \<Longrightarrow>
    \<exists>d. v = JDict d \<and> map_of d ''status'' = Some (JStr ''committed'') \<and> r = JsonValue (JDict d)"
  by (cases v) (auto simp: confirm_json_def split: if_splits)

lemma json_answer: "committed_answer depth False framed a r \<Longrightarrow> \<exists>d. r = JsonValue (JDict d)"
  by (auto simp: committed_answer_def check_response_def split: if_splits dest!: confirm_json_Inr)

lemma confirm_response_effect:
  fixes s :: "'z drv_scheme"
  assumes run: "confirm_response depth k clk en work metadata response sp accepted s = (r, s')"
    and body: "response_body work response = Inr body" and kind: "dict_index work ''kind'' = Inr kind"
  obtains rqs where "requests s' = requests s @ rqs" "udp_sent s' = udp_sent s" "outbox s' = outbox s"
    "rqs = [] \<and> (\<exists>e. r = Inl e) \<or> (\<exists>parent. rqs = [post_request en ''secondary/response'' (body_bytes (JsonBody (JDict body)))
                     ''application/json'' parent])"
    "\<And>e. r = Inl e \<Longrightarrow> drv_sane s \<Longrightarrow> handler_exn e"
proof -
  obtain x s1 where x: "enclave_post depth k clk en ''secondary/response'' (JsonBody (JDict body)) ''application/json'' False True s = (x, s1)"
    by fastforce
  from x obtain rqs where q: "requests s1 = requests s @ rqs"
    "rqs = [] \<and> (\<exists>e. x = Inl e) \<or> (\<exists>parent. rqs = [post_request en ''secondary/response'' (body_bytes (JsonBody (JDict body)))
                     ''application/json'' parent])"
    "\<And>result. x = Inr result \<Longrightarrow> \<exists>a \<in> set (attempts s). committed_answer depth False True a result"
    "\<And>e. x = Inl e \<Longrightarrow> drv_sane s \<Longrightarrow> handler_exn e"
    "outbox s1 = outbox s" "udp_sent s1 = udp_sent s"
    by (rule post_effect) blast
  show thesis
  proof (cases x)
    case (Inl e)
    with run body x have "r = Inl e" "s' = s1" by (simp_all add: confirm_response_def bind_act_def lift_res_def)
    with q Inl show thesis by (intro that [of rqs]) auto
  next
    case (Inr result)
    from q(3) [OF Inr] obtain d where d: "result = JsonValue (JDict d)" using json_answer by blast
    obtain m where m: "dns_metadata response = Inr m" using dns_metadata_ok by blast
    have "r = Inr () \<and> same_io s1 s'"
      using run body x Inr d m kind
      by (auto simp: confirm_response_def bind_act_def lift_res_def json_of_def metadata_of_def Let_def
          split: option.splits link_key.splits)
    then have "r = Inr ()" and io: "same_io s1 s'" by auto
    note f = same_io_fields [OF io] same_io_drv [OF io]
    with q Inr \<open>r = Inr ()\<close> show thesis by (intro that [of rqs]) auto
  qed
qed

lemma exchange_span_ok:
  fixes s :: "'z drv_scheme"
  assumes run: "exchange_span depth k clk en work host port packet metadata attributes sp s = (r, s')"
    and body: "\<And>b. \<exists>body. response_body work b = Inr body" and kind: "dict_index work ''kind'' = Inr kind"
  shows "exchange_ok en work host port packet s r s'"
proof -
  let ?s1 = "link_snapshot k clk sp metadata s"
  have "same_io s ?s1" by simp
  note f1 = same_io_fields [OF this] same_io_drv [OF this]
  obtain x s2 where x: "udp_exchange host port packet ?s1 = (x, s2)" by fastforce
  have s2: "udp_sent s2 = udp_sent s @ [(host, port, packet)]" "outbox s2 = outbox s" "requests s2 = requests s"
    "attempts s2 = attempts s" "inbox s2 = inbox s" "send_results s2 = send_results s"
    "set (udp_results s2) \<subseteq> set (udp_results s)"
    using x f1 by (auto simp: udp_exchange_def Let_def split: list.splits)
  have sane: "drv_sane s \<Longrightarrow> drv_sane s2" using s2 by (auto simp: drv_sane_def web_sane_def)
  show ?thesis
  proof (cases x)
    case (Inl e)
    with run x have r: "r = Inl e" "s' = s2" by (simp_all add: exchange_span_def bind_act_def)
    have "drv_sane s \<longrightarrow> handler_exn e"
      using x Inl f1 by (auto simp: udp_exchange_def Let_def drv_sane_def handler_exn_def bindr_eq_Inl split: list.splits)
    with r s2 show ?thesis by (auto simp: exchange_ok_def)
  next
    case (Inr answer)
    show ?thesis
    proof (cases "length answer > MAX_DNS")
      case True
      with run x Inr have "r = Inl (ValueError ''oversized secondary response'')" "s' = s2"
        by (simp_all add: exchange_span_def bind_act_def raise_act_def)
      with s2 show ?thesis by (auto simp: exchange_ok_def handler_exn_def)
    next
      case False
      then have w: "with_span ''driver.secondary.response'' attributes [] ''INTERNAL''
          (confirm_response depth k clk en work metadata answer sp) s2 = (r, s')"
        using run x Inr by (simp add: exchange_span_def bind_act_def)
      then obtain h s3 s4 where w: "same_io s2 s3" "confirm_response depth k clk en work metadata answer sp h s3 = (r, s4)" "same_io s4 s'"
        by (rule with_span_io)
      note f3 = same_io_fields [OF w(1)] same_io_drv [OF w(1)] and f4 = same_io_fields [OF w(3)] same_io_drv [OF w(3)]
      obtain b where b: "response_body work answer = Inr b" using body by blast
      from w(2) b kind obtain rqs where q: "requests s4 = requests s3 @ rqs" "udp_sent s4 = udp_sent s3" "outbox s4 = outbox s3"
        "rqs = [] \<and> (\<exists>e. r = Inl e) \<or> (\<exists>parent. rqs = [post_request en ''secondary/response'' (body_bytes (JsonBody (JDict b)))
                     ''application/json'' parent])"
        "\<And>e. r = Inl e \<Longrightarrow> drv_sane s3 \<Longrightarrow> handler_exn e"
        by (rule confirm_response_effect) blast
      have A: "Inr answer \<in> set (udp_results s)"
      proof -
        from x Inr f1 obtain raw rest where raw: "udp_results s = Inr raw # rest" "answer = take (MAX_DNS + 1) raw"
          by (auto simp: udp_exchange_def Let_def split: list.splits)
        moreover from this False have "answer = raw" by (simp add: min_def split: if_splits)
        ultimately show ?thesis by simp
      qed
      have B: "\<forall>e. r = Inl e \<longrightarrow> drv_sane s \<longrightarrow> handler_exn e" using sane drv_sane_io [OF w(1)] q(5) by blast
      have C: "udp_sent s' = udp_sent s @ [(host, port, packet)]" "outbox s' = outbox s"
        "requests s' = requests s @ rqs" using s2 f3 f4 q(1-3) by simp_all
      have D: "length answer \<le> MAX_DNS" using False by simp
      show ?thesis unfolding exchange_ok_def using A B C D b q(4) by blast
    qed
  qed
qed

lemma exchange_result:
  fixes s :: "'z drv_scheme"
  assumes "exchange depth k clk en work_value queued s = (r, s')"
  obtains (refused) e where "validate_work work_value = Inl e" "r = Inl e" "s' = s" "is_ValueError e"
  | (ran) work target host port packet where "validate_work work_value = Inr work" "work_value = JDict work"
      "map_of work ''endpoint'' = Some (JStr target)" "endpoint target = Inr (host, port)"
      "map_of work ''packet_base64url'' = Some (JStr (encode packet))" "12 \<le> length packet" "length packet \<le> MAX_DNS"
      "exchange_ok en work host port packet s r s'"
proof (cases "validate_work work_value")
  case (Inl e)
  with assms have "r = Inl e" "s' = s" by (simp_all add: exchange_def bind_act_def lift_res_def)
  with Inl validate_work_error show thesis by (intro refused) auto
next
  case (Inr work)
  from Inr obtain work_id target kind packet where v: "work_value = JDict work"
    "map_of work ''id'' = Some (JStr work_id)" "map_of work ''endpoint'' = Some (JStr target)" "\<exists>hp. endpoint target = Inr hp"
    "map_of work ''kind'' = Some (JStr kind)" "map_of work ''packet_base64url'' = Some (JStr (encode packet))"
    "12 \<le> length packet" "length packet \<le> MAX_DNS"
    by (rule validate_work_Inr) blast
  then obtain host port where hp: "endpoint target = Inr (host, port)" by (metis surj_pair)
  obtain m where m: "dns_metadata packet = Inr m" using dns_metadata_ok by blast
  have dec: "decode (JStr (encode packet)) = Inr packet"
    using v(8) by (intro packet_codec.dec_enc) (simp add: packet_size_ok_def)
  have body: "\<exists>body. response_body work b = Inr body" for b
    using v by (simp add: response_body_def dict_index_def)
  from assms Inr v hp m dec obtain attributes link s2 where
    w: "with_span ''driver.secondary.exchange'' attributes [link] ''CLIENT''
      (exchange_span depth k clk en work host port packet m attributes) s2 = (r, s')" and io: "same_io s s2"
    by (cases queued) (auto simp: exchange_def bind_act_def lift_res_def dict_index_def metadata_of_def Let_def
        case_prod_beta)
  from w obtain sp s3 s4 where w3: "same_io s2 s3"
    "exchange_span depth k clk en work host port packet m attributes sp s3 = (r, s4)" "same_io s4 s'"
    by (rule with_span_io)
  have ok: "exchange_ok en work host port packet s3 r s4"
    using w3(2) body by (rule exchange_span_ok) (use v in \<open>simp add: dict_index_def\<close>)
  have io3: "same_io s s3" using io w3(1) by (rule same_io_trans)
  have "exchange_ok en work host port packet s r s'"
    using ok same_io_fields [OF io3] same_io_drv [OF io3] same_io_fields [OF w3(3)] same_io_drv [OF w3(3)]
    unfolding exchange_ok_def by (simp add: drv_sane_io_eq [OF io3])
  with Inr v hp show thesis by (intro ran) auto
qed

section \<open>What a checked response is\<close>

lemma check_response_Inr:
  assumes "check_response depth binary framed reply data = Inr result"
  shows "reply_status reply = 200" "getheader reply ''x-agentdns-commit-status'' = Some ''committed''"
    "if binary then result = RawBytes data \<and>
       (if framed then \<exists>ms. data = concat (map dns_frame ms) \<and> list_all frame_size_ok ms
          \<and> ms \<noteq> [] \<and> length ms \<le> MAX_TRANSFER_FRAMES \<and> length data \<le> MAX_TRANSFER_BYTES
        else 12 \<le> length data \<and> length data \<le> 1232)
     else \<exists>d. json_loads depth plain_hooks data = Inr (JDict d) \<and> result = JsonValue (JDict d)
        \<and> map_of d ''status'' = Some (JStr ''committed'')"
proof -
  show h: "reply_status reply = 200" "getheader reply ''x-agentdns-commit-status'' = Some ''committed''"
    using assms by (auto simp: check_response_def split: if_splits)
  show "if binary then result = RawBytes data \<and>
       (if framed then \<exists>ms. data = concat (map dns_frame ms) \<and> list_all frame_size_ok ms
          \<and> ms \<noteq> [] \<and> length ms \<le> MAX_TRANSFER_FRAMES \<and> length data \<le> MAX_TRANSFER_BYTES
        else 12 \<le> length data \<and> length data \<le> 1232)
     else \<exists>d. json_loads depth plain_hooks data = Inr (JDict d) \<and> result = JsonValue (JDict d)
        \<and> map_of d ''status'' = Some (JStr ''committed'')"
  proof (cases binary)
    case True
    then show ?thesis
      using assms h by (auto simp: check_response_def bindr_eq_Inr validate_frames_Inr split: if_splits)
  next
    case False
    with assms h obtain v where "json_loads depth plain_hooks data = Inr v" "confirm_json v = Inr result"
      by (auto simp: check_response_def bindr_eq_Inr)
    with False confirm_json_Inr show ?thesis by fastforce
  qed
qed

section \<open>Correctness of the driver's network side\<close>

text \<open>Sample inputs: a tracer, an enclave, an answer of the enclave and a state of the driver.\<close>

definition sample_sdk :: sdk where
  "sample_sdk = \<lparr>span_ctx = (\<lambda>n. \<lparr>trace_id = 1, span_id = n, trace_flags = 1, is_valid = True\<rparr>),
      mk_context = (\<lambda>t i f. \<lparr>trace_id = t, span_id = i, trace_flags = f, is_valid = True\<rparr>)\<rparr>"

definition sample_enclave :: enclave where
  "sample_enclave = \<lparr>en_host = ''ccf'', en_port = 443, en_timeout = 30\<rparr>"

definition sample_attempt :: "bytes \<Rightarrow> attempt" where
  "sample_attempt b = \<lparr>at_connect = Inr (), at_handshake = Inr (), at_reply = Inr \<lparr>reply_status = 200,
     reply_headers = [(''x-agentdns-commit-status'', ''committed'')], reply_body = [Data b, Closed]\<rparr>\<rparr>"

definition sample_drv :: "rx list \<Rightarrow> attempt list \<Rightarrow> bytes res list \<Rightarrow> drv" where
  "sample_drv q as us = \<lparr>ticks = 0, inbox = q, sock_timeout = None, outbox = [], attempts = as, requests = [],
     tracing = False, cache = new_cache, sdk_log = [], active = [], next_span = 0, received = 0, rejected = 0,
     send_results = [], udp_results = us, udp_sent = [], stage = [], completed = 0, warnings = []\<rparr>"

lemmas sample_defs = sample_sdk_def sample_enclave_def sample_attempt_def sample_drv_def

lemmas act_eval = with_span_def now_def own_connection_def bind_act_def create_connection_def with_deadline_def
  lift_res_def Let_def http_exchange_def read_bounded_def read_bounded_loop.simps recv_def settimeout_def sendall_def
  ret_act_def raise_act_def catch_act_def

lemmas post_eval = enclave_post_def commit_wait_def response_limit_def check_response_def getheader_def lower_def
  mark_committed_def set_both_def set_attribute_def

lemma validate_sample: "validate_frames [0, 12, 7,1,1,1,1,1,1,1,1,1,1,1] = Inr ()"
  unfolding validate_frames_Inr
  by (intro exI [of _ "[[7,1,1,1,1,1,1,1,1,1,1,1]]"]) (simp add: dns_frame_def frame_size_ok_def limit_defs)

lemma sample_metadata: "dns_metadata [7,0,0,0,0,0,0,0,0,0,0,0] = Inr []"
   by (simp add: dns_metadata_def dns_metadata_body_def be_nat_def slice_def)


lemma sample_turn: "\<exists>s'. transfer_request 10 sample_sdk (\<lambda>_. 0) sample_enclave 60 (sample_drv [Data [0, 12, 7,0,0,0,0,0,0,0,0,0,0,0], Closed] [sample_attempt [0, 12, 7,1,1,1,1,1,1,1,1,1,1,1]] []\<lparr>ticks := Suc 0, stage := x\<rparr>) = (Inr True, s')
 \<and> outbox s' = [[0, 12, 7,1,1,1,1,1,1,1,1,1,1,1]] \<and> inbox s' = [Closed]"
  by (simp add: transfer_request_def act_eval set_stage_def exact_def exact_loop.simps sample_defs be_nat_def metadata_of_def sample_metadata
    transfer_answer_def post_eval validate_sample raw_of_def note_transfer_def send_client_def remember_snapshot_def limit_defs)

lemma sample_last_turn: "inbox s = [Closed] \<Longrightarrow> \<exists>s'. transfer_request 10 sample_sdk (\<lambda>_. 0) sample_enclave 60 s = (Inr False, s') \<and> outbox s' = outbox s"
  by (simp add: transfer_request_def act_eval set_stage_def exact_def exact_loop.simps)

lemma sample_transfer: "\<exists>s'. transfer_handle 10 sample_sdk (\<lambda>_. 0) sample_enclave (sample_drv [Data [0, 12, 7,0,0,0,0,0,0,0,0,0,0,0], Closed] [sample_attempt [0, 12, 7,1,1,1,1,1,1,1,1,1,1,1]] []) = (Inr (), s')
 \<and> outbox s' = [[0, 12, 7,1,1,1,1,1,1,1,1,1,1,1]]"
proof -
  obtain s1 where s1: "transfer_request 10 sample_sdk (\<lambda>_. 0) sample_enclave 60
      (sample_drv [Data [0, 12, 7,0,0,0,0,0,0,0,0,0,0,0], Closed] [sample_attempt [0, 12, 7,1,1,1,1,1,1,1,1,1,1,1]] []
         \<lparr>ticks := Suc 0, stage := ''request_length''\<rparr>) = (Inr True, s1)"
    "outbox s1 = [[0, 12, 7,1,1,1,1,1,1,1,1,1,1,1]]" "inbox s1 = [Closed]" using sample_turn by blast
  obtain s2 where s2: "transfer_request 10 sample_sdk (\<lambda>_. 0) sample_enclave 60 s1 = (Inr False, s2)" "outbox s2 = outbox s1"
    using sample_last_turn s1(3) by blast
  have loop: "transfer_loop 10 sample_sdk (\<lambda>_. 0) sample_enclave 60 (Suc (Suc n))
      (sample_drv [Data [0, 12, 7,0,0,0,0,0,0,0,0,0,0,0], Closed] [sample_attempt [0, 12, 7,1,1,1,1,1,1,1,1,1,1,1]] []
         \<lparr>ticks := Suc 0, stage := ''request_length''\<rparr>) = (Inr (), s2)" for n
    using s1 s2 by (simp add: bind_act_def ret_act_def)
  show ?thesis using loop [of 14] s1 s2
    by (simp add: transfer_handle_def limit_defs catch_act_def now_def sample_drv_def)
qed

text \<open>(C1) \<open>Enclave.post\<close> returns only what the enclave has committed. When it returns a result, the
  connection and the handshake succeeded, exactly one request went out, to the enclave and with the
  caller's path and body, the reply had status 200 and the commit header, its whole body was read,
  and the result is that body: a sequence of well-formed frames for a zone transfer, a message of 12
  to 1232 bytes for a datagram, a JSON object with status committed otherwise. In every other case
  it raises an exception that the callers handle.\<close>

theorem enclave_post_committed:
  fixes s :: "'z tel_scheme"
  assumes "enclave_post depth k clk en path body content_type binary framed s = (r, s')"
  shows "case r of
      Inr result \<Rightarrow> \<exists>a rest reply parent. attempts s = a # rest \<and> attempts s' = rest
        \<and> at_connect a = Inr () \<and> at_handshake a = Inr () \<and> at_reply a = Inr reply
        \<and> requests s' = requests s @ [post_request en path (body_bytes body) content_type parent]
        \<and> reply_status reply = 200 \<and> getheader reply ''x-agentdns-commit-status'' = Some ''committed''
        \<and> rx_closed (reply_body reply)
        \<and> (let data = rx_data (reply_body reply) in
           if binary then result = RawBytes data \<and>
             (if framed then \<exists>ms. data = concat (map dns_frame ms) \<and> list_all frame_size_ok ms
                \<and> ms \<noteq> [] \<and> length ms \<le> MAX_TRANSFER_FRAMES \<and> length data \<le> MAX_TRANSFER_BYTES
              else 12 \<le> length data \<and> length data \<le> 1232)
           else \<exists>d. json_loads depth plain_hooks data = Inr (JDict d) \<and> result = JsonValue (JDict d)
                \<and> map_of d ''status'' = Some (JStr ''committed''))
    | Inl e \<Rightarrow> web_sane handler_exn s \<longrightarrow> handler_exn e"
proof -
  from enclave_post_io [OF assms] obtain rqs where
    q: "same_io (s\<lparr>attempts := tl (attempts s), requests := requests s @ rqs\<rparr>) s'"
      "rqs = [] \<and> (\<exists>e. r = Inl e) \<or> (\<exists>parent. rqs = [post_request en path (body_bytes body) content_type parent])"
      "\<forall>result. r = Inr result \<longrightarrow> (\<exists>a rest. attempts s = a # rest \<and> at_connect a = Inr () \<and> at_handshake a = Inr ()
            \<and> committed_answer depth binary framed a result)"
      "\<forall>e. r = Inl e \<longrightarrow> web_sane handler_exn s \<longrightarrow> handler_exn e" by blast
  note f = same_io_fields [OF q(1)]
  show ?thesis
  proof (cases r)
    case (Inl e)
    with q(4) show ?thesis by simp
  next
    case (Inr result)
    with q(3) obtain a rest where a: "attempts s = a # rest" "at_connect a = Inr ()" "at_handshake a = Inr ()"
      "committed_answer depth binary framed a result" by blast
    then obtain reply where reply: "at_reply a = Inr reply" "rx_closed (reply_body reply)"
      "check_response depth binary framed reply (rx_data (reply_body reply)) = Inr result"
      unfolding committed_answer_def by blast
    from Inr q(2) obtain parent where "rqs = [post_request en path (body_bytes body) content_type parent]" by auto
    with f a have reqs: "attempts s' = rest" "requests s' = requests s @ [post_request en path (body_bytes body) content_type parent]"
      by simp_all
    note c = check_response_Inr [OF reply(3)]
    from Inr a reqs reply c show ?thesis by (simp add: Let_def) blast
  qed
qed

theorem enclave_post_committed_witness:
  "\<exists>a reply. attempts (sample_drv [] [sample_attempt [1,1,1,1,1,1,1,1,1,1,1,1]] []) = [a] \<and> at_reply a = Inr reply
     \<and> rx_data (reply_body reply) = [1,1,1,1,1,1,1,1,1,1,1,1] \<and> reply_status reply = 200
     \<and> getheader reply ''x-agentdns-commit-status'' = Some ''committed''"
proof -
  have "\<exists>s'. enclave_post 10 sample_sdk (\<lambda>_. 0) sample_enclave ''udp'' (Packet [0,0,0,0,0,0,0,0,0,0,0,0])
      ''application/dns-message'' True False (sample_drv [] [sample_attempt [1,1,1,1,1,1,1,1,1,1,1,1]] [])
    = (Inr (RawBytes [1,1,1,1,1,1,1,1,1,1,1,1]), s')"
    by (simp add: sample_defs act_eval post_eval)
  then obtain s' where "enclave_post 10 sample_sdk (\<lambda>_. 0) sample_enclave ''udp'' (Packet [0,0,0,0,0,0,0,0,0,0,0,0])
      ''application/dns-message'' True False (sample_drv [] [sample_attempt [1,1,1,1,1,1,1,1,1,1,1,1]] [])
    = (Inr (RawBytes [1,1,1,1,1,1,1,1,1,1,1,1]), s')" by blast
  from enclave_post_committed [OF this] show ?thesis by (auto simp: sample_defs Let_def)
qed

text \<open>(C5) A TCP connection relays. Whatever the client and the enclave do, the handler reads at most
  16 framed messages of the client, posts to \<open>internal/axfr\<close> a prefix of them in order and unchanged, and
  sends back only committed and well-framed answers of the enclave, the n-th of them for the n-th
  message; at most the last message posted goes unanswered.\<close>

theorem transfer_handle_relays:
  fixes s :: "'z drv_scheme"
  assumes "transfer_handle depth k clk en s = (r, s')"
  shows "\<exists>packets answers rqs. length packets \<le> 16 \<and> list_all (\<lambda>p. 12 \<le> length p \<and> length p \<le> 65535) packets
    \<and> (\<exists>rest. rx_data (inbox s) = concat (map dns_frame packets) @ rest)
    \<and> requests s' = requests s @ rqs \<and> map rq_body rqs = packets
    \<and> list_all (\<lambda>rq. rq_host rq = en_host en \<and> rq_port rq = en_port en \<and> rq_path rq = ''/app/internal/axfr'') rqs
    \<and> outbox s' = outbox s @ answers
    \<and> length answers \<le> length packets \<and> length packets \<le> length answers + 1
    \<and> list_all2 (\<lambda>a f. committed_answer depth True True a (RawBytes f)) (take (length answers) (attempts s)) answers"
proof -
  from transfer_handle_conn [OF assms] obtain s1 r1 packets answers where
    c: "conn_ok depth en MAX_REQUESTS_PER_CONNECTION s r1 s1 packets answers"
    and s': "requests s' = requests s1" "outbox s' = outbox s1" by blast
  then obtain rqs where rqs: "requests s1 = requests s @ rqs" "map rq_body rqs = packets"
    "list_all (\<lambda>rq. rq_host rq = en_host en \<and> rq_port rq = en_port en \<and> rq_path rq = ''/app/internal/axfr'') rqs"
    unfolding conn_ok_def relayed_def by blast
  show ?thesis
    using c s' rqs unfolding conn_ok_def relayed_def frame_size_ok_def [abs_def] MAX_REQUESTS_PER_CONNECTION_def
    by (intro exI [of _ packets] exI [of _ answers] exI [of _ rqs]) auto
qed

theorem transfer_handle_relays_witness:
  "\<exists>s' answers. transfer_handle 10 sample_sdk (\<lambda>_. 0) sample_enclave
       (sample_drv [Data [0, 12, 7,0,0,0,0,0,0,0,0,0,0,0], Closed] [sample_attempt [0, 12, 7,1,1,1,1,1,1,1,1,1,1,1]] [])
     = (Inr (), s')
   \<and> outbox s' = [[0, 12, 7,1,1,1,1,1,1,1,1,1,1,1]] \<and> answers = outbox s'
   \<and> list_all2 (\<lambda>a f. committed_answer 10 True True a (RawBytes f)) [sample_attempt [0, 12, 7,1,1,1,1,1,1,1,1,1,1,1]] answers"
proof -
  let ?s = "sample_drv [Data [0, 12, 7,0,0,0,0,0,0,0,0,0,0,0], Closed] [sample_attempt [0, 12, 7,1,1,1,1,1,1,1,1,1,1,1]] []"
  from sample_transfer obtain s' where run: "transfer_handle 10 sample_sdk (\<lambda>_. 0) sample_enclave ?s = (Inr (), s')"
    and out: "outbox s' = [[0, 12, 7,1,1,1,1,1,1,1,1,1,1,1]]" by blast
  from transfer_handle_relays [OF run] out run show ?thesis by (auto simp: sample_defs)
qed

text \<open>A handler never takes its server down. When the peers and the sockets raise only exceptions
  of the kinds that Python documents for them (\<open>OSError\<close>, \<open>ValueError\<close>, \<open>RuntimeError\<close>,
  \<open>HTTPException\<close>), both handlers end normally on every input: a failed TCP connection costs one
  warning, and a UDP message outside 12 to 65535 bytes has no effect at all.\<close>

theorem handlers_survive:
  fixes s :: "'z drv_scheme"
  assumes "drv_sane s"
  shows "(\<exists>s'. transfer_handle depth k clk en s = (Inr (), s') \<and> (\<exists>w. warnings s' = warnings s @ w \<and> length w \<le> 1))
    \<and> (\<exists>s'. udp_handle depth k clk en packet s = (Inr (), s')
        \<and> (length packet < 12 \<or> 65535 < length packet \<longrightarrow> s' = s))"
proof (intro conjI)
  obtain r s' where t: "transfer_handle depth k clk en s = (r, s')" by fastforce
  with transfer_handle_conn [OF t] assms show "\<exists>s'. transfer_handle depth k clk en s = (Inr (), s')
      \<and> (\<exists>w. warnings s' = warnings s @ w \<and> length w \<le> 1)" by auto
  obtain r s' where u: "udp_handle depth k clk en packet s = (r, s')" by fastforce
  from udp_handle_result [OF u] assms have "r = Inr ()"
    "\<not> (12 \<le> length packet \<and> length packet \<le> MAX_DNS) \<longrightarrow> s' = s" by blast+
  with u show "\<exists>s'. udp_handle depth k clk en packet s = (Inr (), s')
        \<and> (length packet < 12 \<or> 65535 < length packet \<longrightarrow> s' = s)" by (auto simp: MAX_DNS_def)
qed

theorem handlers_survive_witness:
  "(\<exists>s'. transfer_handle 10 sample_sdk (\<lambda>_. 0) sample_enclave (sample_drv [Data [0, 12, 7], RxErr (OSError [])] [] []) = (Inr (), s')
      \<and> (\<exists>w. warnings s' = warnings (sample_drv [Data [0, 12, 7], RxErr (OSError [])] [] []) @ w \<and> length w \<le> 1))
   \<and> udp_handle 10 sample_sdk (\<lambda>_. 0) sample_enclave [1, 2, 3] (sample_drv [Data [0, 12, 7], RxErr (OSError [])] [] [])
     = (Inr (), sample_drv [Data [0, 12, 7], RxErr (OSError [])] [] [])"
proof -
  have "drv_sane (sample_drv [Data [0, 12, 7], RxErr (OSError [])] [] [])"
    by (simp add: drv_sane_def sample_drv_def web_sane_def handler_exn_def)
  from handlers_survive [OF this, of 10 sample_sdk "\<lambda>_. 0" sample_enclave "[1, 2, 3]"] show ?thesis by auto
qed

text \<open>The UDP handler relays one message: it posts the datagram unchanged to \<open>internal/udp\<close>, at
  most once, and sends back at most one answer, which is a committed answer of the enclave of 12 to
  1232 bytes.\<close>

theorem udp_handle_relays:
  fixes s :: "'z drv_scheme"
  assumes "udp_handle depth k clk en packet s = (r, s')"
  shows "(requests s' = requests s \<or>
       (\<exists>parent. requests s' = requests s @ [post_request en ''udp'' packet ''application/dns-message'' parent]))
    \<and> (outbox s' = outbox s \<or>
       (\<exists>f. outbox s' = outbox s @ [f] \<and> 12 \<le> length f \<and> length f \<le> 1232
          \<and> (\<exists>a \<in> set (attempts s). committed_answer depth True False a (RawBytes f))))"
proof -
  from udp_handle_result [OF assms] obtain s1 r1 where
    u: "udp_ok depth en packet s r1 s1" "requests s' = requests s1" "outbox s' = outbox s1" by blast
  have "12 \<le> length f \<and> length f \<le> 1232" if "committed_answer depth True False a (RawBytes f)" for a f
    using that check_response_Inr(3) by (fastforce simp: committed_answer_def)
  with u show ?thesis unfolding udp_ok_def by auto
qed

theorem udp_handle_relays_witness:
  "let (r, s') = udp_handle 10 sample_sdk (\<lambda>_. 0) sample_enclave [7,0,0,0,0,0,0,0,0,0,0,0]
                   (sample_drv [] [sample_attempt [7,0,0,0,0,0,0,0,0,0,0,0]] []) in
   outbox s' = [[7,0,0,0,0,0,0,0,0,0,0,0]] \<and>
   (\<exists>parent. requests s' = [post_request sample_enclave ''udp'' [7,0,0,0,0,0,0,0,0,0,0,0] ''application/dns-message'' parent])"
proof -
  let ?s = "sample_drv [] [sample_attempt [7,0,0,0,0,0,0,0,0,0,0,0]] []"
  obtain s' where run: "udp_handle 10 sample_sdk (\<lambda>_. 0) sample_enclave [7,0,0,0,0,0,0,0,0,0,0,0] ?s = (Inr (), s')"
    and out: "outbox s' = [[7,0,0,0,0,0,0,0,0,0,0,0]]" "requests s' \<noteq> []"
    by (simp add: udp_handle_def udp_answer_def act_eval post_eval sample_defs metadata_of_def sample_metadata
        raw_of_def send_client_def link_snapshot_def limit_defs)
  from udp_handle_relays [OF run] run out show ?thesis by (auto simp: sample_drv_def)
qed


definition sample_work :: "json dict" where
  "sample_work = [(''id'', JStr (replicate 32 CHR ''a'')), (''endpoint'', JStr ''127.0.0.1:53''), (''kind'', JStr ''soa''),
     (''packet_base64url'', JStr (encode [7,0,0,0,0,0,0,0,0,0,0,0]))]"

lemma sample_decode: "decode (JStr (encode [7,0,0,0,0,0,0,0,0,0,0,0])) = Inr [7,0,0,0,0,0,0,0,0,0,0,0]"
  by (rule packet_codec.dec_enc) (simp add: packet_size_ok_def limit_defs)

lemma sample_endpoint: "endpoint ''127.0.0.1:53'' = Inr (''127.0.0.1'', 53)"
  by (simp add: endpoint_def startswith_def rpartition_at_def ip_address_eval py_int_def unsigned_int_def
      strip_def is_space_def socket_text_def int_str_def nat_str_eval char_of_def bit_0)

lemma sample_work_valid: "validate_work (JDict sample_work) = Inr sample_work"
  by (simp add: validate_work_def sample_work_def same_keys_def dict_index_def work_id_ok_def is_lower_hex_def
      sample_decode sample_endpoint limit_defs list_all_iff insert_commute is_digit_def)


end
