(* ===== verification/Driver_Lifecycle.thy ===== *)
theory Driver_Lifecycle
  imports Driver_Relay
begin

text \<open>
  The autonomous loop of \<open>ccf/host_driver.py\<close> (\<open>lifecycle\<close>): every turn posts maintenance, collects
  finished exchanges, discards stale work, fetches a new batch when idle, and dispatches within a
  bounded window. The exchanges run in worker threads; which of them have finished by a turn, and
  with what result, is an argument of the turn.
\<close>

section \<open>State\<close>

record future =
  fut_item :: "json dict"
  fut_queued :: real

text \<open>\<open>fetched\<close> and \<open>handled\<close> log the items that entered the queue and those that left it, the latter with
  whether they were dispatched.\<close>

record life = drv +
  backlog :: "(json dict \<times> real) list"
  futures :: "future list"
  batch_started :: real
  fetched :: "(json dict \<times> real) list"
  handled :: "((json dict \<times> real) \<times> bool) list"
  failures :: nat
  executor_open :: bool

definition STALE_SECONDS :: real where "STALE_SECONDS = 240"

definition warn :: "string \<Rightarrow> 'z drv_scheme \<Rightarrow> 'z drv_scheme" where
  "warn w s = s\<lparr>warnings := warnings s @ [(w, 0)]\<rparr>"

section \<open>The steps of a turn\<close>

definition post_json :: "nat \<Rightarrow> sdk \<Rightarrow> clock \<Rightarrow> enclave \<Rightarrow> string \<Rightarrow> ('z tel_scheme, post_result) act" where
  "post_json depth k clk en path =
     enclave_post depth k clk en path (JsonBody (JDict [])) ''application/json'' False True"

definition poll :: "nat \<Rightarrow> sdk \<Rightarrow> clock \<Rightarrow> enclave \<Rightarrow> ('z life_scheme, post_result) act" where
  "poll depth k clk en s =
     with_span ''driver.lifecycle.poll'' [(''agentdns.queue.depth'', JInt (int (length (backlog s))))] [] ''INTERNAL''
       (\<lambda>_. post_json depth k clk en ''maintenance'') s"

fun reap_loop :: "(future \<Rightarrow> unit res option) \<Rightarrow> future list \<Rightarrow> ('z life_scheme, unit) act" where
  "reap_loop finished [] s = (Inr (), s)"
| "reap_loop finished (f # fs) s =
     (case finished f of
        None \<Rightarrow> reap_loop finished fs s
      | Some r \<Rightarrow>
          let s1 = s\<lparr>futures := remove1 f (futures s)\<rparr> in
          case r of
            Inr _ \<Rightarrow> reap_loop finished fs s1
          | Inl e \<Rightarrow>
              if handler_exn e then reap_loop finished fs (warn ''secondary not confirmed'' s1) else (Inl e, s1))"

definition discard_stale :: "clock \<Rightarrow> ('z life_scheme, unit) act" where
  "discard_stale clk s =
     (if backlog s = [] then (Inr (), s)
      else
        let (t, s1) = now clk s in
        if t - batch_started s1 \<ge> STALE_SECONDS
        then (Inr (), warn ''discarded undispatched secondary work''
                (s1\<lparr>handled := handled s1 @ map (\<lambda>x. (x, False)) (backlog s1), backlog := []\<rparr>))
        else (Inr (), s1))"

fun check_items :: "json list \<Rightarrow> json list \<Rightarrow> json dict list res" where
  "check_items [] ids = Inr []"
| "check_items (item # items) ids =
     bindr (validate_work item) (\<lambda>work.
     bindr (dict_index work ''id'') (\<lambda>work_id.
     if work_id \<in> set ids then Inl (ValueError ''duplicate secondary work ID'')
     else bindr (check_items items (work_id # ids)) (\<lambda>works. Inr (work # works))))"

definition work_list :: "json \<Rightarrow> json dict list res" where
  "work_list result =
     (case result of
        JDict d \<Rightarrow>
          (case (case map_of d ''work'' of None \<Rightarrow> JList [] | Some v \<Rightarrow> v) of
             JList items \<Rightarrow>
               if length items > MAX_SECONDARY_WORK then Inl (ValueError ''invalid secondary work list'')
               else check_items items []
           | _ \<Rightarrow> Inl (ValueError ''invalid secondary work list''))
      | _ \<Rightarrow> Inl (ValueError ''invalid secondary work response''))"

definition item_id :: "json dict \<Rightarrow> string" where
  "item_id work = (case map_of work ''id'' of Some (JStr i) \<Rightarrow> i | _ \<Rightarrow> [])"

definition enqueue :: "sdk \<Rightarrow> clock \<Rightarrow> nat option \<Rightarrow> json dict \<Rightarrow> 'z life_scheme \<Rightarrow> 'z life_scheme" where
  "enqueue k clk produced item s =
     (let s1 = tracer_put clk (Work (item_id item)) (context_of k produced) s in
      s1\<lparr>backlog := backlog s1 @ [(item, batch_started s1)], fetched := fetched s1 @ [(item, batch_started s1)]\<rparr>)"

definition fetch_body :: "nat \<Rightarrow> sdk \<Rightarrow> clock \<Rightarrow> enclave \<Rightarrow> nat option \<Rightarrow> ('z life_scheme, unit) act" where
  "fetch_body depth k clk en produced =
     bind_act (post_json depth k clk en ''secondary/requests'') (\<lambda>r.
     bind_act (lift_res (json_of r)) (\<lambda>result.
     bind_act (lift_res (work_list result)) (\<lambda>works s.
       let (t, s1) = now clk s in
       (Inr (), fold (enqueue k clk produced) works (s1\<lparr>batch_started := t\<rparr>)))))"

definition fetch_work :: "nat \<Rightarrow> sdk \<Rightarrow> clock \<Rightarrow> enclave \<Rightarrow> ('z life_scheme, unit) act" where
  "fetch_work depth k clk en s =
     (if backlog s = [] \<and> futures s = []
      then with_span ''driver.secondary.requests'' [] [] ''PRODUCER'' (fetch_body depth k clk en) s
      else (Inr (), s))"

fun dispatch_loop :: "(json dict \<times> real) list \<Rightarrow> 'z life_scheme \<Rightarrow> 'z life_scheme" where
  "dispatch_loop [] s = s\<lparr>backlog := []\<rparr>"
| "dispatch_loop (x # rest) s =
     (if length (futures s) < MAX_OUTSTANDING_EXCHANGES
      then dispatch_loop rest (s\<lparr>futures := futures s @ [\<lparr>fut_item = fst x, fut_queued = snd x\<rparr>],
                                 handled := handled s @ [(x, True)]\<rparr>)
      else s\<lparr>backlog := x # rest\<rparr>)"

definition dispatch :: "('z life_scheme, unit) act" where
  "dispatch s = (Inr (), dispatch_loop (backlog s) s)"

definition lifecycle_body ::
    "nat \<Rightarrow> sdk \<Rightarrow> clock \<Rightarrow> enclave \<Rightarrow> (future \<Rightarrow> unit res option) \<Rightarrow> ('z life_scheme, unit) act" where
  "lifecycle_body depth k clk en finished =
     bind_act (poll depth k clk en) (\<lambda>_.
     bind_act (\<lambda>s. reap_loop finished (futures s) s) (\<lambda>_.
     bind_act (discard_stale clk) (\<lambda>_.
     bind_act (fetch_work depth k clk en) (\<lambda>_. dispatch))))"

text \<open>One turn, with the seconds that the loop then waits.\<close>

definition lifecycle_turn ::
    "nat \<Rightarrow> sdk \<Rightarrow> clock \<Rightarrow> enclave \<Rightarrow> real \<Rightarrow> (future \<Rightarrow> unit res option) \<Rightarrow> ('z life_scheme, real) act" where
  "lifecycle_turn depth k clk en interval finished s =
     (let (started, s1) = now clk s in
      bind_act (catch_act handler_exn (\<lambda>_ s. (Inr (), s\<lparr>failures := failures s + 1\<rparr>))
                  (lifecycle_body depth k clk en finished)) (\<lambda>_ s2.
        let (t, s3) = now clk s2 in (Inr (max 0 (interval - (t - started))), s3)) s1)"

text \<open>The loop over the turns until \<open>stop\<close> is set; an exception that a turn does not handle ends it.\<close>

fun lifecycle_loop ::
    "nat \<Rightarrow> sdk \<Rightarrow> clock \<Rightarrow> enclave \<Rightarrow> real \<Rightarrow> (future \<Rightarrow> unit res option) list \<Rightarrow> ('z life_scheme, unit) act" where
  "lifecycle_loop depth k clk en interval [] s = (Inr (), s)"
| "lifecycle_loop depth k clk en interval (finished # turns) s =
     bind_act (lifecycle_turn depth k clk en interval finished)
       (\<lambda>_. lifecycle_loop depth k clk en interval turns) s"

text \<open>Whatever ends the loop, the executor is shut down: queued exchanges are cancelled and none is
  submitted afterwards.\<close>

definition lifecycle ::
    "nat \<Rightarrow> sdk \<Rightarrow> clock \<Rightarrow> enclave \<Rightarrow> real \<Rightarrow> (future \<Rightarrow> unit res option) list \<Rightarrow> ('z life_scheme, unit) act" where
  "lifecycle depth k clk en interval turns =
     finally_act (\<lambda>s. s\<lparr>executor_open := False\<rparr>) (lifecycle_loop depth k clk en interval turns)"

definition new_life :: "drv \<Rightarrow> life" where
  "new_life d = drv.extend d (life.fields [] [] 0 [] [] 0 True)"

section \<open>What the steps keep\<close>

lemma same_io_life:
  fixes s :: "'z life_scheme"
  assumes "same_io s t"
  shows "backlog t = backlog s" "futures t = futures s" "batch_started t = batch_started s" "fetched t = fetched s"
    "handled t = handled s" "failures t = failures s"
proof -
  note e = assms [unfolded same_io_def]
  show "backlog t = backlog s" "futures t = futures s" "batch_started t = batch_started s" "fetched t = fetched s"
    "handled t = handled s" "failures t = failures s"
    using arg_cong [OF e, of backlog] arg_cong [OF e, of futures] arg_cong [OF e, of batch_started]
      arg_cong [OF e, of fetched] arg_cong [OF e, of handled] arg_cong [OF e, of failures]
    by (simp_all add: io_of_def)
qed

text \<open>A post leaves the queues alone and writes at most its own request.\<close>

lemma post_json_effect:
  fixes s :: "'z life_scheme"
  assumes "post_json depth k clk en path s = (x, s1)"
  obtains rqs where "requests s1 = requests s @ rqs"
    "rqs = [] \<and> (\<exists>e. x = Inl e) \<or> (\<exists>parent. rqs = [post_request en path (body_bytes (JsonBody (JDict []))) ''application/json'' parent])"
    "\<And>result. x = Inr result \<Longrightarrow> \<exists>d. result = JsonValue (JDict d)"
    "\<And>e. x = Inl e \<Longrightarrow> drv_sane s \<Longrightarrow> handler_exn e" "drv_sane s \<Longrightarrow> drv_sane s1"
    "backlog s1 = backlog s" "futures s1 = futures s" "batch_started s1 = batch_started s"
    "fetched s1 = fetched s" "handled s1 = handled s"
proof -
  from enclave_post_io [OF assms [unfolded post_json_def]] obtain rqs where
    q: "same_io (s\<lparr>attempts := tl (attempts s), requests := requests s @ rqs\<rparr>) s1"
      "rqs = [] \<and> (\<exists>e. x = Inl e) \<or> (\<exists>parent. rqs = [post_request en path (body_bytes (JsonBody (JDict []))) ''application/json'' parent])"
      "\<forall>result. x = Inr result \<longrightarrow> (\<exists>a rest. attempts s = a # rest \<and> at_connect a = Inr () \<and> at_handshake a = Inr ()
            \<and> committed_answer depth False True a result)"
      "\<forall>e. x = Inl e \<longrightarrow> web_sane handler_exn s \<longrightarrow> handler_exn e" by blast
  note f = same_io_fields [OF q(1)] same_io_drv [OF q(1)] same_io_life [OF q(1)]
  have tl: "a \<in> set (attempts s)" if "a \<in> set (tl (attempts s))" for a
    using that by (cases "attempts s") auto
  have J: "\<And>result. x = Inr result \<Longrightarrow> \<exists>d. result = JsonValue (JDict d)"
    using q(3) json_answer by blast
  have E: "\<And>e. x = Inl e \<Longrightarrow> drv_sane s \<Longrightarrow> handler_exn e"
    using q(4) by (simp add: drv_sane_def)
  have S: "drv_sane s \<Longrightarrow> drv_sane s1"
    using f tl by (auto simp: drv_sane_def web_sane_def)
  show thesis using f q(2) J E S by (intro that [of rqs]) simp_all
qed

text \<open>The queues of a state, and the invariant of the loop.\<close>

definition same_queues :: "'z life_scheme \<Rightarrow> 'z life_scheme \<Rightarrow> bool" where
  "same_queues s t \<longleftrightarrow> backlog t = backlog s \<and> futures t = futures s \<and> batch_started t = batch_started s
     \<and> fetched t = fetched s \<and> handled t = handled s"

definition outstanding :: "'z life_scheme \<Rightarrow> json dict list" where
  "outstanding s = map fut_item (futures s) @ map fst (backlog s)"

definition life_inv :: "'z life_scheme \<Rightarrow> bool" where
  "life_inv s \<longleftrightarrow> length (futures s) \<le> MAX_OUTSTANDING_EXCHANGES \<and> length (outstanding s) \<le> MAX_SECONDARY_WORK
     \<and> distinct (map item_id (outstanding s)) \<and> list_all (\<lambda>w. validate_work (JDict w) = Inr w) (outstanding s)
     \<and> list_all (\<lambda>x. snd x = batch_started s) (backlog s) \<and> fetched s = map fst (handled s) @ backlog s"

lemma same_queues_refl [simp]: "same_queues s s"
  by (simp add: same_queues_def)

lemma life_inv_queues: "same_queues s t \<Longrightarrow> life_inv t = life_inv s"
  by (simp add: same_queues_def life_inv_def outstanding_def)

lemma same_queues_io: "same_io s t \<Longrightarrow> same_queues s t"
  by (simp add: same_queues_def same_io_life)

lemma poll_effect:
  fixes s :: "'z life_scheme"
  assumes "poll depth k clk en s = (x, s1)"
  obtains rqs where "requests s1 = requests s @ rqs" "same_queues s s1"
    "rqs = [] \<and> (\<exists>e. x = Inl e) \<or> (\<exists>parent. rqs = [post_request en ''maintenance'' (body_bytes (JsonBody (JDict []))) ''application/json'' parent])"
    "\<And>e. x = Inl e \<Longrightarrow> drv_sane s \<Longrightarrow> handler_exn e" "drv_sane s \<Longrightarrow> drv_sane s1"
proof -
  from assms obtain sp t1 t2 where w: "same_io s t1" "post_json depth k clk en ''maintenance'' t1 = (x, t2)" "same_io t2 s1"
    unfolding poll_def by (rule with_span_io)
  note f1 = same_io_fields [OF w(1)] same_io_life [OF w(1)] and f2 = same_io_fields [OF w(3)] same_io_life [OF w(3)]
  show thesis
    by (rule post_json_effect [OF w(2)], rule that)
      (use f1 f2 drv_sane_io_eq [OF w(1)] drv_sane_io_eq [OF w(3)] in \<open>auto simp: same_queues_def\<close>)
qed

subsection \<open>Collecting finished exchanges\<close>

definition unreaped :: "(future \<Rightarrow> unit res option) \<Rightarrow> future list \<Rightarrow> future \<Rightarrow> bool" where
  "unreaped finished fs f \<longleftrightarrow> f \<notin> set fs \<or> finished f = None"

lemma remove1_filter: "distinct xs \<Longrightarrow> remove1 x xs = filter (\<lambda>y. y \<noteq> x) xs"
  by (induction xs) (auto intro!: filter_True [symmetric])

lemma reap_loop_effect:
  assumes "reap_loop finished fs s = (x, s1)" "distinct (futures s)"
  shows "backlog s1 = backlog s \<and> batch_started s1 = batch_started s \<and> fetched s1 = fetched s \<and> handled s1 = handled s
    \<and> requests s1 = requests s \<and> (drv_sane s \<longrightarrow> drv_sane s1)
    \<and> (\<exists>P. futures s1 = filter P (futures s) \<and> (x = Inr () \<longrightarrow> (\<forall>f. P f = unreaped finished fs f)))
    \<and> (\<forall>e. x = Inl e \<longrightarrow> \<not> handler_exn e \<and> (\<exists>f \<in> set fs. finished f = Some (Inl e)))"
  using assms
proof (induction fs arbitrary: s)
  case Nil
  then show ?case by (auto simp: unreaped_def intro!: exI [of _ "\<lambda>_. True"])
next
  case (Cons f fs)
  let ?t = "s\<lparr>futures := remove1 f (futures s)\<rparr>"
  have step: ?case if run: "reap_loop finished fs t = (x, s1)" and r: "finished f = Some r"
    and t: "futures t = remove1 f (futures s)" "backlog t = backlog s" "batch_started t = batch_started s" "fetched t = fetched s"
      "handled t = handled s" "requests t = requests s" "drv_sane s \<longrightarrow> drv_sane t" for t r
  proof -
    have d: "distinct (futures t)" using Cons.prems(2) t(1) by simp
    obtain P where P: "futures s1 = filter P (futures t)" "x = Inr () \<longrightarrow> (\<forall>f. P f = unreaped finished fs f)"
      using Cons.IH [OF run d] by blast
    have "futures s1 = filter (\<lambda>y. y \<noteq> f \<and> P y) (futures s)"
      using P(1) t(1) remove1_filter [OF Cons.prems(2)] by (simp add: conj_commute)
    moreover have "x = Inr () \<longrightarrow> (\<forall>y. (y \<noteq> f \<and> P y) = unreaped finished (f # fs) y)"
      using P(2) r by (auto simp: unreaped_def)
    ultimately have A: "\<exists>P. futures s1 = filter P (futures s) \<and> (x = Inr () \<longrightarrow> (\<forall>y. P y = unreaped finished (f # fs) y))"
      by (intro exI [of _ "\<lambda>y. y \<noteq> f \<and> P y"]) simp
    show ?thesis using Cons.IH [OF run d] t(2-7) A by auto
  qed
  show ?case
  proof (cases "finished f")
    case None
    with Cons.prems have "reap_loop finished fs s = (x, s1)" by simp
    from Cons.IH [OF this Cons.prems(2)] None show ?thesis by (auto simp: unreaped_def)
  next
    case (Some r)
    show ?thesis
    proof (cases r)
      case (Inr u)
      with Some Cons.prems(1) have "reap_loop finished fs ?t = (x, s1)" by simp
      then show ?thesis by (rule step) (use Some Inr in \<open>simp_all add: drv_sane_def web_sane_def\<close>)
    next
      case (Inl e)
      show ?thesis
      proof (cases "handler_exn e")
        case True
        with Some Inl Cons.prems(1) have "reap_loop finished fs (warn ''secondary not confirmed'' ?t) = (x, s1)" by simp
        then show ?thesis by (rule step) (use Some Inl in \<open>simp_all add: drv_sane_def web_sane_def warn_def\<close>)
      next
        case False
        with Some Inl Cons.prems have r: "x = Inl e" "s1 = ?t" by simp_all
        then have "futures s1 = filter (\<lambda>y. y \<noteq> f) (futures s)" using remove1_filter [OF Cons.prems(2)] by simp
        with r Some Inl False show ?thesis by (auto simp: drv_sane_def web_sane_def)
      qed
    qed
  qed
qed

subsection \<open>The clock of a turn\<close>

lemma ticks_attributes [simp]: "ticks (log_call c s) = ticks s" "ticks (set_attribute sp key v s) = ticks s"
  "ticks (set_both a b key v s) = ticks s" "ticks (mark_committed a b tx s) = ticks s"
  by (auto simp: log_call_def set_attribute_def set_both_def mark_committed_def Let_def split: option.splits)

lemma forward_span [forward_intros]:
  fixes body :: "nat option \<Rightarrow> ('z tel_scheme, 'a) act"
  assumes "\<And>sp. forward (body sp)"
  shows "forward (with_span name attrs links kind body)"
  unfolding forward_def
proof (intro allI impI)
  fix s :: "'z tel_scheme" and r s' assume "with_span name attrs links kind body s = (r, s')"
  then show "ticks s \<le> ticks s'"
    by (rule with_span_io_ticks) (use assms forwardD in fastforce)
qed

lemma forward_read [forward_intros]: "forward (read_bounded clk maximum deadline)"
  unfolding forward_def read_bounded_def by (intro allI impI, erule telemetry_reader.loop_forward [rotated]) simp

lemma forward_wait [forward_intros]: "forward (commit_wait depth clk a rq binary framed deadline sp wait)"
  unfolding commit_wait_def
  by (intro forward_intros) (auto simp: forward_def Let_def split: sum.splits)

lemma forward_post [forward_intros]: "forward (enclave_post depth k clk en path body ct binary framed)"
proof -
  have lift: "forward (\<lambda>s. m (clk (ticks s)) (s\<lparr>ticks := Suc (ticks s)\<rparr>))"
    if "\<And>t. forward (m t)" for m :: "real \<Rightarrow> ('z tel_scheme, 'b) act"
    using that unfolding forward_def by fastforce
  have inner: "forward (\<lambda>s2. with_span name attrs links kind (body s2) s2)"
    if "\<And>s2 sp. forward (body s2 sp)" for name attrs links kind and body :: "'z tel_scheme \<Rightarrow> nat option \<Rightarrow> ('z tel_scheme, 'b) act"
    using forward_span [of "body s2" for s2] that unfolding forward_def by blast
  show ?thesis
    unfolding enclave_post_def now_def Let_def prod.case
    by (intro forward_intros lift inner)
qed

lemma poll_forward: "poll depth k clk en s = (x, s1) \<Longrightarrow> ticks s \<le> ticks s1"
  unfolding poll_def post_json_def by (erule forwardD [rotated]) (intro forward_intros)

lemma reap_ticks: "reap_loop finished fs s = (x, s1) \<Longrightarrow> ticks s1 = ticks s"
  by (induction fs arbitrary: s) (fastforce simp: warn_def Let_def split: option.splits sum.splits if_splits)+

subsection \<open>Discarding, fetching and dispatching\<close>

lemma check_items_Inr:
  assumes "check_items items ids = Inr works"
  shows "length works = length items \<and> items = map JDict works \<and> list_all (\<lambda>w. validate_work (JDict w) = Inr w) works
    \<and> distinct (map (\<lambda>w. map_of w ''id'') works) \<and> list_all (\<lambda>w. \<exists>i. map_of w ''id'' = Some i \<and> i \<notin> set ids) works"
  using assms
proof (induction items arbitrary: ids works)
  case Nil
  then show ?case by simp
next
  case (Cons item items)
  from Cons.prems obtain work work_id rest where w: "validate_work item = Inr work" "map_of work ''id'' = Some work_id"
    "work_id \<notin> set ids" "check_items items (work_id # ids) = Inr rest" "works = work # rest"
    by (auto simp: bindr_eq_Inr split: if_splits)
  have "item = JDict work" using w(1) by (rule validate_work_Inr)
  with Cons.IH [OF w(4)] w show ?case by (force simp: list_all_iff)
qed

lemma valid_item_id:
  assumes "validate_work (JDict w) = Inr w"
  shows "map_of w ''id'' = Some (JStr (item_id w))"
  using assms by (rule validate_work_Inr) (simp add: item_id_def)

lemma check_items_ids: "check_items items ids = Inr works \<Longrightarrow> distinct (map item_id works)"
proof -
  assume "check_items items ids = Inr works"
  then have w: "list_all (\<lambda>w. validate_work (JDict w) = Inr w) works" "distinct (map (\<lambda>w. map_of w ''id'') works)"
    using check_items_Inr by blast+
  have "map (\<lambda>w. map_of w ''id'') works = map (Some \<circ> JStr) (map item_id works)"
    using w(1) valid_item_id by (auto simp: list_all_iff)
  with w(2) show ?thesis by (simp only: distinct_map)
qed

lemma work_list_Inr:
  assumes "work_list result = Inr works"
  shows "length works \<le> MAX_SECONDARY_WORK" "list_all (\<lambda>w. validate_work (JDict w) = Inr w) works"
    "distinct (map item_id works)"
proof -
  have "check_items [] [] = Inr works \<or> (\<exists>items. check_items items [] = Inr works \<and> length items \<le> MAX_SECONDARY_WORK)"
    using assms by (auto simp: work_list_def split: json.splits option.splits if_splits)
  then obtain items where "check_items items [] = Inr works" "length items \<le> MAX_SECONDARY_WORK"
    by (metis le0 list.size(3))
  with check_items_Inr check_items_ids show "length works \<le> MAX_SECONDARY_WORK"
    "list_all (\<lambda>w. validate_work (JDict w) = Inr w) works" "distinct (map item_id works)" by fastforce+
qed

lemma check_items_error: "check_items items ids = Inl e \<Longrightarrow> is_ValueError e"
proof (induction items arbitrary: ids)
  case Nil
  then show ?case by simp
next
  case (Cons item items)
  show ?case
  proof (cases "validate_work item")
    case (Inl x)
    with Cons.prems validate_work_error show ?thesis by simp
  next
    case (Inr work)
    then obtain i where "map_of work ''id'' = Some (JStr i)" by (rule validate_work_Inr)
    with Inr Cons show ?thesis by (auto simp: bindr_eq_Inl dict_index_def split: if_splits)
  qed
qed

lemma work_list_error: "work_list result = Inl e \<Longrightarrow> is_ValueError e"
  using check_items_error by (auto simp: work_list_def split: json.splits option.splits if_splits)

lemma enqueue_fold:
  fixes s :: "'z life_scheme"
  assumes "s' = fold (enqueue k clk p) works s"
  shows "backlog s' = backlog s @ map (\<lambda>w. (w, batch_started s)) works
    \<and> fetched s' = fetched s @ map (\<lambda>w. (w, batch_started s)) works \<and> futures s' = futures s \<and> handled s' = handled s
    \<and> batch_started s' = batch_started s \<and> requests s' = requests s \<and> (drv_sane s \<longrightarrow> drv_sane s')"
  using assms
proof (induction works arbitrary: s)
  case Nil
  then show ?case by simp
next
  case (Cons w works)
  let ?t = "tracer_put clk (Work (item_id w)) (context_of k p) s"
  have io: "same_io s ?t" by simp
  note f = same_io_fields [OF io] same_io_life [OF io]
  have "drv_sane s \<longrightarrow> drv_sane (enqueue k clk p w s)"
    using drv_sane_io_eq [OF io] by (simp add: enqueue_def Let_def drv_sane_def web_sane_def)
  moreover have "backlog (enqueue k clk p w s) = backlog s @ [(w, batch_started s)]"
    "fetched (enqueue k clk p w s) = fetched s @ [(w, batch_started s)]" "futures (enqueue k clk p w s) = futures s"
    "handled (enqueue k clk p w s) = handled s" "batch_started (enqueue k clk p w s) = batch_started s"
    "requests (enqueue k clk p w s) = requests s"
    using f by (simp_all add: enqueue_def Let_def)
  ultimately show ?case using Cons.IH [of "enqueue k clk p w s"] Cons.prems by simp
qed

lemma fetch_body_effect:
  fixes s :: "'z life_scheme"
  assumes run: "fetch_body depth k clk en p s = (x, s1)" and inv: "life_inv s" and idle: "backlog s = []" "futures s = []"
  obtains rqs where "life_inv s1" "requests s1 = requests s @ rqs" "futures s1 = []" "handled s1 = handled s"
    "\<forall>x \<in> set (backlog s1). \<exists>n \<ge> ticks s. snd x = clk n"
    "rqs = [] \<or> (\<exists>parent. rqs = [post_request en ''secondary/requests'' (body_bytes (JsonBody (JDict []))) ''application/json'' parent])"
    "\<And>e. x = Inl e \<Longrightarrow> drv_sane s \<Longrightarrow> handler_exn e" "drv_sane s \<Longrightarrow> drv_sane s1"
proof -
  obtain y s2 where y: "post_json depth k clk en ''secondary/requests'' s = (y, s2)" by fastforce
  obtain rqs where q: "requests s2 = requests s @ rqs"
    "rqs = [] \<and> (\<exists>e. y = Inl e) \<or> (\<exists>parent. rqs = [post_request en ''secondary/requests'' (body_bytes (JsonBody (JDict []))) ''application/json'' parent])"
    "\<And>result. y = Inr result \<Longrightarrow> \<exists>d. result = JsonValue (JDict d)"
    "\<And>e. y = Inl e \<Longrightarrow> drv_sane s \<Longrightarrow> handler_exn e" "drv_sane s \<Longrightarrow> drv_sane s2"
    "backlog s2 = backlog s" "futures s2 = futures s" "batch_started s2 = batch_started s"
    "fetched s2 = fetched s" "handled s2 = handled s"
    by (rule post_json_effect [OF y]) blast
  have inv2: "life_inv s2" using inv q(6-10) by (simp add: life_inv_def outstanding_def)
  have rqs: "rqs = [] \<or> (\<exists>parent. rqs = [post_request en ''secondary/requests'' (body_bytes (JsonBody (JDict []))) ''application/json'' parent])"
    using q(2) by blast
  show thesis
  proof (cases y)
    case (Inl e)
    with run y have "x = Inl e" "s1 = s2" by (simp_all add: fetch_body_def bind_act_def)
    with Inl q inv2 rqs idle show thesis by (intro that [of rqs]) simp_all
  next
    case (Inr r)
    with q(3) obtain d where r: "r = JsonValue (JDict d)" by blast
    show thesis
    proof (cases "work_list (JDict d)")
      case (Inl e)
      with run y Inr r have "x = Inl e" "s1 = s2"
        by (simp_all add: fetch_body_def bind_act_def lift_res_def json_of_def)
      with work_list_error [OF Inl] q inv2 rqs idle show thesis
        by (intro that [of rqs]) (simp_all add: handler_exn_def)
    next
      case works: (Inr works)
      let ?t = "snd (now clk s2)\<lparr>batch_started := clk (ticks s2)\<rparr>"
      from run y Inr r works have x: "x = Inr ()" "s1 = fold (enqueue k clk p) works ?t"
        by (simp_all add: fetch_body_def bind_act_def lift_res_def json_of_def now_def Let_def)
      note e = enqueue_fold [OF x(2)] and w = work_list_Inr [OF works]
      have t: "backlog ?t = []" "futures ?t = []" "fetched ?t = fetched s" "handled ?t = handled s"
        "requests ?t = requests s @ rqs"
        using q(1,6,7,9,10) idle by (simp_all add: now_def)
      have "drv_sane ?t = drv_sane s2" by (simp add: now_def drv_sane_def web_sane_def)
      with q(5) e have sane: "drv_sane s \<longrightarrow> drv_sane s1" by blast
      have "life_inv s1"
        using e t w inv idle by (auto simp: life_inv_def outstanding_def comp_def list_all_iff)
      moreover have "ticks s \<le> ticks s2" using y unfolding post_json_def by (rule forwardD [OF forward_post])
      then have "\<forall>x \<in> set (backlog s1). \<exists>n \<ge> ticks s. snd x = clk n" using e t(1) by auto
      ultimately show thesis using e t x rqs sane by (intro that [of rqs]) simp_all
    qed
  qed
qed

lemma dispatch_loop_effect:
  fixes s :: "'z life_scheme"
  assumes "s' = dispatch_loop q s"
  shows "\<exists>d. q = d @ backlog s' \<and> futures s' = futures s @ map (\<lambda>x. \<lparr>fut_item = fst x, fut_queued = snd x\<rparr>) d
    \<and> handled s' = handled s @ map (\<lambda>x. (x, True)) d \<and> fetched s' = fetched s \<and> batch_started s' = batch_started s
    \<and> requests s' = requests s \<and> (drv_sane s \<longrightarrow> drv_sane s')
    \<and> (length (futures s) \<le> MAX_OUTSTANDING_EXCHANGES \<longrightarrow> length (futures s') \<le> MAX_OUTSTANDING_EXCHANGES)
    \<and> (backlog s' = [] \<or> MAX_OUTSTANDING_EXCHANGES \<le> length (futures s'))"
  using assms
proof (induction q arbitrary: s)
  case Nil
  then show ?case by (intro exI [of _ "[]"]) (simp add: drv_sane_def web_sane_def)
next
  case (Cons x q)
  show ?case
  proof (cases "length (futures s) < MAX_OUTSTANDING_EXCHANGES")
    case True
    let ?t = "s\<lparr>futures := futures s @ [\<lparr>fut_item = fst x, fut_queued = snd x\<rparr>], handled := handled s @ [(x, True)]\<rparr>"
    have "s' = dispatch_loop q ?t" using Cons.prems True by simp
    from Cons.IH [OF this] obtain d where d: "q = d @ backlog s'"
      "futures s' = futures ?t @ map (\<lambda>x. \<lparr>fut_item = fst x, fut_queued = snd x\<rparr>) d"
      "handled s' = handled ?t @ map (\<lambda>x. (x, True)) d" "fetched s' = fetched ?t" "batch_started s' = batch_started ?t"
      "requests s' = requests ?t" "drv_sane ?t \<longrightarrow> drv_sane s'"
      "length (futures ?t) \<le> MAX_OUTSTANDING_EXCHANGES \<longrightarrow> length (futures s') \<le> MAX_OUTSTANDING_EXCHANGES"
      "backlog s' = [] \<or> MAX_OUTSTANDING_EXCHANGES \<le> length (futures s')" by blast
    have "drv_sane s \<longrightarrow> drv_sane ?t" by (simp add: drv_sane_def web_sane_def)
    with d True show ?thesis by (intro exI [of _ "x # d"]) simp
  next
    case False
    with Cons.prems show ?thesis by (intro exI [of _ "[]"]) (simp add: drv_sane_def web_sane_def)
  qed
qed

subsection \<open>A whole turn\<close>

text \<open>What a turn does to the queues: the invariant is kept, some outstanding items were dispatched in
  order or discarded, and the exceptions that escape are those that an exchange raised.\<close>

definition turn_posts :: "enclave \<Rightarrow> http_request list \<Rightarrow> bool" where
  "turn_posts en rqs \<longleftrightarrow> (\<exists>m w. rqs = m @ w
     \<and> (m = [] \<and> w = [] \<or> (\<exists>p. m = [post_request en ''maintenance'' (body_bytes (JsonBody (JDict []))) ''application/json'' p]))
     \<and> (w = [] \<or> (\<exists>p. w = [post_request en ''secondary/requests'' (body_bytes (JsonBody (JDict []))) ''application/json'' p])))"

definition turn_effect ::
    "clock \<Rightarrow> enclave \<Rightarrow> (future \<Rightarrow> unit res option) \<Rightarrow> 'z life_scheme \<Rightarrow> exn option \<Rightarrow> 'z life_scheme \<Rightarrow> bool" where
  "turn_effect clk en finished s err s' \<longleftrightarrow>
     life_inv s' \<and> (\<exists>rqs. requests s' = requests s @ rqs \<and> turn_posts en rqs \<and> (err = None \<longrightarrow> rqs \<noteq> []))
     \<and> (drv_sane s \<longrightarrow> drv_sane s') \<and> (err = None \<longrightarrow> backlog s' = [] \<or> length (futures s') = MAX_OUTSTANDING_EXCHANGES)
     \<and> (\<forall>e. err = Some e \<longrightarrow> drv_sane s \<longrightarrow> handler_exn e \<or> (\<exists>f \<in> set (futures s). finished f = Some (Inl e)))
     \<and> (\<exists>left. handled s' = handled s @ left
          \<and> (mono clk \<longrightarrow> (\<forall>x. (x, True) \<in> set left \<longrightarrow> clk (ticks s) - snd x < STALE_SECONDS)))"

lemma discard_effect:
  fixes s :: "'z life_scheme"
  assumes "discard_stale clk s = (x, s1)" "life_inv s"
  shows "x = Inr () \<and> life_inv s1 \<and> requests s1 = requests s \<and> futures s1 = futures s \<and> ticks s \<le> ticks s1
    \<and> (drv_sane s \<longrightarrow> drv_sane s1) \<and> (\<exists>d. handled s1 = handled s @ map (\<lambda>x. (x, False)) d)
    \<and> (\<forall>x \<in> set (backlog s1). clk (ticks s) - snd x < STALE_SECONDS)"
proof (cases "backlog s = []")
  case True
  with assms have "x = Inr ()" "s1 = s" by (simp_all add: discard_stale_def)
  with True assms(2) show ?thesis by (auto intro: exI [of _ "[]"])
next
  case False
  show ?thesis
  proof (cases "clk (ticks s) - batch_started s \<ge> STALE_SECONDS")
    case True
    with False assms(1) have x: "x = Inr ()" and s1: "s1 = warn ''discarded undispatched secondary work''
        (snd (now clk s)\<lparr>handled := handled s @ map (\<lambda>x. (x, False)) (backlog s), backlog := []\<rparr>)"
      by (simp_all add: discard_stale_def now_def)
    have "life_inv s1" using assms(2) by (auto simp: s1 life_inv_def outstanding_def warn_def now_def comp_def)
    then show ?thesis by (auto simp: x s1 warn_def now_def drv_sane_def web_sane_def)
  next
    case fresh: False
    with False assms(1) have x: "x = Inr ()" and s1: "s1 = snd (now clk s)" by (simp_all add: discard_stale_def now_def)
    have "life_inv s1" using assms(2) by (simp add: s1 life_inv_def outstanding_def now_def)
    moreover have "\<forall>x \<in> set (backlog s). snd x = batch_started s" using assms(2) by (simp add: life_inv_def list_all_iff)
    ultimately show ?thesis using fresh x by (auto simp: s1 now_def drv_sane_def web_sane_def intro: exI [of _ "[]"])
  qed
qed

lemma fetch_effect:
  fixes s :: "'z life_scheme"
  assumes run: "fetch_work depth k clk en s = (x, s1)" and inv: "life_inv s"
  obtains rqs where "life_inv s1" "requests s1 = requests s @ rqs" "handled s1 = handled s"
    "\<forall>x \<in> set (backlog s1). x \<in> set (backlog s) \<or> (\<exists>n \<ge> ticks s. snd x = clk n)"
    "rqs = [] \<or> (\<exists>parent. rqs = [post_request en ''secondary/requests'' (body_bytes (JsonBody (JDict []))) ''application/json'' parent])"
    "\<And>e. x = Inl e \<Longrightarrow> drv_sane s \<Longrightarrow> handler_exn e" "drv_sane s \<Longrightarrow> drv_sane s1"
proof (cases "backlog s = [] \<and> futures s = []")
  case False
  with run have "x = Inr ()" "s1 = s" by (auto simp: fetch_work_def)
  with inv show thesis by (intro that [of "[]"]) auto
next
  case True
  with run have "with_span ''driver.secondary.requests'' [] [] ''PRODUCER'' (fetch_body depth k clk en) s = (x, s1)"
    by (simp add: fetch_work_def)
  then obtain sp t1 t2 where w: "same_io s t1" "fetch_body depth k clk en sp t1 = (x, t2)" "same_io t2 s1" "ticks t1 = ticks s"
    by (rule with_span_io_ticks)
  note f1 = same_io_fields [OF w(1)] same_io_life [OF w(1)] and f2 = same_io_fields [OF w(3)] same_io_life [OF w(3)]
  have inv1: "life_inv t1" using inv life_inv_queues [OF same_queues_io [OF w(1)]] by simp
  obtain rqs where q: "life_inv t2" "requests t2 = requests t1 @ rqs" "futures t2 = []" "handled t2 = handled t1"
    "\<forall>x \<in> set (backlog t2). \<exists>n \<ge> ticks t1. snd x = clk n"
    "rqs = [] \<or> (\<exists>parent. rqs = [post_request en ''secondary/requests'' (body_bytes (JsonBody (JDict []))) ''application/json'' parent])"
    "\<And>e. x = Inl e \<Longrightarrow> drv_sane t1 \<Longrightarrow> handler_exn e" "drv_sane t1 \<Longrightarrow> drv_sane t2"
    using True f1 by (elim fetch_body_effect [OF w(2) inv1, rotated -1]) simp_all
  have "life_inv s1" using q(1) life_inv_queues [OF same_queues_io [OF w(3)]] by simp
  moreover have "\<forall>x \<in> set (backlog s1). \<exists>n \<ge> ticks s. snd x = clk n" using q(5) f2 w(4) by simp
  moreover have "drv_sane s1" if "drv_sane s" using that q(8) drv_sane_io [OF w(1)] drv_sane_io [OF w(3)] by blast
  moreover have "handler_exn e" if "x = Inl e" "drv_sane s" for e using that q(7) drv_sane_io [OF w(1)] by blast
  ultimately show thesis using q f1 f2 by (intro that [of rqs]) simp_all
qed

lemma life_inv_distinct: "life_inv s \<Longrightarrow> distinct (futures s)"
  by (auto simp: life_inv_def outstanding_def distinct_map)

lemma life_inv_reaped:
  assumes "life_inv s" "futures s1 = filter P (futures s)" "backlog s1 = backlog s" "batch_started s1 = batch_started s"
    "fetched s1 = fetched s" "handled s1 = handled s"
  shows "life_inv s1"
proof -
  let ?q = "map fst (backlog s)" and ?fs = "filter P (futures s)"
  note i = assms(1) [unfolded life_inv_def outstanding_def]
  have len: "length ?fs \<le> length (futures s)" by simp
  have out: "outstanding s1 = map fut_item ?fs @ ?q" using assms by (simp add: outstanding_def)
  have sub: "set (map fut_item ?fs) \<subseteq> set (map fut_item (futures s))" by auto
  have "distinct (map (item_id \<circ> fut_item) ?fs)" using i by (simp add: distinct_map_filter)
  then have "distinct (map item_id (outstanding s1))" using i sub unfolding out by auto
  moreover have "list_all (\<lambda>w. validate_work (JDict w) = Inr w) (outstanding s1)"
    using i sub unfolding out list_all_append by (auto simp: list_all_iff)
  moreover have "length (outstanding s1) \<le> MAX_SECONDARY_WORK"
  proof -
    have "length (futures s) + length (backlog s) \<le> MAX_SECONDARY_WORK" using i by simp
    with len show ?thesis unfolding out length_append length_map by linarith
  qed
  moreover have "length (futures s1) \<le> MAX_OUTSTANDING_EXCHANGES" using i len assms(2) by (metis le_trans)
  ultimately show ?thesis using i assms(3-) unfolding life_inv_def by simp
qed

lemma life_inv_dispatched:
  assumes "life_inv s" "s' = dispatch_loop (backlog s) s"
  shows "life_inv s'"
proof -
  from dispatch_loop_effect [OF assms(2)] obtain d where d: "backlog s = d @ backlog s'"
    "futures s' = futures s @ map (\<lambda>x. \<lparr>fut_item = fst x, fut_queued = snd x\<rparr>) d"
    "handled s' = handled s @ map (\<lambda>x. (x, True)) d" "fetched s' = fetched s" "batch_started s' = batch_started s"
    "length (futures s) \<le> MAX_OUTSTANDING_EXCHANGES \<longrightarrow> length (futures s') \<le> MAX_OUTSTANDING_EXCHANGES" by blast
  have "outstanding s' = outstanding s" using d(1,2) by (simp add: outstanding_def comp_def)
  moreover have "fetched s' = map fst (handled s') @ backlog s'" using assms(1) d by (simp add: life_inv_def comp_def)
  ultimately show ?thesis using assms(1) d by (simp add: life_inv_def)
qed

lemma lifecycle_body_effect:
  fixes s :: "'z life_scheme"
  assumes run: "lifecycle_body depth k clk en finished s = (r, s')" and inv: "life_inv s"
  shows "turn_effect clk en finished s (case r of Inl e \<Rightarrow> Some e | Inr _ \<Rightarrow> None) s'"
proof -
  obtain x s1 where x: "poll depth k clk en s = (x, s1)" by fastforce
  obtain m where m: "requests s1 = requests s @ m" "same_queues s s1"
    "m = [] \<and> (\<exists>e. x = Inl e) \<or> (\<exists>p. m = [post_request en ''maintenance'' (body_bytes (JsonBody (JDict []))) ''application/json'' p])"
    "\<And>e. x = Inl e \<Longrightarrow> drv_sane s \<Longrightarrow> handler_exn e" "drv_sane s \<Longrightarrow> drv_sane s1"
    by (rule poll_effect [OF x]) blast
  have inv1: "life_inv s1" using inv life_inv_queues [OF m(2)] by simp
  have h1: "handled s1 = handled s" "futures s1 = futures s" using m(2) by (simp_all add: same_queues_def)
  have t1: "ticks s \<le> ticks s1" using x by (rule poll_forward)
  show ?thesis
  proof (cases x)
    case (Inl e)
    with run x have r: "r = Inl e" "s' = s1" by (simp_all add: lifecycle_body_def bind_act_def)
    have "turn_posts en m" using m(3) unfolding turn_posts_def by (intro exI [of _ m] exI [of _ "[]"]) auto
    with r inv1 m(1,5) h1 m(4) [OF Inl] show ?thesis
      unfolding turn_effect_def by (auto intro!: exI [of _ "[]"])
  next
    case (Inr u)
    then obtain p where p: "m = [post_request en ''maintenance'' (body_bytes (JsonBody (JDict []))) ''application/json'' p]"
      using m(3) by blast
    have posts: "turn_posts en (m @ w)"
      if "w = [] \<or> (\<exists>p. w = [post_request en ''secondary/requests'' (body_bytes (JsonBody (JDict []))) ''application/json'' p])" for w
      using p that unfolding turn_posts_def by blast
    obtain y s2 where y: "reap_loop finished (futures s1) s1 = (y, s2)" by fastforce
    note e2 = reap_loop_effect [OF y life_inv_distinct [OF inv1]]
    then obtain P where "futures s2 = filter P (futures s1)" by blast
    with e2 inv1 have inv2: "life_inv s2" by (blast intro: life_inv_reaped)
    have t2: "ticks s2 = ticks s1" using y by (rule reap_ticks)
    show ?thesis
    proof (cases y)
      case (Inl e)
      with run x Inr y have r: "r = Inl e" "s' = s2" by (simp_all add: lifecycle_body_def bind_act_def)
      with inv2 e2 m(1,5) h1 posts [of "[]"] Inl p show ?thesis
        unfolding turn_effect_def by (auto intro!: exI [of _ "[]"])
    next
      case (Inr v)
      obtain z s3 where z: "discard_stale clk s2 = (z, s3)" by fastforce
      note e3 = discard_effect [OF z inv2]
      then obtain d where d: "handled s3 = handled s2 @ map (\<lambda>x. (x, False)) d" by blast
      obtain a s4 where a: "fetch_work depth k clk en s3 = (a, s4)" by fastforce
      have inv3: "life_inv s3" using e3 by blast
      obtain w where w: "life_inv s4" "requests s4 = requests s3 @ w" "handled s4 = handled s3"
        "\<forall>x \<in> set (backlog s4). x \<in> set (backlog s3) \<or> (\<exists>n \<ge> ticks s3. snd x = clk n)"
        "w = [] \<or> (\<exists>p. w = [post_request en ''secondary/requests'' (body_bytes (JsonBody (JDict []))) ''application/json'' p])"
        "\<And>e. a = Inl e \<Longrightarrow> drv_sane s3 \<Longrightarrow> handler_exn e" "drv_sane s3 \<Longrightarrow> drv_sane s4"
        by (rule fetch_effect [OF a inv3]) blast
      have reqs: "requests s4 = requests s @ m @ w" using w(2) e3 e2 m(1) by simp
      have sane: "drv_sane s \<Longrightarrow> drv_sane s4" "drv_sane s \<Longrightarrow> drv_sane s3" using m(5) e2 e3 w(7) by blast+
      have hand: "handled s4 = handled s @ map (\<lambda>x. (x, False)) d" using w(3) d e2 h1 by simp
      have fresh: "clk (ticks s) - snd b < STALE_SECONDS" if mono: "mono clk" and b: "b \<in> set (backlog s4)" for b
      proof -
        have le: "clk (ticks s) \<le> clk n" if "ticks s2 \<le> n" for n using mono t1 t2 that by (simp add: monoD)
        from w(4) b consider "b \<in> set (backlog s3)" | n where "ticks s3 \<le> n" "snd b = clk n" by blast
        then show ?thesis
        proof cases
          case 1
          with e3 le [of "ticks s2"] show ?thesis by fastforce
        next
          case (2 n)
          with e3 have "ticks s2 \<le> n" by simp
          with le [of n] 2 show ?thesis by (simp add: STALE_SECONDS_def)
        qed
      qed
      show ?thesis
      proof (cases a)
        case (Inl e)
        with run x \<open>x = Inr u\<close> y \<open>y = Inr v\<close> z e3 a have r: "r = Inl e" "s' = s4"
          by (simp_all add: lifecycle_body_def bind_act_def)
        with w(1) reqs posts [OF w(5)] p sane hand w(6) [OF Inl] show ?thesis
          unfolding turn_effect_def by auto
      next
        case (Inr b)
        with run x \<open>x = Inr u\<close> y \<open>y = Inr v\<close> z e3 a have r: "r = Inr ()" "s' = dispatch_loop (backlog s4) s4"
          by (simp_all add: lifecycle_body_def bind_act_def dispatch_def)
        from dispatch_loop_effect [OF r(2)] obtain g where g: "backlog s4 = g @ backlog s'"
          "handled s' = handled s4 @ map (\<lambda>x. (x, True)) g" "requests s' = requests s4" "drv_sane s4 \<longrightarrow> drv_sane s'"
          "backlog s' = [] \<or> MAX_OUTSTANDING_EXCHANGES \<le> length (futures s')" by blast
        have inv': "life_inv s'" using w(1) r(2) by (rule life_inv_dispatched)
        then have full: "backlog s' = [] \<or> length (futures s') = MAX_OUTSTANDING_EXCHANGES"
          using g(5) by (auto simp: life_inv_def)
        have "handled s' = handled s @ (map (\<lambda>x. (x, False)) d @ map (\<lambda>x. (x, True)) g)" using g(2) hand by simp
        moreover have "mono clk \<longrightarrow> (\<forall>x. (x, True) \<in> set (map (\<lambda>x. (x, False)) d @ map (\<lambda>x. (x, True)) g)
            \<longrightarrow> clk (ticks s) - snd x < STALE_SECONDS)"
        proof (intro impI allI)
          fix x assume "mono clk" "(x, True) \<in> set (map (\<lambda>x. (x, False)) d @ map (\<lambda>x. (x, True)) g)"
          moreover from this have "x \<in> set (backlog s4)" using g(1) by auto
          ultimately show "clk (ticks s) - snd x < STALE_SECONDS" using fresh by blast
        qed
        ultimately show ?thesis
          unfolding turn_effect_def using r inv' full reqs posts [OF w(5)] p sane g(3,4) by auto
      qed
    qed
  qed
qed

lemma lifecycle_body_forward:
  fixes s :: "'z life_scheme"
  assumes "lifecycle_body depth k clk en finished s = (r, s')"
  shows "ticks s \<le> ticks s'"
proof -
  have reap: "forward (\<lambda>s :: 'z life_scheme. reap_loop finished (futures s) s)" unfolding forward_def using reap_ticks by (metis order_refl)
  have discard: "forward (discard_stale clk :: ('z life_scheme, unit) act)" by (auto simp: forward_def discard_stale_def now_def warn_def Let_def)
  have enq: "ticks s \<le> ticks (fold (enqueue k clk p) works s)" for p works and s :: "'z life_scheme"
  proof (induction works arbitrary: s)
    case (Cons w works)
    have "ticks s \<le> ticks (enqueue k clk p w s)"
      by (auto simp: enqueue_def tracer_put_def now_def Let_def split: option.splits)
    with Cons.IH [of "enqueue k clk p w s"] show ?case by simp
  qed simp
  have "forward (fetch_body depth k clk en p :: ('z life_scheme, unit) act)" for p
    unfolding fetch_body_def post_json_def
    by (intro forward_intros) (auto simp: forward_def now_def Let_def intro: Suc_leD [OF order_trans [OF _ enq]])
  then have fetch: "forward (fetch_work depth k clk en :: ('z life_scheme, unit) act)"
    using forward_span unfolding forward_def fetch_work_def by (smt (verit) order_refl prod.inject)
  have "ticks (dispatch_loop q s) = ticks s" for q and s :: "'z life_scheme"
    by (induction q arbitrary: s) simp_all
  then have disp: "forward (dispatch :: ('z life_scheme, unit) act)" by (auto simp: forward_def dispatch_def)
  have pol: "forward (poll depth k clk en :: ('z life_scheme, post_result) act)" unfolding forward_def using poll_forward by blast
  show ?thesis using assms unfolding lifecycle_body_def
    by (rule forwardD [rotated]) (intro forward_intros pol reap discard fetch disp)
qed

lemma lifecycle_turn_effect:
  fixes s :: "'z life_scheme"
  assumes run: "lifecycle_turn depth k clk en interval finished s = (r, s')" and inv: "life_inv s"
  obtains err where "turn_effect clk en finished s err s'"
    "case r of Inl e \<Rightarrow> err = Some e \<and> \<not> handler_exn e | Inr _ \<Rightarrow> err = None \<or> (\<exists>e. err = Some e \<and> handler_exn e)"
    "ticks s \<le> ticks s'"
proof -
  let ?s1 = "snd (now clk s)"
  obtain x s2 where x: "lifecycle_body depth k clk en finished ?s1 = (x, s2)" by fastforce
  let ?err = "case x of Inl e \<Rightarrow> Some e | Inr _ \<Rightarrow> None"
  have inv1: "life_inv ?s1" using inv by (simp add: now_def life_inv_def outstanding_def)
  note e = lifecycle_body_effect [OF x inv1]
  have s1: "requests ?s1 = requests s" "drv_sane ?s1 = drv_sane s" "futures ?s1 = futures s" "handled ?s1 = handled s"
    "ticks ?s1 = Suc (ticks s)" by (simp_all add: now_def drv_sane_def web_sane_def)
  have later: "clk (ticks s) - q < STALE_SECONDS" if "mono clk" "clk (Suc (ticks s)) - q < STALE_SECONDS" for q
    using monoD [OF that(1), of "ticks s" "Suc (ticks s)"] that(2) by linarith
  have e2: "turn_effect clk en finished s ?err s2"
  proof -
    from e obtain left where "handled s2 = handled s @ left"
      "mono clk \<longrightarrow> (\<forall>x. (x, True) \<in> set left \<longrightarrow> clk (Suc (ticks s)) - snd x < STALE_SECONDS)"
      unfolding turn_effect_def s1 by blast
    with later have "\<exists>left. handled s2 = handled s @ left
        \<and> (mono clk \<longrightarrow> (\<forall>x. (x, True) \<in> set left \<longrightarrow> clk (ticks s) - snd x < STALE_SECONDS))" by blast
    with e show ?thesis unfolding turn_effect_def s1 by (elim conjE) (intro conjI; assumption)
  qed
  have keep: "turn_effect clk en finished s ?err t"
    if "requests t = requests s2" "drv_sane t = drv_sane s2" "same_queues s2 t" for t
    using e2 that life_inv_queues [OF that(3)] unfolding turn_effect_def same_queues_def by simp
  have fwd: "ticks ?s1 \<le> ticks s2" using x by (rule lifecycle_body_forward)
  show thesis
  proof (cases "\<exists>e. x = Inl e \<and> \<not> handler_exn e")
    case True
    then obtain e where "x = Inl e" "\<not> handler_exn e" by blast
    moreover from this run x have "r = Inl e" "s' = s2"
      by (simp_all add: lifecycle_turn_def now_def bind_act_def catch_act_def)
    ultimately show thesis using e2 fwd s1 by (intro that [of ?err]) simp_all
  next
    case False
    have "\<exists>t n. r = Inr t \<and> (s' = s2\<lparr>ticks := Suc (ticks s2)\<rparr> \<or> s' = s2\<lparr>failures := n, ticks := Suc (ticks s2)\<rparr>)"
      using False run x by (cases x) (auto simp: lifecycle_turn_def now_def bind_act_def catch_act_def Let_def)
    moreover from this have "turn_effect clk en finished s ?err s'" "ticks s' = Suc (ticks s2)"
      using keep [of s'] by (auto simp: same_queues_def drv_sane_def web_sane_def)
    ultimately show thesis using False fwd s1 by (intro that [of ?err]) (auto split: sum.splits)
  qed
qed

subsection \<open>The whole loop\<close>

lemma new_life_inv [inv_intros]: "life_inv (new_life d)"
  by (simp add: new_life_def life_inv_def outstanding_def drv.defs life.defs)

lemma lifecycle_loop_inv:
  "lifecycle_loop depth k clk en interval turns s = (r, s') \<Longrightarrow> life_inv s \<Longrightarrow> life_inv s'"
proof (induction turns arbitrary: s)
  case Nil
  then show ?case by simp
next
  case (Cons finished turns)
  obtain x s1 where x: "lifecycle_turn depth k clk en interval finished s = (x, s1)" by fastforce
  obtain err where "turn_effect clk en finished s err s1" by (rule lifecycle_turn_effect [OF x Cons.prems(2)])
  then have "life_inv s1" by (simp add: turn_effect_def)
  with Cons x show ?case by (cases x) (auto simp: bind_act_def)
qed

lemma lifecycle_loop_survives:
  "lifecycle_loop depth k clk en interval turns s = (r, s') \<Longrightarrow> life_inv s \<Longrightarrow> drv_sane s \<Longrightarrow>
   \<forall>finished \<in> set turns. \<forall>f e. finished f = Some (Inl e) \<longrightarrow> handler_exn e \<Longrightarrow> r = Inr ()"
proof (induction turns arbitrary: s)
  case Nil
  then show ?case by simp
next
  case (Cons finished turns)
  obtain x s1 where x: "lifecycle_turn depth k clk en interval finished s = (x, s1)" by fastforce
  obtain err where e: "turn_effect clk en finished s err s1"
    "case x of Inl e \<Rightarrow> err = Some e \<and> \<not> handler_exn e | Inr _ \<Rightarrow> err = None \<or> (\<exists>e. err = Some e \<and> handler_exn e)"
    by (rule lifecycle_turn_effect [OF x Cons.prems(2)]) blast
  have ok: "handler_exn e" if "err = Some e" for e
    using e(1) that Cons.prems(3,4) unfolding turn_effect_def by auto
  then obtain t where t: "x = Inr t" using e(2) by (cases x) auto
  have "life_inv s1" "drv_sane s1" using e(1) Cons.prems(3) by (simp_all add: turn_effect_def)
  with Cons t x show ?case by (auto simp: bind_act_def)
qed

section \<open>Properties\<close>

text \<open>(C15) The window of secondary work is bounded and loses nothing. After any number of turns,
  whatever the enclave, the secondaries and the clock do: at most 16 exchanges are in flight and at
  most 256 items are outstanding, all of them valid work items with distinct ids; and the items
  fetched so far are, in order, those dispatched or discarded followed by those still queued, so
  that no item is dispatched twice or out of order. The executor is shut down at the end.\<close>

theorem lifecycle_window:
  "let (r, s) = lifecycle depth k clk en interval turns (new_life d) in
   length (futures s) \<le> 16 \<and> length (futures s) + length (backlog s) \<le> 256
   \<and> distinct (map item_id (map fut_item (futures s) @ map fst (backlog s)))
   \<and> list_all (\<lambda>w. validate_work (JDict w) = Inr w) (map fut_item (futures s) @ map fst (backlog s))
   \<and> fetched s = map fst (handled s) @ backlog s \<and> \<not> executor_open s"
proof -
  obtain r s where l: "lifecycle_loop depth k clk en interval turns (new_life d) = (r, s)" by fastforce
  have "life_inv s" using l by (rule lifecycle_loop_inv) (rule inv_intros)
  with l show ?thesis
    by (simp add: lifecycle_def finally_act_def life_inv_def outstanding_def limit_defs)
qed

text \<open>Maintenance comes first and stale work never leaves. From every reachable state a turn posts
  maintenance before anything else, at most once, and asks for work at most once and only after
  maintenance was answered, so that no delay of a secondary postpones it. An item that had been queued
  for 240 seconds when the turn began is not dispatched in it.\<close>

theorem lifecycle_turn_order:
  assumes "s = snd (lifecycle_loop depth k clk en interval turns (new_life d))"
    and "lifecycle_turn depth k clk en interval finished s = (r, s')" and "mono clk"
  shows "\<exists>rqs left. requests s' = requests s @ rqs
    \<and> (rqs = [] \<or> (\<exists>p. rqs = [post_request en ''maintenance'' (body_bytes (JsonBody (JDict []))) ''application/json'' p])
       \<or> (\<exists>p q. rqs = [post_request en ''maintenance'' (body_bytes (JsonBody (JDict []))) ''application/json'' p,
                     post_request en ''secondary/requests'' (body_bytes (JsonBody (JDict []))) ''application/json'' q]))
    \<and> handled s' = handled s @ left \<and> (\<forall>x. (x, True) \<in> set left \<longrightarrow> clk (ticks s) - snd x < 240)"
proof -
  have inv: "life_inv s"
    using lifecycle_loop_inv [of depth k clk en interval turns "new_life d"] assms(1) new_life_inv
    by (metis prod.collapse)
  obtain err where e: "turn_effect clk en finished s err s'"
    "case r of Inl e \<Rightarrow> err = Some e \<and> \<not> handler_exn e | Inr _ \<Rightarrow> err = None \<or> (\<exists>e. err = Some e \<and> handler_exn e)"
    by (rule lifecycle_turn_effect [OF assms(2) inv]) blast
  then obtain rqs left where q: "requests s' = requests s @ rqs" "turn_posts en rqs" "handled s' = handled s @ left"
    "\<forall>x. (x, True) \<in> set left \<longrightarrow> clk (ticks s) - snd x < STALE_SECONDS"
    using assms(3) unfolding turn_effect_def by blast
  from q show ?thesis unfolding turn_posts_def STALE_SECONDS_def
    by (intro exI [of _ rqs] exI [of _ left]) auto
qed

theorem lifecycle_turn_order_witness:
  "\<exists>rqs. requests (snd (lifecycle_turn 10 sample_sdk (\<lambda>_. 0) sample_enclave 5 (\<lambda>_. None)
        (snd (lifecycle_loop 10 sample_sdk (\<lambda>_. 0) sample_enclave 5 [\<lambda>_. None] (new_life (sample_drv [] [] []))))))
      = requests (snd (lifecycle_loop 10 sample_sdk (\<lambda>_. 0) sample_enclave 5 [\<lambda>_. None] (new_life (sample_drv [] [] [])))) @ rqs
    \<and> length rqs \<le> 2"
proof -
  let ?s = "snd (lifecycle_loop 10 sample_sdk (\<lambda>_. 0) sample_enclave 5 [\<lambda>_. None] (new_life (sample_drv [] [] [])))"
  obtain r s' where run: "lifecycle_turn 10 sample_sdk (\<lambda>_. 0) sample_enclave 5 (\<lambda>_. None) ?s = (r, s')" by fastforce
  have "mono (\<lambda>_::nat. 0::real)" by (simp add: mono_def)
  from lifecycle_turn_order [OF refl run this] run show ?thesis by auto
qed

text \<open>Dispatch never idles. From every reachable state, a turn whose steps all succeed leaves the
  queue empty or exactly 16 exchanges in flight.\<close>

theorem lifecycle_work_conserving:
  assumes "s = snd (lifecycle_loop depth k clk en interval turns (new_life d))"
    and "lifecycle_body depth k clk en finished s = (Inr (), s')"
  shows "backlog s' = [] \<or> length (futures s') = 16"
proof -
  have "life_inv s"
    using lifecycle_loop_inv [of depth k clk en interval turns "new_life d"] assms(1) new_life_inv
    by (metis prod.collapse)
  from lifecycle_body_effect [OF assms(2) this] show ?thesis by (simp add: turn_effect_def limit_defs)
qed

definition sample_committed :: bytes where
  "sample_committed = encode_str (print_json (JDict [(''status'', JStr ''committed'')]))"

lemma sample_committed_loads: "json_loads 10 plain_hooks sample_committed = Inr (JDict [(''status'', JStr ''committed'')])"
proof -
  let ?v = "JDict [(''status'', JStr ''committed'')]"
  have "json_ascii ?v" "json_exact ?v" "json_wf ?v" by (simp_all add: isascii_def)
  moreover have "json_nest ?v \<le> Suc 9" by (simp only: json_nest_JDict_le) simp
  ultimately show ?thesis unfolding sample_committed_def by (intro plain_json.loads_bytes) simp_all
qed

lemma sample_committed_length: "sample_committed \<noteq> []" "length sample_committed \<le> 65536"
  by (simp_all add: sample_committed_def encode_str_def quote_str_def esc_char_def short_escape_def)

lemma sample_post_json:
  fixes s :: "'z life_scheme"
  assumes "\<not> tracing s" "attempts s = sample_attempt sample_committed # rest"
  shows "\<exists>s'. post_json 10 sample_sdk (\<lambda>_. 0) sample_enclave path s = (Inr (JsonValue (JDict [(''status'', JStr ''committed'')])), s')
    \<and> \<not> tracing s' \<and> attempts s' = rest \<and> backlog s' = backlog s \<and> futures s' = futures s"
proof -
  note l = sample_committed_length
  show ?thesis
    using assms l by (simp add: post_json_def sample_sdk_def sample_enclave_def sample_attempt_def act_eval post_eval sample_committed_loads
     confirm_json_def)
qed
lemma sample_body: "\<exists>s'. lifecycle_body 10 sample_sdk (\<lambda>_. 0) sample_enclave (\<lambda>_. None)
    (new_life (sample_drv [] [sample_attempt sample_committed, sample_attempt sample_committed] [])) = (Inr (), s')"
proof -
  let ?s = "new_life (sample_drv [] [sample_attempt sample_committed, sample_attempt sample_committed] [])"
  have s: "\<not> tracing ?s" "attempts ?s = [sample_attempt sample_committed, sample_attempt sample_committed]" "backlog ?s = []" "futures ?s = []"
    by (simp_all add: new_life_def sample_drv_def drv.defs life.defs)
  obtain s1 where s1: "post_json 10 sample_sdk (\<lambda>_. 0) sample_enclave ''maintenance'' ?s = (Inr (JsonValue (JDict [(''status'', JStr ''committed'')])), s1)"
    "\<not> tracing s1" "attempts s1 = [sample_attempt sample_committed]" "backlog s1 = []" "futures s1 = []"
    using sample_post_json [OF s(1,2)] s(3,4) by auto
  obtain s2 where s2: "post_json 10 sample_sdk (\<lambda>_. 0) sample_enclave ''secondary/requests'' s1 = (Inr (JsonValue (JDict [(''status'', JStr ''committed'')])), s2)"
    "backlog s2 = []" using sample_post_json [OF s1(2,3)] s1(4,5) by auto
  show ?thesis
    using s s1 s2 by (simp add: lifecycle_body_def bind_act_def poll_def with_span_def discard_stale_def fetch_work_def
       fetch_body_def lift_res_def json_of_def work_list_def now_def dispatch_def)
qed

theorem lifecycle_work_conserving_witness:
  "\<exists>s'. lifecycle_body 10 sample_sdk (\<lambda>_. 0) sample_enclave (\<lambda>_. None)
      (new_life (sample_drv [] [sample_attempt sample_committed, sample_attempt sample_committed] [])) = (Inr (), s')
    \<and> (backlog s' = [] \<or> length (futures s') = 16)"
proof -
  from sample_body obtain s' where run: "lifecycle_body 10 sample_sdk (\<lambda>_. 0) sample_enclave (\<lambda>_. None)
      (new_life (sample_drv [] [sample_attempt sample_committed, sample_attempt sample_committed] [])) = (Inr (), s')" by blast
  have "new_life (sample_drv [] [sample_attempt sample_committed, sample_attempt sample_committed] [])
      = snd (lifecycle_loop 10 sample_sdk (\<lambda>_. 0) sample_enclave 5 []
          (new_life (sample_drv [] [sample_attempt sample_committed, sample_attempt sample_committed] [])))" by simp
  from lifecycle_work_conserving [OF this run] run show ?thesis by blast
qed

text \<open>(C28) The loop never dies of its peers. When the connections and the exchanges fail only with the
  exceptions that the code handles, it runs every turn until it is stopped.\<close>

theorem lifecycle_survives:
  assumes "drv_sane d" and "\<forall>finished \<in> set turns. \<forall>f e. finished f = Some (Inl e) \<longrightarrow> handler_exn e"
  shows "fst (lifecycle depth k clk en interval turns (new_life d)) = Inr ()"
proof -
  obtain r s where l: "lifecycle_loop depth k clk en interval turns (new_life d) = (r, s)" by fastforce
  have "drv_sane (new_life d)" using assms(1) by (simp add: new_life_def drv_sane_def web_sane_def drv.defs life.defs)
  with lifecycle_loop_survives [OF l new_life_inv] assms(2) l show ?thesis
    by (simp add: lifecycle_def finally_act_def)
qed

theorem lifecycle_survives_witness:
  "fst (lifecycle 10 sample_sdk (\<lambda>_. 0) sample_enclave 5 [\<lambda>_. None, \<lambda>_. Some (Inl (TimeoutError []))]
     (new_life (sample_drv [] [] []))) = Inr ()"
proof (rule lifecycle_survives)
  show "drv_sane (sample_drv [] [] [])" by (simp add: drv_sane_def web_sane_def sample_drv_def)
  show "\<forall>finished \<in> set [\<lambda>_. None, \<lambda>_. Some (Inl (TimeoutError []))]. \<forall>f e. finished f = Some (Inl e) \<longrightarrow> handler_exn e"
    by (simp add: handler_exn_def)
qed

end
