(* ===== verification/Admission.thy ===== *)
theory Admission
  imports Driver_Wire Socket_Io
begin

text \<open>
  The admission gates of the threaded servers: \<open>AdmissionBoundMixin\<close>, \<open>TransferServer\<close> and \<open>UdpServer\<close> of
  \<open>ccf/host_driver.py\<close>, \<open>BoundedHTTPServer\<close> and \<open>MailFixtureServer\<close> of \<open>tools/capture_aci.py\<close>. A gate is a
  bounded semaphore together with the requests that have a thread and those that were closed. The
  locale \<open>bounded_pool\<close> states what the accept loop and the worker threads rely on; each server's
  operations are an instance of it.
\<close>

section \<open>A gate and its operations\<close>

record 'r gate =
  permits :: nat
  permit_bound :: nat
  workers :: "'r list"
  closed_requests :: "'r list"

definition new_gate :: "nat \<Rightarrow> 'r gate" where
  "new_gate n = \<lparr>permits = n, permit_bound = n, workers = [], closed_requests = []\<rparr>"

text \<open>\<open>BoundedSemaphore\<close>: a release beyond the initial value is a \<open>ValueError\<close>.\<close>

definition acquire :: "'r gate \<Rightarrow> bool \<times> 'r gate" where
  "acquire g = (if permits g = 0 then (False, g) else (True, g\<lparr>permits := permits g - 1\<rparr>))"

definition release :: "('r gate, unit) act" where
  "release g =
     (if permits g \<ge> permit_bound g then (Inl (ValueError ''Semaphore released too many times''), g)
      else (Inr (), g\<lparr>permits := permits g + 1\<rparr>))"

definition shutdown_request :: "'r \<Rightarrow> 'r gate \<Rightarrow> 'r gate" where
  "shutdown_request r g = g\<lparr>closed_requests := closed_requests g @ [r]\<rparr>"

text \<open>\<open>ThreadingMixIn.process_request\<close>: the start of a thread, which the system may refuse.\<close>

definition start_thread :: "unit res \<Rightarrow> 'r \<Rightarrow> ('r gate, unit) act" where
  "start_thread outcome r g =
     (case outcome of Inl e \<Rightarrow> (Inl e, g) | Inr _ \<Rightarrow> (Inr (), g\<lparr>workers := workers g @ [r]\<rparr>))"

text \<open>The end of a thread. \<open>ThreadingMixIn.process_request_thread\<close> closes its request on every path.\<close>

definition end_thread :: "'r \<Rightarrow> 'r gate \<Rightarrow> 'r gate" where
  "end_thread r g = g\<lparr>workers := remove1 r (workers g)\<rparr>"

definition request_thread :: "unit res \<Rightarrow> 'r \<Rightarrow> ('r gate, unit) act" where
  "request_thread outcome r g = (outcome, shutdown_request r g)"

subsection \<open>The driver's mixin\<close>

definition process_request :: "unit res \<Rightarrow> 'r \<Rightarrow> ('r gate, unit) act" where
  "process_request outcome r g =
     (case acquire g of
        (False, g1) \<Rightarrow> (Inr (), shutdown_request r g1)
      | (True, g1) \<Rightarrow>
          (case start_thread outcome r g1 of
             (Inr u, g2) \<Rightarrow> (Inr u, g2)
           | (Inl e, g2) \<Rightarrow> bind_act release (\<lambda>_. raise_act e) g2))"

definition process_request_thread :: "unit res \<Rightarrow> 'r \<Rightarrow> ('r gate, unit) act" where
  "process_request_thread outcome r g =
     (let (x, g1) = request_thread outcome r g; (y, g2) = release g1 in
      (bindr y (\<lambda>_. x), end_thread r g2))"

definition address_family_inet6 :: "string \<Rightarrow> bool" where
  "address_family_inet6 host = contains '':'' host"

definition transfer_server :: "string \<Rightarrow> 'r gate \<times> bool" where
  "transfer_server host = (new_gate MAX_TCP_CONNECTIONS, address_family_inet6 host)"

definition udp_server :: "string \<Rightarrow> 'r gate \<times> bool" where
  "udp_server host = (new_gate MAX_UDP_HANDLERS, address_family_inet6 host)"

subsection \<open>The servers of the capture worker\<close>

definition http_server :: "'r gate" where
  "http_server = new_gate 8"

definition http_process_request :: "unit res \<Rightarrow> 'r \<Rightarrow> ('r gate, unit) act" where
  "http_process_request outcome r g =
     (case acquire g of
        (False, g1) \<Rightarrow> (Inr (), shutdown_request r g1)
      | (True, g1) \<Rightarrow>
          (case start_thread outcome r g1 of
             (Inr u, g2) \<Rightarrow> (Inr u, g2)
           | (Inl e, g2) \<Rightarrow> bind_act release (\<lambda>_. raise_act e) g2))"

text \<open>The handshake runs in the thread, under the absolute deadline; its \<open>OSError\<close>s (the class of
  \<open>ssl.SSLError\<close>) close the request.\<close>

definition http_request_thread :: "unit res \<Rightarrow> unit res \<Rightarrow> 'r \<Rightarrow> ('r gate, unit) act" where
  "http_request_thread handshake outcome r g =
     (let body = bind_act (lift_res handshake) (\<lambda>_. request_thread outcome r);
          (x, g1) = catch_act is_OSError (\<lambda>_ g. (Inr (), shutdown_request r g)) body g;
          (y, g2) = release g1 in
      (bindr y (\<lambda>_. x), end_thread r g2))"

definition mail_server :: "'r gate" where
  "mail_server = new_gate 8"

definition mail_process_request :: "unit res \<Rightarrow> 'r \<Rightarrow> ('r gate, unit) act" where
  "mail_process_request outcome r g =
     (case acquire g of
        (False, g1) \<Rightarrow> (Inr (), shutdown_request r g1)
      | (True, g1) \<Rightarrow>
          (case start_thread outcome r g1 of
             (Inr u, g2) \<Rightarrow> (Inr u, g2)
           | (Inl e, g2) \<Rightarrow> bind_act release (\<lambda>_. raise_act e) g2))"

definition mail_request_thread :: "unit res \<Rightarrow> 'r \<Rightarrow> ('r gate, unit) act" where
  "mail_request_thread outcome r g =
     (let (x, g1) = request_thread outcome r g; (y, g2) = release g1 in
      (bindr y (\<lambda>_. x), end_thread r g2))"

section \<open>What a pool of workers promises\<close>

text \<open>An event of a server: a request arrives (the system may refuse the thread), or the thread of a
  request ends.\<close>

datatype 'r event = Arrive "unit res" 'r | Leave "unit res" "unit res" 'r

text \<open>A gate is balanced when permits and workers together make its bound.\<close>

definition balanced :: "'r gate \<Rightarrow> bool" where
  "balanced g \<longleftrightarrow> permits g + length (workers g) = permit_bound g"

definition gate_step ::
    "(unit res \<Rightarrow> 'r \<Rightarrow> ('r gate, unit) act) \<Rightarrow> (unit res \<Rightarrow> unit res \<Rightarrow> 'r \<Rightarrow> ('r gate, unit) act)
     \<Rightarrow> 'r event \<Rightarrow> 'r gate \<Rightarrow> 'r gate" where
  "gate_step arrive leave ev g =
     (case ev of
        Arrive x r \<Rightarrow> snd (arrive x r g)
      | Leave h x r \<Rightarrow> if r \<in> set (workers g) then snd (leave h x r g) else g)"

definition gate_run ::
    "(unit res \<Rightarrow> 'r \<Rightarrow> ('r gate, unit) act) \<Rightarrow> (unit res \<Rightarrow> unit res \<Rightarrow> 'r \<Rightarrow> ('r gate, unit) act)
     \<Rightarrow> 'r event list \<Rightarrow> 'r gate \<Rightarrow> 'r gate" where
  "gate_run arrive leave = fold (gate_step arrive leave)"

locale bounded_pool =
  fixes arrive :: "unit res \<Rightarrow> 'r \<Rightarrow> ('r gate, unit) act"
    and leave :: "unit res \<Rightarrow> unit res \<Rightarrow> 'r \<Rightarrow> ('r gate, unit) act"
  assumes admitted: "balanced g \<Longrightarrow> length (workers g) < permit_bound g \<Longrightarrow>
      arrive (Inr ()) r g = (Inr (), g\<lparr>permits := permits g - 1, workers := workers g @ [r]\<rparr>)"
    and no_thread: "balanced g \<Longrightarrow> length (workers g) < permit_bound g \<Longrightarrow> arrive (Inl e) r g = (Inl e, g)"
    and refused: "balanced g \<Longrightarrow> length (workers g) = permit_bound g \<Longrightarrow>
      arrive x r g = (Inr (), shutdown_request r g)"
    and left: "balanced g \<Longrightarrow> r \<in> set (workers g) \<Longrightarrow> \<exists>y g'. leave h x r g = (y, g')
      \<and> permits g' = permits g + 1 \<and> permit_bound g' = permit_bound g \<and> workers g' = remove1 r (workers g)
      \<and> (y = Inr () \<or> y = h \<or> y = x)"
begin

lemma balanced_bound: "balanced g \<Longrightarrow> length (workers g) \<le> permit_bound g"
  by (simp add: balanced_def)

lemma arrive_balanced: "balanced g \<Longrightarrow> balanced (snd (arrive x r g)) \<and> permit_bound (snd (arrive x r g)) = permit_bound g"
proof -
  assume b: "balanced g"
  show ?thesis
  proof (cases "length (workers g) < permit_bound g")
    case True
    with b admitted no_thread show ?thesis by (cases x) (auto simp: balanced_def)
  next
    case False
    with b balanced_bound have "length (workers g) = permit_bound g" by fastforce
    with b refused show ?thesis by (simp add: balanced_def shutdown_request_def)
  qed
qed

lemma leave_balanced:
  assumes "balanced g" "r \<in> set (workers g)"
  shows "balanced (snd (leave h x r g)) \<and> permit_bound (snd (leave h x r g)) = permit_bound g"
proof -
  obtain n where "length (workers g) = Suc n" using assms(2) by (cases "workers g") auto
  moreover obtain y g' where "leave h x r g = (y, g')" "permits g' = permits g + 1" "permit_bound g' = permit_bound g"
    "workers g' = remove1 r (workers g)" using left [OF assms] by blast
  ultimately show ?thesis using assms by (simp add: balanced_def length_remove1)
qed

lemma step_balanced: "balanced g \<Longrightarrow> balanced (gate_step arrive leave ev g) \<and> permit_bound (gate_step arrive leave ev g) = permit_bound g"
  using arrive_balanced leave_balanced by (cases ev) (simp_all add: gate_step_def)

lemma run_balanced: "balanced g \<Longrightarrow> balanced (gate_run arrive leave evs g) \<and> permit_bound (gate_run arrive leave evs g) = permit_bound g"
proof (induction evs arbitrary: g)
  case Nil
  then show ?case by (simp add: gate_run_def)
next
  case (Cons ev evs)
  from Cons.prems have b: "balanced (gate_step arrive leave ev g)" "permit_bound (gate_step arrive leave ev g) = permit_bound g"
    using step_balanced by blast+
  from Cons.IH [OF b(1)] b(2) show ?case by (simp add: gate_run_def)
qed

text \<open>What follows for every reachable state: the bound, that no permit is lost, and that a thread
  always gives its permit back.\<close>

lemma run_bounded: "length (workers (gate_run arrive leave evs (new_gate n))) \<le> n"
  using run_balanced [of "new_gate n" evs] balanced_bound [of "gate_run arrive leave evs (new_gate n)"]
  by (simp add: new_gate_def balanced_def)

lemma run_admits:
  "length (workers (gate_run arrive leave evs (new_gate n))) < n \<Longrightarrow>
   r \<in> set (workers (gate_step arrive leave (Arrive (Inr ()) r) (gate_run arrive leave evs (new_gate n))))"
  using run_balanced [of "new_gate n" evs] by (simp add: gate_step_def admitted new_gate_def balanced_def)

lemma run_returns:
  assumes "r \<in> set (workers (gate_run arrive leave evs (new_gate n)))"
  shows "permits (gate_step arrive leave (Leave h x r) (gate_run arrive leave evs (new_gate n))) = permits (gate_run arrive leave evs (new_gate n)) + 1"
proof -
  have "balanced (gate_run arrive leave evs (new_gate n))" using run_balanced by (simp add: new_gate_def balanced_def)
  from left [OF this assms, of h x] assms show ?thesis by (auto simp: gate_step_def)
qed

end

lemmas gate_defs = acquire_def release_def shutdown_request_def start_thread_def end_thread_def request_thread_def

lemma workers_permit: "balanced g \<Longrightarrow> r \<in> set (workers g) \<Longrightarrow> permits g < permit_bound g"
  by (cases "workers g") (auto simp: balanced_def)

interpretation driver_pool: bounded_pool process_request "\<lambda>_. process_request_thread"
proof unfold_locales
  fix g :: "'r gate" and r :: 'r and h x :: "unit res"
  assume "balanced g" "r \<in> set (workers g)"
  then show "\<exists>y g'. process_request_thread x r g = (y, g')
      \<and> permits g' = permits g + 1 \<and> permit_bound g' = permit_bound g \<and> workers g' = remove1 r (workers g)
      \<and> (y = Inr () \<or> y = h \<or> y = x)"
    using workers_permit by (fastforce simp: process_request_thread_def gate_defs Let_def)
qed (auto simp: process_request_def gate_defs balanced_def bind_act_def raise_act_def)

interpretation http_pool: bounded_pool http_process_request http_request_thread
proof unfold_locales
  fix g :: "'r gate" and r :: 'r and h x :: "unit res"
  assume "balanced g" "r \<in> set (workers g)"
  then show "\<exists>y g'. http_request_thread h x r g = (y, g')
      \<and> permits g' = permits g + 1 \<and> permit_bound g' = permit_bound g \<and> workers g' = remove1 r (workers g)
      \<and> (y = Inr () \<or> y = h \<or> y = x)"
    using workers_permit [of g r]
    by (cases h; cases x) (auto simp: http_request_thread_def gate_defs Let_def bind_act_def lift_res_def catch_act_def)
qed (auto simp: http_process_request_def gate_defs balanced_def bind_act_def raise_act_def)

interpretation mail_pool: bounded_pool mail_process_request "\<lambda>_. mail_request_thread"
proof unfold_locales
  fix g :: "'r gate" and r :: 'r and h x :: "unit res"
  assume "balanced g" "r \<in> set (workers g)"
  then show "\<exists>y g'. mail_request_thread x r g = (y, g')
      \<and> permits g' = permits g + 1 \<and> permit_bound g' = permit_bound g \<and> workers g' = remove1 r (workers g)
      \<and> (y = Inr () \<or> y = h \<or> y = x)"
    using workers_permit by (fastforce simp: mail_request_thread_def gate_defs Let_def)
qed (auto simp: mail_process_request_def gate_defs balanced_def bind_act_def raise_act_def)

section \<open>Properties\<close>

lemmas server_defs = transfer_server_def udp_server_def http_server_def mail_server_def limit_defs


text \<open>No permit is ever lost. After any history of the TCP server, with refused threads and failed
  handlers in it, a request that arrives while fewer than 8 handlers run gets a thread, and a handler
  that ends gives its permit back without an error of its own; at 8 handlers a request is closed at
  once and changes nothing else.\<close>

theorem transfer_server_keeps_accepting:
  assumes "g = gate_run process_request (\<lambda>_. process_request_thread) evs (fst (transfer_server host))"
  shows "(length (workers g) < 8 \<longrightarrow> r \<in> set (workers (snd (process_request (Inr ()) r g))))
    \<and> (length (workers g) = 8 \<longrightarrow> process_request x r g = (Inr (), shutdown_request r g))
    \<and> (r \<in> set (workers g) \<longrightarrow> fst (process_request_thread y r g) = y
         \<and> permits (snd (process_request_thread y r g)) = permits g + 1)"
proof -
  have b: "balanced g" "permit_bound g = 8"
    using driver_pool.run_balanced [of "new_gate 8" evs] assms
    by (simp_all add: server_defs new_gate_def balanced_def)
  have "r \<in> set (workers g) \<longrightarrow> fst (process_request_thread y r g) = y
      \<and> permits (snd (process_request_thread y r g)) = permits g + 1"
    using b workers_permit [of g r] by (auto simp: process_request_thread_def gate_defs)
  then show ?thesis
    using driver_pool.admitted [of g r] driver_pool.refused [of g x r] b by simp
qed

theorem transfer_server_keeps_accepting_witness:
  "''b'' \<in> set (workers (snd (process_request (Inr ()) ''b''
      (gate_run process_request (\<lambda>_. process_request_thread)
        [Arrive (Inl (RuntimeError [])) ''x'', Arrive (Inr ()) ''a'', Leave (Inr ()) (Inl (ValueError [])) ''a'']
        (fst (transfer_server ''::''))))))"
  using transfer_server_keeps_accepting [OF refl, where r = "''b''" and host = "''::''" and
      evs = "[Arrive (Inl (RuntimeError [])) ''x'', Arrive (Inr ()) ''a'', Leave (Inr ()) (Inl (ValueError [])) ''a'']"]
  by (simp add: gate_run_def gate_step_def process_request_def process_request_thread_def gate_defs server_defs
      new_gate_def bind_act_def raise_act_def Let_def)

end
