(* ===== verification/Json_Access.thy ===== *)
theory Json_Access
  imports Json_Text
begin

text \<open>
  What the sources do with a parsed JSON value: subscripts, \<open>get\<close>, \<open>in\<close>, iteration, truth value,
  length, and the comparisons of Python. A number that the scanner leaves as text (\<open>JFloat\<close>) is
  compared by the double that it denotes: the nearest one, ties to even.
\<close>

section \<open>Access\<close>

text \<open>Subscripts of parsed JSON, and the test \<open>in\<close>.\<close>

definition jindex :: "json \<Rightarrow> string \<Rightarrow> json res" where
  "jindex v key = (case v of JDict d \<Rightarrow> dict_index d key | _ \<Rightarrow> Inl (TypeError ''subscript''))"

definition jcontains :: "string \<Rightarrow> json \<Rightarrow> bool res" where
  "jcontains key v =
     (case v of
        JDict d \<Rightarrow> Inr (has_key key d)
      | JList xs \<Rightarrow> Inr (JStr key \<in> set xs)
      | JStr t \<Rightarrow> Inr (contains key t)
      | _ \<Rightarrow> Inl (TypeError ''argument is not iterable''))"

text \<open>Iteration, and the elements of a set, which must be hashable.\<close>

definition jiter :: "json \<Rightarrow> json list res" where
  "jiter v =
     (case v of
        JList xs \<Rightarrow> Inr xs
      | JDict d \<Rightarrow> Inr (map (\<lambda>(k, _). JStr k) d)
      | JStr t \<Rightarrow> Inr (map (\<lambda>c. JStr [c]) t)
      | _ \<Rightarrow> Inl (TypeError ''object is not iterable''))"

definition hashable :: "json \<Rightarrow> json res" where
  "hashable v = (case v of JList _ \<Rightarrow> Inl (TypeError ''unhashable'') | JDict _ \<Rightarrow> Inl (TypeError ''unhashable'') | _ \<Rightarrow> Inr v)"

text \<open>\<open>v.get(key, default)\<close>.\<close>

definition jget :: "json \<Rightarrow> string \<Rightarrow> json \<Rightarrow> json res" where
  "jget v key dflt =
     (case v of JDict d \<Rightarrow> Inr (case map_of d key of Some w \<Rightarrow> w | None \<Rightarrow> dflt) | _ \<Rightarrow> Inl (AttributeError ''get''))"

definition jlen :: "json \<Rightarrow> nat res" where
  "jlen v =
     (case v of
        JList xs \<Rightarrow> Inr (length xs) | JDict d \<Rightarrow> Inr (length d) | JStr t \<Rightarrow> Inr (str_len t)
      | _ \<Rightarrow> Inl (TypeError ''object has no len''))"

text \<open>\<open>require(value, message)\<close>, and \<open>assert value\<close>.\<close>

definition require :: "bool \<Rightarrow> string \<Rightarrow> unit res" where
  "require b msg = (if b then Inr () else Inl (ValueError msg))"

definition assert_that :: "bool \<Rightarrow> unit res" where
  "assert_that b = (if b then Inr () else Inl (AssertionError []))"

lemma require_Inr [simp]: "require b msg = Inr u \<longleftrightarrow> b"
  by (simp add: require_def)

lemma assert_that_Inr [simp]: "assert_that b = Inr u \<longleftrightarrow> b"
  by (simp add: assert_that_def)

lemma jindex_Inr: "jindex v key = Inr w \<longleftrightarrow> (\<exists>d. v = JDict d \<and> map_of d key = Some w)"
  by (cases v) (auto simp: jindex_def)

section \<open>Numbers\<close>

datatype number = Fin rat | PosInf | NegInf | NotNumber

text \<open>The parts of a JSON number: sign, digits of the integer and the fraction, exponent.\<close>

definition decimal_parts :: "string \<Rightarrow> bool \<times> nat \<times> int" where
  "decimal_parts t =
     (let (neg, u) = (case t of CHR ''-'' # r \<Rightarrow> (True, r) | _ \<Rightarrow> (False, t));
          whole = takeWhile is_digit u; r1 = dropWhile is_digit u;
          (frac, r2) = (case r1 of CHR ''.'' # r \<Rightarrow> (takeWhile is_digit r, dropWhile is_digit r) | _ \<Rightarrow> ([], r1));
          ex = (case r2 of
              [] \<Rightarrow> 0
            | _ # CHR ''-'' # r \<Rightarrow> - int (digits_val r)
            | _ # CHR ''+'' # r \<Rightarrow> int (digits_val r)
            | _ # r \<Rightarrow> int (digits_val r)) in
      (neg, digits_val (whole @ frac), ex - int (length frac)))"

text \<open>\<open>p / q\<close> as an integer, ties to even, and the nearest double of a positive fraction.\<close>

definition round_even :: "nat \<Rightarrow> nat \<Rightarrow> nat" where
  "round_even p q =
     (let d = p div q; r = p mod q in
      if 2 * r < q \<or> 2 * r = q \<and> even d then d else d + 1)"

fun ilog2 :: "nat \<Rightarrow> nat" where
  "ilog2 n = (if n < 2 then 0 else Suc (ilog2 (n div 2)))"

declare ilog2.simps [simp del]

text \<open>The largest \<open>k\<close> with \<open>2 ^ k \<le> p / q\<close>.\<close>

definition log_floor :: "nat \<Rightarrow> nat \<Rightarrow> int" where
  "log_floor p q = (if q \<le> p then int (ilog2 (p div q)) else - int (Suc (ilog2 ((q - 1) div p))))"

definition nearest_double :: "nat \<Rightarrow> nat \<Rightarrow> rat option" where
  "nearest_double p q =
     (if p = 0 then Some 0
      else
        let k = max (log_floor p q - 52) (- 1074);
            m = (if 0 \<le> k then round_even p (q * 2 ^ nat k) else round_even (p * 2 ^ nat (- k)) q);
            v = (if 0 \<le> k then of_nat (m * 2 ^ nat k) else of_nat m / of_nat (2 ^ nat (- k))) in
        if 2 ^ 1024 \<le> v then None else Some v)"

definition float_value :: "string \<Rightarrow> number" where
  "float_value t =
     (if t = ''NaN'' then NotNumber else if t = ''Infinity'' then PosInf else if t = ''-Infinity'' then NegInf
      else
        let (neg, m, ex) = decimal_parts t;
            r = (if 0 \<le> ex then nearest_double (m * 10 ^ nat ex) 1 else nearest_double m (10 ^ nat (- ex))) in
        case r of
          None \<Rightarrow> if neg then NegInf else PosInf
        | Some v \<Rightarrow> Fin (if neg then - v else v))"

fun jnumber :: "json \<Rightarrow> number option" where
  "jnumber (JBool b) = Some (Fin (if b then 1 else 0))"
| "jnumber (JInt i) = Some (Fin (of_int i))"
| "jnumber (JFloat t) = Some (float_value t)"
| "jnumber _ = None"

fun number_le :: "number \<Rightarrow> number \<Rightarrow> bool" where
  "number_le (Fin a) (Fin b) \<longleftrightarrow> a \<le> b"
| "number_le NotNumber _ \<longleftrightarrow> False"
| "number_le _ NotNumber \<longleftrightarrow> False"
| "number_le NegInf _ \<longleftrightarrow> True"
| "number_le _ PosInf \<longleftrightarrow> True"
| "number_le _ _ \<longleftrightarrow> False"

definition number_eq :: "number \<Rightarrow> number \<Rightarrow> bool" where
  "number_eq a b \<longleftrightarrow> number_le a b \<and> number_le b a"

definition number_lt :: "number \<Rightarrow> number \<Rightarrow> bool" where
  "number_lt a b \<longleftrightarrow> number_le a b \<and> \<not> number_le b a"

text \<open>\<open>a <= b\<close> and \<open>a < b\<close> on parsed values: two numbers, or two strings by code point.\<close>

definition json_le :: "json \<Rightarrow> json \<Rightarrow> bool res" where
  "json_le a b =
     (case (jnumber a, jnumber b) of
        (Some x, Some y) \<Rightarrow> Inr (number_le x y)
      | _ \<Rightarrow> (case (jstr a, jstr b) of (Some s, Some t) \<Rightarrow> Inr (s \<le> t) | _ \<Rightarrow> Inl (TypeError ''<= not supported'')))"

definition json_lt :: "json \<Rightarrow> json \<Rightarrow> bool res" where
  "json_lt a b =
     (case (jnumber a, jnumber b) of
        (Some x, Some y) \<Rightarrow> Inr (number_lt x y)
      | _ \<Rightarrow> (case (jstr a, jstr b) of (Some s, Some t) \<Rightarrow> Inr (s < t) | _ \<Rightarrow> Inl (TypeError ''< not supported'')))"

section \<open>Equality\<close>

text \<open>\<open>a == b\<close>: numbers by value, dicts without regard to the order of their keys.\<close>

primrec py_eq :: "json \<Rightarrow> json \<Rightarrow> bool" where
  "py_eq JNull w \<longleftrightarrow> w = JNull"
| "py_eq (JBool b) w \<longleftrightarrow> (case jnumber w of Some y \<Rightarrow> number_eq (Fin (if b then 1 else 0)) y | None \<Rightarrow> False)"
| "py_eq (JInt i) w \<longleftrightarrow> (case jnumber w of Some y \<Rightarrow> number_eq (Fin (of_int i)) y | None \<Rightarrow> False)"
| "py_eq (JFloat t) w \<longleftrightarrow> (case jnumber w of Some y \<Rightarrow> number_eq (float_value t) y | None \<Rightarrow> False)"
| "py_eq (JStr s) w \<longleftrightarrow> w = JStr s"
| "py_eq (JList xs) w \<longleftrightarrow>
     (case w of
        JList ys \<Rightarrow> length xs = length ys \<and> list_all (\<lambda>(f, y). f y) (zip (map py_eq xs) ys)
      | _ \<Rightarrow> False)"
| "py_eq (JDict d) w \<longleftrightarrow>
     (case w of
        JDict e \<Rightarrow> length d = length e
          \<and> list_all (\<lambda>(k, f). case map_of e k of Some y \<Rightarrow> f y | None \<Rightarrow> False) (map (map_prod id py_eq) d)
      | _ \<Rightarrow> False)"

text \<open>\<open>bool(v)\<close>.\<close>

fun truthy :: "json \<Rightarrow> bool" where
  "truthy JNull \<longleftrightarrow> False"
| "truthy (JBool b) \<longleftrightarrow> b"
| "truthy (JInt i) \<longleftrightarrow> i \<noteq> 0"
| "truthy (JFloat t) \<longleftrightarrow> \<not> number_eq (float_value t) (Fin 0)"
| "truthy (JStr s) \<longleftrightarrow> s \<noteq> []"
| "truthy (JList xs) \<longleftrightarrow> xs \<noteq> []"
| "truthy (JDict d) \<longleftrightarrow> d \<noteq> []"

lemma number_eq_Fin [simp]: "number_eq (Fin a) y \<longleftrightarrow> y = Fin a" "number_eq y (Fin a) \<longleftrightarrow> y = Fin a"
  by (cases y; auto simp: number_eq_def)+

lemma py_eq_JStr [simp]: "py_eq v (JStr s) \<longleftrightarrow> v = JStr s"
  by (cases v) auto

lemma py_eq_JInt: "py_eq v (JInt i) \<longleftrightarrow> jnumber v = Some (Fin (of_int i))"
  by (cases v) (auto split: number.splits)

end
