(* ===== verification/File_System.thy ===== *)
theory File_System
  imports Adns_Prelude
begin

text \<open>
  The file system as the sources use it: \<open>pathlib\<close> paths, \<open>os.stat\<close> results with their mode bits, and
  the calls that take a directory descriptor. A directory is identified by device and inode, so that
  a descriptor keeps denoting it when the path that led to it is replaced. Another process may change
  the world between any two calls: every call first applies the interference of its turn.
\<close>

unbundle bit_operations_syntax

section \<open>Paths\<close>

text \<open>A \<open>PurePosixPath\<close>: the root (empty, one or two slashes) and the parts. Empty and single-dot
  parts vanish, double-dot parts stay.\<close>

record path =
  path_root :: string
  path_parts :: "string list"

definition parse_path :: "string \<Rightarrow> path" where
  "parse_path s =
     \<lparr>path_root = (if startswith s ''//'' \<and> \<not> startswith s ''///'' then ''//''
                   else if startswith s ''/'' then ''/'' else []),
      path_parts = filter (\<lambda>p. p \<noteq> [] \<and> p \<noteq> ''.'') (split_on CHR ''/'' s)\<rparr>"

definition path_str :: "path \<Rightarrow> string" where
  "path_str p =
     (if path_root p = [] \<and> path_parts p = [] then ''.''
      else path_root p @ join_with ''/'' (path_parts p))"

definition is_absolute :: "path \<Rightarrow> bool" where
  "is_absolute p \<longleftrightarrow> path_root p \<noteq> []"

text \<open>The operator \<open>/\<close>: an absolute right operand wins.\<close>

definition path_join :: "path \<Rightarrow> path \<Rightarrow> path" where
  "path_join p q = (if is_absolute q then q else p\<lparr>path_parts := path_parts p @ path_parts q\<rparr>)"

definition path_parent :: "path \<Rightarrow> path" where
  "path_parent p = p\<lparr>path_parts := butlast (path_parts p)\<rparr>"

definition path_name :: "path \<Rightarrow> string" where
  "path_name p = (if path_parts p = [] then [] else last (path_parts p))"

definition has_dotdot :: "path \<Rightarrow> bool" where
  "has_dotdot p \<longleftrightarrow> ''..'' \<in> set (path_parts p)"

definition is_relative_to :: "path \<Rightarrow> path \<Rightarrow> bool" where
  "is_relative_to p q \<longleftrightarrow> path_root p = path_root q \<and> take (length (path_parts q)) (path_parts p) = path_parts q"

definition absolute :: "path \<Rightarrow> path \<Rightarrow> path" where
  "absolute cwd p = path_join cwd p"

section \<open>File metadata\<close>

record stat =
  st_mode :: "32 word"
  st_dev :: nat
  st_ino :: nat
  st_uid :: nat
  st_ctime_ns :: nat

definition S_IFMT :: "32 word \<Rightarrow> 32 word" where
  "S_IFMT m = m AND 0xF000"

definition S_ISREG :: "32 word \<Rightarrow> bool" where
  "S_ISREG m \<longleftrightarrow> S_IFMT m = 0x8000"

definition S_ISDIR :: "32 word \<Rightarrow> bool" where
  "S_ISDIR m \<longleftrightarrow> S_IFMT m = 0x4000"

definition S_ISLNK :: "32 word \<Rightarrow> bool" where
  "S_ISLNK m \<longleftrightarrow> S_IFMT m = 0xA000"

definition S_ISSOCK :: "32 word \<Rightarrow> bool" where
  "S_ISSOCK m \<longleftrightarrow> S_IFMT m = 0xC000"

text \<open>The permission masks of the sources: octal 022 (write for group or others) and 077.\<close>

definition other_write :: "32 word \<Rightarrow> bool" where
  "other_write m \<longleftrightarrow> m AND 0x12 \<noteq> 0"

definition other_access :: "32 word \<Rightarrow> bool" where
  "other_access m \<longleftrightarrow> m AND 0x3F \<noteq> 0"

type_synonym ident = "nat \<times> nat"

definition ident_of :: "stat \<Rightarrow> ident" where
  "ident_of st = (st_dev st, st_ino st)"

section \<open>The world and its calls\<close>

text \<open>A directory entry with its metadata, its bytes, and what opening it for reading gives.\<close>

datatype access = Readable | Denied | Unreadable string

record node =
  node_stat :: stat
  node_data :: bytes
  node_open :: access

record world =
  dirs :: "string \<Rightarrow> stat option"
  entries :: "ident \<Rightarrow> string \<Rightarrow> node option"

record os =
  files :: world
  os_calls :: nat
  unlinked :: "(ident \<times> string) list"

type_synonym interference = "nat \<Rightarrow> world \<Rightarrow> world"

definition enter :: "interference \<Rightarrow> 'z os_scheme \<Rightarrow> 'z os_scheme" where
  "enter env s = s\<lparr>files := env (os_calls s) (files s), os_calls := Suc (os_calls s)\<rparr>"

text \<open>\<open>os.open(name, O_RDONLY | O_NOFOLLOW | O_NONBLOCK, dir_fd=d)\<close>. A symbolic link is refused; a
  socket, a missing permission and the like are the error of the entry.\<close>

definition open_node :: "node \<Rightarrow> node res" where
  "open_node n =
     (if S_ISLNK (st_mode (node_stat n)) then Inl (OSError ''ELOOP'')
      else case node_open n of Readable \<Rightarrow> Inr n | Denied \<Rightarrow> Inl PermissionError | Unreadable e \<Rightarrow> Inl (OSError e))"

definition open_at :: "interference \<Rightarrow> ident \<Rightarrow> string \<Rightarrow> 'z os_scheme \<Rightarrow> node res \<times> 'z os_scheme" where
  "open_at env d name s =
     (let s1 = enter env s in
      (case entries (files s1) d name of None \<Rightarrow> Inl FileNotFoundError | Some n \<Rightarrow> open_node n, s1))"

text \<open>\<open>os.stat(name, dir_fd=d, follow_symlinks=False)\<close>.\<close>

definition stat_at :: "interference \<Rightarrow> ident \<Rightarrow> string \<Rightarrow> 'z os_scheme \<Rightarrow> stat res \<times> 'z os_scheme" where
  "stat_at env d name s =
     (let s1 = enter env s in
      (case entries (files s1) d name of None \<Rightarrow> Inl FileNotFoundError | Some n \<Rightarrow> Inr (node_stat n), s1))"

definition set_entry :: "ident \<Rightarrow> string \<Rightarrow> node option \<Rightarrow> world \<Rightarrow> world" where
  "set_entry d name n w = w\<lparr>entries := (entries w)(d := (entries w d)(name := n))\<rparr>"

text \<open>\<open>os.unlink(name, dir_fd=d)\<close>, with a log of what was removed.\<close>

definition unlink_at :: "interference \<Rightarrow> ident \<Rightarrow> string \<Rightarrow> 'z os_scheme \<Rightarrow> unit res \<times> 'z os_scheme" where
  "unlink_at env d name s =
     (let s1 = enter env s in
      case entries (files s1) d name of
        None \<Rightarrow> (Inl FileNotFoundError, s1)
      | Some n \<Rightarrow> (Inr (), s1\<lparr>files := set_entry d name None (files s1), unlinked := unlinked s1 @ [(d, name)]\<rparr>))"

text \<open>\<open>os.open(path, O_RDONLY | O_DIRECTORY | O_NOFOLLOW)\<close> and \<open>os.stat(path, follow_symlinks=False)\<close> of a
  directory: the metadata of what the path leads to.\<close>

definition open_dir :: "interference \<Rightarrow> string \<Rightarrow> 'z os_scheme \<Rightarrow> stat res \<times> 'z os_scheme" where
  "open_dir env p s =
     (let s1 = enter env s in
      (case dirs (files s1) p of
         None \<Rightarrow> Inl FileNotFoundError
       | Some st \<Rightarrow> if S_ISDIR (st_mode st) then Inr st else Inl (OSError ''ENOTDIR''), s1))"

definition stat_dir :: "interference \<Rightarrow> string \<Rightarrow> 'z os_scheme \<Rightarrow> stat res \<times> 'z os_scheme" where
  "stat_dir env p s =
     (let s1 = enter env s in
      (case dirs (files s1) p of None \<Rightarrow> Inl FileNotFoundError | Some st \<Rightarrow> Inr st, s1))"

text \<open>\<open>os.open\<close> of a whole path.\<close>

definition open_path :: "interference \<Rightarrow> string \<Rightarrow> 'z os_scheme \<Rightarrow> node res \<times> 'z os_scheme" where
  "open_path env p s =
     (let q = parse_path p; s1 = enter env s in
      (case dirs (files s1) (path_str (path_parent q)) of
         None \<Rightarrow> Inl FileNotFoundError
       | Some st \<Rightarrow>
           (case entries (files s1) (ident_of st) (path_name q) of
              None \<Rightarrow> Inl FileNotFoundError
            | Some n \<Rightarrow> open_node n), s1))"

section \<open>Laws\<close>


lemma unlink_at_only:
  assumes "unlink_at env d name s = (r, s')"
  shows "r = Inr () \<longleftrightarrow> entries (files (enter env s)) d name \<noteq> None"
    "unlinked s' = unlinked s @ (if r = Inr () then [(d, name)] else [])"
  using assms by (auto simp: unlink_at_def enter_def Let_def split: option.splits)

lemma calls_unlinked [simp]:
  "unlinked (enter env s) = unlinked s" "unlinked (snd (open_at env d name s)) = unlinked s"
  "unlinked (snd (stat_at env d name s)) = unlinked s" "unlinked (snd (open_dir env p s)) = unlinked s"
  "unlinked (snd (stat_dir env p s)) = unlinked s" "unlinked (snd (open_path env p s)) = unlinked s"
  by (simp_all add: enter_def open_at_def stat_at_def open_dir_def stat_dir_def open_path_def Let_def)

end
