(* ===== verification/Sha256.thy ===== *)
theory Sha256
  imports Adns_Prelude
begin

text \<open>
  \<open>hashlib.sha256\<close>, as FIPS 180-4 defines it, on machine words: padding, message schedule and
  compression. The digests of the sources are its values, so that what they compare is what the
  interpreter would compute.
\<close>

unbundle bit_operations_syntax

type_synonym w32 = "32 word"

text \<open>The largest \<open>r + d\<close> with \<open>d < 2 ^ b\<close> whose \<open>k\<close>-th power is at most \<open>n\<close>.\<close>

fun root_floor :: "nat \<Rightarrow> nat \<Rightarrow> nat \<Rightarrow> nat \<Rightarrow> nat" where
  "root_floor k n 0 r = r"
| "root_floor k n (Suc b) r = root_floor k n b (if (r + 2 ^ b) ^ k \<le> n then r + 2 ^ b else r)"

text \<open>The standard defines its constants as the first 32 bits of the fractional parts of the cube roots
  of the first 64 primes, and of the square roots of the first eight.\<close>

definition root_fraction :: "nat \<Rightarrow> nat \<Rightarrow> w32" where
  "root_fraction k p = word_of_nat (root_floor k (p * 2 ^ (32 * k)) 37 0)"

definition is_prime :: "nat \<Rightarrow> bool" where
  "is_prime p \<longleftrightarrow> 2 \<le> p \<and> list_all (\<lambda>d. p mod d \<noteq> 0) [2..<p]"

definition sha_k :: "w32 list" where
  "sha_k = map (root_fraction 3) (filter is_prime [2..<312])"

definition sha_init :: "w32 list" where
  "sha_init = map (root_fraction 2) [2, 3, 5, 7, 11, 13, 17, 19]"

definition rotr :: "nat \<Rightarrow> w32 \<Rightarrow> w32" where
  "rotr n w = drop_bit n w OR push_bit (32 - n) w"

definition small0 :: "w32 \<Rightarrow> w32" where
  "small0 w = rotr 7 w XOR rotr 18 w XOR drop_bit 3 w"

definition small1 :: "w32 \<Rightarrow> w32" where
  "small1 w = rotr 17 w XOR rotr 19 w XOR drop_bit 10 w"

definition big0 :: "w32 \<Rightarrow> w32" where
  "big0 w = rotr 2 w XOR rotr 13 w XOR rotr 22 w"

definition big1 :: "w32 \<Rightarrow> w32" where
  "big1 w = rotr 6 w XOR rotr 11 w XOR rotr 25 w"

definition sha_ch :: "w32 \<Rightarrow> w32 \<Rightarrow> w32 \<Rightarrow> w32" where
  "sha_ch x y z = (x AND y) XOR (NOT x AND z)"

definition sha_maj :: "w32 \<Rightarrow> w32 \<Rightarrow> w32 \<Rightarrow> w32" where
  "sha_maj x y z = (x AND y) XOR (x AND z) XOR (y AND z)"

definition nat_be :: "nat \<Rightarrow> nat \<Rightarrow> bytes" where
  "nat_be n x = map (\<lambda>i. word_of_nat (x div 256 ^ i)) (rev [0..<n])"

definition sha_pad :: "bytes \<Rightarrow> bytes" where
  "sha_pad m = m @ 0x80 # replicate ((119 - length m mod 64) mod 64) 0 @ nat_be 8 (8 * length m)"

fun groups :: "nat \<Rightarrow> 'a list \<Rightarrow> 'a list list" where
  "groups n xs = (if n = 0 \<or> xs = [] then [] else take n xs # groups n (drop n xs))"

declare groups.simps [simp del]

definition be_word :: "bytes \<Rightarrow> w32" where
  "be_word bs = word_of_nat (be_nat bs)"

text \<open>The schedule, newest word first.\<close>

fun sha_extend :: "nat \<Rightarrow> w32 list \<Rightarrow> w32 list" where
  "sha_extend 0 ws = ws"
| "sha_extend (Suc n) ws = sha_extend n ((small1 (ws ! 1) + ws ! 6 + small0 (ws ! 14) + ws ! 15) # ws)"

definition sha_schedule :: "bytes \<Rightarrow> w32 list" where
  "sha_schedule block = rev (sha_extend 48 (rev (map be_word (groups 4 block))))"

fun sha_round :: "w32 \<times> w32 \<Rightarrow> w32 list \<Rightarrow> w32 list" where
  "sha_round (k, w) [a, b, c, d, e, f, g, h] =
     (let t1 = h + big1 e + sha_ch e f g + k + w; t2 = big0 a + sha_maj a b c in
      [t1 + t2, a, b, c, d + t1, e, f, g])"
| "sha_round kw st = st"

definition sha_block :: "bytes \<Rightarrow> w32 list \<Rightarrow> w32 list" where
  "sha_block block st = map2 (+) st (fold sha_round (zip sha_k (sha_schedule block)) st)"

definition sha256 :: "bytes \<Rightarrow> bytes" where
  "sha256 m = concat (map (\<lambda>w. nat_be 4 (unat w)) (fold sha_block (groups 64 (sha_pad m)) sha_init))"

definition sha256_hex :: "bytes \<Rightarrow> string" where
  "sha256_hex m = bytes_hex (sha256 m)"

section \<open>The size of a digest\<close>

lemma length_nat_be [simp]: "length (nat_be n x) = n"
  by (simp add: nat_be_def)

lemma sha_round_length: "length (sha_round kw st) = length st"
  by (cases "(kw, st)" rule: sha_round.cases) (auto simp: Let_def)

lemma sha_rounds_length: "length (fold sha_round kws st) = length st"
  by (induction kws arbitrary: st) (simp_all add: sha_round_length)

lemma sha_blocks_length: "length (fold sha_block bs st) = length st"
  by (induction bs arbitrary: st) (simp_all add: sha_block_def sha_rounds_length)

lemma length_sha256 [simp]: "length (sha256 m) = 32"
proof -
  have "length (fold sha_block (groups 64 (sha_pad m)) sha_init) = 8"
    by (simp add: sha_blocks_length sha_init_def)
  then show ?thesis by (simp add: sha256_def length_concat comp_def sum_list_triv)
qed

end
