(* ===== verification/Supervisor_Files.thy ===== *)
theory Supervisor_Files
  imports Json_Access File_System Sha256 Json_Laws Socket_Io
begin

text \<open>
  The file side of \<open>ccf/run.py\<close>: reading of bounded regular files, the PID file guard, and the
  pinned configuration. The kernel is a record of what it decides: the interference of other
  processes between two calls, the metadata of new files, and which processes exist.
\<close>

text \<open>What \<open>os.kill(pid, 0)\<close> tells.\<close>

datatype probe = Alive | Gone | Forbidden | ProbeFails string

record kernel =
  interfere :: interference
  own_uid :: nat
  new_stat :: "nat \<Rightarrow> stat"
  probe_pid :: "nat \<Rightarrow> nat \<Rightarrow> probe"

section \<open>Reading\<close>

definition check_regular :: "node \<Rightarrow> nat \<Rightarrow> bool \<Rightarrow> bytes res" where
  "check_regular n maximum reject_other_write =
     (if \<not> S_ISREG (st_mode (node_stat n)) \<or> reject_other_write \<and> other_write (st_mode (node_stat n))
      then Inl (ValueError ''configuration input must be regular and not writable by group or others'')
      else
        let body = take (maximum + 1) (node_data n) in
        if body = [] \<or> length body > maximum then Inl (ValueError ''configuration input size'') else Inr body)"

definition read_regular :: "kernel \<Rightarrow> string \<Rightarrow> nat \<Rightarrow> bool \<Rightarrow> ('z os_scheme, bytes) act" where
  "read_regular kn p maximum reject_other_write =
     bind_act (open_path (interfere kn) p) (\<lambda>n. lift_res (check_regular n maximum reject_other_write))"

definition strict_object :: json_hooks where
  "strict_object =
     \<lparr>pairs_hook = (\<lambda>ps. bindr (unique_pairs ''duplicate configuration field'' [] ps) (\<lambda>d. Inr (JDict d))),
      float_hook = (\<lambda>t. Inr (JFloat t)), const_hook = (\<lambda>t. Inr (JFloat t))\<rparr>"

section \<open>The PID file\<close>

text \<open>The pattern \<open>[1-9][0-9]{0,9}\n?\<close> and the bound of a process number.\<close>

definition pid_of :: "bytes \<Rightarrow> nat option" where
  "pid_of body =
     (let t = bytes_str body; ds = (if t \<noteq> [] \<and> last t = CHR 0x0A then butlast t else t) in
      if ds \<noteq> [] \<and> hd ds \<noteq> CHR ''0'' \<and> list_all is_digit ds \<and> length ds \<le> 10 \<and> digits_val ds \<le> 2147483647
      then Some (digits_val ds) else None)"

definition stat_identity :: "stat \<Rightarrow> nat \<times> nat \<times> 32 word \<times> nat \<times> nat" where
  "stat_identity st = (st_dev st, st_ino st, st_mode st, st_uid st, st_ctime_ns st)"

definition owned_regular :: "kernel \<Rightarrow> stat \<Rightarrow> bool" where
  "owned_regular kn st \<longleftrightarrow> S_ISREG (st_mode st) \<and> st_uid st = own_uid kn \<and> \<not> other_write (st_mode st)"

text \<open>The last part: the file is removed only when its entry is still the one inspected.\<close>

definition remove_unchanged :: "kernel \<Rightarrow> ident \<Rightarrow> string \<Rightarrow> stat \<Rightarrow> ('z os_scheme, unit) act" where
  "remove_unchanged kn d name original =
     bind_act (stat_at (interfere kn) d name) (\<lambda>current.
       if stat_identity current \<noteq> stat_identity original
       then raise_act (RuntimeError ''CCF PID file changed during inspection; refusing to remove it'')
       else unlink_at (interfere kn) d name)"

definition retire_pid_node :: "kernel \<Rightarrow> ident \<Rightarrow> string \<Rightarrow> node \<Rightarrow> ('z os_scheme, unit) act" where
  "retire_pid_node kn d name n s =
     (if \<not> owned_regular kn (node_stat n)
      then (Inl (RuntimeError ''unsafe CCF PID file; refusing to remove it''), s)
      else case pid_of (take 33 (node_data n)) of
        None \<Rightarrow> (Inl (RuntimeError ''invalid CCF PID file; refusing to remove it''), s)
      | Some pid \<Rightarrow>
          (case probe_pid kn (os_calls s) pid of
             Alive \<Rightarrow> (Inl (RuntimeError ''CCF PID still belongs to a running process; refusing to start''), s)
           | Gone \<Rightarrow> remove_unchanged kn d name (node_stat n) s
           | Forbidden \<Rightarrow> (Inl (RuntimeError ''CCF PID belongs to an inaccessible process; refusing to start''), s)
           | ProbeFails m \<Rightarrow> (Inl (OSError m), s)))"

definition retire_stale_pid :: "kernel \<Rightarrow> ident \<Rightarrow> string \<Rightarrow> ('z os_scheme, unit) act" where
  "retire_stale_pid kn d name s =
     (case open_at (interfere kn) d name s of
        (Inl e, s1) \<Rightarrow> if e = FileNotFoundError then (Inr (), s1) else (Inl e, s1)
      | (Inr n, s1) \<Rightarrow> retire_pid_node kn d name n s1)"

subsection \<open>The guard\<close>

text \<open>The locks that this supervisor holds, on the entry of a directory.\<close>

record sup_os = os +
  locked :: "(ident \<times> string) list"

definition lock_name :: string where
  "lock_name = ''.agentdns-supervisor.lock''"

definition pid_path :: "path \<Rightarrow> json dict \<Rightarrow> path res" where
  "pid_path state config =
     bindr (case map_of config ''output_files'' of
              None \<Rightarrow> Inr []
            | Some (JDict d) \<Rightarrow> Inr d
            | Some _ \<Rightarrow> Inl (AttributeError ''get'')) (\<lambda>outputs.
     bindr (case map_of outputs ''pid_file'' of
              None \<Rightarrow> Inr ''my_node.pid''
            | Some (JStr p) \<Rightarrow> Inr p
            | Some _ \<Rightarrow> Inl (TypeError ''path'')) (\<lambda>name.
       let p = (if is_absolute (parse_path name) then parse_path name else path_join state (parse_path name)) in
       if has_dotdot p \<or> \<not> is_relative_to p state
       then Inl (RuntimeError ''CCF PID file must be within the state directory'')
       else Inr p))"

text \<open>\<open>os.open(..., O_RDWR | O_CREAT | O_NOFOLLOW | O_NONBLOCK, 0o600)\<close>.\<close>

definition open_lock :: "kernel \<Rightarrow> ident \<Rightarrow> ('z os_scheme, stat) act" where
  "open_lock kn d s =
     (let s1 = enter (interfere kn) s in
      case entries (files s1) d lock_name of
        None \<Rightarrow>
          let st = (new_stat kn (os_calls s))\<lparr>st_mode := 0x8180, st_uid := own_uid kn\<rparr> in
          (Inr st, s1\<lparr>files := set_entry d lock_name (Some \<lparr>node_stat = st, node_data = [], node_open = Readable\<rparr>) (files s1)\<rparr>)
      | Some n \<Rightarrow> (bindr (open_node n) (\<lambda>n. Inr (node_stat n)), s1))"

definition acquire_lock :: "kernel \<Rightarrow> unit res \<Rightarrow> ident \<Rightarrow> ('z sup_os_scheme, unit) act" where
  "acquire_lock kn flock d =
     bind_act (open_lock kn d) (\<lambda>metadata s.
       if \<not> owned_regular kn metadata then (Inl (RuntimeError ''unsafe CCF supervisor lock''), s)
       else case flock of
         Inl e \<Rightarrow> (if e = BlockingIOError then Inl (RuntimeError ''another supervisor owns this CCF state directory'')
                   else Inl e, s)
       | Inr _ \<Rightarrow> (Inr (), s\<lparr>locked := (d, lock_name) # locked s\<rparr>))"

text \<open>The block under the guard, between the two retirements, with the lock held.\<close>

definition guarded :: "kernel \<Rightarrow> ident \<Rightarrow> string \<Rightarrow> ('z sup_os_scheme, 'a) act \<Rightarrow> ('z sup_os_scheme, 'a) act" where
  "guarded kn directory name body =
     bind_act (retire_stale_pid kn directory name) (\<lambda>_ s.
       let (r, s1) = body s;
           (x, s2) = catch_act (\<lambda>e. is_OSError e \<or> is_RuntimeError e) (\<lambda>_ s. (Inr (), s)) (retire_stale_pid kn directory name) s1 in
       (bindr x (\<lambda>_. r), s2))"

definition ccf_pid_guard ::
    "kernel \<Rightarrow> (string \<Rightarrow> path) \<Rightarrow> unit res \<Rightarrow> json dict \<Rightarrow> string \<Rightarrow> ('z sup_os_scheme, 'a) act \<Rightarrow> ('z sup_os_scheme, 'a) act" where
  "ccf_pid_guard kn resolve flock config state_dir body =
     (let state = resolve state_dir in
      bind_act (lift_res (pid_path state config)) (\<lambda>p.
      bind_act (open_dir (interfere kn) (path_str state)) (\<lambda>state_directory.
      bind_act (open_dir (interfere kn) (path_str (path_parent p))) (\<lambda>directory.
      bind_act (acquire_lock kn flock (ident_of state_directory)) (\<lambda>_.
        finally_act (\<lambda>s. s\<lparr>locked := tl (locked s)\<rparr>)
          (guarded kn (ident_of directory) (path_name p) body))))))"

subsection \<open>Laws of the PID file\<close>

definition dead_pid_file :: "kernel \<Rightarrow> ident \<Rightarrow> string \<Rightarrow> 'z os_scheme \<Rightarrow> bool" where
  "dead_pid_file kn d name s \<longleftrightarrow>
     (let s1 = enter (interfere kn) s; s2 = enter (interfere kn) s1 in
      \<exists>n pid current. entries (files s1) d name = Some n \<and> owned_regular kn (node_stat n)
        \<and> pid_of (take 33 (node_data n)) = Some pid \<and> probe_pid kn (os_calls s1) pid = Gone
        \<and> entries (files s2) d name = Some current \<and> stat_identity (node_stat current) = stat_identity (node_stat n))"

lemma open_node_Inr: "open_node n = Inr m \<longleftrightarrow> m = n \<and> \<not> S_ISLNK (st_mode (node_stat n)) \<and> node_open n = Readable"
  by (auto simp: open_node_def split: access.splits)

lemma retire_stale_pid_removes:
  assumes "retire_stale_pid kn d name s = (r, s')"
  shows "unlinked s' = unlinked s \<or> r = Inr () \<and> unlinked s' = unlinked s @ [(d, name)] \<and> dead_pid_file kn d name s"
proof -
  let ?s1 = "enter (interfere kn) s"
  let ?s2 = "enter (interfere kn) ?s1"
  show ?thesis
  proof (cases "unlinked s' = unlinked s")
    case False
    then obtain n pid current where n: "entries (files ?s1) d name = Some n" "owned_regular kn (node_stat n)"
      "pid_of (take 33 (node_data n)) = Some pid" "probe_pid kn (os_calls ?s1) pid = Gone"
      "entries (files ?s2) d name = Some current" "stat_identity (node_stat current) = stat_identity (node_stat n)"
      "unlink_at (interfere kn) d name ?s2 = (r, s')"
      using assms
      by (auto simp: retire_stale_pid_def open_at_def stat_at_def Let_def retire_pid_node_def remove_unchanged_def
          bind_act_def raise_act_def open_node_Inr split: if_splits option.splits sum.splits probe.splits)
    then have "dead_pid_file kn d name s" unfolding dead_pid_file_def Let_def by blast
    moreover have "r = Inr ()" "unlinked s' = unlinked s @ [(d, name)]"
      using unlink_at_only [OF n(7)] False by (auto split: if_splits)
    ultimately show ?thesis by blast
  qed simp
qed

lemma retire_stale_pid_locked:
  fixes s :: "'z sup_os_scheme"
  assumes "retire_stale_pid kn d name s = (r, s')"
  shows "locked s' = locked s"
  using assms
  by (auto simp: retire_stale_pid_def open_at_def stat_at_def unlink_at_def enter_def Let_def retire_pid_node_def
      remove_unchanged_def bind_act_def raise_act_def split: if_splits option.splits sum.splits prod.splits probe.splits)

text \<open>Without interference a successful retirement leaves no PID file.\<close>

lemma retire_stale_pid_absent:
  assumes "retire_stale_pid kn d name s = (Inr (), s')" "interfere kn = (\<lambda>_ w. w)"
  shows "entries (files s') d name = None"
  using assms
  by (auto simp: retire_stale_pid_def open_at_def stat_at_def unlink_at_def enter_def Let_def retire_pid_node_def
      remove_unchanged_def bind_act_def raise_act_def set_entry_def open_node_def
      split: if_splits option.splits sum.splits prod.splits access.splits probe.splits)

text \<open>The guard as seen by its block: it either fails without running it, or runs it once, in a state
  with the lock.\<close>

lemma acquire_lock_cases:
  fixes s :: "'z sup_os_scheme"
  assumes "acquire_lock kn flock d s = (r, s')"
  obtains (failed) e where "r = Inl e" "locked s' = locked s"
  | (held) "r = Inr ()" "flock = Inr ()" "locked s' = (d, lock_name) # locked s"
proof -
  obtain x s1 where x: "open_lock kn d s = (x, s1)" by fastforce
  have "locked s1 = locked s" using x by (auto simp: open_lock_def enter_def Let_def split: option.splits)
  with assms x show thesis
    by (cases x; cases flock) (auto simp: acquire_lock_def bind_act_def intro: failed held split: if_splits)
qed

lemma retire_stale_pid_error:
  assumes "retire_stale_pid kn d name s = (Inl e, s')"
  shows "is_OSError e \<or> is_RuntimeError e"
  using assms
  by (auto simp: retire_stale_pid_def open_at_def stat_at_def unlink_at_def Let_def retire_pid_node_def
      remove_unchanged_def bind_act_def raise_act_def open_node_def
      split: if_splits option.splits sum.splits prod.splits access.splits probe.splits)

lemma guarded_runs:
  fixes s :: "'z sup_os_scheme"
  assumes "retire_stale_pid kn d name s = (Inr (), s1)" "body s1 = (r, s2)"
  shows "\<exists>s'. guarded kn d name body s = (r, s') \<and> locked s' = locked s2"
proof -
  obtain x s3 where x: "retire_stale_pid kn d name s2 = (x, s3)" by fastforce
  have "locked s3 = locked s2" using x by (rule retire_stale_pid_locked)
  with assms x show ?thesis
    using retire_stale_pid_error [of kn d name s2 _ s3]
    by (cases x) (auto simp: guarded_def bind_act_def catch_act_def Let_def)
qed

lemma guarded_cases:
  fixes s :: "'z sup_os_scheme"
  obtains (failed) e s0 where "\<And>body :: ('z sup_os_scheme, 'a) act. guarded kn d name body s = (Inl e, s0)" "locked s0 = locked s"
  | (ran) s1 where "locked s1 = locked s" "interfere kn = (\<lambda>_ w. w) \<longrightarrow> entries (files s1) d name = None"
      "\<And>body :: ('z sup_os_scheme, 'a) act. \<exists>s'. guarded kn d name body s = (fst (body s1), s') \<and> locked s' = locked (snd (body s1))"
proof -
  obtain x s1 where x: "retire_stale_pid kn d name s = (x, s1)" by fastforce
  have l: "locked s1 = locked s" using x by (rule retire_stale_pid_locked)
  show thesis
  proof (cases x)
    case (Inl e)
    with x l show thesis by (intro failed [of e s1]) (simp_all add: guarded_def bind_act_def)
  next
    case (Inr u)
    with x have r: "retire_stale_pid kn d name s = (Inr (), s1)" by simp
    show thesis
    proof (rule ran [OF l])
      show "interfere kn = (\<lambda>_ w. w) \<longrightarrow> entries (files s1) d name = None" using retire_stale_pid_absent [OF r] by blast
      show "\<exists>s'. guarded kn d name body s = (fst (body s1), s') \<and> locked s' = locked (snd (body s1))"
        for body :: "('z sup_os_scheme, 'a) act"
        using guarded_runs [OF r, of body "fst (body s1)" "snd (body s1)"] by simp
    qed
  qed
qed

section \<open>The pinned configuration\<close>

definition canonical_manifest_path :: "string \<Rightarrow> bool" where
  "canonical_manifest_path p \<longleftrightarrow> is_absolute (parse_path p) \<and> path_str (parse_path p) = p \<and> \<not> has_dotdot (parse_path p)"

definition is_digest :: "string \<Rightarrow> bool" where
  "is_digest t \<longleftrightarrow> length t = 64 \<and> list_all is_lower_hex t"

definition json_digest :: "json \<Rightarrow> string res" where
  "json_digest v =
     (case v of
        JStr t \<Rightarrow> if is_digest t then Inr t else Inl (ValueError ''canonical manifest file digest required'')
      | _ \<Rightarrow> Inl (ValueError ''canonical manifest file digest required''))"

fun verify_files ::
    "kernel \<Rightarrow> (string \<times> json) list \<Rightarrow> bytes dict \<Rightarrow> nat \<Rightarrow> ('z os_scheme, bytes dict) act" where
  "verify_files kn [] verified total_size s = (Inr verified, s)"
| "verify_files kn ((p, v) # rest) verified total_size s =
     (if \<not> canonical_manifest_path p then (Inl (ValueError ''canonical absolute manifest path required''), s)
      else bind_act (lift_res (json_digest v)) (\<lambda>digest.
        bind_act (read_regular kn p (8 * 1024 * 1024) False) (\<lambda>body s1.
          if total_size + length body > 32 * 1024 * 1024
          then (Inl (ValueError ''configuration manifest aggregate size''), s1)
          else if sha256_hex body \<noteq> digest then (Inl (ValueError ''configuration file digest mismatch''), s1)
          else verify_files kn rest (AList.update p body verified) (total_size + length body) s1)) s)"

text \<open>The files that a node configuration refers to.\<close>

definition member_files :: "json \<Rightarrow> json list res" where
  "member_files member =
     bindr (map_res (\<lambda>field. bindr (jcontains field member) (\<lambda>present.
        if present then bindr (jindex member field) (\<lambda>v. bindr (hashable v) (\<lambda>v. Inr [v])) else Inr []))
        [''certificate_file'', ''encryption_public_key_file'', ''data_json_file'']) (\<lambda>vss. Inr (concat vss))"

definition start_files :: "json \<Rightarrow> json list res" where
  "start_files command =
     bindr (jindex command ''start'') (\<lambda>start.
     bindr (jindex start ''constitution_files'') (\<lambda>constitution.
     bindr (jiter constitution) (\<lambda>files.
     bindr (map_res hashable files) (\<lambda>files.
     bindr (jindex start ''members'') (\<lambda>members.
     bindr (jiter members) (\<lambda>members.
     bindr (map_res member_files members) (\<lambda>vss. Inr (files @ concat vss))))))))"

definition command_files :: "json \<Rightarrow> json list res" where
  "command_files command =
     bindr (jindex command ''type'') (\<lambda>kind.
     if kind = JStr ''Start'' then start_files command
     else if kind = JStr ''Join'' then
       bindr (jindex command ''service_certificate_file'') (\<lambda>v. bindr (hashable v) (\<lambda>v. Inr [v]))
     else if kind = JStr ''Recover'' then
       bindr (jindex command ''recover'') (\<lambda>recover.
       bindr (jindex recover ''previous_service_identity_file'') (\<lambda>v. bindr (hashable v) (\<lambda>v. Inr [v])))
     else Inl (ValueError ''unknown CCF startup command''))"

definition data_files :: "json \<Rightarrow> json list res" where
  "data_files config =
     bindr (map_res (\<lambda>field. bindr (jcontains field config) (\<lambda>present.
        if present then bindr (jindex config field) (\<lambda>v. bindr (hashable v) (\<lambda>v. Inr [v])) else Inr []))
        [''node_data_json_file'', ''service_data_json_file'']) (\<lambda>vss. Inr (concat vss))"

definition required_files :: "string \<Rightarrow> json \<Rightarrow> json list res" where
  "required_files config_path config =
     bindr (jindex config ''command'') (\<lambda>command.
     bindr (command_files command) (\<lambda>files.
     bindr (data_files config) (\<lambda>more. Inr (JStr config_path # files @ more))))"

text \<open>The private copies.\<close>

definition create_at :: "kernel \<Rightarrow> ident \<Rightarrow> string \<Rightarrow> bytes \<Rightarrow> ('z os_scheme, unit) act" where
  "create_at kn d name data s =
     (let s1 = enter (interfere kn) s in
      case entries (files s1) d name of
        Some _ \<Rightarrow> (Inl (OSError ''EEXIST''), s1)
      | None \<Rightarrow>
          let st = (new_stat kn (os_calls s))\<lparr>st_mode := 0x8180, st_uid := own_uid kn\<rparr> in
          (Inr (), s1\<lparr>files := set_entry d name (Some \<lparr>node_stat = st, node_data = data, node_open = Readable\<rparr>) (files s1)\<rparr>))"

definition mkdtemp :: "kernel \<Rightarrow> string res \<Rightarrow> ('z os_scheme, stat) act" where
  "mkdtemp kn outcome s =
     (let s1 = enter (interfere kn) s in
      case outcome of
        Inl e \<Rightarrow> (Inl e, s1)
      | Inr p \<Rightarrow>
          let st = (new_stat kn (os_calls s))\<lparr>st_mode := 0x41C0, st_uid := own_uid kn\<rparr> in
          (Inr st, s1\<lparr>files := (files s1)\<lparr>dirs := (dirs (files s1))(p := Some st),
                                          entries := (entries (files s1))(ident_of st := (\<lambda>_. None))\<rparr>\<rparr>))"

definition copy_name :: "string \<Rightarrow> string" where
  "copy_name p = sha256_hex (encode_str p) @ ''.data''"

fun write_copies :: "kernel \<Rightarrow> ident \<Rightarrow> bytes dict \<Rightarrow> ('z os_scheme, unit) act" where
  "write_copies kn d [] s = (Inr (), s)"
| "write_copies kn d ((p, body) # rest) s =
     bind_act (create_at kn d (copy_name p) body) (\<lambda>_. write_copies kn d rest) s"

primrec substitute :: "string dict \<Rightarrow> json \<Rightarrow> json" where
  "substitute paths JNull = JNull"
| "substitute paths (JBool b) = JBool b"
| "substitute paths (JInt i) = JInt i"
| "substitute paths (JFloat t) = JFloat t"
| "substitute paths (JStr s) = JStr (case map_of paths s of None \<Rightarrow> s | Some p \<Rightarrow> p)"
| "substitute paths (JList xs) = JList (map (substitute paths) xs)"
| "substitute paths (JDict d) = JDict (map (map_prod id (substitute paths)) d)"

definition copy_paths :: "string \<Rightarrow> bytes dict \<Rightarrow> string dict" where
  "copy_paths bootstrap verified = map (\<lambda>(p, _). (p, bootstrap @ ''/'' @ copy_name p)) verified"

definition manifest_entries :: "json \<Rightarrow> json dict res" where
  "manifest_entries manifest =
     (case manifest of
        JDict d \<Rightarrow> if 1 \<le> length d \<and> length d \<le> 128 then Inr d else Inl (ValueError ''configuration manifest entries'')
      | _ \<Rightarrow> Inl (ValueError ''configuration manifest entries''))"

definition load_manifest :: "nat \<Rightarrow> bytes \<Rightarrow> string \<Rightarrow> json dict res" where
  "load_manifest depth raw expected_digest =
     (if sha256_hex raw \<noteq> expected_digest then Inl (ValueError ''configuration manifest digest mismatch'')
      else bindr (json_loads depth strict_object raw) manifest_entries)"

definition select_config :: "nat \<Rightarrow> string \<Rightarrow> bytes dict \<Rightarrow> json res" where
  "select_config depth config_path verified =
     (case map_of verified config_path of
        None \<Rightarrow> Inl (ValueError ''node configuration missing from manifest'')
      | Some body \<Rightarrow>
          bindr (json_loads depth strict_object body) (\<lambda>config.
          bindr (required_files config_path config) (\<lambda>required.
            if list_all (\<lambda>v. \<exists>p \<in> set (map fst verified). v = JStr p) required then Inr config
            else Inl (ValueError ''referenced bootstrap file missing from manifest''))))"

definition freeze :: "kernel \<Rightarrow> string res \<Rightarrow> bytes dict \<Rightarrow> json \<Rightarrow> ('z os_scheme, string \<times> json) act" where
  "freeze kn tmp verified config =
     bind_act (mkdtemp kn tmp) (\<lambda>st.
     bind_act (lift_res tmp) (\<lambda>bootstrap.
     bind_act (write_copies kn (ident_of st) verified) (\<lambda>_.
       let frozen = substitute (copy_paths bootstrap verified) config in
       bind_act (create_at kn (ident_of st) ''node.json'' (encode_str (dumps quote_ascii '', '' '': '' frozen)))
         (\<lambda>_. ret_act (bootstrap @ ''/node.json'', frozen)))))"

definition pinned_configuration ::
    "nat \<Rightarrow> kernel \<Rightarrow> path \<Rightarrow> string res \<Rightarrow> string \<Rightarrow> string \<Rightarrow> string \<Rightarrow> ('z os_scheme, string \<times> json) act" where
  "pinned_configuration depth kn cwd tmp config_path manifest_path expected_digest =
     (if \<not> is_digest expected_digest then raise_act (ValueError ''canonical configuration manifest digest required'')
      else
        bind_act (read_regular kn manifest_path 65536 False) (\<lambda>raw.
        bind_act (lift_res (load_manifest depth raw expected_digest)) (\<lambda>manifest.
        bind_act (verify_files kn manifest [] 0) (\<lambda>verified.
        bind_act (lift_res (select_config depth (path_str (absolute cwd (parse_path config_path))) verified)) (\<lambda>config.
          freeze kn tmp verified config)))))"

definition load_transfer_secret :: "nat \<Rightarrow> kernel \<Rightarrow> string \<Rightarrow> ('z os_scheme, bytes) act" where
  "load_transfer_secret depth kn p =
     bind_act (read_regular kn p 65536 True) (\<lambda>body.
       if body = [] \<or> length body > 65536 then raise_act (ValueError ''TSIG provisioning file size'')
       else lift_res (case json_loads depth plain_hooks body of
         Inl e \<Rightarrow> if is_ValueError e then Inl (ValueError ''invalid TSIG provisioning JSON'') else Inl e
       | Inr (JDict d) \<Rightarrow>
           if same_keys d [''key_name'', ''secret_base64url'', ''zones''] then Inr body
           else Inl (ValueError ''invalid TSIG provisioning schema'')
       | Inr _ \<Rightarrow> Inl (ValueError ''invalid TSIG provisioning schema'')))"

section \<open>Laws of the pinned configuration\<close>

interpretation config_json: strict_hook strict_object
  by unfold_locales (auto simp: strict_object_def unique_pairs_eq)

lemma pid_path_inside: "pid_path state config = Inr p \<Longrightarrow> is_relative_to p state \<and> \<not> has_dotdot p"
  by (auto simp: pid_path_def Let_def split: if_splits)

lemma ccf_pid_guard_cases:
  fixes s :: "'z sup_os_scheme"
  obtains (failed) e s0 where
      "\<And>body :: ('z sup_os_scheme, 'a) act. ccf_pid_guard kn resolve flock config dir body s = (Inl e, s0)" "locked s0 = locked s"
  | (ran) p st d s1 where "pid_path (resolve dir) config = Inr p" "flock = Inr ()"
      "locked s1 = (ident_of st, lock_name) # locked s" "dirs (files (enter (interfere kn) s)) (path_str (resolve dir)) = Some st"
      "interfere kn = (\<lambda>_ w. w) \<longrightarrow> dirs (files s) (path_str (path_parent p)) = Some d \<and> entries (files s1) (ident_of d) (path_name p) = None"
      "\<And>body :: ('z sup_os_scheme, 'a) act. \<exists>s'. ccf_pid_guard kn resolve flock config dir body s = (fst (body s1), s')
          \<and> locked s' = tl (locked (snd (body s1)))"
proof -
  let ?state = "resolve dir"
  have keep: "locked s' = locked t" if "open_dir env q t = (r, s')" for env q r s' and t :: "'z sup_os_scheme"
    using that by (auto simp: open_dir_def enter_def Let_def)
  show thesis
  proof (cases "pid_path ?state config")
    case (Inl e)
    then show thesis by (intro failed [of e s]) (simp_all add: ccf_pid_guard_def bind_act_def lift_res_def Let_def)
  next
    case (Inr p)
    obtain a s1 where a: "open_dir (interfere kn) (path_str ?state) s = (a, s1)" by fastforce
    show thesis
    proof (cases a)
      case (Inl e)
      with Inr a keep [OF a] show thesis
        by (intro failed [of e s1]) (simp_all add: ccf_pid_guard_def bind_act_def lift_res_def Let_def \<open>pid_path _ _ = Inr p\<close>)
    next
      case st: (Inr st)
      obtain b s2 where b: "open_dir (interfere kn) (path_str (path_parent p)) s1 = (b, s2)" by fastforce
      show thesis
      proof (cases b)
        case (Inl e)
        with Inr a st b keep [OF a] keep [OF b] show thesis
          by (intro failed [of e s2]) (simp_all add: ccf_pid_guard_def bind_act_def lift_res_def Let_def)
      next
        case d: (Inr d)
        obtain c s3 where c: "acquire_lock kn flock (ident_of st) s2 = (c, s3)" by fastforce
        from c show thesis
        proof (cases rule: acquire_lock_cases)
          case (failed e)
          with Inr a st b d c keep [OF a] keep [OF b] show thesis
            by (intro that(1) [of e s3]) (simp_all add: ccf_pid_guard_def bind_act_def lift_res_def Let_def)
        next
          case held
          have run: "ccf_pid_guard kn resolve flock config dir body s =
              finally_act (\<lambda>s. s\<lparr>locked := tl (locked s)\<rparr>) (guarded kn (ident_of d) (path_name p) body) s3"
            for body :: "('z sup_os_scheme, 'a) act"
            using Inr a st b d c held by (simp add: ccf_pid_guard_def bind_act_def lift_res_def Let_def)
          have where_st: "dirs (files (enter (interfere kn) s)) (path_str ?state) = Some st"
            using a st by (auto simp: open_dir_def Let_def split: option.splits if_splits)
          have where_d: "interfere kn = (\<lambda>_ w. w) \<longrightarrow> dirs (files s) (path_str (path_parent p)) = Some d"
            using a st b d by (auto simp: open_dir_def enter_def Let_def split: option.splits if_splits)
          show thesis
          proof (cases rule: guarded_cases [of kn "ident_of d" "path_name p" s3, where 'a = 'a])
            case (failed e s0)
            with run held keep [OF a] keep [OF b] show thesis
              by (intro that(1) [of e "s0\<lparr>locked := tl (locked s0)\<rparr>"]) (simp_all add: finally_act_def)
          next
            case (ran s4)
            show thesis
            proof (rule that(2) [of p s4 st d])
              show "locked s4 = (ident_of st, lock_name) # locked s" using ran(1) held keep [OF a] keep [OF b] by simp
              show "\<exists>s'. ccf_pid_guard kn resolve flock config dir body s = (fst (body s4), s')
                  \<and> locked s' = tl (locked (snd (body s4)))" for body :: "('z sup_os_scheme, 'a) act"
                using ran(3) [of body] run [of body] by (auto simp: finally_act_def)
            qed (use Inr held where_st where_d ran(2) in auto)
          qed
        qed
      qed
    qed
  qed
qed

end
