(* ===== verification/Supervisor_Config.thy ===== *)
theory Supervisor_Config
  imports Supervisor_Files
begin

text \<open>
  What the PID guard and the pinned configuration of \<open>ccf/run.py\<close> guarantee.
\<close>

section \<open>Verified files\<close>

definition file_verified :: "(string \<times> json) \<Rightarrow> bytes \<Rightarrow> bool" where
  "file_verified entry body \<longleftrightarrow> canonical_manifest_path (fst entry) \<and> snd entry = JStr (sha256_hex body)
     \<and> body \<noteq> [] \<and> length body \<le> 8 * 1024 * 1024"

lemma check_regular_Inr:
  assumes "check_regular n maximum reject = Inr body"
  shows "S_ISREG (st_mode (node_stat n))" "body = node_data n" "body \<noteq> []" "length body \<le> maximum"
    "reject \<longrightarrow> \<not> other_write (st_mode (node_stat n))"
  using assms by (auto simp: check_regular_def Let_def split: if_splits)

lemma read_regular_Inr:
  assumes "read_regular kn p maximum reject s = (Inr body, s')"
  shows "body \<noteq> []" "length body \<le> maximum"
  using assms check_regular_Inr(3,4) by (fastforce simp: read_regular_def lift_res_def)+

lemma verify_files_Inr:
  "verify_files kn ms verified n s = (Inr out, s') \<Longrightarrow> distinct (map fst verified @ map fst ms) \<Longrightarrow> n \<le> 32 * 1024 * 1024 \<Longrightarrow>
   \<exists>bodies. out = verified @ zip (map fst ms) bodies \<and> list_all2 file_verified ms bodies
     \<and> n + sum_list (map length bodies) \<le> 32 * 1024 * 1024"
proof (induction ms arbitrary: verified n s)
  case Nil
  then show ?case by simp
next
  case (Cons m ms)
  obtain p v where m: "m = (p, v)" by (cases m)
  from Cons.prems(1) m obtain digest body s1 where
    c: "canonical_manifest_path p" "json_digest v = Inr digest" "read_regular kn p (8 * 1024 * 1024) False s = (Inr body, s1)"
      "n + length body \<le> 32 * 1024 * 1024" "sha256_hex body = digest"
      "verify_files kn ms (AList.update p body verified) (n + length body) s1 = (Inr out, s')"
    by (auto simp: lift_res_def not_less split: if_splits)
  have v: "v = JStr digest" using c(2) by (auto simp: json_digest_def split: json.splits if_splits)
  have new: "AList.update p body verified = verified @ [(p, body)]"
    using Cons.prems(2) m by (intro update_new) auto
  from Cons.IH [OF c(6)] Cons.prems(2) c(4) m new obtain bodies where
    b: "out = (verified @ [(p, body)]) @ zip (map fst ms) bodies" "list_all2 file_verified ms bodies"
      "n + length body + sum_list (map length bodies) \<le> 32 * 1024 * 1024" by auto
  have "file_verified m body"
    using c read_regular_Inr [OF c(3)] m v by (simp add: file_verified_def)
  with b m show ?case by (intro exI [of _ "body # bodies"]) simp
qed

lemma manifest_entries_Inr: "manifest_entries v = Inr d \<Longrightarrow> v = JDict d \<and> 1 \<le> length d \<and> length d \<le> 128"
  by (cases v) (auto simp: manifest_entries_def split: if_splits)

section \<open>The private copies\<close>

lemma create_at_Inr:
  assumes "create_at kn d name data s = (Inr (), s')" "interfere kn = (\<lambda>_ w. w)"
  shows "\<exists>n. entries (files s') d name = Some n \<and> node_data n = data"
    "entries (files s) d other = Some m \<Longrightarrow> entries (files s') d other = Some m" "dirs (files s') = dirs (files s)"
  using assms by (auto simp: create_at_def enter_def Let_def set_entry_def split: option.splits)

lemma write_copies_Inr:
  assumes "write_copies kn d vs s = (Inr (), s')" "interfere kn = (\<lambda>_ w. w)"
  shows "(\<forall>(p, body) \<in> set vs. \<exists>n. entries (files s') d (copy_name p) = Some n \<and> node_data n = body)
    \<and> (\<forall>other m. entries (files s) d other = Some m \<longrightarrow> entries (files s') d other = Some m) \<and> dirs (files s') = dirs (files s)"
  using assms(1)
proof (induction vs arbitrary: s)
  case Nil
  then show ?case by simp
next
  case (Cons v vs)
  obtain p body where v: "v = (p, body)" by (cases v)
  from Cons.prems v obtain s1 where s1: "create_at kn d (copy_name p) body s = (Inr (), s1)" "write_copies kn d vs s1 = (Inr (), s')"
    by auto
  note c = create_at_Inr [OF s1(1) assms(2)] and ih = Cons.IH [OF s1(2)]
  show ?case using c ih v by (auto; metis)
qed

definition copies_written :: "string \<Rightarrow> bytes dict \<Rightarrow> json \<Rightarrow> 'z os_scheme \<Rightarrow> bool" where
  "copies_written bootstrap verified config s \<longleftrightarrow>
     (\<exists>st. dirs (files s) bootstrap = Some st
        \<and> (\<forall>(p, body) \<in> set verified. \<exists>n. entries (files s) (ident_of st) (copy_name p) = Some n \<and> node_data n = body)
        \<and> (\<exists>n. entries (files s) (ident_of st) ''node.json'' = Some n
             \<and> node_data n = encode_str (dumps quote_ascii '', '' '': '' config)))"

lemma freeze_Inr:
  assumes "freeze kn tmp verified config s = (Inr (frozen, config'), s')"
  shows "\<exists>bootstrap. tmp = Inr bootstrap \<and> frozen = bootstrap @ ''/node.json''
    \<and> config' = substitute (copy_paths bootstrap verified) config
    \<and> (interfere kn = (\<lambda>_ w. w) \<longrightarrow> copies_written bootstrap verified config' s')"
proof -
  from assms obtain st s1 bootstrap s2 s3 where a: "mkdtemp kn tmp s = (Inr st, s1)" "tmp = Inr bootstrap"
    "write_copies kn (ident_of st) verified s1 = (Inr (), s2)"
    "create_at kn (ident_of st) ''node.json'' (encode_str (dumps quote_ascii '', '' '': '' config')) s2 = (Inr (), s')"
    "config' = substitute (copy_paths bootstrap verified) config" "frozen = bootstrap @ ''/node.json''"
    by (auto simp: freeze_def lift_res_def ret_act_def Let_def)
  have "copies_written bootstrap verified config' s'" if calm: "interfere kn = (\<lambda>_ w. w)"
  proof -
    have dir: "dirs (files s1) bootstrap = Some st"
      using a(1,2) by (auto simp: mkdtemp_def enter_def Let_def)
    note w = write_copies_Inr [OF a(3) calm] and c = create_at_Inr [OF a(4) calm]
    show ?thesis unfolding copies_written_def
      using dir w c by (intro exI [of _ st]) (auto; metis)
  qed
  with a show ?thesis by blast
qed

section \<open>Properties\<close>

text \<open>(C14) A node starts from pinned bytes only. When \<open>pinned_configuration\<close> returns, the manifest that
  it read has the expected SHA-256 digest; each of its entries is a canonical absolute path with the
  digest of the bytes that were read from it, at most 8 MiB each and 32 MiB in all; the node
  configuration and every file that it refers to are among them; and the configuration handed on is the
  verified one with each verified path replaced by a copy of the verified bytes in a fresh directory,
  which is what that directory contains when no other process interferes.\<close>

theorem pinned_configuration_verified:
  assumes run: "pinned_configuration depth kn cwd tmp config_path manifest_path expected_digest s = (Inr (frozen, config), s')"
  shows "\<exists>raw manifest bodies body original required bootstrap.
    let verified = zip (map fst manifest) bodies; source = path_str (absolute cwd (parse_path config_path)) in
    sha256_hex raw = expected_digest \<and> json_loads depth strict_object raw = Inr (JDict manifest)
    \<and> list_all2 file_verified manifest bodies \<and> sum_list (map length bodies) \<le> 32 * 1024 * 1024
    \<and> map_of verified source = Some body \<and> json_loads depth strict_object body = Inr original
    \<and> required_files source original = Inr required \<and> list_all (\<lambda>v. \<exists>p \<in> set (map fst manifest). v = JStr p) required
    \<and> tmp = Inr bootstrap \<and> frozen = bootstrap @ ''/node.json'' \<and> config = substitute (copy_paths bootstrap verified) original
    \<and> (interfere kn = (\<lambda>_ w. w) \<longrightarrow> copies_written bootstrap verified config s')"
proof -
  let ?source = "path_str (absolute cwd (parse_path config_path))"
  from run obtain raw s1 manifest verified s2 original where
    a: "read_regular kn manifest_path 65536 False s = (Inr raw, s1)" "load_manifest depth raw expected_digest = Inr manifest"
      "verify_files kn manifest [] 0 s1 = (Inr verified, s2)" "select_config depth ?source verified = Inr original"
      "freeze kn tmp verified original s2 = (Inr (frozen, config), s')"
    by (auto simp: pinned_configuration_def lift_res_def raise_act_def split: if_splits)
  have m: "sha256_hex raw = expected_digest" "json_loads depth strict_object raw = Inr (JDict manifest)"
    using a(2) manifest_entries_Inr by (auto simp: load_manifest_def split: if_splits)
  have "distinct (map fst manifest)" using config_json.loads_wf [OF m(2)] by simp
  with verify_files_Inr [OF a(3)] obtain bodies where
    b: "verified = zip (map fst manifest) bodies" "list_all2 file_verified manifest bodies" "sum_list (map length bodies) \<le> 32 * 1024 * 1024"
    by auto
  have keys: "map fst verified = map fst manifest" using b list_all2_lengthD [OF b(2)] by simp
  from a(4) obtain body required where c: "map_of verified ?source = Some body" "json_loads depth strict_object body = Inr original"
    "required_files ?source original = Inr required" "list_all (\<lambda>v. \<exists>p \<in> set (map fst verified). v = JStr p) required"
    by (auto simp: select_config_def split: option.splits if_splits)
  from freeze_Inr [OF a(5)] obtain bootstrap where
    d: "tmp = Inr bootstrap" "frozen = bootstrap @ ''/node.json''" "config = substitute (copy_paths bootstrap verified) original"
      "interfere kn = (\<lambda>_ w. w) \<longrightarrow> copies_written bootstrap verified config s'" by blast
  show ?thesis
    unfolding Let_def
    by (rule exI [of _ raw], rule exI [of _ manifest], rule exI [of _ bodies], rule exI [of _ body], rule exI [of _ original],
        rule exI [of _ required], rule exI [of _ bootstrap])
      (use m b c(1-3) c(4) [unfolded keys] d in simp)
qed

text \<open>A world with one verified configuration file.\<close>

lemma sha256_hex_digest: "is_digest (sha256_hex m)"
  by (simp add: is_digest_def sha256_hex_def bytes_hex_lower)

definition sample_stat :: "32 word \<Rightarrow> nat \<Rightarrow> stat" where
  "sample_stat mode ino = \<lparr>st_mode = mode, st_dev = 1, st_ino = ino, st_uid = 0, st_ctime_ns = 0\<rparr>"

definition sample_kernel :: kernel where
  "sample_kernel = \<lparr>interfere = (\<lambda>_ w. w), own_uid = 0, new_stat = (\<lambda>n. sample_stat 0 (n + 100)), probe_pid = (\<lambda>_ _. Gone)\<rparr>"

definition sample_os :: "(string \<times> bytes) list \<Rightarrow> sup_os" where
  "sample_os fs = \<lparr>files = \<lparr>dirs = [''/'' \<mapsto> sample_stat 0x41C0 1],
       entries = (\<lambda>d name. if d = (1, 1) then map_option (\<lambda>data. \<lparr>node_stat = sample_stat 0x8180 2, node_data = data,
          node_open = Readable\<rparr>) (map_of fs name) else None)\<rparr>, os_calls = 0, unlinked = [], locked = []\<rparr>"

lemmas sample_os_defs = sample_stat_def sample_kernel_def sample_os_def

definition sample_node_config :: json where
  "sample_node_config = JDict [(''command'', JDict [(''type'', JStr ''Join''), (''service_certificate_file'', JStr ''/n'')])]"

definition sample_config_bytes :: bytes where
  "sample_config_bytes = encode_str (print_json sample_node_config)"

definition sample_manifest :: bytes where
  "sample_manifest = encode_str (print_json (JDict [(''/n'', JStr (sha256_hex sample_config_bytes))]))"

lemma sample_config_loads: "json_loads 10 strict_object sample_config_bytes = Inr sample_node_config"
  unfolding sample_config_bytes_def
  by (rule config_json.loads_bytes) (simp_all add: sample_node_config_def isascii_def numeral_eq_Suc)

lemma ord_noteq: "ord c \<noteq> ord d \<Longrightarrow> c \<noteq> d" by auto

lemma esc_char_lower_hex: assumes "is_lower_hex c" shows "esc_char c = [c]"
proof -
  have o: "48 \<le> ord c" "ord c \<noteq> 92" using assms unfolding is_lower_hex_def is_digit_def by linarith+
  have "c \<noteq> quote_char" "c \<noteq> backslash" "c \<noteq> CHR 0x08" "c \<noteq> CHR 0x0C" "c \<noteq> CHR 0x0A" "c \<noteq> CHR 0x0D" "c \<noteq> CHR 0x09"
    by (rule ord_noteq, use o in simp)+
  with o show ?thesis by (simp add: esc_char_def short_escape_def)
qed

lemma lower_hex_ascii: "list_all is_lower_hex t \<Longrightarrow> isascii t"
  unfolding isascii_def by (erule list.pred_mono_strong) (simp add: is_lower_hex_def is_digit_def, linarith)

lemma lower_hex_quote: "list_all is_lower_hex t \<Longrightarrow> concat (map esc_char t) = t"
  by (induction t) (simp_all add: esc_char_lower_hex)

lemma sample_manifest_loads:
  "json_loads 10 strict_object sample_manifest = Inr (JDict [(''/n'', JStr (sha256_hex sample_config_bytes))])"
  unfolding sample_manifest_def
  by (rule config_json.loads_bytes)
    (simp_all add: lower_hex_ascii sha256_hex_digest [unfolded is_digest_def] isascii_def [of "''/n''"] numeral_eq_Suc)


lemma sample_sizes: "sample_config_bytes \<noteq> []" "length sample_config_bytes \<le> 1000"
  "sample_manifest \<noteq> []" "length sample_manifest \<le> 1000"
  using sha256_hex_digest [of sample_config_bytes]
  by (simp_all add: sample_config_bytes_def sample_manifest_def sample_node_config_def encode_str_def quote_str_def
      esc_char_def short_escape_def lower_hex_quote is_digest_def)

lemma sample_paths: "parse_path ''/n'' = \<lparr>path_root = ''/'', path_parts = [''n'']\<rparr>"
  "parse_path ''/m'' = \<lparr>path_root = ''/'', path_parts = [''m'']\<rparr>"
  by (simp_all add: parse_path_def startswith_def)

lemma sample_required: "required_files ''/n'' sample_node_config = Inr [JStr ''/n'', JStr ''/n'']"
  by (simp add: required_files_def sample_node_config_def jindex_def dict_index_def command_files_def data_files_def
      hashable_def jcontains_def has_key_def)

lemma sample_read:
  "(1::nat) \<le> length data \<Longrightarrow> length data \<le> 1000 \<Longrightarrow> 1000 \<le> maximum \<Longrightarrow> map_of fs name = Some data \<Longrightarrow>
   parse_path p = \<lparr>path_root = ''/'', path_parts = [name]\<rparr> \<Longrightarrow>
   read_regular sample_kernel p maximum False ((sample_os fs)\<lparr>os_calls := n\<rparr>) = (Inr data, (sample_os fs)\<lparr>os_calls := Suc n\<rparr>)"
  by (auto simp: read_regular_def open_path_def bind_act_def lift_res_def sample_os_defs enter_def path_str_def path_parent_def
      path_name_def ident_of_def open_node_def S_ISLNK_def S_ISREG_def S_IFMT_def check_regular_def Let_def)

theorem pinned_configuration_verified_witness:
  "\<exists>config s'. pinned_configuration 10 sample_kernel (parse_path ''/'') (Inr ''/t'') ''/n'' ''/m'' (sha256_hex sample_manifest)
      (sample_os [(''n'', sample_config_bytes), (''m'', sample_manifest)]) = (Inr (''/t/node.json'', config), s')
    \<and> (\<exists>manifest bodies. list_all2 file_verified manifest bodies \<and> copies_written ''/t'' (zip (map fst manifest) bodies) config s')"
proof -
  let ?s = "sample_os [(''n'', sample_config_bytes), (''m'', sample_manifest)]"
  have s0: "?s\<lparr>os_calls := 0\<rparr> = ?s" by (simp add: sample_os_def)
  have m: "read_regular sample_kernel ''/m'' 65536 False ?s = (Inr sample_manifest, ?s\<lparr>os_calls := Suc 0\<rparr>)"
    using sample_read [of sample_manifest 65536 "[(''n'', sample_config_bytes), (''m'', sample_manifest)]" "''m''" "''/m''" 0]
      sample_sizes by (simp add: sample_paths Suc_le_eq s0)
  have n: "read_regular sample_kernel ''/n'' (8 * 1024 * 1024) False (?s\<lparr>os_calls := Suc 0\<rparr>)
      = (Inr sample_config_bytes, ?s\<lparr>os_calls := Suc (Suc 0)\<rparr>)"
    using sample_read [of sample_config_bytes "8 * 1024 * 1024" "[(''n'', sample_config_bytes), (''m'', sample_manifest)]" "''n''" "''/n''" "Suc 0"]
      sample_sizes by (simp add: sample_paths Suc_le_eq)
  have verify: "verify_files sample_kernel [(''/n'', JStr (sha256_hex sample_config_bytes))] [] 0 (?s\<lparr>os_calls := Suc 0\<rparr>)
      = (Inr [(''/n'', sample_config_bytes)], ?s\<lparr>os_calls := Suc (Suc 0)\<rparr>)"
    using n sha256_hex_digest [of sample_config_bytes] sample_sizes(2)
    by (simp add: canonical_manifest_path_def sample_paths is_absolute_def path_str_def has_dotdot_def json_digest_def
        bind_act_def lift_res_def)
  have source: "path_str (absolute (parse_path ''/'') (parse_path ''/n'')) = ''/n''"
    by (simp add: absolute_def path_join_def sample_paths is_absolute_def path_str_def)
  have select: "select_config 10 ''/n'' [(''/n'', sample_config_bytes)] = Inr sample_node_config"
    by (simp add: select_config_def sample_config_loads sample_required)
  have load: "load_manifest 10 sample_manifest (sha256_hex sample_manifest) = Inr [(''/n'', JStr (sha256_hex sample_config_bytes))]"
    by (simp add: load_manifest_def sample_manifest_loads manifest_entries_def)
  have names: "copy_name ''/n'' \<noteq> ''node.json''"
  proof
    assume "copy_name ''/n'' = ''node.json''"
    then have "length (copy_name ''/n'') = 9" by simp
    then show False by (simp add: copy_name_def sha256_hex_def)
  qed
  obtain config s' where frozen: "freeze sample_kernel (Inr ''/t'') [(''/n'', sample_config_bytes)] sample_node_config
      (?s\<lparr>os_calls := Suc (Suc 0)\<rparr>) = (Inr (''/t/node.json'', config), s')"
    using names by (simp add: bind_act_def lift_res_def freeze_def mkdtemp_def create_at_def Let_def ret_act_def
        sample_kernel_def enter_def set_entry_def)
  then have run: "pinned_configuration 10 sample_kernel (parse_path ''/'') (Inr ''/t'') ''/n'' ''/m'' (sha256_hex sample_manifest) ?s
      = (Inr (''/t/node.json'', config), s')"
    by (simp add: pinned_configuration_def sha256_hex_digest bind_act_def lift_res_def m load verify source select del: verify_files.simps)
  from pinned_configuration_verified [OF run] obtain manifest bodies where
    "list_all2 file_verified manifest bodies" "copies_written ''/t'' (zip (map fst manifest) bodies) config s'"
    by (auto simp: Let_def sample_kernel_def)
  with run show ?thesis by blast
qed

text \<open>(C21) The PID guard serialises supervisors. Either the guard fails, whatever its block, and holds no
  lock afterwards, or it runs the block exactly once, holding the exclusive lock of the resolved state
  directory, which does not depend on the configured PID file, and with the PID file of a dead process
  removed; the lock is released when the block has ended, and the block's result is the result.\<close>

theorem guard_serialises:
  fixes s :: "'z sup_os_scheme"
  shows "(\<exists>e s0. locked s0 = locked s
      \<and> (\<forall>body :: ('z sup_os_scheme, 'a) act. ccf_pid_guard kn resolve flock config dir body s = (Inl e, s0)))
   \<or> (\<exists>p st d s1. pid_path (resolve dir) config = Inr p \<and> is_relative_to p (resolve dir) \<and> \<not> has_dotdot p
      \<and> flock = Inr () \<and> locked s1 = (ident_of st, lock_name) # locked s
      \<and> dirs (files (enter (interfere kn) s)) (path_str (resolve dir)) = Some st
      \<and> (interfere kn = (\<lambda>_ w. w) \<longrightarrow> dirs (files s) (path_str (path_parent p)) = Some d
            \<and> entries (files s1) (ident_of d) (path_name p) = None)
      \<and> (\<forall>body :: ('z sup_os_scheme, 'a) act. \<exists>s'. ccf_pid_guard kn resolve flock config dir body s = (fst (body s1), s')
            \<and> locked s' = tl (locked (snd (body s1)))))"
proof (cases rule: ccf_pid_guard_cases [of kn resolve flock config dir s, where 'a = 'a])
  case (failed e s0)
  then show ?thesis by blast
next
  case (ran p st d s1)
  with pid_path_inside [OF ran(1)] show ?thesis by blast
qed

text \<open>(C22) A PID file is removed only when its process is gone. Whatever other processes do between the
  calls, a file is unlinked at most once, and only after it was found to be a regular file of this user
  that no other user can write, holding a process number of which the kernel says that no such
  process exists, and after a second look found the same device, inode, mode, owner and change time.\<close>

theorem pid_file_removed_only_when_dead:
  assumes "retire_stale_pid kn d name s = (r, s')"
  shows "unlinked s' = unlinked s \<or> r = Inr () \<and> unlinked s' = unlinked s @ [(d, name)]
    \<and> (let s1 = enter (interfere kn) s; s2 = enter (interfere kn) s1 in
       \<exists>n pid current. entries (files s1) d name = Some n \<and> S_ISREG (st_mode (node_stat n))
        \<and> st_uid (node_stat n) = own_uid kn \<and> \<not> other_write (st_mode (node_stat n))
        \<and> pid_of (take 33 (node_data n)) = Some pid \<and> probe_pid kn (os_calls s1) pid = Gone
        \<and> entries (files s2) d name = Some current \<and> stat_identity (node_stat current) = stat_identity (node_stat n))"
  using retire_stale_pid_removes [OF assms] unfolding dead_pid_file_def owned_regular_def Let_def by blast

theorem guard_serialises_witness:
  "\<exists>p s'. \<exists>s1 :: sup_os. pid_path (parse_path ''/'') [] = Inr p \<and> entries (files s1) (1, 1) ''my_node.pid'' = None
    \<and> ccf_pid_guard sample_kernel parse_path (Inr ()) [] ''/'' (\<lambda>s. (Inr (length (locked s)), s))
        (sample_os [(''my_node.pid'', [0x31, 0x32, 0x0A])]) = (Inr 1, s') \<and> locked s' = []"
proof -
  let ?s = "sample_os [(''my_node.pid'', [0x31, 0x32, 0x0A])]"
  let ?body = "\<lambda>s. (Inr (length (locked s)), s)"
  have calm: "interfere sample_kernel = (\<lambda>_ w. w)" by (simp add: sample_kernel_def)
  have root: "parse_path ''/'' = \<lparr>path_root = ''/'', path_parts = []\<rparr>"
    "parse_path ''my_node.pid'' = \<lparr>path_root = [], path_parts = [''my_node.pid'']\<rparr>"
    by (simp_all add: parse_path_def startswith_def)
  have path: "pid_path (parse_path ''/'') [] = Inr \<lparr>path_root = ''/'', path_parts = [''my_node.pid'']\<rparr>"
    by (simp add: pid_path_def root is_absolute_def path_join_def has_dotdot_def is_relative_to_def)
  have pid: "pid_of [0x31, 0x32, 0x0A] = Some 12"
    by (simp add: pid_of_def bytes_str_def digits_val_def digit_val_def is_digit_def char_of_def bit_0 Let_def)
  have ran: "\<exists>s'. ccf_pid_guard sample_kernel parse_path (Inr ()) [] ''/'' ?body ?s = (Inr 1, s')"
    using path pid
    by (simp add: ccf_pid_guard_def bind_act_def lift_res_def root open_dir_def path_str_def path_parent_def path_name_def
        acquire_lock_def open_lock_def owned_regular_def guarded_def retire_stale_pid_def open_at_def retire_pid_node_def
        remove_unchanged_def stat_at_def unlink_at_def open_node_def sample_os_defs enter_def set_entry_def ident_of_def
        S_ISDIR_def S_ISREG_def S_ISLNK_def S_IFMT_def other_write_def finally_act_def catch_act_def lock_name_def
        is_relative_to_def Let_def)
  show ?thesis
    using guard_serialises [of ?s sample_kernel parse_path "Inr ()" "[]" "''/''", where 'a = nat]
  proof
    assume "\<exists>e s0. locked s0 = locked ?s \<and> (\<forall>body. ccf_pid_guard sample_kernel parse_path (Inr ()) [] ''/'' body ?s = (Inl e :: nat res, s0))"
    then obtain e s0 where all: "\<forall>body. ccf_pid_guard sample_kernel parse_path (Inr ()) [] ''/'' body ?s = (Inl e :: nat res, s0)"
      by (elim exE conjE) (rule that)
    from spec [OF all, of ?body] ran show ?thesis by simp
  next
    assume "\<exists>p st d s1. pid_path (parse_path ''/'') [] = Inr p \<and> is_relative_to p (parse_path ''/'') \<and> \<not> has_dotdot p
      \<and> Inr () = Inr () \<and> locked s1 = (ident_of st, lock_name) # locked ?s
      \<and> dirs (files (enter (interfere sample_kernel) ?s)) (path_str (parse_path ''/'')) = Some st
      \<and> (interfere sample_kernel = (\<lambda>_ w. w) \<longrightarrow> dirs (files ?s) (path_str (path_parent p)) = Some d
            \<and> entries (files s1) (ident_of d) (path_name p) = None)
      \<and> (\<forall>body :: (sup_os, nat) act. \<exists>s'. ccf_pid_guard sample_kernel parse_path (Inr ()) [] ''/'' body ?s = (fst (body s1), s')
            \<and> locked s' = tl (locked (snd (body s1))))"
    then obtain p s1 st d where g: "pid_path (parse_path ''/'') [] = Inr p" "locked s1 = (ident_of st, lock_name) # locked ?s"
      "dirs (files ?s) (path_str (path_parent p)) = Some d" "entries (files s1) (ident_of d) (path_name p) = None"
      and all: "\<forall>body :: (sup_os, nat) act. \<exists>s'. ccf_pid_guard sample_kernel parse_path (Inr ()) [] ''/'' body ?s = (fst (body s1), s')
            \<and> locked s' = tl (locked (snd (body s1)))"
      using calm by (elim exE conjE) (rule that, assumption, assumption, blast, blast, assumption)
    from spec [OF all, of ?body] obtain s' where r: "ccf_pid_guard sample_kernel parse_path (Inr ()) [] ''/'' ?body ?s = (Inr (length (locked s1)), s')"
      "locked s' = tl (locked s1)" by auto
    have p: "p = \<lparr>path_root = ''/'', path_parts = [''my_node.pid'']\<rparr>" using g(1) path by simp
    have "d = sample_stat 0x41C0 1" using g(3) by (simp add: p path_parent_def path_str_def sample_os_def)
    then have "entries (files s1) (1, 1) ''my_node.pid'' = None" using g(4) by (simp add: p path_name_def sample_stat_def ident_of_def)
    with r g(2) path show ?thesis by (auto simp: sample_os_def)
  qed
qed

theorem pid_file_removed_only_when_dead_witness:
  "unlinked (snd (retire_stale_pid sample_kernel (1, 1) ''p'' (sample_os [(''p'', [0x31, 0x32, 0x0A])]))) = [((1, 1), ''p'')]
   \<and> unlinked (snd (retire_stale_pid (sample_kernel\<lparr>probe_pid := (\<lambda>_ _. Alive)\<rparr>) (1, 1) ''p'' (sample_os [(''p'', [0x31, 0x32, 0x0A])]))) = []"
proof -
  let ?s = "sample_os [(''p'', [0x31, 0x32, 0x0A])]" and ?alive = "sample_kernel\<lparr>probe_pid := (\<lambda>_ _. Alive)\<rparr>"
  have "\<exists>s'. retire_stale_pid sample_kernel (1, 1) ''p'' ?s = (Inr (), s') \<and> unlinked s' = [((1, 1), ''p'')]"
    by (simp add: retire_stale_pid_def open_at_def retire_pid_node_def remove_unchanged_def stat_at_def unlink_at_def
        open_node_def sample_os_defs enter_def set_entry_def owned_regular_def S_ISREG_def S_ISLNK_def S_IFMT_def
        other_write_def bind_act_def pid_of_def bytes_str_def digits_val_def digit_val_def is_digit_def char_of_def bit_0 Let_def)
  moreover have "unlinked (snd (retire_stale_pid ?alive (1, 1) ''p'' ?s)) = []"
    using pid_file_removed_only_when_dead [of ?alive "(1, 1)" "''p''" ?s, OF prod.collapse [symmetric]]
    by (simp add: sample_os_defs Let_def)
  ultimately show ?thesis by auto
qed

end
