(* ===== verification/Supervisor_Http.thy ===== *)
theory Supervisor_Http
  imports Supervisor_Files Transaction_Id
begin

text \<open>
  The network side of \<open>ccf/run.py\<close>: the bounded loopback request, the provisioning of the transfer
  secret, the environments of the child processes and the removal of a stale trace socket.
\<close>

section \<open>The bounded request\<close>

definition run_late :: exn where
  "run_late = TimeoutError ''CCF HTTP deadline exceeded''"

definition run_deadline :: "clock \<Rightarrow> real \<Rightarrow> ('z net_scheme, 'a) act \<Rightarrow> ('z net_scheme, 'a) act" where
  "run_deadline clk deadline body = with_deadline clk run_late deadline body"

text \<open>The host and port of \<open>HTTPSConnection(address)\<close>.\<close>

definition hostport :: "string \<Rightarrow> (string \<times> nat) res" where
  "hostport address =
     (let (host, port) =
        (case rpartition_at CHR '':'' address of
           Some (h, t) \<Rightarrow>
             if CHR '']'' \<in> set t then (address, Inr 443)
             else (h, if t = [] then Inr 443
                      else case py_int t of Inl _ \<Rightarrow> Inl (HTTPException ''InvalidURL'') | Inr p \<Rightarrow> Inr (nat p))
         | None \<Rightarrow> (address, Inr 443));
        name = (if host \<noteq> [] \<and> hd host = CHR ''['' \<and> last host = CHR '']'' then butlast (tl host) else host) in
      bindr port (\<lambda>p. Inr (name, p)))"

fun collect_headers :: "(string \<times> string) list \<Rightarrow> string dict \<Rightarrow> string dict res" where
  "collect_headers [] headers = Inr headers"
| "collect_headers ((key, value) # rest) headers =
     (if lower key \<in> {''x-agentdns-commit-status'', ''x-agentdns-transaction-id''} \<and> has_key (lower key) headers
      then Inl (RuntimeError ''duplicate CCF commitment header'')
      else collect_headers rest (AList.update (lower key) value headers))"

function payload_loop :: "clock \<Rightarrow> real \<Rightarrow> bytes \<Rightarrow> ('z net_scheme, bytes) act" where
  "payload_loop clk deadline payload s =
     (if length payload \<le> 65536 then
        let (t, s1) = now clk s in
        if t \<ge> deadline then (Inl run_late, s1)
        else case recv (min 65536 (65537 - length payload)) s1 of
          (Inl e, s2) \<Rightarrow> (Inl e, s2)
        | (Inr chunk, s2) \<Rightarrow>
            if chunk = [] then (Inr payload, s2) else payload_loop clk deadline (payload @ chunk) s2
      else (Inl (RuntimeError ''oversized CCF response''), s))"
  by pat_completeness auto
termination
  by (relation "measure (\<lambda>(_, _, payload, _). 65537 - length payload)") (auto simp: neq_Nil_conv)

declare payload_loop.simps [simp del]

interpretation run_reader: bounded_reader clk 65536 deadline run_late "RuntimeError ''oversized CCF response''"
  "payload_loop clk deadline" for clk deadline
  by unfold_locales
    (subst payload_loop.simps, auto simp: payload_loop.simps [of clk deadline "_ @ _"] Let_def split: prod.splits sum.splits)

definition run_request :: "string \<Rightarrow> nat \<Rightarrow> string \<Rightarrow> string \<Rightarrow> bytes \<Rightarrow> http_request" where
  "run_request host port verb target body =
     \<lparr>rq_host = host, rq_port = port, rq_method = verb, rq_path = target, rq_body = body,
      rq_headers = [(''content-type'', ''application/json''), (''connection'', ''close'')]\<rparr>"

text \<open>\<open>trust\<close> is the outcome of loading the service certificate as the only trusted root.\<close>

definition bounded_http ::
    "clock \<Rightarrow> unit res \<Rightarrow> string \<Rightarrow> string \<Rightarrow> string \<Rightarrow> bytes \<Rightarrow> real \<Rightarrow> ('z web_scheme, int \<times> string dict \<times> bytes) act" where
  "bounded_http clk trust address verb target body timeout =
     bind_act (lift_res trust) (\<lambda>_ s.
       let (t, s1) = now clk s; deadline = t + timeout in
       bind_act (lift_res (hostport address)) (\<lambda>(host, port).
         own_connection (
           bind_act create_connection (\<lambda>a.
           run_deadline clk deadline (
             bind_act (lift_res (at_handshake a)) (\<lambda>_.
             bind_act (http_exchange a (run_request host port verb target body)) (\<lambda>response.
             bind_act (lift_res (collect_headers (reply_headers response) [])) (\<lambda>headers.
             bind_act (payload_loop clk deadline []) (\<lambda>payload.
               ret_act (reply_status response, headers, payload))))))))) s1)"

section \<open>Provisioning the transfer secret\<close>

definition is_not_open :: "json option \<Rightarrow> bool" where
  "is_not_open error =
     (case error of
        Some (JStr t) \<Rightarrow> t = ''NOT_FOUND: governed transfer key''
      | Some (JDict d) \<Rightarrow> map_of d ''code'' = Some (JStr ''FrontendNotOpen'')
      | _ \<Rightarrow> False)"

definition provision_result :: "int \<Rightarrow> string dict \<Rightarrow> json dict \<Rightarrow> bool res" where
  "provision_result status headers result =
     (if status = 200 then
        let txid = map_of headers ''x-agentdns-transaction-id'' in
        if map_of headers ''x-agentdns-commit-status'' \<noteq> Some ''committed'' \<or> map_of result ''status'' \<noteq> Some (JStr ''committed'')
           \<or> \<not> canonical_transaction txid \<or> map_of result ''tx_id'' \<noteq> map_option JStr txid
        then Inl (RuntimeError ''TSIG provisioning did not confirm global commit'')
        else Inr True
      else if status = 404 \<and> is_not_open (map_of result ''error'') then Inr False
      else Inl (RuntimeError ''TSIG provisioning rejected''))"

definition provision_verdict :: "nat \<Rightarrow> int \<times> string dict \<times> bytes \<Rightarrow> bool res" where
  "provision_verdict depth reply =
     (let (status, headers, raw) = reply in
      case json_loads depth strict_object raw of
        Inl e \<Rightarrow> if is_ValueError e then Inl (RuntimeError ''invalid TSIG provisioning response'') else Inl e
      | Inr (JDict result) \<Rightarrow> provision_result status headers result
      | Inr _ \<Rightarrow> Inl (RuntimeError ''invalid TSIG provisioning response''))"

definition provision_transfer_secret ::
    "nat \<Rightarrow> clock \<Rightarrow> unit res \<Rightarrow> string \<Rightarrow> bytes \<Rightarrow> ('z web_scheme, bool) act" where
  "provision_transfer_secret depth clk trust address body =
     catch_act (\<lambda>e. is_OSError e \<or> is_HTTPException e) (\<lambda>_. ret_act False)
       (bind_act (bounded_http clk trust address ''POST'' ''/app/internal/transfer-key'' body 10)
          (\<lambda>reply. lift_res (provision_verdict depth reply)))"

section \<open>The environments of the children\<close>

definition pick_env :: "string dict \<Rightarrow> string list \<Rightarrow> string dict" where
  "pick_env environ keys =
     concat (map (\<lambda>key. case map_of environ key of None \<Rightarrow> [] | Some v \<Rightarrow> [(key, v)]) keys)"

definition runtime_keys :: "string list" where
  "runtime_keys = [''PATH'', ''LANG'', ''LC_ALL'', ''LC_CTYPE'', ''UVM_SECURITY_CONTEXT_DIR'']"

definition runtime_environment :: "string dict \<Rightarrow> string dict" where
  "runtime_environment environ = pick_env environ runtime_keys"

definition exporter_keys :: "string list" where
  "exporter_keys = [''OTEL_EXPORTER_OTLP_ENDPOINT'', ''OTEL_EXPORTER_OTLP_TRACES_ENDPOINT'',
     ''OTEL_EXPORTER_OTLP_PROTOCOL'', ''OTEL_EXPORTER_OTLP_TRACES_PROTOCOL'',
     ''OTEL_EXPORTER_OTLP_HEADERS'', ''OTEL_EXPORTER_OTLP_TRACES_HEADERS'',
     ''OTEL_EXPORTER_OTLP_CERTIFICATE'', ''OTEL_EXPORTER_OTLP_TRACES_CERTIFICATE'',
     ''OTEL_SERVICE_NAME'', ''OTEL_RESOURCE_ATTRIBUTES'', ''OTEL_SDK_DISABLED'']"

text \<open>\<open>tmp\<close> is the directory that \<open>tempfile.mkdtemp\<close> creates, or its error. The result is the
  environment of the node, that of the driver, and the directory when it is in use.\<close>

definition telemetry_environments ::
    "path \<Rightarrow> string res \<Rightarrow> string dict \<Rightarrow> (string dict \<times> string dict \<times> path option) res" where
  "telemetry_environments cwd tmp environ =
     (let node = runtime_environment environ;
          driver = dict_merge (AList.update ''PYTHONPATH'' ''/opt/agentdns/python'' node) (pick_env environ exporter_keys);
          disabled = lower (case map_of environ ''OTEL_SDK_DISABLED'' of None \<Rightarrow> [] | Some v \<Rightarrow> v) = ''true'' in
      if disabled then Inr (node, driver, None)
      else case tmp of
        Inl e \<Rightarrow> if is_OSError e then Inr (node, driver, None) else Inl e
      | Inr dir \<Rightarrow>
          let directory = parse_path dir;
              p = path_str (path_join (absolute cwd directory) (parse_path ''spans.sock'')) in
          if length p > 100 then Inr (node, driver, None)
          else Inr (AList.update ''AGENTDNS_TRACE_SOCKET'' p node, AList.update ''AGENTDNS_TRACE_SOCKET'' p driver, Some directory))"

section \<open>The stale trace socket\<close>

definition private_parent :: "kernel \<Rightarrow> ident option \<Rightarrow> stat \<Rightarrow> bool" where
  "private_parent kn parent_identity st \<longleftrightarrow> S_ISDIR (st_mode st) \<and> st_uid st = own_uid kn
     \<and> \<not> other_access (st_mode st) \<and> Some (ident_of st) = parent_identity"

definition trace_name :: string where
  "trace_name = ''spans.sock''"

text \<open>From the liveness probe on; \<open>connect\<close> is its outcome.\<close>

definition remove_refused ::
    "kernel \<Rightarrow> unit res \<Rightarrow> string \<Rightarrow> ident option \<Rightarrow> stat \<Rightarrow> stat \<Rightarrow> ('z os_scheme, bool) act" where
  "remove_refused kn connect directory parent_identity parent original =
     (if connect \<noteq> Inl ConnectionRefused then ret_act False
      else
        bind_act (stat_at (interfere kn) (ident_of parent) trace_name) (\<lambda>current.
          if stat_identity current \<noteq> stat_identity original then ret_act False
          else bind_act (stat_dir (interfere kn) directory) (\<lambda>again.
            if \<not> private_parent kn parent_identity again then ret_act False
            else bind_act (unlink_at (interfere kn) (ident_of parent) trace_name) (\<lambda>_. ret_act True))))"

definition retire_in_directory ::
    "kernel \<Rightarrow> unit res \<Rightarrow> string \<Rightarrow> ident option \<Rightarrow> ('z os_scheme, bool) act" where
  "retire_in_directory kn connect directory parent_identity =
     bind_act (open_dir (interfere kn) directory) (\<lambda>parent.
       if \<not> private_parent kn parent_identity parent then ret_act False
       else bind_act (stat_dir (interfere kn) directory) (\<lambda>again.
         if \<not> private_parent kn parent_identity again then ret_act False
         else (\<lambda>s. case stat_at (interfere kn) (ident_of parent) trace_name s of
             (Inl e, s1) \<Rightarrow> if e = FileNotFoundError then (Inr True, s1) else (Inl e, s1)
           | (Inr original, s1) \<Rightarrow>
               if \<not> S_ISSOCK (st_mode original) \<or> st_uid original \<noteq> own_uid kn then (Inr False, s1)
               else remove_refused kn connect directory parent_identity parent original s1)))"

definition retire_trace_socket ::
    "kernel \<Rightarrow> unit res \<Rightarrow> bool \<Rightarrow> string option \<Rightarrow> path \<Rightarrow> path option \<Rightarrow> ident option \<Rightarrow> ('z os_scheme, bool) act" where
  "retire_trace_socket kn connect reaped configured_path cwd directory parent_identity =
     (case directory of
        None \<Rightarrow> ret_act False
      | Some dir \<Rightarrow>
          let d = absolute cwd dir in
          if \<not> reaped \<or> configured_path \<noteq> Some (path_str (path_join d (parse_path trace_name))) then ret_act False
          else catch_act is_OSError (\<lambda>_. ret_act False) (retire_in_directory kn connect (path_str d) parent_identity))"

end
