(* ===== verification/Supervisor.thy ===== *)
theory Supervisor
  imports Supervisor_Http
begin

text \<open>
  The supervisor of \<open>ccf/run.py\<close>: its tests of the node configuration and its loop over the node and
  the peering driver. One turn of the loop sees the certificate file, the outcome of starting a
  process and whether the driver has exited; the two HTTP requests run on the model of the network.
\<close>

section \<open>The node configuration\<close>

fun check_interfaces :: "(string \<times> json) list \<Rightarrow> unit res" where
  "check_interfaces [] = Inr ()"
| "check_interfaces ((name, interface) # rest) =
     (case interface of
        JDict d \<Rightarrow>
          if (case map_of d ''app_protocol'' of None \<Rightarrow> JStr ''HTTP1'' | Some v \<Rightarrow> v) \<noteq> JStr ''HTTP1''
          then Inl (ValueError ''CCF commitment gate requires HTTP1 on all interfaces'')
          else check_interfaces rest
      | _ \<Rightarrow> Inl (AttributeError ''get''))"

definition command_type :: "json dict \<Rightarrow> json option res" where
  "command_type config =
     (case map_of config ''command'' of
        None \<Rightarrow> Inr None
      | Some (JDict d) \<Rightarrow> Inr (map_of d ''type'')
      | Some _ \<Rightarrow> Inl (AttributeError ''get''))"

definition internal_address :: "json \<Rightarrow> string res" where
  "internal_address interfaces =
     bindr (jindex interfaces ''agentdns-internal'') (\<lambda>internal.
     bindr (jindex internal ''bind_address'') (\<lambda>address.
     case address of
       JStr a \<Rightarrow>
         if startswith a ''127.0.0.1:'' \<or> startswith a ''[::1]:'' then Inr a
         else Inl (ValueError ''agentdns-internal must bind loopback'')
     | _ \<Rightarrow> Inl (AttributeError ''startswith'')))"

definition certificate_path :: "path \<Rightarrow> json dict \<Rightarrow> path res" where
  "certificate_path state config =
     bindr (dict_index config ''command'') (\<lambda>command.
     bindr (jindex command ''service_certificate_file'') (\<lambda>file.
     case file of
       JStr p \<Rightarrow> Inr (if is_absolute (parse_path p) then parse_path p else path_join state (parse_path p))
     | _ \<Rightarrow> Inl (TypeError ''path'')))"

text \<open>The address of the internal interface and the path of the service certificate.\<close>

definition supervise_config :: "path \<Rightarrow> bool \<Rightarrow> json dict \<Rightarrow> (string \<times> path) res" where
  "supervise_config state provision config =
     bindr (if provision
            then bindr (command_type config) (\<lambda>kind.
              if kind \<noteq> Some (JStr ''Start'')
              then Inl (ValueError ''--provision-tsig-file is only valid for Start'') else Inr ())
            else Inr ()) (\<lambda>_.
     bindr (dict_index config ''network'') (\<lambda>network.
     bindr (jindex network ''rpc_interfaces'') (\<lambda>interfaces.
     bindr (internal_address interfaces) (\<lambda>address.
     bindr (case interfaces of JDict d \<Rightarrow> check_interfaces d | _ \<Rightarrow> Inl (AttributeError ''values'')) (\<lambda>_.
     bindr (certificate_path state config) (\<lambda>certificate. Inr (address, certificate)))))))"

section \<open>The loop\<close>

datatype sup_event = DriverStarted bytes | DriverRetired bytes | Provision bool

record sup = web +
  driver :: "bytes option"
  provisioned :: bool
  next_provision :: real
  sup_log :: "sup_event list"

text \<open>What one turn sees: the content of the certificate file, the outcome of loading it as the trusted
  root, of starting the driver, and whether a running driver has exited.\<close>

record sight =
  seen_certificate :: "bytes option"
  seen_trust :: "unit res"
  seen_popen :: "unit res"
  seen_exit :: bool

definition log_event :: "sup_event \<Rightarrow> 'z sup_scheme \<Rightarrow> 'z sup_scheme" where
  "log_event ev s = s\<lparr>sup_log := sup_log s @ [ev]\<rparr>"

definition retire_driver :: "bytes \<Rightarrow> 'z sup_scheme \<Rightarrow> 'z sup_scheme" where
  "retire_driver identity s =
     (case driver s of
        None \<Rightarrow> s
      | Some old \<Rightarrow>
          if identity \<noteq> old then log_event (DriverRetired old) (s\<lparr>driver := None, provisioned := False\<rparr>) else s)"

definition start_driver :: "clock \<Rightarrow> string \<Rightarrow> sight \<Rightarrow> bytes \<Rightarrow> ('z sup_scheme, unit) act" where
  "start_driver clk address ob identity s =
     (if driver s \<noteq> None then (Inr (), s)
      else catch_act (\<lambda>e. is_OSError e \<or> is_HTTPException e \<or> is_RuntimeError e) (\<lambda>_. ret_act ())
        (bind_act (bounded_http clk (seen_trust ob) address ''GET'' ''/node/state'' [] 1) (\<lambda>(status, _, _).
           if 200 \<le> status \<and> status < 500
           then bind_act (lift_res (seen_popen ob)) (\<lambda>_ s1.
             (Inr (), log_event (DriverStarted identity) (s1\<lparr>driver := Some identity\<rparr>)))
           else ret_act ())) s)"

definition try_provision :: "nat \<Rightarrow> clock \<Rightarrow> string \<Rightarrow> sight \<Rightarrow> bytes option \<Rightarrow> ('z sup_scheme, unit) act" where
  "try_provision depth clk address ob secret s =
     (case secret of
        None \<Rightarrow> (Inr (), s)
      | Some body \<Rightarrow>
          if driver s = None \<or> provisioned s then (Inr (), s)
          else
            let (t, s1) = now clk s in
            if t < next_provision s1 then (Inr (), s1)
            else bind_act (provision_transfer_secret depth clk (seen_trust ob) address body) (\<lambda>ok s2.
              let (t, s3) = now clk (log_event (Provision ok) (s2\<lparr>provisioned := ok\<rparr>)) in
              (Inr (), s3\<lparr>next_provision := t + 1\<rparr>)) s1)"

definition supervise_turn :: "nat \<Rightarrow> clock \<Rightarrow> string \<Rightarrow> bytes option \<Rightarrow> sight \<Rightarrow> ('z sup_scheme, unit) act" where
  "supervise_turn depth clk address secret ob =
     bind_act (case seen_certificate ob of
         None \<Rightarrow> ret_act ()
       | Some certificate \<Rightarrow>
           let identity = sha256 certificate in
           bind_act (\<lambda>s. (Inr (), retire_driver identity s)) (\<lambda>_.
           bind_act (start_driver clk address ob identity) (\<lambda>_.
             try_provision depth clk address ob secret))) (\<lambda>_ s.
       if driver s \<noteq> None \<and> seen_exit ob
       then (Inl (RuntimeError ''autonomous peering/lifecycle driver exited''), s) else (Inr (), s))"

text \<open>The turns until the node exits or a signal arrives.\<close>

fun supervise_loop :: "nat \<Rightarrow> clock \<Rightarrow> string \<Rightarrow> bytes option \<Rightarrow> sight list \<Rightarrow> ('z sup_scheme, unit) act" where
  "supervise_loop depth clk address secret [] s = (Inr (), s)"
| "supervise_loop depth clk address secret (ob # obs) s =
     bind_act (supervise_turn depth clk address secret ob) (\<lambda>_. supervise_loop depth clk address secret obs) s"

definition stop_children :: "'z sup_scheme \<Rightarrow> 'z sup_scheme" where
  "stop_children s = (case driver s of None \<Rightarrow> s | Some old \<Rightarrow> log_event (DriverRetired old) (s\<lparr>driver := None, provisioned := False\<rparr>))"

text \<open>\<open>returncode\<close> is that of the node once it was waited for.\<close>

definition supervise ::
    "nat \<Rightarrow> clock \<Rightarrow> path \<Rightarrow> json dict \<Rightarrow> bytes option \<Rightarrow> int option \<Rightarrow> sight list \<Rightarrow> ('z sup_scheme, int) act" where
  "supervise depth clk state config secret returncode obs =
     bind_act (lift_res (supervise_config state (secret \<noteq> None) config)) (\<lambda>(address, certificate).
       bind_act (finally_act stop_children (supervise_loop depth clk address secret obs)) (\<lambda>_.
         ret_act (case returncode of None \<Rightarrow> 0 | Some c \<Rightarrow> c)))"

definition new_sup :: "web \<Rightarrow> sup" where
  "new_sup w = web.extend w (sup.fields None False 0 [])"

section \<open>What a request leaves alone\<close>

lemma framed_deadline [framed_intros]: "web_framed m \<Longrightarrow> web_framed (run_deadline clk deadline m)"
  unfolding web_framed_def run_deadline_def with_deadline_def now_def settimeout_def
  by (fastforce simp: Let_def split: prod.splits if_splits)

lemma framed_payload [framed_intros]: "web_framed (payload_loop clk deadline [] :: ('z web_scheme, bytes) act)"
  unfolding web_framed_def
proof (intro allI impI)
  fix s :: "'z web_scheme" and r s' assume "payload_loop clk deadline [] s = (r, s')"
  then obtain n q where "s' = s\<lparr>ticks := n, inbox := q\<rparr>" using run_reader.loop_frame [of "[]" clk deadline s r s'] by auto
  then show "web.more s' = web.more s" by simp
qed

lemma framed_http [framed_intros]: "web_framed (bounded_http clk trust address verb target body timeout)"
  unfolding bounded_http_def Let_def case_prod_beta
  by (intro framed_intros framed_now [unfolded case_prod_beta])

lemma framed_provision: "web_framed (provision_transfer_secret depth clk trust address body)"
  unfolding provision_transfer_secret_def by (intro framed_intros)

lemma frame_sup:
  fixes s :: "'z sup_scheme"
  assumes "web_framed m" "m s = (r, s')"
  shows "driver s' = driver s" "provisioned s' = provisioned s" "sup_log s' = sup_log s" "next_provision s' = next_provision s"
proof -
  have "web.more s' = web.more s" using assms by (simp add: web_framed_def)
  then show "driver s' = driver s" "provisioned s' = provisioned s" "sup_log s' = sup_log s" "next_provision s' = next_provision s"
    by (cases s; cases s'; simp)+
qed

section \<open>The life of the driver, abstractly\<close>

text \<open>The abstract machine: no driver, or a driver pinned to the digest of a certificate that has or has
  not received the transfer secret. A step that is not listed is an error.\<close>

fun replay :: "sup_event list \<Rightarrow> bytes option \<times> bool \<Rightarrow> (bytes option \<times> bool) option" where
  "replay [] st = Some st"
| "replay (DriverStarted i # evs) (None, False) = replay evs (Some i, False)"
| "replay (DriverRetired i # evs) (Some j, p) = (if i = j then replay evs (None, False) else None)"
| "replay (Provision ok # evs) (Some i, False) = replay evs (Some i, ok)"
| "replay (ev # evs) st = None"

definition sup_inv :: "'z sup_scheme \<Rightarrow> bool" where
  "sup_inv s \<longleftrightarrow> replay (sup_log s) (None, False) = Some (driver s, provisioned s) \<and> (provisioned s \<longrightarrow> driver s \<noteq> None)"

lemma replay_snoc: "replay (evs @ [ev]) st = Option.bind (replay evs st) (replay [ev])"
proof (induction evs st rule: replay.induct)
  case (3 i evs j p)
  then show ?case by (cases "i = j") simp_all
qed simp_all

lemma sup_inv_retire: "sup_inv s \<Longrightarrow> sup_inv (retire_driver identity s)"
  by (auto simp: retire_driver_def sup_inv_def log_event_def replay_snoc split: option.splits)

lemma retire_driver_matches: "driver (retire_driver identity s) \<in> {None, Some identity}"
  by (auto simp: retire_driver_def log_event_def split: option.splits)

lemma start_driver_effect:
  fixes s :: "'z sup_scheme"
  assumes run: "start_driver clk address ob identity s = (r, s')" and inv: "sup_inv s"
  shows "sup_inv s' \<and> (driver s' = driver s \<or> driver s = None \<and> driver s' = Some identity)"
proof (cases "driver s")
  case (Some d)
  with run inv show ?thesis by (simp add: start_driver_def)
next
  case None
  obtain x s1 where x: "bounded_http clk (seen_trust ob) address ''GET'' ''/node/state'' [] 1 s = (x, s1)" by fastforce
  note f = frame_sup [OF framed_http x]
  have inv1: "sup_inv s1" using inv f by (simp add: sup_inv_def)
  show ?thesis
  proof (cases "\<exists>status rest. x = Inr (status, rest) \<and> 200 \<le> status \<and> status < 500 \<and> seen_popen ob = Inr ()")
    case True
    then obtain status a b where "x = Inr (status, a, b)" "200 \<le> status" "status < 500" "seen_popen ob = Inr ()"
      by (metis prod.exhaust)
    with run x None have "r = Inr ()" "s' = log_event (DriverStarted identity) (s1\<lparr>driver := Some identity\<rparr>)"
      by (simp_all add: start_driver_def catch_act_def bind_act_def lift_res_def)
    with None inv1 f show ?thesis by (auto simp: sup_inv_def log_event_def replay_snoc)
  next
    case False
    have "s' = s1"
    proof (cases x)
      case (Inl e)
      with run x None show ?thesis by (auto simp: start_driver_def catch_act_def bind_act_def ret_act_def split: if_splits)
    next
      case (Inr t)
      obtain status a b where t: "t = (status, a, b)" by (metis prod.exhaust)
      show ?thesis
      proof (cases "200 \<le> status \<and> status < 500")
        case ok: True
        with False Inr t obtain e where "seen_popen ob = Inl e" by (cases "seen_popen ob") auto
        with run x None Inr t ok show ?thesis
          by (auto simp: start_driver_def catch_act_def bind_act_def lift_res_def ret_act_def split: if_splits)
      next
        case no: False
        with run x None Inr t show ?thesis
          by (auto simp: start_driver_def catch_act_def bind_act_def ret_act_def)
      qed
    qed
    with inv1 f None show ?thesis by simp
  qed
qed

lemma try_provision_effect:
  fixes s :: "'z sup_scheme"
  assumes run: "try_provision depth clk address ob secret s = (r, s')" and inv: "sup_inv s"
  shows "sup_inv s' \<and> driver s' = driver s"
proof (cases "\<exists>body. secret = Some body \<and> driver s \<noteq> None \<and> \<not> provisioned s \<and> \<not> clk (ticks s) < next_provision s")
  case False
  with run have "s' = s \<or> s' = s\<lparr>ticks := Suc (ticks s)\<rparr>"
    by (auto simp: try_provision_def now_def Let_def split: option.splits if_splits)
  with inv show ?thesis by (auto simp: sup_inv_def)
next
  case True
  then obtain body where t: "secret = Some body" "driver s \<noteq> None" "\<not> provisioned s" "\<not> clk (ticks s) < next_provision s" by blast
  let ?s = "s\<lparr>ticks := Suc (ticks s)\<rparr>"
  obtain x s1 where x: "provision_transfer_secret depth clk (seen_trust ob) address body ?s = (x, s1)" by fastforce
  note f = frame_sup [OF framed_provision x]
  show ?thesis
  proof (cases x)
    case (Inl e)
    with run x t have "s' = s1" by (auto simp: try_provision_def now_def Let_def bind_act_def)
    with f inv show ?thesis by (simp add: sup_inv_def)
  next
    case (Inr ok)
    with run x t have "s' = s1\<lparr>provisioned := ok, sup_log := sup_log s1 @ [Provision ok], ticks := Suc (ticks s1),
        next_provision := clk (ticks s1) + 1\<rparr>"
      by (auto simp: try_provision_def now_def Let_def bind_act_def log_event_def)
    with f inv t show ?thesis by (auto simp: sup_inv_def replay_snoc)
  qed
qed

lemma supervise_turn_effect:
  fixes s :: "'z sup_scheme"
  assumes run: "supervise_turn depth clk address secret ob s = (r, s')" and inv: "sup_inv s"
  shows "sup_inv s' \<and> (\<forall>c. seen_certificate ob = Some c \<longrightarrow> driver s' \<in> {None, Some (sha256 c)})
    \<and> (seen_certificate ob = None \<longrightarrow> driver s' = driver s)"
proof (cases "seen_certificate ob")
  case None
  with run have "s' = s" by (auto simp: supervise_turn_def bind_act_def ret_act_def split: if_splits)
  with None inv show ?thesis by simp
next
  case (Some c)
  let ?s1 = "retire_driver (sha256 c) s"
  obtain x s2 where x: "start_driver clk address ob (sha256 c) ?s1 = (x, s2)" by fastforce
  have s2: "sup_inv s2" "driver s2 \<in> {None, Some (sha256 c)}"
    using start_driver_effect [OF x sup_inv_retire [OF inv]] retire_driver_matches [of "sha256 c" s] by auto
  show ?thesis
  proof (cases x)
    case (Inl e)
    with run x Some have "s' = s2" by (simp add: supervise_turn_def bind_act_def Let_def)
    with s2 Some show ?thesis by simp
  next
    case (Inr u)
    obtain y s3 where y: "try_provision depth clk address ob secret s2 = (y, s3)" by fastforce
    with run x Some Inr have "s' = s3" by (cases y) (auto simp: supervise_turn_def bind_act_def Let_def split: if_splits)
    with s2 Some try_provision_effect [OF y s2(1)] show ?thesis by simp
  qed
qed

lemma supervise_loop_inv:
  "supervise_loop depth clk address secret obs s = (r, s') \<Longrightarrow> sup_inv s \<Longrightarrow> sup_inv s'"
proof (induction obs arbitrary: s)
  case Nil
  then show ?case by simp
next
  case (Cons ob obs)
  obtain x s1 where x: "supervise_turn depth clk address secret ob s = (x, s1)" by fastforce
  have "sup_inv s1" using supervise_turn_effect [OF x Cons.prems(2)] by blast
  with Cons x show ?case by (cases x) (auto simp: bind_act_def)
qed

lemma new_sup_inv [inv_intros]: "sup_inv (new_sup w)"
  by (simp add: new_sup_def sup_inv_def web.defs sup.defs)

section \<open>Provisioning\<close>

lemma hooks_exn_config: "hooks_exn strict_object"
  by (auto simp: hooks_exn_def strict_object_def unique_pairs_eq split: if_splits)

lemma provision_result_True:
  assumes "provision_result status headers d = Inr True"
  shows "status = 200 \<and> map_of headers ''x-agentdns-commit-status'' = Some ''committed'' \<and> map_of d ''status'' = Some (JStr ''committed'')
    \<and> (\<exists>view seqno. view < 2 ^ 64 \<and> seqno < 2 ^ 64
       \<and> map_of headers ''x-agentdns-transaction-id'' = Some (nat_str view @ ''.'' @ nat_str seqno)
       \<and> map_of d ''tx_id'' = Some (JStr (nat_str view @ ''.'' @ nat_str seqno)))"
  using assms canonical_transaction_text [of "map_of headers ''x-agentdns-transaction-id''"]
  by (auto simp: provision_result_def Let_def split: if_splits)

lemma provision_result_other:
  "provision_result status headers d = Inr False \<Longrightarrow> status = 404"
  "provision_result status headers d = Inl e \<Longrightarrow> is_RuntimeError e"
  by (auto simp: provision_result_def Let_def split: if_splits)

section \<open>The environments\<close>

lemma pick_env_mem: "(k, v) \<in> set (pick_env environ keys) \<longleftrightarrow> k \<in> set keys \<and> map_of environ k = Some v"
  by (auto simp: pick_env_def split: option.splits)

lemma update_mem: "(k, v) \<in> set (AList.update a b xs) \<Longrightarrow> (k = a \<and> v = b) \<or> (k, v) \<in> set xs"
  by (induction xs) (auto split: if_splits)

lemma dict_merge_mem: "(k, v) \<in> set (dict_merge xs ys) \<Longrightarrow> (k, v) \<in> set xs \<or> (k, v) \<in> set ys"
  unfolding dict_merge_def
proof (induction ys arbitrary: xs)
  case (Cons y ys)
  then show ?case by (cases y) (auto dest!: update_mem)
qed simp

definition sample_web :: web where
  "sample_web = \<lparr>ticks = 0, inbox = [], sock_timeout = None, outbox = [], attempts = [], requests = []\<rparr>"

section \<open>Properties\<close>

text \<open>(C16) The supervisor's history is one of the abstract machine. Whatever the certificate, the node and
  the network do, the log of driver starts, retirements and provisioning attempts is a run of the
  machine that ends in the supervisor's state: a driver is started only when none runs, retired under
  the identity it was started with, and sent the transfer secret only while it runs and only until the
  first confirmation; when \<open>supervise\<close> returns, no driver is left.\<close>

theorem supervise_refines:
  "let (r, s) = supervise_loop depth clk address secret obs (new_sup w); t = stop_children s in
   replay (sup_log s) (None, False) = Some (driver s, provisioned s)
   \<and> replay (sup_log t) (None, False) = Some (None, False)"
proof -
  obtain r s where l: "supervise_loop depth clk address secret obs (new_sup w) = (r, s)" by fastforce
  have "sup_inv s" using l by (rule supervise_loop_inv) (rule inv_intros)
  with l show ?thesis
    by (auto simp: sup_inv_def stop_children_def log_event_def replay_snoc split: option.splits)
qed

text \<open>(C17) The driver is pinned to the current service identity. After every turn that saw a
  certificate, in every reachable state, the running driver was started with the SHA-256 digest of
  that certificate, or none runs.\<close>

theorem driver_pinned:
  assumes "s = snd (supervise_loop depth clk address secret obs (new_sup w))"
    and "supervise_turn depth clk address secret ob s = (r, s')" and "seen_certificate ob = Some c"
  shows "driver s' = None \<or> driver s' = Some (sha256 c)"
proof -
  have "sup_inv s"
    using supervise_loop_inv [of depth clk address secret obs "new_sup w"] assms(1) new_sup_inv by (metis prod.collapse)
  from supervise_turn_effect [OF assms(2) this] assms(3) show ?thesis by simp
qed

theorem driver_pinned_witness:
  "let s' = snd (supervise_turn 10 (\<lambda>_. 0) ''127.0.0.1:8000'' None
        \<lparr>seen_certificate = Some [1, 2], seen_trust = Inl (OSError ''certificate''), seen_popen = Inr (), seen_exit = False\<rparr>
        (new_sup sample_web))
   in driver s' = None \<or> driver s' = Some (sha256 [1, 2])"
  using driver_pinned [OF _ prod.collapse [symmetric], of "new_sup sample_web" 10 "\<lambda>_. 0" "''127.0.0.1:8000''" None "[]" sample_web
      "\<lparr>seen_certificate = Some [1, 2], seen_trust = Inl (OSError ''certificate''), seen_popen = Inr (), seen_exit = False\<rparr>"]
  by (simp add: Let_def)

text \<open>(C20) Provisioning is confirmed only by a commit. \<open>provision_transfer_secret\<close> reports success only
  for an HTTP 200 whose header and JSON body both say committed and name the same canonical
  transaction; every other 200 is an error, a 404 that says that the service is not open yet means
  not yet, and the only exceptions are \<open>RuntimeError\<close>s.\<close>

theorem provision_verdict_committed:
  "case provision_verdict depth (status, headers, raw) of
     Inr True \<Rightarrow> status = 200 \<and> map_of headers ''x-agentdns-commit-status'' = Some ''committed''
       \<and> (\<exists>d view seqno. json_loads depth strict_object raw = Inr (JDict d) \<and> map_of d ''status'' = Some (JStr ''committed'')
            \<and> view < 2 ^ 64 \<and> seqno < 2 ^ 64
            \<and> map_of headers ''x-agentdns-transaction-id'' = Some (nat_str view @ ''.'' @ nat_str seqno)
            \<and> map_of d ''tx_id'' = Some (JStr (nat_str view @ ''.'' @ nat_str seqno)))
   | Inr False \<Rightarrow> status = 404
   | Inl e \<Rightarrow> is_RuntimeError e"
proof -
  have error: "is_ValueError e \<or> e = RecursionError" if "json_loads depth strict_object raw = Inl e" for e
    using json_loads_error [OF hooks_exn_config that] .
  show ?thesis
  proof (cases "json_loads depth strict_object raw")
    case (Inl e)
    with error [OF Inl] show ?thesis by (auto simp: provision_verdict_def)
  next
    case (Inr v)
    show ?thesis
    proof (cases "\<exists>d. v = JDict d")
      case True
      then obtain d where d: "v = JDict d" by blast
      with Inr have "provision_verdict depth (status, headers, raw) = provision_result status headers d"
        by (simp add: provision_verdict_def)
      with Inr d show ?thesis
        using provision_result_True [of status headers d] provision_result_other [of status headers d]
        by (auto split: sum.splits bool.splits)
    next
      case False
      with Inr show ?thesis by (cases v) (auto simp: provision_verdict_def)
    qed
  qed
qed

text \<open>(C39) Deployment secrets do not enter the environment of a child. The node, which logs its
  environment, is given runtime essentials only, with the values of the supervisor; the driver is given
  those, its library path and the listed exporter settings. Both are told the same socket path, of at
  most 100 characters, exactly when the private directory is in use.\<close>

theorem child_environments_confined:
  assumes "telemetry_environments cwd tmp environ = Inr (node, drv, directory)"
  shows "(\<forall>(k, v) \<in> set node. k = ''AGENTDNS_TRACE_SOCKET'' \<or> k \<in> set runtime_keys \<and> map_of environ k = Some v)
    \<and> (\<forall>(k, v) \<in> set drv. k = ''AGENTDNS_TRACE_SOCKET'' \<or> (k, v) = (''PYTHONPATH'', ''/opt/agentdns/python'')
         \<or> k \<in> set (runtime_keys @ exporter_keys) \<and> map_of environ k = Some v)
    \<and> (case directory of
         None \<Rightarrow> map_of node ''AGENTDNS_TRACE_SOCKET'' = None \<and> map_of drv ''AGENTDNS_TRACE_SOCKET'' = None
       | Some d \<Rightarrow> \<exists>p. map_of node ''AGENTDNS_TRACE_SOCKET'' = Some p \<and> map_of drv ''AGENTDNS_TRACE_SOCKET'' = Some p
           \<and> length p \<le> 100 \<and> p = path_str (path_join (absolute cwd d) (parse_path ''spans.sock'')))"
proof -
  let ?n = "runtime_environment environ"
  let ?d = "dict_merge (AList.update ''PYTHONPATH'' ''/opt/agentdns/python'' ?n) (pick_env environ exporter_keys)"
  have node: "k \<in> set runtime_keys \<and> map_of environ k = Some v" if "(k, v) \<in> set ?n" for k v
    using that by (simp add: runtime_environment_def pick_env_mem)
  have driver: "(k, v) = (''PYTHONPATH'', ''/opt/agentdns/python'')
      \<or> k \<in> set (runtime_keys @ exporter_keys) \<and> map_of environ k = Some v" if "(k, v) \<in> set ?d" for k v
    using dict_merge_mem [OF that] node by (auto dest!: update_mem simp: pick_env_mem)
  have keys: "''AGENTDNS_TRACE_SOCKET'' \<notin> set runtime_keys" "''AGENTDNS_TRACE_SOCKET'' \<notin> set (runtime_keys @ exporter_keys)"
    by (simp_all add: runtime_keys_def exporter_keys_def)
  have absent: "map_of ?n ''AGENTDNS_TRACE_SOCKET'' = None" "map_of ?d ''AGENTDNS_TRACE_SOCKET'' = None"
  proof -
    show "map_of ?n ''AGENTDNS_TRACE_SOCKET'' = None" using node keys(1) by (metis map_of_SomeD not_Some_eq)
    show "map_of ?d ''AGENTDNS_TRACE_SOCKET'' = None"
    proof (cases "map_of ?d ''AGENTDNS_TRACE_SOCKET''")
      case (Some v)
      from driver [OF map_of_SomeD [OF this]] keys(2) show ?thesis by simp
    qed
  qed
  consider "node = ?n" "drv = ?d" "directory = None"
    | p dir where "node = AList.update ''AGENTDNS_TRACE_SOCKET'' p ?n" "drv = AList.update ''AGENTDNS_TRACE_SOCKET'' p ?d"
        "directory = Some dir" "length p \<le> 100" "p = path_str (path_join (absolute cwd dir) (parse_path ''spans.sock''))"
    using assms by (auto simp: telemetry_environments_def Let_def split: if_splits sum.splits)
  then show ?thesis
  proof cases
    case 1
    with node driver absent show ?thesis by auto
  next
    case 2
    with node driver absent show ?thesis by (auto dest!: update_mem simp: update_conv)
  qed
qed

theorem child_environments_confined_witness:
  "(''SECRET'', ''x'') \<notin> set (runtime_environment [(''SECRET'', ''x''), (''PATH'', ''/bin'')])
   \<and> (case telemetry_environments (parse_path ''/'') (Inl (OSError ''full'')) [(''SECRET'', ''x''), (''PATH'', ''/bin'')] of
        Inr (node, drv, _) \<Rightarrow> \<forall>(k, v) \<in> set node. k = ''AGENTDNS_TRACE_SOCKET'' \<or> k \<in> set runtime_keys
      | Inl e \<Rightarrow> False)"
  using child_environments_confined [of "parse_path ''/''" "Inl (OSError ''full'')" "[(''SECRET'', ''x''), (''PATH'', ''/bin'')]"
      "runtime_environment [(''SECRET'', ''x''), (''PATH'', ''/bin'')]"
      "dict_merge (AList.update ''PYTHONPATH'' ''/opt/agentdns/python'' (runtime_environment [(''SECRET'', ''x''), (''PATH'', ''/bin'')]))
         (pick_env [(''SECRET'', ''x''), (''PATH'', ''/bin'')] exporter_keys)" None]
  by (auto simp: telemetry_environments_def Let_def runtime_environment_def pick_env_mem runtime_keys_def)

end
