(* ===== verification/Capture_Action.thy ===== *)
theory Capture_Action
  imports Json_Laws Base64_Codec Net_Address Sha256
begin

text \<open>
  The values that \<open>tools/capture_aci.py\<close> signs: its strict JSON reader, the canonical encoding of an
  action, and the validation of the configuration that fixes the scope of everything it may sign.
  \<open>depth\<close> is the number of containers the interpreter's recursion limit lets the JSON reader enter.
\<close>

section \<open>Constants and encodings\<close>

definition MAX_BYTES :: nat where "MAX_BYTES = 2 * 1024 * 1024"
definition MAX_EVIDENCE_BYTES :: nat where "MAX_EVIDENCE_BYTES = 1024 * 1024"
definition MAX_SAFE_INTEGER :: int where "MAX_SAFE_INTEGER = 2 ^ 53 - 1"
definition PROFILE :: string where "PROFILE = ''azure-aci-snp''"
definition TLS_SERVER_NAME :: string where "TLS_SERVER_NAME = ''agentdns-capture.test''"
definition HTTP_DEADLINE_SECONDS :: real where "HTTP_DEADLINE_SECONDS = 30"
definition CCF_DEADLINE_SECONDS :: real where "CCF_DEADLINE_SECONDS = 30"

definition b64url :: "bytes \<Rightarrow> string" where
  "b64url data = rstrip_eq (urlsafe_b64encode data)"

definition capture_pairs :: json_hooks where
  "capture_pairs =
     \<lparr>pairs_hook = (\<lambda>ps. bindr (unique_pairs ''duplicate JSON key'' [] ps) (\<lambda>d. Inr (JDict d))),
      float_hook = (\<lambda>_. Inl (ValueError ''only bounded integer numeric fields are supported'')),
      const_hook = (\<lambda>_. Inl (ValueError ''only bounded integer numeric fields are supported''))\<rparr>"

definition strict_json :: "nat \<Rightarrow> bytes \<Rightarrow> json res" where
  "strict_json depth data =
     (if length data > MAX_BYTES then Inl (ValueError ''JSON input exceeds limit'')
      else json_loads depth capture_pairs data)"

text \<open>\<open>validate\<close> inside \<open>canonical\<close>.\<close>

primrec canonical_check :: "json \<Rightarrow> unit res" where
  "canonical_check JNull = Inr ()"
| "canonical_check (JBool b) = Inr ()"
| "canonical_check (JInt i) =
     (if 0 \<le> i \<and> i \<le> MAX_SAFE_INTEGER then Inr () else Inl (ValueError ''integer outside canonical safe range''))"
| "canonical_check (JFloat t) = Inl (ValueError ''unsupported canonical value'')"
| "canonical_check (JStr s) =
     (if isascii s then Inr () else Inl (ValueError ''test action strings must be ASCII''))"
| "canonical_check (JList xs) = for_each id (map canonical_check xs)"
| "canonical_check (JDict d) =
     for_each (\<lambda>(k, r). if isascii k then r else Inl (ValueError ''canonical object keys must be ASCII''))
       (map (map_prod id canonical_check) d)"

definition canonical :: "json \<Rightarrow> bytes res" where
  "canonical v = bindr (canonical_check v) (\<lambda>_. Inr (encode_str (dumps quote_str '','' '':'' (sort_json v))))"

definition exact_fields :: "json \<Rightarrow> string list \<Rightarrow> string list \<Rightarrow> json dict res" where
  "exact_fields obj required optional =
     (case jdict obj of
        Some d \<Rightarrow>
          if set required \<subseteq> set (dict_keys d) \<and> set (dict_keys d) \<subseteq> set required \<union> set optional then Inr d
          else Inl (ValueError ''missing or unknown fields'')
      | None \<Rightarrow> Inl (ValueError ''missing or unknown fields''))"

section \<open>Names\<close>

text \<open>The pattern \<open>[a-z0-9](?:[a-z0-9-]{0,61}[a-z0-9])?\<close>.\<close>

definition dns_label :: "string \<Rightarrow> bool" where
  "dns_label s \<longleftrightarrow> s \<noteq> [] \<and> length s \<le> 63 \<and> list_all (\<lambda>c. is_lower c \<or> is_digit c \<or> c = CHR ''-'') s
     \<and> hd s \<noteq> CHR ''-'' \<and> last s \<noteq> CHR ''-''"

definition capture_name :: "json \<Rightarrow> string res" where
  "capture_name v =
     (case jstr v of
        Some s \<Rightarrow>
          if str_len s > 240 \<or> s \<noteq> lower s \<or> \<not> endswith s ''.''
          then Inl (ValueError ''name must be a bounded lowercase absolute ASCII name'')
          else if list_ex (\<lambda>l. \<not> dns_label l) (split_on CHR ''.'' (butlast s))
          then Inl (ValueError ''invalid DNS name'')
          else Inr s
      | None \<Rightarrow> Inl (ValueError ''name must be a bounded lowercase absolute ASCII name''))"

definition in_zone :: "string \<Rightarrow> string \<Rightarrow> bool" where
  "in_zone owner zone \<longleftrightarrow> owner = zone \<or> endswith owner (CHR ''.'' # zone)"

section \<open>The configuration\<close>

text \<open>The pattern \<open>[A-Za-z0-9][A-Za-z0-9._:-]{0,127}\<close>.\<close>

definition id_ok :: "string \<Rightarrow> bool" where
  "id_ok s \<longleftrightarrow> s \<noteq> [] \<and> length s \<le> 128 \<and> is_alnum (hd s)
     \<and> list_all (\<lambda>c. is_alnum c \<or> c \<in> {CHR ''.'', CHR ''_'', CHR '':'', CHR ''-''}) (tl s)"

definition config_required :: "string list" where
  "config_required = [''request_id'', ''audience'', ''grant_id'', ''zone'', ''role'', ''mailbox_domain'',
     ''service_host'', ''addresses'', ''ports'', ''lease_seconds'']"

definition config_optional :: "string list" where
  "config_optional = [''ccf_url'', ''ccf_ca_pem'', ''listen_address'', ''listen_port'']"

definition check_ids :: "json dict \<Rightarrow> unit res" where
  "check_ids config =
     for_each (\<lambda>field. bindr (dict_index config field) (\<lambda>v.
       case jstr v of
         Some s \<Rightarrow> if id_ok s then Inr () else Inl (ValueError (''invalid '' @ field))
       | None \<Rightarrow> Inl (ValueError (''invalid '' @ field))))
     [''request_id'', ''grant_id'', ''role'']"

definition check_audience :: "json dict \<Rightarrow> unit res" where
  "check_audience config =
     bindr (dict_index config ''audience'') (\<lambda>v.
       case jstr v of
         Some s \<Rightarrow>
           if \<not> isascii s \<or> \<not> startswith s ''ccf://'' \<or> str_len s > 256
           then Inl (ValueError ''audience must be a fixed CCF service identity'') else Inr ()
       | None \<Rightarrow> Inl (ValueError ''audience must be a fixed CCF service identity''))"

definition reserved_zone :: "string \<Rightarrow> bool" where
  "reserved_zone zone \<longleftrightarrow> endswith zone ''.test.'' \<or> endswith zone ''.invalid.''
     \<or> zone \<in> {''example.'', ''example.com.'', ''example.net.'', ''example.org.''}"

definition check_zone :: "json dict \<Rightarrow> string res" where
  "check_zone config =
     bindr (dict_index config ''zone'') (\<lambda>v. bindr (capture_name v) (\<lambda>zone.
       if \<not> reserved_zone zone
       then Inl (ValueError ''capture worker signs only reserved test or example zones'') else Inr zone))"

definition check_names :: "string \<Rightarrow> json dict \<Rightarrow> unit res" where
  "check_names zone config =
     for_each (\<lambda>field. bindr (dict_index config field) (\<lambda>v. bindr (capture_name v) (\<lambda>owner.
       if in_zone owner zone then Inr ()
       else Inl (ValueError ''test names must lie inside the fixed zone''))))
     [''mailbox_domain'', ''service_host'']"

definition parse_address :: "nat \<Rightarrow> json \<Rightarrow> nat res" where
  "parse_address family v =
     (case jstr v of
        Some t \<Rightarrow>
          bindr (ip_address t) (\<lambda>a.
            if ip_version a \<noteq> family \<or> ip_str a \<noteq> t
            then Inl (ValueError ''addresses must use canonical presentation'') else Inr (ip_int a))
      | None \<Rightarrow> Inl (ValueError ''addresses must use canonical presentation''))"

definition check_family :: "json dict \<Rightarrow> string \<Rightarrow> nat \<Rightarrow> nat res" where
  "check_family addresses field family =
     bindr (dict_index addresses field) (\<lambda>v.
       case jlist v of
         Some xs \<Rightarrow>
           if length xs > 16 then Inl (ValueError ''invalid address list'')
           else bindr (map_res (parse_address family) xs) (\<lambda>parsed.
             if parsed \<noteq> sort (remdups parsed)
             then Inl (ValueError ''addresses must be sorted and duplicate-free'') else Inr (length parsed))
       | None \<Rightarrow> Inl (ValueError ''invalid address list''))"

definition check_addresses :: "json dict \<Rightarrow> unit res" where
  "check_addresses config =
     bindr (dict_index config ''addresses'') (\<lambda>v.
     bindr (exact_fields v [''ipv4'', ''ipv6''] []) (\<lambda>addresses.
     bindr (check_family addresses ''ipv4'' 4) (\<lambda>n4.
     bindr (check_family addresses ''ipv6'' 6) (\<lambda>n6.
       if n4 + n6 = 0 then Inl (ValueError ''at least one address is required'') else Inr ()))))"

text \<open>A list of integers from a set, in ascending order and without duplicates.\<close>

definition sorted_ports :: "int list \<Rightarrow> json \<Rightarrow> bool" where
  "sorted_ports allowed v \<longleftrightarrow>
     (case jlist v of
        Some ps \<Rightarrow>
          list_all (\<lambda>p. case jint p of Some i \<Rightarrow> i \<in> set allowed | None \<Rightarrow> False) ps
          \<and> (let is = map (\<lambda>p. case jint p of Some i \<Rightarrow> i | None \<Rightarrow> 0) ps in is = sort (remdups is))
      | None \<Rightarrow> False)"

definition check_ports :: "json dict \<Rightarrow> unit res" where
  "check_ports config =
     bindr (dict_index config ''ports'') (\<lambda>v.
       if v = JList [] \<or> \<not> sorted_ports [25, 465, 993] v
       then Inl (ValueError ''capture supports only sorted test mail ports 25,465,993'') else Inr ())"

definition int_between :: "int \<Rightarrow> int \<Rightarrow> json \<Rightarrow> bool" where
  "int_between lo hi v \<longleftrightarrow> (case jint v of Some i \<Rightarrow> lo \<le> i \<and> i \<le> hi | None \<Rightarrow> False)"

definition check_lease :: "json dict \<Rightarrow> unit res" where
  "check_lease config =
     bindr (dict_index config ''lease_seconds'') (\<lambda>v.
       if int_between 1 86400 v then Inr ()
       else Inl (ValueError ''test lease must be between one second and one day''))"

text \<open>\<open>urlsplit\<close> decodes an argument that is not a string, unless it is falsy.\<close>

definition falsy :: "json \<Rightarrow> bool" where
  "falsy v \<longleftrightarrow> v \<in> {JNull, JBool False, JInt 0, JStr [], JList [], JDict []}"

definition check_url :: "json \<Rightarrow> unit res" where
  "check_url v =
     (case jstr v of
        Some u \<Rightarrow>
          bindr (urlsplit u) (\<lambda>url.
            if url_scheme url \<noteq> ''https'' \<or> url_hostname url = None \<or> url_extras url
            then Inl (ValueError ''CCF URL must be an HTTPS base URL'') else Inr ())
      | None \<Rightarrow> if falsy v then Inl (ValueError ''CCF URL must be an HTTPS base URL'') else Inl (AttributeError ''decode''))"

definition check_ccf :: "json dict \<Rightarrow> unit res" where
  "check_ccf config =
     (case (map_of config ''ccf_url'', map_of config ''ccf_ca_pem'') of
        (None, None) \<Rightarrow> Inr ()
      | (Some url, Some pem) \<Rightarrow>
          bindr (check_url url) (\<lambda>_.
            if (case jstr pem of Some p \<Rightarrow> contains ''-----BEGIN CERTIFICATE-----'' p | None \<Rightarrow> False) then Inr ()
            else Inl (ValueError ''explicit CCF CA PEM is required''))
      | _ \<Rightarrow> Inl (ValueError ''CCF URL and trusted CA must be configured together''))"

definition config_get :: "json dict \<Rightarrow> string \<Rightarrow> json \<Rightarrow> json" where
  "config_get config key default_value = (case map_of config key of None \<Rightarrow> default_value | Some v \<Rightarrow> v)"

definition check_listen :: "json dict \<Rightarrow> unit res" where
  "check_listen config =
     (if \<not> int_between 1 65535 (config_get config ''listen_port'' (JInt 8080))
      then Inl (ValueError ''invalid listen port'')
      else if config_get config ''listen_address'' (JStr ''0.0.0.0'') \<notin> {JStr ''0.0.0.0'', JStr ''127.0.0.1''}
      then Inl (ValueError ''invalid listen address'') else Inr ())"

definition validate_config :: "json \<Rightarrow> json dict res" where
  "validate_config v =
     bindr (exact_fields v config_required config_optional) (\<lambda>config.
     bindr (check_ids config) (\<lambda>_.
     bindr (check_audience config) (\<lambda>_.
     bindr (check_zone config) (\<lambda>zone.
     bindr (check_names zone config) (\<lambda>_.
     bindr (check_addresses config) (\<lambda>_.
     bindr (check_ports config) (\<lambda>_.
     bindr (check_lease config) (\<lambda>_.
     bindr (check_ccf config) (\<lambda>_.
     bindr (check_listen config) (\<lambda>_. Inr config))))))))))"

section \<open>Laws of the encoding\<close>

interpretation capture_json: strict_hook capture_pairs
  by unfold_locales (auto simp: capture_pairs_def unique_pairs_eq)

lemma canonical_check_JList [simp]: "canonical_check (JList xs) = Inr u \<longleftrightarrow> (\<forall>x \<in> set xs. canonical_check x = Inr ())"
  by simp

lemma canonical_check_JDict [simp]:
  "canonical_check (JDict d) = Inr u \<longleftrightarrow> (\<forall>(k, v) \<in> set d. isascii k \<and> canonical_check v = Inr ())"
  by (force split: if_splits)

declare canonical_check.simps(6,7) [simp del]

lemma canonical_check_shape:
  "canonical_check v = Inr () \<Longrightarrow> json_ascii v \<and> json_exact v"
proof (induction v rule: json_induct)
  case (JInt i)
  then have "nat \<bar>i\<bar> < 10 ^ 16" by (auto simp: MAX_SAFE_INTEGER_def split: if_splits)
  from length_nat_str_le [OF this] show ?case by simp
next
  case (JDict d)
  then show ?case by fastforce
qed (auto split: if_splits)

lemma canonical_Inr:
  "canonical v = Inr b \<longleftrightarrow> canonical_check v = Inr () \<and> b = encode_str (print_json (sort_json v))"
  by (auto simp: canonical_def)

lemma canonical_read:
  assumes "canonical v = Inr b" "json_wf v" "json_nest v \<le> depth"
  shows "json_loads depth capture_pairs b = Inr (sort_json v)"
  using assms canonical_check_shape [of v]
  by (auto simp: canonical_Inr intro!: capture_json.loads_bytes json_ascii_sort json_exact_sort json_wf_sort json_nest_sort_le)

lemma canonical_inj:
  assumes "canonical v = Inr b" "json_wf v" "canonical w = Inr b" "json_wf w"
  shows "sort_json v = sort_json w"
  using canonical_read [OF assms(1,2), of "max (json_nest v) (json_nest w)"]
    canonical_read [OF assms(3,4), of "max (json_nest v) (json_nest w)"] by simp

lemma strict_json_wf: "strict_json depth data = Inr v \<Longrightarrow> json_wf v"
  by (auto simp: strict_json_def intro: capture_json.loads_wf split: if_splits)

lemma hooks_exn_capture: "hooks_exn capture_pairs"
  by (auto simp: hooks_exn_def capture_pairs_def unique_pairs_eq split: if_splits)

lemma strict_json_error: "strict_json depth data = Inl e \<Longrightarrow> is_ValueError e \<or> e = RecursionError"
  using json_loads_error [OF hooks_exn_capture] by (auto simp: strict_json_def split: if_splits)

lemma exact_fields_Inr:
  "exact_fields v required optional = Inr d \<longleftrightarrow>
     v = JDict d \<and> set required \<subseteq> set (map fst d) \<and> set (map fst d) \<subseteq> set required \<union> set optional"
  by (auto simp: exact_fields_def dict_keys_def split: option.splits)

lemma exact_fields_error: "exact_fields v required optional = Inl e \<Longrightarrow> is_ValueError e"
  by (auto simp: exact_fields_def split: option.splits if_splits)

section \<open>Laws of the validation\<close>

lemma sorted_remdups: "is = sort (remdups is) \<longleftrightarrow> sorted_wrt (<) (is :: 'a :: linorder list)"
proof
  assume "is = sort (remdups is)"
  then have "sorted is \<and> distinct is" by (metis distinct_remdups distinct_sort sorted_sort)
  then show "sorted_wrt (<) is" by (simp add: strict_sorted_iff)
next
  assume "sorted_wrt (<) is"
  then have "sorted is" "distinct is" by (simp_all add: strict_sorted_iff)
  then show "is = sort (remdups is)" by (simp add: distinct_remdups_id sorted_sort_id)
qed

lemma sorted_ports_iff:
  "sorted_ports allowed v \<longleftrightarrow> (\<exists>is. v = JList (map JInt is) \<and> set is \<subseteq> set allowed \<and> sorted_wrt (<) is)"
proof
  assume h: "sorted_ports allowed v"
  then obtain ps where v: "v = JList ps" and
    all: "\<forall>p \<in> set ps. case jint p of Some i \<Rightarrow> i \<in> set allowed | None \<Rightarrow> False" and
    ord: "sorted_wrt (<) (map (\<lambda>p. case jint p of Some i \<Rightarrow> i | None \<Rightarrow> 0) ps)"
    by (auto simp: sorted_ports_def Let_def sorted_remdups list_all_iff split: option.splits)
  let ?is = "map (\<lambda>p. case jint p of Some i \<Rightarrow> i | None \<Rightarrow> 0) ps"
  have "ps = map JInt ?is" using all by (auto intro!: map_idI [symmetric] split: option.splits)
  moreover have "set ?is \<subseteq> set allowed" using all by (fastforce split: option.splits)
  ultimately show "\<exists>is. v = JList (map JInt is) \<and> set is \<subseteq> set allowed \<and> sorted_wrt (<) is" using v ord by blast
next
  assume "\<exists>is. v = JList (map JInt is) \<and> set is \<subseteq> set allowed \<and> sorted_wrt (<) is"
  then show "sorted_ports allowed v"
    by (auto simp: sorted_ports_def Let_def sorted_remdups list_all_iff comp_def)
qed

lemma int_between_iff: "int_between lo hi v \<longleftrightarrow> (\<exists>i. v = JInt i \<and> lo \<le> i \<and> i \<le> hi)"
  by (cases v) (auto simp: int_between_def)

text \<open>An absolute name: its labels, each followed by a dot.\<close>

definition absolute_name :: "string \<Rightarrow> bool" where
  "absolute_name s \<longleftrightarrow> length s \<le> 240
     \<and> (\<exists>labels. s = join_with ''.'' labels @ ''.'' \<and> labels \<noteq> [] \<and> (\<forall>l \<in> set labels. dns_label l))"

lemma dns_label_chars: "dns_label s \<Longrightarrow> c \<in> set s \<Longrightarrow> is_lower c \<or> is_digit c \<or> c = CHR ''-''"
  by (auto simp: dns_label_def list_all_iff)

lemma dns_label_dot: "dns_label s \<Longrightarrow> CHR ''.'' \<notin> set s"
  using dns_label_chars [of s "CHR ''.''"] by (auto simp: is_lower_def is_digit_def)

lemma label_char_plain:
  "is_lower c \<or> is_digit c \<or> c = CHR ''-'' \<or> c = CHR ''.'' \<Longrightarrow> ord c < 128 \<and> lower_char c = c"
  by (auto simp: is_lower_def is_digit_def is_upper_def lower_char_def)

lemma join_with_chars: "c \<in> set (join_with sep xs) \<Longrightarrow> c \<in> set sep \<or> (\<exists>x \<in> set xs. c \<in> set x)"
  by (induction sep xs rule: join_with.induct) auto

lemma labels_plain:
  assumes "\<forall>l \<in> set labels. dns_label l" "c \<in> set (join_with ''.'' labels @ ''.'')"
  shows "ord c < 128 \<and> lower_char c = c"
proof (rule label_char_plain)
  from assms(2) join_with_chars [of c "''.''" labels] consider "c = CHR ''.''" | l where "l \<in> set labels" "c \<in> set l" by auto
  then show "is_lower c \<or> is_digit c \<or> c = CHR ''-'' \<or> c = CHR ''.''"
    using dns_label_chars assms(1) by cases auto
qed

lemma absolute_name_ascii: "absolute_name s \<Longrightarrow> isascii s"
  using labels_plain by (fastforce simp: absolute_name_def isascii_def list_all_iff)

lemma capture_name_Inr: "capture_name v = Inr s \<longleftrightarrow> v = JStr s \<and> absolute_name s"
proof
  assume h: "capture_name v = Inr s"
  then have v: "v = JStr s" and l: "str_len s \<le> 240" and e: "endswith s ''.''" and
    d: "\<forall>l \<in> set (split_on CHR ''.'' (butlast s)). dns_label l"
    by (auto simp: capture_name_def list_ex_iff split: option.splits if_splits)
  have s: "s = join_with ''.'' (split_on CHR ''.'' (butlast s)) @ ''.''"
    using e by (auto simp: endswith_iff join_split)
  have "isascii s" using labels_plain [OF d] s by (metis isascii_def list_all_iff)
  then have "length s \<le> 240" using l by (simp add: isascii_def str_len_ascii)
  with s d v show "v = JStr s \<and> absolute_name s" unfolding absolute_name_def by (metis split_on_nonempty)
next
  assume h: "v = JStr s \<and> absolute_name s"
  then obtain labels where s: "s = join_with ''.'' labels @ ''.''" "labels \<noteq> []" and
    d: "\<forall>l \<in> set labels. dns_label l" and n: "length s \<le> 240" by (auto simp: absolute_name_def)
  have "split_on CHR ''.'' (butlast s) = labels"
    using s d dns_label_dot by (auto intro!: split_join)
  moreover have "s = lower s" using labels_plain [OF d] s(1) by (simp add: lower_def map_idI)
  moreover have "endswith s ''.''" using s by (auto simp: endswith_iff)
  moreover have "str_len s \<le> 240" using n str_len_le [of s] by simp
  ultimately show "capture_name v = Inr s" using h d by (auto simp: capture_name_def list_ex_iff)
qed

text \<open>A list of at most 16 addresses of a family in canonical presentation, in ascending order.\<close>

definition address_list :: "nat \<Rightarrow> json \<Rightarrow> ip list \<Rightarrow> bool" where
  "address_list family v as \<longleftrightarrow> v = JList (map (\<lambda>a. JStr (ip_str a)) as) \<and> length as \<le> 16
     \<and> (\<forall>a \<in> set as. ip_version a = family \<and> ip_address (ip_str a) = Inr a) \<and> sorted_wrt (<) (map ip_int as)"

lemma parse_address_Inr:
  "parse_address family v = Inr n \<longleftrightarrow>
     (\<exists>a. v = JStr (ip_str a) \<and> n = ip_int a \<and> ip_version a = family \<and> ip_address (ip_str a) = Inr a)"
  by (auto simp: parse_address_def split: option.splits if_splits)

lemma parse_addresses_Inr:
  "map_res (parse_address family) xs = Inr ns \<longleftrightarrow>
     (\<exists>as. xs = map (\<lambda>a. JStr (ip_str a)) as \<and> ns = map ip_int as
        \<and> (\<forall>a \<in> set as. ip_version a = family \<and> ip_address (ip_str a) = Inr a))"
proof (induction xs arbitrary: ns)
  case (Cons x xs)
  then show ?case
    by (auto simp: parse_address_Inr Cons_eq_map_conv) (metis list.set_intros list.simps(9) set_ConsD)+
qed auto

lemma check_family_Inr:
  "check_family d field family = Inr n \<longleftrightarrow> (\<exists>v as. map_of d field = Some v \<and> address_list family v as \<and> n = length as)"
proof -
  have "(case jlist v of
         Some xs \<Rightarrow>
           if length xs > 16 then Inl (ValueError ''invalid address list'')
           else bindr (map_res (parse_address family) xs) (\<lambda>parsed.
             if parsed \<noteq> sort (remdups parsed)
             then Inl (ValueError ''addresses must be sorted and duplicate-free'') else Inr (length parsed))
       | None \<Rightarrow> Inl (ValueError ''invalid address list'')) = Inr n \<longleftrightarrow> (\<exists>as. address_list family v as \<and> n = length as)" for v
    by (auto simp: address_list_def parse_addresses_Inr sorted_remdups split: option.splits)
  then show ?thesis by (simp add: check_family_def)
qed

text \<open>What an accepted configuration fixes.\<close>

definition has_id :: "json dict \<Rightarrow> string \<Rightarrow> bool" where
  "has_id config k \<longleftrightarrow> (\<exists>s. map_of config k = Some (JStr s) \<and> id_ok s)"

definition has_name :: "string \<Rightarrow> json dict \<Rightarrow> string \<Rightarrow> bool" where
  "has_name zone config k \<longleftrightarrow> (\<exists>s. map_of config k = Some (JStr s) \<and> absolute_name s \<and> in_zone s zone)"

definition has_addresses :: "json dict \<Rightarrow> bool" where
  "has_addresses config \<longleftrightarrow> (\<exists>d v4 v6 as4 as6. map_of config ''addresses'' = Some (JDict d) \<and> set (map fst d) = {''ipv4'', ''ipv6''}
     \<and> map_of d ''ipv4'' = Some v4 \<and> address_list 4 v4 as4 \<and> map_of d ''ipv6'' = Some v6 \<and> address_list 6 v6 as6
     \<and> as4 @ as6 \<noteq> [])"

definition has_audience :: "json dict \<Rightarrow> bool" where
  "has_audience config \<longleftrightarrow> (\<exists>s. map_of config ''audience'' = Some (JStr s) \<and> isascii s \<and> startswith s ''ccf://'' \<and> length s \<le> 256)"

definition has_ports :: "json dict \<Rightarrow> int list \<Rightarrow> bool" where
  "has_ports config ps \<longleftrightarrow> map_of config ''ports'' = Some (JList (map JInt ps)) \<and> ps \<noteq> []
     \<and> set ps \<subseteq> {25, 465, 993} \<and> sorted_wrt (<) ps"

definition has_lease :: "json dict \<Rightarrow> int \<Rightarrow> bool" where
  "has_lease config n \<longleftrightarrow> map_of config ''lease_seconds'' = Some (JInt n) \<and> 1 \<le> n \<and> n \<le> 86400"

definition https_base :: "string \<Rightarrow> bool" where
  "https_base t \<longleftrightarrow> (\<exists>u. urlsplit t = Inr u \<and> url_scheme u = ''https'' \<and> url_hostname u \<noteq> None \<and> \<not> url_extras u)"

definition ccf_pair :: "json option \<Rightarrow> json option \<Rightarrow> bool" where
  "ccf_pair url pem \<longleftrightarrow> url = None \<and> pem = None
     \<or> (\<exists>t p. url = Some (JStr t) \<and> pem = Some (JStr p) \<and> https_base t \<and> contains ''-----BEGIN CERTIFICATE-----'' p)"

definition listens :: "json dict \<Rightarrow> bool" where
  "listens config \<longleftrightarrow> (\<forall>v. map_of config ''listen_port'' = Some v \<longrightarrow> (\<exists>i. v = JInt i \<and> 1 \<le> i \<and> i \<le> 65535))
     \<and> (\<forall>v. map_of config ''listen_address'' = Some v \<longrightarrow> v = JStr ''0.0.0.0'' \<or> v = JStr ''127.0.0.1'')"

definition fixed_scope :: "json dict \<Rightarrow> bool" where
  "fixed_scope config \<longleftrightarrow> set config_required \<subseteq> set (map fst config) \<and> set (map fst config) \<subseteq> set config_required \<union> set config_optional
     \<and> has_id config ''request_id'' \<and> has_id config ''grant_id'' \<and> has_id config ''role'' \<and> has_audience config
     \<and> (\<exists>zone. map_of config ''zone'' = Some (JStr zone) \<and> absolute_name zone \<and> reserved_zone zone
          \<and> has_name zone config ''mailbox_domain'' \<and> has_name zone config ''service_host'')
     \<and> has_addresses config \<and> (\<exists>ps. has_ports config ps) \<and> (\<exists>n. has_lease config n)
     \<and> ccf_pair (map_of config ''ccf_url'') (map_of config ''ccf_ca_pem'') \<and> listens config"

lemma check_ids_Inr: "check_ids config = Inr u \<longleftrightarrow> has_id config ''request_id'' \<and> has_id config ''grant_id'' \<and> has_id config ''role''"
proof -
  have "bindr (dict_index config field) (\<lambda>v. case jstr v of
      Some s \<Rightarrow> if id_ok s then Inr () else Inl (ValueError (''invalid '' @ field))
    | None \<Rightarrow> Inl (ValueError (''invalid '' @ field))) = Inr () \<longleftrightarrow> has_id config field" for field
    by (auto simp: has_id_def split: option.splits if_splits)
  then show ?thesis by (simp add: check_ids_def)
qed

lemma check_audience_Inr: "check_audience config = Inr u \<longleftrightarrow> has_audience config"
proof
  assume "check_audience config = Inr u"
  then show "has_audience config"
    by (auto simp: check_audience_def has_audience_def isascii_def str_len_ascii split: option.splits if_splits)
next
  assume "has_audience config"
  then show "check_audience config = Inr u"
    by (auto simp: check_audience_def has_audience_def isascii_def str_len_ascii)
qed

lemma check_zone_Inr:
  "check_zone config = Inr zone \<longleftrightarrow> map_of config ''zone'' = Some (JStr zone) \<and> absolute_name zone \<and> reserved_zone zone"
  by (auto simp: check_zone_def capture_name_Inr)

lemma check_names_Inr:
  "check_names zone config = Inr u \<longleftrightarrow> has_name zone config ''mailbox_domain'' \<and> has_name zone config ''service_host''"
proof -
  have "bindr (dict_index config field) (\<lambda>v. bindr (capture_name v) (\<lambda>owner.
       if in_zone owner zone then Inr () else Inl (ValueError ''test names must lie inside the fixed zone''))) = Inr ()
    \<longleftrightarrow> has_name zone config field" for field
    by (auto simp: has_name_def capture_name_Inr split: if_splits)
  then show ?thesis by (simp add: check_names_def)
qed

lemma counted_lists:
  "(\<exists>m n. (\<exists>v xs. A v \<and> P v xs \<and> m = length xs) \<and> (\<exists>v ys. B v \<and> Q v ys \<and> n = length ys) \<and> m + n \<noteq> 0)
   \<longleftrightarrow> (\<exists>v w xs ys. A v \<and> P v xs \<and> B w \<and> Q w ys \<and> xs @ ys \<noteq> [])"
  by auto

lemma through_dict: "(\<exists>v d. A v \<and> (v = JDict d \<and> P d) \<and> Q d) \<longleftrightarrow> (\<exists>d. A (JDict d) \<and> P d \<and> Q d)"
  by blast

lemma check_addresses_Inr: "check_addresses config = Inr u \<longleftrightarrow> has_addresses config"
proof -
  have fields: "exact_fields v [''ipv4'', ''ipv6''] [] = Inr d \<longleftrightarrow> v = JDict d \<and> set (map fst d) = {''ipv4'', ''ipv6''}" for v d
    unfolding exact_fields_Inr by (simp add: set_eq_subset conj_commute)
  have "check_addresses config = Inr u \<longleftrightarrow> (\<exists>v d. map_of config ''addresses'' = Some v
      \<and> exact_fields v [''ipv4'', ''ipv6''] [] = Inr d
      \<and> (\<exists>n4 n6. check_family d ''ipv4'' 4 = Inr n4 \<and> check_family d ''ipv6'' 6 = Inr n6 \<and> n4 + n6 \<noteq> 0))"
    unfolding check_addresses_def by (simp split: if_splits) blast
  then show ?thesis
    unfolding check_family_Inr has_addresses_def fields through_dict counted_lists by simp
qed

lemma check_ports_Inr: "check_ports config = Inr u \<longleftrightarrow> (\<exists>ps. has_ports config ps)"
proof -
  have "check_ports config = Inr u \<longleftrightarrow> (\<exists>v. map_of config ''ports'' = Some v \<and> v \<noteq> JList [] \<and> sorted_ports [25, 465, 993] v)"
    unfolding check_ports_def by (cases "map_of config ''ports''") (auto simp: dict_index_def)
  then show ?thesis by (auto simp: has_ports_def sorted_ports_iff)
qed

lemma check_lease_Inr: "check_lease config = Inr u \<longleftrightarrow> (\<exists>n. has_lease config n)"
proof -
  have "check_lease config = Inr u \<longleftrightarrow> (\<exists>v. map_of config ''lease_seconds'' = Some v \<and> int_between 1 86400 v)"
    unfolding check_lease_def by (cases "map_of config ''lease_seconds''") (auto simp: dict_index_def)
  then show ?thesis by (auto simp: has_lease_def int_between_iff)
qed

lemma check_url_Inr: "check_url v = Inr u \<longleftrightarrow> (\<exists>t. v = JStr t \<and> https_base t)"
  by (auto simp: check_url_def https_base_def split: option.splits if_splits)

lemma check_ccf_Inr: "check_ccf config = Inr u \<longleftrightarrow> ccf_pair (map_of config ''ccf_url'') (map_of config ''ccf_ca_pem'')"
  by (auto simp: check_ccf_def ccf_pair_def check_url_Inr split: option.splits if_splits)

lemma check_listen_Inr: "check_listen config = Inr u \<longleftrightarrow> listens config"
  by (auto simp: check_listen_def listens_def config_get_def int_between_iff split: option.splits if_splits)

lemmas validate_config_parts = check_ids_Inr check_audience_Inr check_zone_Inr check_names_Inr check_addresses_Inr
  check_ports_Inr check_lease_Inr check_ccf_Inr check_listen_Inr exact_fields_Inr

lemma validate_config_Inr: "validate_config v = Inr config \<longleftrightarrow> v = JDict config \<and> fixed_scope config"
  unfolding validate_config_def fixed_scope_def by (simp add: validate_config_parts) blast

section \<open>Properties\<close>



text \<open>(C24) \<open>validate_config\<close> accepts exactly the configurations of the fixed test scope: all required
  and no unknown fields, a reserved test or example zone, names inside it, addresses in canonical
  presentation, test mail ports, a lease of at most a day, and a CCF endpoint only as an HTTPS base URL
  with its own trusted root.\<close>

theorem validate_config_iff: "validate_config v = Inr config \<longleftrightarrow> v = JDict config \<and> fixed_scope config"
  by (rule validate_config_Inr)

end
