(* ===== verification/Capture_State.thy ===== *)
theory Capture_State
  imports Capture_Action File_System Socket_Io
begin

text \<open>
  The capture worker of \<open>tools/capture_aci.py\<close>: the collection of the hardware report, the in-memory
  TLS material and \<open>CaptureState\<close>, the constrained signer. The private key, the certificate library
  and the CBOR encoder are third-party code: a key is the function that gives its \<open>n\<close>-th signature
  on a message, a certificate the value that the library returns for a request.

  The lock of \<open>CaptureState\<close> makes each of its methods one step, so that the handler threads are a
  sequence of steps. Every message that reaches the key is recorded in \<open>signatures\<close>.
\<close>

section \<open>The report\<close>

definition bytes_space :: "byte \<Rightarrow> bool" where
  "bytes_space b \<longleftrightarrow> 9 \<le> b \<and> b \<le> 13 \<or> b = 32"

definition bytes_strip :: "bytes \<Rightarrow> bytes" where
  "bytes_strip bs = rev (dropWhile bytes_space (rev (dropWhile bytes_space bs)))"

text \<open>\<open>collector\<close> is the output of the native collector on its argument, or the error of
  \<open>subprocess.run\<close>.\<close>

definition collect_report :: "(string \<Rightarrow> bytes res) \<Rightarrow> bytes \<Rightarrow> bytes res" where
  "collect_report collector binding =
     (if length binding \<noteq> 64 then Inl (ValueError ''report binding must contain exactly 64 bytes'')
      else bindr (collector (bytes_hex binding)) (\<lambda>stdout.
        let digits = bytes_str (bytes_strip stdout) in
        if length digits \<noteq> 2368 \<or> \<not> list_all is_hex digits
        then Inl (RuntimeError ''collector did not return a native 1184-byte SNP report'')
        else
          let report = unhex digits in
          if slice 80 144 report \<noteq> binding
          then Inl (RuntimeError ''native report does not bind the generated service key'')
          else if le_nat (slice 48 52 report) \<noteq> 0 \<or> odd (le_nat (slice 8 16 report) div 2 ^ 19)
          then Inl (RuntimeError ''native report has nonzero VMPL or debug enabled'')
          else Inr report))"

text \<open>The file system as the worker reads it at its start.\<close>

record disk =
  is_file :: "path \<Rightarrow> bool"
  file_bytes :: "path \<Rightarrow> bytes res"

definition read_bounded_file :: "disk \<Rightarrow> path \<Rightarrow> bytes res" where
  "read_bounded_file dk p =
     bindr (file_bytes dk p) (\<lambda>content.
       let data = take (MAX_BYTES + 1) content in
       if data = [] \<or> length data > MAX_BYTES
       then Inl (ValueError ''security-context file is empty or oversized'') else Inr data)"

text \<open>\<open>configured\<close> is the environment variable; \<open>found\<close> the sorted matches of \<open>/security-context*\<close>.\<close>

definition security_context :: "disk \<Rightarrow> string option \<Rightarrow> path list \<Rightarrow> path res" where
  "security_context dk configured found =
     (let paths = (case configured of Some c \<Rightarrow> if c = [] then found else [parse_path c] | None \<Rightarrow> found);
          matches = filter (\<lambda>p. list_all (\<lambda>f. is_file dk (path_join p (parse_path f)))
            [''reference-info-base64'', ''host-amd-cert-base64'', ''security-policy-base64'']) paths in
      case matches of
        [p] \<Rightarrow> Inr p
      | _ \<Rightarrow> Inl (RuntimeError ''exactly one native ACI security context is required''))"

section \<open>The key\<close>

record signer =
  mono :: clock
  wall :: "nat \<Rightarrow> int"
  ecdsa :: "nat \<Rightarrow> bytes \<Rightarrow> nat \<times> nat"

definition to_bytes32 :: "nat \<Rightarrow> bytes res" where
  "to_bytes32 n = (if n < 2 ^ 256 then Inr (nat_be 32 n) else Inl OverflowError)"

text \<open>The two halves of the \<open>n\<close>-th signature on a message.\<close>

definition fixed_signature :: "(nat \<Rightarrow> bytes \<Rightarrow> nat \<times> nat) \<Rightarrow> nat \<Rightarrow> bytes \<Rightarrow> bytes res" where
  "fixed_signature key n message =
     (let (r, s) = key n message in
      bindr (to_bytes32 r) (\<lambda>rb. bindr (to_bytes32 s) (\<lambda>sb. Inr (rb @ sb))))"

section \<open>The TLS material\<close>

record cert_request =
  cert_subject :: string
  cert_names :: "string list"
  cert_not_before :: int
  cert_not_after :: int
  cert_ca :: bool
  cert_usages :: "string list"
  cert_purposes :: "string list"

record cert =
  cert_pem :: bytes
  cert_der :: bytes

definition tls_request :: "int \<Rightarrow> string option \<Rightarrow> cert_request" where
  "tls_request now_seconds service_host =
     \<lparr>cert_subject = TLS_SERVER_NAME,
      cert_names = TLS_SERVER_NAME # (case service_host of
        Some h \<Rightarrow> if h \<noteq> TLS_SERVER_NAME then [h] else [] | None \<Rightarrow> []),
      cert_not_before = now_seconds - 5 * 60, cert_not_after = now_seconds + 24 * 60 * 60, cert_ca = False,
      cert_usages = [''digital_signature''], cert_purposes = [''server_auth'']\<rparr>"

text \<open>Anonymous descriptors. \<open>faults\<close> is the outcome of each further system call, \<open>shorts\<close> how many
  bytes each further \<open>os.write\<close> takes at most; both are chosen by the kernel, and exhausted they stand
  for success.\<close>

record memory =
  next_fd :: nat
  open_fds :: "(nat \<times> bytes) list"
  faults :: "exn option list"
  shorts :: "nat list"

definition syscall :: "(memory, unit) act" where
  "syscall m =
     (case faults m of
        [] \<Rightarrow> (Inr (), m)
      | f # fs \<Rightarrow> ((case f of None \<Rightarrow> Inr () | Some e \<Rightarrow> Inl e), m\<lparr>faults := fs\<rparr>))"

definition memfd_create :: "(memory, nat) act" where
  "memfd_create = bind_act syscall (\<lambda>_ m.
     (Inr (next_fd m), m\<lparr>next_fd := Suc (next_fd m), open_fds := open_fds m @ [(next_fd m, [])]\<rparr>))"

definition os_write :: "nat \<Rightarrow> bytes \<Rightarrow> (memory, nat) act" where
  "os_write fd data = bind_act syscall (\<lambda>_ m.
     let (n, rest) = (case shorts m of [] \<Rightarrow> (length data, []) | k # ks \<Rightarrow> (min k (length data), ks)) in
     (Inr n, m\<lparr>shorts := rest,
        open_fds := map (\<lambda>(f, c). if f = fd then (f, c @ take n data) else (f, c)) (open_fds m)\<rparr>))"

definition os_close :: "nat \<Rightarrow> memory \<Rightarrow> memory" where
  "os_close fd m = m\<lparr>open_fds := filter (\<lambda>(f, c). f \<noteq> fd) (open_fds m)\<rparr>"

function write_all :: "nat \<Rightarrow> bytes \<Rightarrow> (memory, unit) act" where
  "write_all fd remaining m =
     (if remaining = [] then (Inr (), m)
      else case os_write fd remaining m of
        (Inl e, m1) \<Rightarrow> (Inl e, m1)
      | (Inr written, m1) \<Rightarrow>
          if written = 0 then (Inl (OSError ''incomplete anonymous TLS credential write''), m1)
          else write_all fd (drop written remaining) m1)"
  by pat_completeness auto
termination
  by (relation "measure (\<lambda>(fd, remaining, m). length remaining)") auto

declare write_all.simps [simp del]

text \<open>The loop over the two credentials: the descriptors opened so far, with the outcome.\<close>

fun load_descriptors :: "bytes list \<Rightarrow> nat list \<Rightarrow> memory \<Rightarrow> unit res \<times> nat list \<times> memory" where
  "load_descriptors [] descriptors m = (Inr (), descriptors, m)"
| "load_descriptors (data # rest) descriptors m =
     (case memfd_create m of
        (Inl e, m1) \<Rightarrow> (Inl e, descriptors, m1)
      | (Inr fd, m1) \<Rightarrow>
          case bind_act syscall (\<lambda>_. bind_act (write_all fd data) (\<lambda>_. syscall)) m1 of
            (Inl e, m2) \<Rightarrow> (Inl e, descriptors @ [fd], m2)
          | (Inr _, m2) \<Rightarrow> load_descriptors rest (descriptors @ [fd]) m2)"

definition fd_content :: "memory \<Rightarrow> nat \<Rightarrow> bytes" where
  "fd_content m fd = (case map_of (open_fds m) fd of Some c \<Rightarrow> c | None \<Rightarrow> [])"

text \<open>The context holds the chain and the key that OpenSSL read from the two descriptors.\<close>

definition load_cert_chain :: "nat list \<Rightarrow> (memory, bytes \<times> bytes) act" where
  "load_cert_chain descriptors =
     bind_act syscall (\<lambda>_ m. (Inr (fd_content m (descriptors ! 0), fd_content m (descriptors ! 1)), m))"

definition tls_context :: "bytes \<Rightarrow> bytes \<Rightarrow> (memory, bytes \<times> bytes) act" where
  "tls_context certificate_pem private_pem m =
     (let (r, descriptors, m1) = load_descriptors [certificate_pem, private_pem] [] m;
          (r2, m2) = (case r of Inl e \<Rightarrow> (Inl e, m1) | Inr _ \<Rightarrow> load_cert_chain descriptors m1) in
      (r2, fold os_close descriptors m2))"

text \<open>\<open>linux\<close> says that \<open>memfd_create\<close> and \<open>/proc/self/fd\<close> exist; \<open>issue\<close> is the certificate
  builder.\<close>

definition tls_material ::
    "bool \<Rightarrow> (cert_request \<Rightarrow> cert) \<Rightarrow> bytes \<Rightarrow> int \<Rightarrow> string option \<Rightarrow> (memory, (bytes \<times> bytes) \<times> cert) act" where
  "tls_material linux issue private_pem now_seconds service_host =
     (if \<not> linux then raise_act (RuntimeError ''capture TLS requires Linux memfd and /proc/self/fd; no disk fallback'')
      else
        let certificate = issue (tls_request now_seconds service_host) in
        bind_act (tls_context (cert_pem certificate) private_pem) (\<lambda>loaded. ret_act (loaded, certificate)))"

section \<open>The state\<close>

text \<open>What \<open>CaptureState.__init__\<close> fixes for the life of the process.\<close>

record identity =
  id_config :: "json dict"
  id_spki :: bytes
  id_report :: bytes
  id_evidence :: bytes
  id_evidence_digest :: string
  id_captured_at :: int
  id_action :: "json dict"
  id_intent_hash :: string
  id_certificate :: cert

record cap = web +
  registration_id :: "string option"
  prepared_actions :: "json dict dict"
  request_ids :: "string dict"
  signed_actions :: "(bytes \<times> json) dict"
  challenge_ids :: "string list"
  action_deadlines :: "real dict"
  challenge_deadlines :: "real dict"
  registration_action_id :: string
  last_signed_request :: "json option"
  last_registration_result :: "json option"
  signatures :: "bytes list"

definition MAX_LIFECYCLE_ACTIONS :: nat where "MAX_LIFECYCLE_ACTIONS = 128"
definition LIFECYCLE_RETENTION_SECONDS :: real where "LIFECYCLE_RETENTION_SECONDS = 600"

datatype cbor =
    CInt int | CBytes bytes | CText string | CArray "cbor list" | CMap "(cbor \<times> cbor) list" | CTag int cbor

text \<open>\<open>{key: d[key] for key in keys}\<close>.\<close>

definition pick_keys :: "json dict \<Rightarrow> string list \<Rightarrow> json dict res" where
  "pick_keys d keys = map_res (\<lambda>k. bindr (dict_index d k) (\<lambda>v. Inr (k, v))) keys"

definition action_hash :: "json dict \<Rightarrow> string res" where
  "action_hash action = bindr (canonical (JDict action)) (\<lambda>m. Inr (sha256_hex m))"

definition register_action :: "json dict \<Rightarrow> bytes \<Rightarrow> string \<Rightarrow> json dict res" where
  "register_action config spki evidence_digest =
     bindr (pick_keys config [''request_id'', ''audience'', ''grant_id'', ''zone'']) (\<lambda>fixed.
     bindr (pick_keys config [''role'', ''mailbox_domain'', ''service_host'', ''addresses'', ''ports'', ''lease_seconds''])
       (\<lambda>parameters.
       Inr (fixed @ [(''operation'', JStr ''register''), (''signer_spki_der'', JStr (b64url spki)),
         (''parameters'', JDict (parameters @ [(''evidence_profile'', JStr PROFILE),
            (''evidence_digest'', JStr evidence_digest)]))])))"

text \<open>The platform on which the worker starts.\<close>

record platform =
  pf_disk :: disk
  pf_context_dir :: "string option"
  pf_contexts :: "path list"
  pf_collector :: "string \<Rightarrow> bytes res"
  pf_cbor :: "cbor \<Rightarrow> bytes"
  pf_spki :: bytes
  pf_private_pem :: bytes
  pf_issue :: "cert_request \<Rightarrow> cert"
  pf_linux :: bool

text \<open>The payload of the evidence: the report with the files of the security context.\<close>

definition evidence_payload :: "platform \<Rightarrow> bytes \<Rightarrow> bytes res" where
  "evidence_payload pf report =
     bindr (security_context (pf_disk pf) (pf_context_dir pf) (pf_contexts pf)) (\<lambda>ctx.
     bindr (read_bounded_file (pf_disk pf) (path_join ctx (parse_path ''security-policy-base64''))) (\<lambda>policy_text.
     bindr (b64decode (bytes_str (bytes_strip policy_text))) (\<lambda>policy.
       if sha256 policy \<noteq> slice 192 224 report
       then Inl (RuntimeError ''native report host_data does not match the CCE policy'')
       else
         bindr (read_bounded_file (pf_disk pf) (path_join ctx (parse_path ''reference-info-base64''))) (\<lambda>uvm_text.
         bindr (b64decode (bytes_str (bytes_strip uvm_text))) (\<lambda>uvm.
         bindr (read_bounded_file (pf_disk pf) (path_join ctx (parse_path ''host-amd-cert-base64''))) (\<lambda>eds_text.
         bindr (decode_ascii (bytes_strip eds_text)) (\<lambda>endorsements.
         bindr (b64decode endorsements) (\<lambda>_.
           Inr (pf_cbor pf (CMap [(CText ''att'', CBytes report), (CText ''eds'', CText endorsements),
             (CText ''uvm'', CBytes uvm)]))))))))))"

definition sig_structure :: "platform \<Rightarrow> bytes \<Rightarrow> bytes" where
  "sig_structure pf payload =
     pf_cbor pf (CArray [CText ''Signature1'', CBytes (pf_cbor pf (CMap [(CInt 1, CInt (- 7))])), CBytes [], CBytes payload])"

definition evidence :: "platform \<Rightarrow> (nat \<Rightarrow> bytes \<Rightarrow> nat \<times> nat) \<Rightarrow> bytes \<Rightarrow> bytes res" where
  "evidence pf key report =
     bindr (evidence_payload pf report) (\<lambda>payload.
     bindr (fixed_signature key 0 (sig_structure pf payload)) (\<lambda>signature.
       let ev = pf_cbor pf (CTag 18 (CArray [CBytes (pf_cbor pf (CMap [(CInt 1, CInt (- 7))])), CMap [],
         CBytes payload, CBytes signature])) in
       if length ev > MAX_EVIDENCE_BYTES then Inl (RuntimeError ''native evidence exceeds server input bound'')
       else Inr ev))"

definition service_name :: "json dict \<Rightarrow> string" where
  "service_name config = (case map_of config ''service_host'' of Some (JStr h) \<Rightarrow> rstrip_char CHR ''.'' h | _ \<Rightarrow> [])"

definition new_cap :: "identity \<Rightarrow> web \<Rightarrow> cap" where
  "new_cap ident w = web.extend w
     (cap.fields None []
       (case map_of (id_action ident) ''request_id'' of Some (JStr r) \<Rightarrow> [(r, id_intent_hash ident)] | _ \<Rightarrow> [])
       [] [] [] [] (id_intent_hash ident) None None [])"

text \<open>\<open>time\<close> holds the two wall-clock readings of the start.\<close>

definition capture_init ::
    "nat \<Rightarrow> platform \<Rightarrow> (nat \<Rightarrow> bytes \<Rightarrow> nat \<times> nat) \<Rightarrow> int \<times> int \<Rightarrow> json \<Rightarrow> (memory, identity \<times> (bytes \<times> bytes)) act" where
  "capture_init depth pf key time supplied =
     bind_act (lift_res (bindr (strict_json depth (encode_str (dumps quote_ascii '', '' '': '' supplied))) validate_config)) (\<lambda>config.
     bind_act (lift_res (collect_report (pf_collector pf) (sha256 (pf_spki pf) @ replicate 32 0))) (\<lambda>report.
     bind_act (lift_res (evidence pf key report)) (\<lambda>ev.
     bind_act (tls_material (pf_linux pf) (pf_issue pf) (pf_private_pem pf) (fst time) (Some (service_name config))) (\<lambda>(loaded, certificate).
     bind_act (lift_res (register_action config (pf_spki pf) (sha256_hex ev))) (\<lambda>action.
     bind_act (lift_res (action_hash action)) (\<lambda>hash.
       ret_act (\<lparr>id_config = config, id_spki = pf_spki pf, id_report = report, id_evidence = ev,
         id_evidence_digest = sha256_hex ev, id_captured_at = snd time, id_action = action, id_intent_hash = hash,
         id_certificate = certificate\<rparr>, loaded)))))))"

end
