(* ===== verification/Capture_Lifecycle.thy ===== *)
theory Capture_Lifecycle
  imports Capture_State
begin

text \<open>
  The methods of \<open>CaptureState\<close>: pruning of expired handles, preparation and signing of the fixed
  registration and of lifecycle actions, the exchange with CCF and the registration itself.
\<close>

section \<open>Pruning\<close>

fun for_act :: "('a \<Rightarrow> ('s, unit) act) \<Rightarrow> 'a list \<Rightarrow> ('s, unit) act" where
  "for_act f [] = ret_act ()"
| "for_act f (x # xs) = bind_act (f x) (\<lambda>_. for_act f xs)"

definition action_request_id :: "json dict \<Rightarrow> string res" where
  "action_request_id action =
     bindr (dict_index action ''request_id'') (\<lambda>v. case jstr v of Some r \<Rightarrow> Inr r | None \<Rightarrow> Inl (TypeError ''unhashable''))"

definition prune_action :: "real \<Rightarrow> string \<times> real \<Rightarrow> ('z cap_scheme, unit) act" where
  "prune_action t entry s =
     (let (action_id, deadline) = entry in
      if deadline > t \<or> action_id = registration_action_id s then (Inr (), s)
      else case map_of (prepared_actions s) action_id of
        None \<Rightarrow> (Inl (KeyError action_id), s)
      | Some action \<Rightarrow>
          let s1 = s\<lparr>prepared_actions := AList.delete action_id (prepared_actions s)\<rparr> in
          case action_request_id action of
            Inl e \<Rightarrow> (Inl e, s1)
          | Inr rid \<Rightarrow> (Inr (), s1\<lparr>request_ids := AList.delete rid (request_ids s1),
              signed_actions := AList.delete action_id (signed_actions s1),
              action_deadlines := AList.delete action_id (action_deadlines s1)\<rparr>))"

definition prune_challenge :: "real \<Rightarrow> string \<times> real \<Rightarrow> ('z cap_scheme, unit) act" where
  "prune_challenge t entry s =
     (let (challenge_id, deadline) = entry in
      if deadline > t then (Inr (), s)
      else if challenge_id \<notin> set (challenge_ids s) then (Inl (KeyError challenge_id), s)
      else (Inr (), s\<lparr>challenge_ids := removeAll challenge_id (challenge_ids s),
             challenge_deadlines := AList.delete challenge_id (challenge_deadlines s)\<rparr>))"

definition prune_lifecycle :: "signer \<Rightarrow> ('z cap_scheme, unit) act" where
  "prune_lifecycle en s =
     (let (t, s1) = now (mono en) s in
      bind_act (for_act (prune_action t) (action_deadlines s1)) (\<lambda>_ s2.
        for_act (prune_challenge t) (challenge_deadlines s2) s2) s1)"

section \<open>Preparing an action\<close>

definition retain_until :: "signer \<Rightarrow> string \<Rightarrow> 'z cap_scheme \<Rightarrow> 'z cap_scheme" where
  "retain_until en action_id s =
     (let (t, s1) = now (mono en) s in
      s1\<lparr>action_deadlines := AList.update action_id (t + LIFECYCLE_RETENTION_SECONDS) (action_deadlines s1)\<rparr>)"

text \<open>The value that \<open>strict_json(canonical(v))\<close> returns: a deep copy.\<close>

definition copy_json :: "nat \<Rightarrow> json \<Rightarrow> json res" where
  "copy_json depth v = bindr (canonical v) (strict_json depth)"

definition cache_action :: "signer \<Rightarrow> json dict \<Rightarrow> string \<Rightarrow> string \<Rightarrow> ('z cap_scheme, unit) act" where
  "cache_action en action rid action_id s =
     (let previous = map_of (request_ids s) rid in
      if previous \<noteq> None \<and> previous \<noteq> Some action_id
      then (Inl (ValueError ''request ID already belongs to a different fixed action''), s)
      else if \<not> has_key action_id (prepared_actions s) then
        if length (prepared_actions s) \<ge> MAX_LIFECYCLE_ACTIONS
        then (Inl (ValueError ''bounded lifecycle action capacity reached; live handles retained''), s)
        else
          let s1 = retain_until en action_id s in
          (Inr (), s1\<lparr>request_ids := AList.update rid action_id (request_ids s1),
             prepared_actions := AList.update action_id action (prepared_actions s1)\<rparr>)
      else if \<not> has_key action_id (signed_actions s) then (Inr (), retain_until en action_id s)
      else (Inr (), s))"

definition prepared_reply :: "string \<Rightarrow> json dict \<Rightarrow> json" where
  "prepared_reply action_id action =
     JDict [(''action_id'', JStr action_id), (''action'', JDict action), (''intent_hash'', JStr action_id)]"

definition prepare_action :: "nat \<Rightarrow> signer \<Rightarrow> json dict \<Rightarrow> ('z cap_scheme, json) act" where
  "prepare_action depth en action =
     bind_act (prune_lifecycle en) (\<lambda>_.
     bind_act (lift_res (action_hash action)) (\<lambda>action_id.
     bind_act (lift_res (action_request_id action)) (\<lambda>rid.
     bind_act (cache_action en action rid action_id) (\<lambda>_.
       lift_res (copy_json depth (prepared_reply action_id action))))))"

section \<open>The inventory\<close>

definition tcb :: "bytes \<Rightarrow> nat \<Rightarrow> json" where
  "tcb report offset =
     (let v = slice offset (offset + 8) report in
      JDict [(''bootloader'', JInt (uint (v ! 0))), (''tee'', JInt (uint (v ! 1))),
        (''snp'', JInt (uint (v ! 6))), (''microcode'', JInt (uint (v ! 7)))])"

definition inventory :: "identity \<Rightarrow> json" where
  "inventory ident =
     JDict [(''status'', JStr ''captured_not_appraised''), (''profile'', JStr PROFILE),
       (''captured_at'', JInt (id_captured_at ident)), (''tls_server_name'', JStr TLS_SERVER_NAME),
       (''tls_certificate_der'', JStr (b64url (cert_der (id_certificate ident)))),
       (''tls_certificate_pem'', JStr (bytes_str (cert_pem (id_certificate ident)))),
       (''signer_spki_der'', JStr (b64url (id_spki ident))), (''spki_sha256'', JStr (sha256_hex (id_spki ident))),
       (''evidence_digest'', JStr (id_evidence_digest ident)), (''evidence_payload'', JStr (b64url (id_evidence ident))),
       (''intent_hash'', JStr (id_intent_hash ident)), (''action'', JDict (id_action ident)),
       (''untrusted_report_inventory'', JDict [
          (''version'', JInt (int (le_nat (slice 0 4 (id_report ident))))),
          (''measurement'', JStr (bytes_hex (slice 144 192 (id_report ident)))),
          (''host_data'', JStr (bytes_hex (slice 192 224 (id_report ident)))),
          (''vmpl'', JInt (int (le_nat (slice 48 52 (id_report ident))))),
          (''current_tcb'', tcb (id_report ident) 56), (''reported_tcb'', tcb (id_report ident) 384),
          (''committed_tcb'', tcb (id_report ident) 480), (''launch_tcb'', tcb (id_report ident) 496)])]"

section \<open>Signing\<close>

definition sha_hex :: "string \<Rightarrow> bool" where
  "sha_hex s \<longleftrightarrow> length s = 64 \<and> list_all is_lower_hex s"

definition hex_field :: "json dict \<Rightarrow> string \<Rightarrow> unit res" where
  "hex_field d field =
     bindr (dict_index d field) (\<lambda>v.
       if (case jstr v of Some s \<Rightarrow> sha_hex s | None \<Rightarrow> False) then Inr ()
       else Inl (ValueError ''nonce and intent hash must be lowercase SHA256-sized hex''))"

text \<open>The tests of the nonce fields against the action, with its hash and the expiry.\<close>

definition check_nonce :: "json dict \<Rightarrow> json \<Rightarrow> (json dict \<times> string \<times> int) res" where
  "check_nonce action nonce_fields =
     bindr (exact_fields nonce_fields [''nonce'', ''nonce_expires_at'', ''intent_hash''] []) (\<lambda>d.
     bindr (for_each (hex_field d) [''nonce'', ''intent_hash'']) (\<lambda>_.
     bindr (action_hash action) (\<lambda>expected.
     if map_of d ''intent_hash'' \<noteq> Some (JStr expected)
     then Inl (ValueError ''nonce intent hash does not match the prepared test action'')
     else bindr (dict_index d ''nonce_expires_at'') (\<lambda>expiry.
       case jint expiry of
         Some i \<Rightarrow>
           if 0 \<le> i \<and> i \<le> MAX_SAFE_INTEGER then Inr (d, expected, i) else Inl (ValueError ''invalid nonce expiration'')
       | None \<Rightarrow> Inl (ValueError ''invalid nonce expiration'')))))"

definition signed_body :: "json dict \<Rightarrow> json dict \<Rightarrow> json dict" where
  "signed_body action d = dict_merge [(''action'', JDict action)] d"

text \<open>One signature of the key on a message.\<close>

definition key_sign :: "signer \<Rightarrow> bytes \<Rightarrow> ('z cap_scheme, bytes) act" where
  "key_sign en message s =
     (fixed_signature (ecdsa en) (Suc (length (signatures s))) message, s\<lparr>signatures := signatures s @ [message]\<rparr>)"

definition envelope :: "identity \<Rightarrow> json \<Rightarrow> json dict \<Rightarrow> bytes \<Rightarrow> json" where
  "envelope ident operation body signature =
     (let e = AList.update ''client_signature'' (JStr (b64url signature)) body in
      JDict (if operation \<in> {JStr ''register'', JStr ''renew''}
             then AList.update ''evidence_payload'' (JStr (b64url (id_evidence ident))) e else e))"

definition note_registration :: "string \<Rightarrow> string \<Rightarrow> ('z cap_scheme, unit) act" where
  "note_registration digest expected s =
     (let derived = ''reg-'' @ take 32 digest in
      if registration_id s \<noteq> None \<and> registration_id s \<noteq> Some derived
      then (Inl (ValueError ''fixed registration has already been signed''), s)
      else (Inr (), s\<lparr>registration_id := Some derived, registration_action_id := expected\<rparr>))"

definition lifetime_of :: "json dict \<Rightarrow> int res" where
  "lifetime_of action =
     bindr (dict_index action ''parameters'') (\<lambda>ps.
       case jdict ps of
         Some d \<Rightarrow> bindr (dict_index d ''lifetime_seconds'') (\<lambda>v. case jint v of Some i \<Rightarrow> Inr i | None \<Rightarrow> Inl (TypeError ''+''))
       | None \<Rightarrow> Inl (TypeError ''subscript''))"

definition note_challenge :: "signer \<Rightarrow> json dict \<Rightarrow> string \<Rightarrow> ('z cap_scheme, unit) act" where
  "note_challenge en action digest =
     bind_act (prune_lifecycle en) (\<lambda>_ s.
       if length (challenge_ids s) \<ge> MAX_LIFECYCLE_ACTIONS
       then (Inl (ValueError ''bounded active challenge capacity reached''), s)
       else
         let challenge_id = ''chal-'' @ take 32 digest;
             s1 = s\<lparr>challenge_ids := List.insert challenge_id (challenge_ids s)\<rparr>;
             (t, s2) = now (mono en) s1 in
         case lifetime_of action of
           Inl e \<Rightarrow> (Inl e, s2)
         | Inr lifetime \<Rightarrow> (Inr (), s2\<lparr>challenge_deadlines :=
             AList.update challenge_id (t + 300 + of_int lifetime) (challenge_deadlines s2)\<rparr>))"

definition note_operation :: "signer \<Rightarrow> json dict \<Rightarrow> json \<Rightarrow> string \<Rightarrow> string \<Rightarrow> ('z cap_scheme, unit) act" where
  "note_operation en action operation digest expected =
     (if operation = JStr ''register'' then note_registration digest expected
      else if operation = JStr ''acme_challenge_create'' then note_challenge en action digest
      else ret_act ())"

definition keep_signed :: "signer \<Rightarrow> string \<Rightarrow> bytes \<Rightarrow> json \<Rightarrow> 'z cap_scheme \<Rightarrow> 'z cap_scheme" where
  "keep_signed en expected message env s =
     (let s1 = s\<lparr>signed_actions := AList.update expected (message, env) (signed_actions s)\<rparr> in
      if has_key expected (action_deadlines s1) then retain_until en expected s1 else s1)"

definition sign_fresh ::
    "nat \<Rightarrow> signer \<Rightarrow> identity \<Rightarrow> json dict \<Rightarrow> json dict \<Rightarrow> string \<Rightarrow> int \<Rightarrow> bytes \<Rightarrow> ('z cap_scheme, json) act" where
  "sign_fresh depth en ident action body expected expiry message s =
     (let seconds = wall en (ticks s); s1 = s\<lparr>ticks := Suc (ticks s)\<rparr> in
      if \<not> (seconds < expiry \<and> expiry \<le> seconds + 300)
      then (Inl (ValueError ''nonce must be unexpired and at most 300 seconds ahead''), s1)
      else bind_act (key_sign en message) (\<lambda>signature.
        bind_act (lift_res (dict_index action ''operation'')) (\<lambda>operation.
        let env = envelope ident operation body signature in
        bind_act (note_operation en action operation (sha256_hex message) expected) (\<lambda>_ s2.
          (copy_json depth env, keep_signed en expected message env s2)))) s1)"

definition sign_action :: "nat \<Rightarrow> signer \<Rightarrow> identity \<Rightarrow> json dict \<Rightarrow> json \<Rightarrow> ('z cap_scheme, json) act" where
  "sign_action depth en ident action nonce_fields =
     bind_act (lift_res (check_nonce action nonce_fields)) (\<lambda>(d, expected, expiry).
     let body = signed_body action d in
     bind_act (lift_res (canonical (JDict body))) (\<lambda>message s.
       case map_of (signed_actions s) expected of
         Some (previous, env) \<Rightarrow>
           if previous \<noteq> message
           then (Inl (ValueError ''action already signed with a different nonce; retry the identical envelope''), s)
           else (copy_json depth env, s)
       | None \<Rightarrow> sign_fresh depth en ident action body expected expiry message s))"

definition signed_request :: "nat \<Rightarrow> signer \<Rightarrow> identity \<Rightarrow> json \<Rightarrow> ('z cap_scheme, json) act" where
  "signed_request depth en ident nonce_fields = sign_action depth en ident (id_action ident) nonce_fields"

section \<open>Lifecycle actions\<close>

definition config_lease :: "json dict \<Rightarrow> int" where
  "config_lease config = (case map_of config ''lease_seconds'' of Some (JInt n) \<Rightarrow> n | _ \<Rightarrow> 0)"

definition config_ports :: "json dict \<Rightarrow> int list" where
  "config_ports config =
     (case map_of config ''ports'' of Some (JList ps) \<Rightarrow> map (\<lambda>p. case jint p of Some i \<Rightarrow> i | None \<Rightarrow> 0) ps | _ \<Rightarrow> [])"

definition renew_parameters :: "identity \<Rightarrow> string \<Rightarrow> json \<Rightarrow> json dict res" where
  "renew_parameters ident reg supplied =
     bindr (exact_fields supplied [''requested_lease_seconds''] []) (\<lambda>d.
     bindr (dict_index d ''requested_lease_seconds'') (\<lambda>lease.
       if \<not> int_between 1 (config_lease (id_config ident)) lease
       then Inl (ValueError ''renewal exceeds the fixed lease bound'')
       else Inr [(''registration_id'', JStr reg), (''requested_lease_seconds'', lease),
         (''evidence_profile'', JStr PROFILE), (''evidence_digest'', JStr (id_evidence_digest ident))]))"

definition reason_ok :: "json \<Rightarrow> bool" where
  "reason_ok v \<longleftrightarrow> (case jstr v of
     Some s \<Rightarrow> 1 \<le> str_len s \<and> str_len s \<le> 128 \<and> list_all (\<lambda>c. 32 \<le> ord c \<and> ord c \<le> 126) s | None \<Rightarrow> False)"

definition deregister_parameters :: "identity \<Rightarrow> string \<Rightarrow> json \<Rightarrow> json dict res" where
  "deregister_parameters ident reg supplied =
     bindr (exact_fields supplied [''selected_ports'', ''withdraw_all''] [''reason'']) (\<lambda>d.
     bindr (dict_index d ''selected_ports'') (\<lambda>ports.
     bindr (dict_index d ''withdraw_all'') (\<lambda>withdraw.
       if jbool withdraw = None \<or> \<not> sorted_ports (config_ports (id_config ident)) ports
       then Inl (ValueError ''withdrawal ports must be a sorted subset of fixed mail ports'')
       else if (withdraw = JBool True \<and> ports \<noteq> JList []) \<or> (withdraw \<noteq> JBool True \<and> ports = JList [])
       then Inl (ValueError ''withdraw_all requires no ports; partial withdrawal requires ports'')
       else
         let reason = config_get d ''reason'' (JStr ''validation_lifecycle'') in
         if \<not> reason_ok reason then Inl (ValueError ''invalid withdrawal reason'')
         else Inr [(''registration_id'', JStr reg), (''selected_ports'', ports), (''withdraw_all'', withdraw),
           (''reason'', reason)])))"

definition b64url_char :: "char \<Rightarrow> bool" where
  "b64url_char c \<longleftrightarrow> is_alnum c \<or> c = CHR ''_'' \<or> c = CHR ''-''"

definition check_txt :: "json \<Rightarrow> unit res" where
  "check_txt v =
     (case jstr v of
        Some txt \<Rightarrow>
          if length txt \<noteq> 43 \<or> \<not> list_all b64url_char txt
          then Inl (ValueError ''challenge TXT must be canonical base64url SHA256'')
          else bindr (b64decode_alt (txt @ ''='')) (\<lambda>decoded.
            if length decoded \<noteq> 32 \<or> b64url decoded \<noteq> txt
            then Inl (ValueError ''challenge TXT must be canonical base64url SHA256'') else Inr ())
      | None \<Rightarrow> Inl (ValueError ''challenge TXT must be canonical base64url SHA256''))"

definition challenge_times :: "identity \<Rightarrow> json \<Rightarrow> json \<Rightarrow> bool" where
  "challenge_times ident ttl lifetime \<longleftrightarrow>
     (case jint lifetime of
        Some l \<Rightarrow> 1 \<le> l \<and> l \<le> min 3600 (config_lease (id_config ident)) \<and> int_between 1 (min 300 l) ttl
      | None \<Rightarrow> False)"

definition create_parameters :: "identity \<Rightarrow> string \<Rightarrow> json \<Rightarrow> json dict res" where
  "create_parameters ident reg supplied =
     bindr (exact_fields supplied [''order_id'', ''txt_value'', ''ttl'', ''lifetime_seconds''] []) (\<lambda>d.
     bindr (dict_index d ''order_id'') (\<lambda>order.
     bindr (dict_index d ''txt_value'') (\<lambda>txt.
     bindr (dict_index d ''ttl'') (\<lambda>ttl.
     bindr (dict_index d ''lifetime_seconds'') (\<lambda>lifetime.
       if \<not> (case jstr order of Some s \<Rightarrow> id_ok s | None \<Rightarrow> False) then Inl (ValueError ''invalid challenge order ID'')
       else bindr (check_txt txt) (\<lambda>_.
         if \<not> challenge_times ident ttl lifetime
         then Inl (ValueError ''challenge TTL or lifetime exceeds the fixed bounds'')
         else bindr (dict_index (id_config ident) ''service_host'') (\<lambda>host.
           Inr [(''registration_id'', JStr reg), (''order_id'', order), (''name'', host), (''txt_value'', txt),
             (''ttl'', ttl), (''lifetime_seconds'', lifetime)])))))))"

definition delete_parameters :: "string list \<Rightarrow> json \<Rightarrow> json dict res" where
  "delete_parameters issued supplied =
     bindr (exact_fields supplied [''challenge_id''] []) (\<lambda>d.
     bindr (dict_index d ''challenge_id'') (\<lambda>challenge.
       case jstr challenge of
         Some c \<Rightarrow>
           if c \<in> set issued then Inr [(''challenge_id'', challenge)]
           else Inl (ValueError ''challenge ID was not issued by this fixed registration signer'')
       | None \<Rightarrow> Inl (ValueError ''challenge ID was not issued by this fixed registration signer'')))"

definition lifecycle_parameters :: "identity \<Rightarrow> string list \<Rightarrow> string \<Rightarrow> json \<Rightarrow> json \<Rightarrow> json dict res" where
  "lifecycle_parameters ident issued reg operation supplied =
     (if operation = JStr ''renew'' then renew_parameters ident reg supplied
      else if operation = JStr ''deregister'' then deregister_parameters ident reg supplied
      else if operation = JStr ''acme_challenge_create'' then create_parameters ident reg supplied
      else if operation = JStr ''acme_challenge_delete'' then delete_parameters issued supplied
      else Inl (ValueError ''unsupported lifecycle operation''))"

definition lifecycle_action :: "identity \<Rightarrow> string \<Rightarrow> json \<Rightarrow> json dict \<Rightarrow> json dict res" where
  "lifecycle_action ident rid operation parameters =
     bindr (pick_keys (id_action ident) [''audience'', ''grant_id'', ''zone'', ''signer_spki_der'']) (\<lambda>fixed.
       Inr (fixed @ [(''request_id'', JStr rid), (''operation'', operation), (''parameters'', JDict parameters)]))"

definition request_fields :: "json \<Rightarrow> (string \<times> json \<times> json) res" where
  "request_fields request =
     bindr (exact_fields request [''operation'', ''request_id'', ''parameters''] []) (\<lambda>d.
     bindr (dict_index d ''request_id'') (\<lambda>v.
       case jstr v of
         Some rid \<Rightarrow>
           if id_ok rid then
             bindr (dict_index d ''operation'') (\<lambda>operation.
             bindr (dict_index d ''parameters'') (\<lambda>supplied. Inr (rid, operation, supplied)))
           else Inl (ValueError ''invalid lifecycle request ID'')
       | None \<Rightarrow> Inl (ValueError ''invalid lifecycle request ID'')))"

definition build_action :: "identity \<Rightarrow> string \<Rightarrow> json \<Rightarrow> json \<Rightarrow> ('z cap_scheme, json dict) act" where
  "build_action ident rid operation supplied s =
     (case registration_id s of
        None \<Rightarrow> (Inl (ValueError ''sign the fixed registration before preparing lifecycle actions''), s)
      | Some reg \<Rightarrow>
          (bindr (lifecycle_parameters ident (challenge_ids s) reg operation supplied) (lifecycle_action ident rid operation), s))"

definition prepare_lifecycle :: "nat \<Rightarrow> signer \<Rightarrow> identity \<Rightarrow> json \<Rightarrow> ('z cap_scheme, json) act" where
  "prepare_lifecycle depth en ident request =
     bind_act (lift_res (request_fields request)) (\<lambda>(rid, operation, supplied).
     bind_act (prune_lifecycle en) (\<lambda>_.
     bind_act (build_action ident rid operation supplied) (\<lambda>action.
       prepare_action depth en action)))"

definition sign_lifecycle :: "nat \<Rightarrow> signer \<Rightarrow> identity \<Rightarrow> json \<Rightarrow> ('z cap_scheme, json) act" where
  "sign_lifecycle depth en ident request =
     bind_act (lift_res (exact_fields request [''action_id'', ''nonce'', ''nonce_expires_at'', ''intent_hash''] [])) (\<lambda>d.
     bind_act (lift_res (dict_index d ''action_id'')) (\<lambda>v.
       case jstr v of
         None \<Rightarrow> raise_act (ValueError ''invalid prepared action ID'')
       | Some action_id \<Rightarrow>
           bind_act (prune_lifecycle en) (\<lambda>_ s.
             case map_of (prepared_actions s) action_id of
               None \<Rightarrow> (Inl (ValueError ''unknown prepared lifecycle action''), s)
             | Some action \<Rightarrow>
                 bind_act (lift_res (pick_keys d [''nonce'', ''nonce_expires_at'', ''intent_hash''])) (\<lambda>fields.
                   sign_action depth en ident action (JDict fields)) s)))"

section \<open>The exchange with CCF\<close>

definition capture_late :: exn where
  "capture_late = TimeoutError ''transport deadline exceeded''"

definition deadline_remaining :: "clock \<Rightarrow> real \<Rightarrow> ('z net_scheme, real) act" where
  "deadline_remaining clk end_time s =
     (let (t, s1) = now clk s in
      if end_time - t \<le> 0 then (Inl capture_late, s1) else (Inr (end_time - t), s1))"

definition deadline_bind :: "clock \<Rightarrow> real \<Rightarrow> ('z net_scheme, unit) act" where
  "deadline_bind clk end_time s =
     (let (t, s1) = now clk s in
      if t \<ge> end_time then (Inl capture_late, s1)
      else bind_act (deadline_remaining clk end_time) (\<lambda>rest s2. (Inr (), settimeout (min 10 rest) s2)) s1)"

text \<open>\<open>response.read(n)\<close>.\<close>

function read_upto :: "nat \<Rightarrow> bytes \<Rightarrow> ('z net_scheme, bytes) act" where
  "read_upto n data s =
     (if length data \<ge> n then (Inr data, s)
      else case recv (n - length data) s of
        (Inl e, s1) \<Rightarrow> (Inl e, s1)
      | (Inr chunk, s1) \<Rightarrow> if chunk = [] then (Inr data, s1) else read_upto n (data @ chunk) s1)"
  by pat_completeness auto
termination
  by (relation "measure (\<lambda>(n, data, s). n - length data)") (auto simp: neq_Nil_conv)

declare read_upto.simps [simp del]

text \<open>\<open>headers.get(name)\<close>: the first header of that name.\<close>

definition first_header :: "http_reply \<Rightarrow> string \<Rightarrow> string option" where
  "first_header r name = map_of (map (\<lambda>(k, v). (lower k, v)) (reply_headers r)) (lower name)"

definition reply_tx_id :: "http_reply \<Rightarrow> json" where
  "reply_tx_id r =
     (case first_header r ''x-agentdns-transaction-id'' of
        Some (c # cs) \<Rightarrow> JStr (c # cs)
      | _ \<Rightarrow> (case first_header r ''x-ms-ccf-transaction-id'' of Some t \<Rightarrow> JStr t | None \<Rightarrow> JNull))"

definition ccf_request :: "string \<Rightarrow> nat \<Rightarrow> string \<Rightarrow> bytes \<Rightarrow> http_request" where
  "ccf_request host port target payload =
     \<lparr>rq_host = host, rq_port = port, rq_method = ''POST'', rq_path = target, rq_body = payload,
      rq_headers = [(''Content-Type'', ''application/json''), (''Accept'', ''application/json''), (''Connection'', ''close'')]\<rparr>"

definition ccf_reply :: "nat \<Rightarrow> clock \<Rightarrow> real \<Rightarrow> http_reply \<Rightarrow> ('z net_scheme, json dict) act" where
  "ccf_reply depth clk end_time response =
     (if reply_status response \<ge> 300 then raise_act (HTTPError (reply_status response))
      else
        bind_act (read_upto (MAX_BYTES + 1) []) (\<lambda>raw.
        bind_act (deadline_remaining clk end_time) (\<lambda>_.
        bind_act (lift_res (strict_json depth raw)) (\<lambda>parsed.
          ret_act [(''http_status'', JInt (reply_status response)), (''ccf_tx_id'', reply_tx_id response), (''body'', parsed)]))))"

definition url_target :: "url_parts \<Rightarrow> string \<Rightarrow> string" where
  "url_target url suffix = rstrip_char CHR ''/'' (url_path url) @ suffix"

text \<open>\<open>trust\<close> is the outcome of loading the configured PEM as the only trusted root.\<close>

definition post_ccf :: "nat \<Rightarrow> signer \<Rightarrow> unit res \<Rightarrow> identity \<Rightarrow> string \<Rightarrow> json \<Rightarrow> ('z web_scheme, json dict) act" where
  "post_ccf depth en trust ident suffix body =
     (case map_of (id_config ident) ''ccf_url'' of
        Some (JStr base) \<Rightarrow>
          bind_act (lift_res trust) (\<lambda>_.
          bind_act (lift_res (urlsplit base)) (\<lambda>url.
          bind_act (lift_res (url_port url)) (\<lambda>port.
          own_connection (\<lambda>s.
            let (t, s1) = now (mono en) s; end_time = t + CCF_DEADLINE_SECONDS in
            bind_act create_connection (\<lambda>a.
            bind_act (lift_res (at_handshake a)) (\<lambda>_.
            bind_act (deadline_bind (mono en) end_time) (\<lambda>_.
            bind_act (lift_res (canonical body)) (\<lambda>payload.
            bind_act (http_exchange a (ccf_request (case url_hostname url of Some h \<Rightarrow> h | None \<Rightarrow> [])
                (case port of Some p \<Rightarrow> if p = 0 then 443 else p | None \<Rightarrow> 443) (url_target url suffix) payload))
              (ccf_reply depth (mono en) end_time))))) s1))))
      | _ \<Rightarrow> raise_act (ValueError ''automatic registration has no configured CCF endpoint''))"

section \<open>Registration\<close>

text \<open>The nonce fields of the request, out of the reply of the nonce endpoint.\<close>

definition nonce_request :: "json \<Rightarrow> json res" where
  "nonce_request response =
     bindr (exact_fields response [''nonce'', ''intent_hash'', ''issued_at'', ''expires_at''] [''tx_id'', ''status'']) (\<lambda>d.
     bindr (dict_index d ''nonce'') (\<lambda>nonce.
     bindr (dict_index d ''intent_hash'') (\<lambda>hash.
     bindr (dict_index d ''expires_at'') (\<lambda>expires.
       Inr (JDict [(''nonce'', nonce), (''intent_hash'', hash), (''nonce_expires_at'', expires)])))))"

definition fetch_nonce :: "nat \<Rightarrow> signer \<Rightarrow> unit res \<Rightarrow> identity \<Rightarrow> ('z web_scheme, json) act" where
  "fetch_nonce depth en trust ident =
     bind_act (post_ccf depth en trust ident ''/service/nonce'' (JDict [(''action'', JDict (id_action ident))])) (\<lambda>reply.
     bind_act (lift_res (dict_index reply ''body'')) (\<lambda>response. lift_res (nonce_request response)))"

text \<open>The request to send: the one of an earlier attempt, else the envelope that is already signed, else
  a fresh one.\<close>

definition registration_request :: "nat \<Rightarrow> signer \<Rightarrow> unit res \<Rightarrow> identity \<Rightarrow> ('z cap_scheme, json) act" where
  "registration_request depth en trust ident s =
     (case last_signed_request s of
        Some request \<Rightarrow> (Inr request, s)
      | None \<Rightarrow>
          bind_act
            (case map_of (signed_actions s) (id_intent_hash ident) of
               Some (_, env) \<Rightarrow> lift_res (copy_json depth env)
             | None \<Rightarrow> bind_act (fetch_nonce depth en trust ident) (signed_request depth en ident))
            (\<lambda>request s1. (Inr request, s1\<lparr>last_signed_request := Some request\<rparr>)) s)"

definition register :: "nat \<Rightarrow> signer \<Rightarrow> unit res \<Rightarrow> identity \<Rightarrow> ('z cap_scheme, json) act" where
  "register depth en trust ident s =
     (case last_registration_result s of
        Some result \<Rightarrow> (Inr result, s)
      | None \<Rightarrow>
          bind_act (registration_request depth en trust ident) (\<lambda>request.
          bind_act (post_ccf depth en trust ident ''/service/register'' request) (\<lambda>result s1.
            (Inr (JDict result), s1\<lparr>last_registration_result := Some (JDict result)\<rparr>))) s)"

section \<open>Requests\<close>

datatype capture_call = Signed_request json | Prepare json | Sign json | Register "unit res"

fun capture_step :: "nat \<Rightarrow> signer \<Rightarrow> identity \<Rightarrow> capture_call \<Rightarrow> ('z cap_scheme, json) act" where
  "capture_step depth en ident (Signed_request request) = signed_request depth en ident request"
| "capture_step depth en ident (Prepare request) = prepare_lifecycle depth en ident request"
| "capture_step depth en ident (Sign request) = sign_lifecycle depth en ident request"
| "capture_step depth en ident (Register trust) = register depth en trust ident"

fun capture_run :: "nat \<Rightarrow> signer \<Rightarrow> identity \<Rightarrow> capture_call list \<Rightarrow> 'z cap_scheme \<Rightarrow> 'z cap_scheme" where
  "capture_run depth en ident [] s = s"
| "capture_run depth en ident (c # cs) s = capture_run depth en ident cs (snd (capture_step depth en ident c s))"

end
