(* ===== verification/Capture_Safety.thy ===== *)
theory Capture_Safety
  imports Capture_Lifecycle
begin

text \<open>
  The laws of the capture worker. Its invariant ties the tables of prepared actions, request
  identifiers, deadlines and challenges to each other and bounds them; the scope says which actions the
  fixed configuration allows. Every method keeps the invariant, and every message the key has signed is
  in scope.
\<close>

section \<open>The scope\<close>

definition derived_id :: "string \<Rightarrow> bytes \<Rightarrow> string" where
  "derived_id prefix m = prefix @ take 32 (sha256_hex m)"

definition fixed_fields :: "identity \<Rightarrow> json dict \<Rightarrow> bool" where
  "fixed_fields ident a \<longleftrightarrow> map_of a ''audience'' = map_of (id_action ident) ''audience''
     \<and> map_of a ''grant_id'' = map_of (id_action ident) ''grant_id'' \<and> map_of a ''zone'' = map_of (id_action ident) ''zone''
     \<and> map_of a ''signer_spki_der'' = map_of (id_action ident) ''signer_spki_der''"

text \<open>The parameters of a lifecycle operation; \<open>sent\<close> are the messages signed so far.\<close>

definition renew_scope :: "identity \<Rightarrow> json dict \<Rightarrow> bool" where
  "renew_scope ident ps \<longleftrightarrow> (\<exists>n. map_of ps ''requested_lease_seconds'' = Some (JInt n) \<and> 1 \<le> n
     \<and> n \<le> config_lease (id_config ident)) \<and> map_of ps ''evidence_digest'' = Some (JStr (id_evidence_digest ident))"

definition deregister_scope :: "identity \<Rightarrow> json dict \<Rightarrow> bool" where
  "deregister_scope ident ps \<longleftrightarrow> (\<exists>is. map_of ps ''selected_ports'' = Some (JList (map JInt is))
     \<and> set is \<subseteq> set (config_ports (id_config ident)) \<and> sorted_wrt (<) is \<and> map_of ps ''withdraw_all'' = Some (JBool (is = [])))"

definition create_scope :: "identity \<Rightarrow> json dict \<Rightarrow> bool" where
  "create_scope ident ps \<longleftrightarrow> map_of ps ''name'' = map_of (id_config ident) ''service_host''
     \<and> (\<exists>txt digest. map_of ps ''txt_value'' = Some (JStr txt) \<and> length digest = 32 \<and> txt = b64url digest)
     \<and> (\<exists>l t. map_of ps ''lifetime_seconds'' = Some (JInt l) \<and> 1 \<le> l \<and> l \<le> min 3600 (config_lease (id_config ident))
          \<and> map_of ps ''ttl'' = Some (JInt t) \<and> 1 \<le> t \<and> t \<le> min 300 l)"

definition delete_scope :: "bytes set \<Rightarrow> json dict \<Rightarrow> bool" where
  "delete_scope sent ps \<longleftrightarrow> (\<exists>m \<in> sent. map_of ps ''challenge_id'' = Some (JStr (derived_id ''chal-'' m)))"

definition registered :: "bytes set \<Rightarrow> json dict \<Rightarrow> bool" where
  "registered sent ps \<longleftrightarrow> (\<exists>m \<in> sent. map_of ps ''registration_id'' = Some (JStr (derived_id ''reg-'' m)))"

definition operation_scope :: "identity \<Rightarrow> bytes set \<Rightarrow> json option \<Rightarrow> json dict \<Rightarrow> bool" where
  "operation_scope ident sent op ps \<longleftrightarrow>
     op = Some (JStr ''renew'') \<and> registered sent ps \<and> renew_scope ident ps
     \<or> op = Some (JStr ''deregister'') \<and> registered sent ps \<and> deregister_scope ident ps
     \<or> op = Some (JStr ''acme_challenge_create'') \<and> registered sent ps \<and> create_scope ident ps
     \<or> op = Some (JStr ''acme_challenge_delete'') \<and> delete_scope sent ps"

definition lifecycle_scope :: "identity \<Rightarrow> bytes set \<Rightarrow> json dict \<Rightarrow> bool" where
  "lifecycle_scope ident sent a \<longleftrightarrow> fixed_fields ident a \<and> has_id a ''request_id''
     \<and> (\<exists>ps. map_of a ''parameters'' = Some (JDict ps) \<and> operation_scope ident sent (map_of a ''operation'') ps)"

definition action_scope :: "identity \<Rightarrow> bytes set \<Rightarrow> json dict \<Rightarrow> bool" where
  "action_scope ident sent a \<longleftrightarrow> a = id_action ident \<or> lifecycle_scope ident sent a"

text \<open>A signed message is the canonical form of an action in scope with a nonce, its expiry and the hash
  of the action.\<close>

definition nonce_scope :: "json dict \<Rightarrow> json dict \<Rightarrow> bool" where
  "nonce_scope a d \<longleftrightarrow> set (map fst d) = {''nonce'', ''nonce_expires_at'', ''intent_hash''}
     \<and> (\<exists>hash. action_hash a = Inr hash \<and> map_of d ''intent_hash'' = Some (JStr hash))
     \<and> (\<exists>nonce. map_of d ''nonce'' = Some (JStr nonce) \<and> sha_hex nonce)"

definition message_scope :: "identity \<Rightarrow> bytes set \<Rightarrow> bytes \<Rightarrow> bool" where
  "message_scope ident sent m \<longleftrightarrow>
     (\<exists>a d. canonical (JDict (signed_body a d)) = Inr m \<and> action_scope ident sent a \<and> nonce_scope a d)"

lemma operation_scope_mono: "operation_scope ident sent op ps \<Longrightarrow> sent \<subseteq> sent' \<Longrightarrow> operation_scope ident sent' op ps"
  unfolding operation_scope_def registered_def delete_scope_def by blast

lemma lifecycle_scope_mono: "lifecycle_scope ident sent a \<Longrightarrow> sent \<subseteq> sent' \<Longrightarrow> lifecycle_scope ident sent' a"
  unfolding lifecycle_scope_def using operation_scope_mono by blast

lemma action_scope_mono: "action_scope ident sent a \<Longrightarrow> sent \<subseteq> sent' \<Longrightarrow> action_scope ident sent' a"
  unfolding action_scope_def using lifecycle_scope_mono by blast

lemma message_scope_mono: "message_scope ident sent m \<Longrightarrow> sent \<subseteq> sent' \<Longrightarrow> message_scope ident sent' m"
  unfolding message_scope_def using action_scope_mono by blast

section \<open>The invariant\<close>

definition prepared_ok :: "identity \<Rightarrow> 'z cap_scheme \<Rightarrow> string \<Rightarrow> json dict \<Rightarrow> bool" where
  "prepared_ok ident s i a \<longleftrightarrow> action_hash a = Inr i \<and> lifecycle_scope ident (set (signatures s)) a
     \<and> (\<exists>rid. action_request_id a = Inr rid \<and> map_of (request_ids s) rid = Some i)"

definition tables_inv :: "identity \<Rightarrow> 'z cap_scheme \<Rightarrow> bool" where
  "tables_inv ident s \<longleftrightarrow> distinct (map fst (prepared_actions s)) \<and> distinct (map fst (action_deadlines s))
     \<and> set (map fst (action_deadlines s)) = set (map fst (prepared_actions s))
     \<and> length (prepared_actions s) \<le> MAX_LIFECYCLE_ACTIONS
     \<and> (\<forall>i a. map_of (prepared_actions s) i = Some a \<longrightarrow> prepared_ok ident s i a)"

definition challenges_inv :: "'z cap_scheme \<Rightarrow> bool" where
  "challenges_inv s \<longleftrightarrow> distinct (challenge_ids s) \<and> distinct (map fst (challenge_deadlines s))
     \<and> set (map fst (challenge_deadlines s)) = set (challenge_ids s) \<and> length (challenge_ids s) \<le> MAX_LIFECYCLE_ACTIONS
     \<and> (\<forall>c \<in> set (challenge_ids s). \<exists>m \<in> set (signatures s). c = derived_id ''chal-'' m)"

definition signing_inv :: "identity \<Rightarrow> 'z cap_scheme \<Rightarrow> bool" where
  "signing_inv ident s \<longleftrightarrow> registration_action_id s = id_intent_hash ident
     \<and> (\<forall>r. registration_id s = Some r \<longrightarrow> (\<exists>m \<in> set (signatures s). r = derived_id ''reg-'' m))
     \<and> (\<forall>m \<in> set (signatures s). message_scope ident (set (signatures s)) m)"

definition cap_inv :: "identity \<Rightarrow> 'z cap_scheme \<Rightarrow> bool" where
  "cap_inv ident s \<longleftrightarrow> tables_inv ident s \<and> challenges_inv s \<and> signing_inv ident s"

text \<open>What the fields outside the network determine.\<close>

lemma cap_inv_more:
  fixes s t :: "'z cap_scheme"
  assumes "web.more t = web.more s"
  shows "cap_inv ident t = cap_inv ident s"
proof -
  have "registration_id t = registration_id s" "prepared_actions t = prepared_actions s" "request_ids t = request_ids s"
    "challenge_ids t = challenge_ids s" "action_deadlines t = action_deadlines s"
    "challenge_deadlines t = challenge_deadlines s" "registration_action_id t = registration_action_id s" "signatures t = signatures s"
    using assms by (cases s; cases t; simp)+
  then show ?thesis by (simp add: cap_inv_def tables_inv_def challenges_inv_def signing_inv_def prepared_ok_def)
qed

section \<open>Pruning\<close>

text \<open>What pruning at time \<open>t\<close> keeps: all but the tables, and every row whose deadline is later.\<close>

definition pruned :: "real \<Rightarrow> 'z cap_scheme \<Rightarrow> 'z cap_scheme \<Rightarrow> bool" where
  "pruned t s s' \<longleftrightarrow> signatures s' = signatures s \<and> registration_id s' = registration_id s
     \<and> registration_action_id s' = registration_action_id s \<and> last_signed_request s' = last_signed_request s
     \<and> last_registration_result s' = last_registration_result s \<and> ticks s' = ticks s
     \<and> (\<forall>i d. map_of (action_deadlines s) i = Some d \<longrightarrow> t < d \<longrightarrow> map_of (action_deadlines s') i = Some d
          \<and> map_of (prepared_actions s') i = map_of (prepared_actions s) i
          \<and> map_of (signed_actions s') i = map_of (signed_actions s) i)
     \<and> (\<forall>i a. map_of (prepared_actions s') i = Some a \<longrightarrow> map_of (prepared_actions s) i = Some a)"

lemma pruned_refl: "pruned t s s"
  by (simp add: pruned_def)

lemma pruned_trans:
  assumes "pruned t s s1" "pruned t s1 s2"
  shows "pruned t s s2"
proof -
  have "map_of (action_deadlines s2) i = Some d \<and> map_of (prepared_actions s2) i = map_of (prepared_actions s) i
      \<and> map_of (signed_actions s2) i = map_of (signed_actions s) i" if "map_of (action_deadlines s) i = Some d" "t < d" for i d
  proof -
    have "map_of (action_deadlines s1) i = Some d" "map_of (prepared_actions s1) i = map_of (prepared_actions s) i"
      "map_of (signed_actions s1) i = map_of (signed_actions s) i"
      using assms(1) that unfolding pruned_def by blast+
    then show ?thesis using assms(2) that(2) unfolding pruned_def by metis
  qed
  moreover have "map_of (prepared_actions s) i = Some a" if "map_of (prepared_actions s2) i = Some a" for i a
    using assms that unfolding pruned_def by blast
  moreover have "signatures s2 = signatures s \<and> registration_id s2 = registration_id s
     \<and> registration_action_id s2 = registration_action_id s \<and> last_signed_request s2 = last_signed_request s
     \<and> last_registration_result s2 = last_registration_result s \<and> ticks s2 = ticks s"
    using assms unfolding pruned_def by metis
  ultimately show ?thesis unfolding pruned_def by blast
qed

lemma map_of_delete: "map_of (AList.delete k xs) i = (if i = k then None else map_of xs i)"
  by (simp add: delete_conv')

lemmas alist_delete = map_of_delete delete_keys distinct_removeAll

lemma prune_action_step:
  assumes inv: "cap_inv ident s" and row: "map_of (action_deadlines s) i = Some d"
  shows "\<exists>s'. prune_action t (i, d) s = (Inr (), s') \<and> cap_inv ident s' \<and> pruned t s s'
    \<and> challenge_deadlines s' = challenge_deadlines s
    \<and> (\<forall>j. j \<noteq> i \<longrightarrow> map_of (action_deadlines s') j = map_of (action_deadlines s) j)"
proof (cases "d > t \<or> i = registration_action_id s")
  case True
  then show ?thesis using inv by (simp add: prune_action_def pruned_refl)
next
  case False
  have keys: "set (map fst (action_deadlines s)) = set (map fst (prepared_actions s))"
    and prep: "\<And>j b. map_of (prepared_actions s) j = Some b \<Longrightarrow> prepared_ok ident s j b"
    using inv by (simp_all add: cap_inv_def tables_inv_def)
  from row have "i \<in> set (map fst (prepared_actions s))"
    using keys by (metis map_of_eq_None_iff not_None_eq option.distinct(1) set_map)
  then obtain a where a: "map_of (prepared_actions s) i = Some a" 
    by (metis map_of_eq_None_iff not_None_eq set_map)
  from prep [OF a] obtain rid where rid: "action_request_id a = Inr rid" "map_of (request_ids s) rid = Some i"
    by (auto simp: prepared_ok_def)
  let ?s = "s\<lparr>prepared_actions := AList.delete i (prepared_actions s), request_ids := AList.delete rid (request_ids s),
    signed_actions := AList.delete i (signed_actions s), action_deadlines := AList.delete i (action_deadlines s)\<rparr>"
  have run: "prune_action t (i, d) s = (Inr (), ?s)" using False a rid by (simp add: prune_action_def)
  have "prepared_ok ident ?s j b" if "map_of (prepared_actions ?s) j = Some b" for j b
  proof -
    from that have j: "j \<noteq> i" "map_of (prepared_actions s) j = Some b" by (auto simp: map_of_delete split: if_splits)
    from prep [OF j(2)] obtain r where "action_request_id b = Inr r" "map_of (request_ids s) r = Some j"
      by (auto simp: prepared_ok_def)
    moreover have "r \<noteq> rid" using j(1) rid(2) calculation(2) by auto
    ultimately show ?thesis using prep [OF j(2)] by (auto simp: prepared_ok_def map_of_delete)
  qed
  then have "tables_inv ident ?s"
    using inv keys length_delete_le [of i "prepared_actions s"]
    by (simp add: cap_inv_def tables_inv_def alist_delete del: set_map)
  moreover have "challenges_inv ?s" "signing_inv ident ?s"
    using inv by (simp_all add: cap_inv_def challenges_inv_def signing_inv_def)
  moreover have "pruned t s ?s" using row False by (auto simp: pruned_def map_of_delete)
  ultimately show ?thesis using run by (intro exI [of _ ?s]) (simp add: cap_inv_def map_of_delete)
qed

lemma prune_actions_loop:
  "cap_inv ident s \<Longrightarrow> distinct (map fst es) \<Longrightarrow> (\<forall>(i, d) \<in> set es. map_of (action_deadlines s) i = Some d) \<Longrightarrow>
   \<exists>s'. for_act (prune_action t) es s = (Inr (), s') \<and> cap_inv ident s' \<and> pruned t s s' \<and> challenge_deadlines s' = challenge_deadlines s"
proof (induction es arbitrary: s)
  case Nil
  then show ?case by (simp add: pruned_refl)
next
  case (Cons e es)
  obtain i d where e: "e = (i, d)" by fastforce
  with Cons.prems(3) have "map_of (action_deadlines s) i = Some d" by simp
  from prune_action_step [OF Cons.prems(1) this, of t] obtain s1 where
    s1: "prune_action t (i, d) s = (Inr (), s1)" "cap_inv ident s1" "pruned t s s1" "challenge_deadlines s1 = challenge_deadlines s"
    and rest: "\<And>j. j \<noteq> i \<Longrightarrow> map_of (action_deadlines s1) j = map_of (action_deadlines s) j" by blast
  have "\<forall>(j, d) \<in> set es. map_of (action_deadlines s1) j = Some d"
    using Cons.prems(2,3) rest e by (force simp: image_iff)
  from Cons.IH [OF s1(2) _ this] Cons.prems(2) obtain s' where
    "for_act (prune_action t) es s1 = (Inr (), s')" "cap_inv ident s'" "pruned t s1 s'" "challenge_deadlines s' = challenge_deadlines s1"
    by auto
  with s1 e show ?case by (auto simp: bind_act_def intro: pruned_trans)
qed

lemma prune_challenge_step:
  assumes inv: "cap_inv ident s" and row: "map_of (challenge_deadlines s) c = Some d"
  shows "\<exists>s'. prune_challenge t (c, d) s = (Inr (), s') \<and> cap_inv ident s' \<and> pruned t s s'
    \<and> (\<forall>j. j \<noteq> c \<longrightarrow> map_of (challenge_deadlines s') j = map_of (challenge_deadlines s) j)"
proof (cases "d > t")
  case True
  then show ?thesis using inv by (simp add: prune_challenge_def pruned_refl)
next
  case False
  have ch: "challenges_inv s" using inv by (simp add: cap_inv_def)
  have c: "c \<in> set (challenge_ids s)"
    using ch row by (metis challenges_inv_def map_of_eq_None_iff option.distinct(1) set_map)
  let ?s = "s\<lparr>challenge_ids := removeAll c (challenge_ids s), challenge_deadlines := AList.delete c (challenge_deadlines s)\<rparr>"
  have run: "prune_challenge t (c, d) s = (Inr (), ?s)" using False c by (simp add: prune_challenge_def)
  have "challenges_inv ?s"
    using ch le_trans [OF length_removeAll_less_eq [of c "challenge_ids s"], of MAX_LIFECYCLE_ACTIONS]
    by (simp add: challenges_inv_def alist_delete del: set_map)
  moreover have "tables_inv ident ?s" "signing_inv ident ?s" "pruned t s ?s"
    using inv by (simp_all add: cap_inv_def tables_inv_def signing_inv_def prepared_ok_def pruned_def)
  ultimately show ?thesis using run by (intro exI [of _ ?s]) (simp add: cap_inv_def map_of_delete)
qed

lemma prune_challenges_loop:
  "cap_inv ident s \<Longrightarrow> distinct (map fst es) \<Longrightarrow> (\<forall>(c, d) \<in> set es. map_of (challenge_deadlines s) c = Some d) \<Longrightarrow>
   \<exists>s'. for_act (prune_challenge t) es s = (Inr (), s') \<and> cap_inv ident s' \<and> pruned t s s'"
proof (induction es arbitrary: s)
  case Nil
  then show ?case by (simp add: pruned_refl)
next
  case (Cons e es)
  obtain c d where e: "e = (c, d)" by fastforce
  with Cons.prems(3) have "map_of (challenge_deadlines s) c = Some d" by simp
  from prune_challenge_step [OF Cons.prems(1) this, of t] obtain s1 where
    s1: "prune_challenge t (c, d) s = (Inr (), s1)" "cap_inv ident s1" "pruned t s s1"
    and rest: "\<And>j. j \<noteq> c \<Longrightarrow> map_of (challenge_deadlines s1) j = map_of (challenge_deadlines s) j" by blast
  have "\<forall>(j, d) \<in> set es. map_of (challenge_deadlines s1) j = Some d"
    using Cons.prems(2,3) rest e by (force simp: image_iff)
  from Cons.IH [OF s1(2) _ this] Cons.prems(2) obtain s' where
    "for_act (prune_challenge t) es s1 = (Inr (), s')" "cap_inv ident s'" "pruned t s1 s'" by auto
  with s1 e show ?case by (auto simp: bind_act_def intro: pruned_trans)
qed

text \<open>Pruning always succeeds and keeps the invariant.\<close>

lemma prune_lifecycle_ok:
  fixes s :: "'z cap_scheme"
  assumes "cap_inv ident s"
  shows "\<exists>s'. prune_lifecycle en s = (Inr (), s') \<and> cap_inv ident s'
    \<and> pruned (mono en (ticks s)) (s\<lparr>ticks := Suc (ticks s)\<rparr>) s'"
proof -
  let ?t = "mono en (ticks s)" and ?s = "s\<lparr>ticks := Suc (ticks s)\<rparr>"
  have inv: "cap_inv ident ?s" using cap_inv_more [of ?s s ident] assms by (cases s) simp
  then have "distinct (map fst (action_deadlines ?s))" by (simp add: cap_inv_def tables_inv_def)
  then obtain s1 where s1: "for_act (prune_action ?t) (action_deadlines ?s) ?s = (Inr (), s1)" "cap_inv ident s1" "pruned ?t ?s s1"
    using prune_actions_loop [OF inv, of "action_deadlines ?s" ?t] by (auto intro: map_of_is_SomeI)
  then have "distinct (map fst (challenge_deadlines s1))" by (simp add: cap_inv_def challenges_inv_def)
  then obtain s2 where "for_act (prune_challenge ?t) (challenge_deadlines s1) s1 = (Inr (), s2)" "cap_inv ident s2" "pruned ?t s1 s2"
    using prune_challenges_loop [OF s1(2), of "challenge_deadlines s1" ?t] by (auto intro: map_of_is_SomeI)
  with s1 show ?thesis
    by (intro exI [of _ s2]) (simp add: prune_lifecycle_def now_def bind_act_def pruned_trans [of ?t ?s s1 s2])
qed

section \<open>Tables\<close>

lemma cap_inv_irrelevant [simp]:
  "cap_inv ident (s\<lparr>ticks := n\<rparr>) = cap_inv ident s"
  "cap_inv ident (s\<lparr>signed_actions := t\<rparr>) = cap_inv ident s"
  "cap_inv ident (s\<lparr>last_signed_request := r\<rparr>) = cap_inv ident s"
  "cap_inv ident (s\<lparr>last_registration_result := r\<rparr>) = cap_inv ident s"
  by (simp_all add: cap_inv_def tables_inv_def challenges_inv_def signing_inv_def prepared_ok_def)

lemma length_insert_le: "length (List.insert x xs) \<le> Suc (length xs)"
  by (simp add: List.insert_def)

lemma has_key_iff: "has_key k d \<longleftrightarrow> k \<in> fst ` set d"
  by (simp add: has_key_def)

lemma retain_until_inv:
  assumes "cap_inv ident s" "has_key i (action_deadlines s)"
  shows "cap_inv ident (retain_until en i s)"
proof -
  have "set (map fst (AList.update i d (action_deadlines s))) = set (map fst (action_deadlines s))" for d
    using assms(2) by (auto simp: update_keys has_key_iff)
  with assms(1) show ?thesis
    by (simp add: retain_until_def now_def Let_def cap_inv_def tables_inv_def challenges_inv_def signing_inv_def
        prepared_ok_def distinct_update del: set_map)
qed

lemma insert_action_inv:
  assumes inv: "cap_inv ident s" and room: "length (prepared_actions s) < MAX_LIFECYCLE_ACTIONS"
    and new: "i \<notin> set (map fst (prepared_actions s))" and free: "map_of (request_ids s) rid \<in> {None, Some i}"
    and a: "action_hash a = Inr i" "action_request_id a = Inr rid" "lifecycle_scope ident (set (signatures s)) a"
  shows "cap_inv ident (s\<lparr>action_deadlines := AList.update i d (action_deadlines s),
    request_ids := AList.update rid i (request_ids s), prepared_actions := AList.update i a (prepared_actions s)\<rparr>)"
    (is "cap_inv ident ?s")
proof -
  have prep: "\<And>j b. map_of (prepared_actions s) j = Some b \<Longrightarrow> prepared_ok ident s j b"
    using inv by (simp add: cap_inv_def tables_inv_def)
  have "prepared_ok ident ?s j b" if "map_of (prepared_actions ?s) j = Some b" for j b
  proof (cases "j = i")
    case True
    with that have "b = a" by (simp add: update_conv')
    with True a show ?thesis by (simp add: prepared_ok_def update_conv')
  next
    case False
    with that have old: "map_of (prepared_actions s) j = Some b" by (simp add: update_conv')
    from prep [OF this] obtain r where "action_request_id b = Inr r" "map_of (request_ids s) r = Some j" by (auto simp: prepared_ok_def)
    with False free have "r \<noteq> rid" by auto
    with prep [OF old] \<open>action_request_id b = Inr r\<close> \<open>map_of (request_ids s) r = Some j\<close>
    show ?thesis by (simp add: prepared_ok_def update_conv')
  qed
  moreover have "length (AList.update i a (prepared_actions s)) \<le> MAX_LIFECYCLE_ACTIONS"
    using room length_update_le [of i a "prepared_actions s"] by simp
  ultimately have "tables_inv ident ?s"
    using inv by (simp add: cap_inv_def tables_inv_def distinct_update update_keys del: set_map)
  moreover have "challenges_inv ?s" "signing_inv ident ?s"
    using inv by (simp_all add: cap_inv_def challenges_inv_def signing_inv_def)
  ultimately show ?thesis by (simp add: cap_inv_def)
qed

lemma cache_action_inv:
  assumes "cache_action en a rid i s = (r, s')" "cap_inv ident s"
    and a: "action_hash a = Inr i" "action_request_id a = Inr rid" "lifecycle_scope ident (set (signatures s)) a"
  shows "cap_inv ident s' \<and> signatures s' = signatures s"
proof -
  have keys: "has_key i (prepared_actions s) \<longleftrightarrow> has_key i (action_deadlines s)"
    using assms(2) by (simp add: cap_inv_def tables_inv_def has_key_def)
  let ?n = "s\<lparr>ticks := Suc (ticks s)\<rparr>"
  let ?new = "?n\<lparr>action_deadlines := AList.update i (mono en (ticks s) + LIFECYCLE_RETENTION_SECONDS) (action_deadlines ?n),
    request_ids := AList.update rid i (request_ids ?n), prepared_actions := AList.update i a (prepared_actions ?n)\<rparr>"
  show ?thesis
  proof (cases "map_of (request_ids s) rid \<in> {None, Some i}")
    case False
    with assms(1) have "s' = s" by (auto simp: cache_action_def)
    then show ?thesis using assms(2) by simp
  next
    case free: True
    then have ok: "\<not> (map_of (request_ids s) rid \<noteq> None \<and> map_of (request_ids s) rid \<noteq> Some i)" by auto
    show ?thesis
    proof (cases "has_key i (prepared_actions s)")
      case True
      with assms(1) ok have "s' = s \<or> s' = retain_until en i s" by (auto simp: cache_action_def Let_def split: if_splits)
      then show ?thesis using retain_until_inv [OF assms(2), of i en] True keys assms(2)
        by (auto simp: retain_until_def now_def Let_def)
    next
      case new: False
      show ?thesis
      proof (cases "length (prepared_actions s) < MAX_LIFECYCLE_ACTIONS")
        case True
        have "cap_inv ident ?new"
          by (rule insert_action_inv) (use new free True a assms(2) in \<open>simp_all add: has_key_iff\<close>)
        moreover have "s' = ?new" using assms(1) ok new True by (auto simp: cache_action_def retain_until_def now_def Let_def)
        ultimately show ?thesis by simp
      next
        case False
        with assms(1) ok new have "s' = s" by (auto simp: cache_action_def Let_def)
        then show ?thesis using assms(2) by simp
      qed
    qed
  qed
qed

section \<open>Parameters in scope\<close>

lemma renew_parameters_scope:
  "renew_parameters ident reg v = Inr ps \<Longrightarrow> map_of ps ''registration_id'' = Some (JStr reg) \<and> renew_scope ident ps"
  by (auto simp: renew_parameters_def renew_scope_def int_between_iff split: if_splits)

lemma deregister_parameters_scope:
  assumes "deregister_parameters ident reg v = Inr ps"
  shows "map_of ps ''registration_id'' = Some (JStr reg) \<and> deregister_scope ident ps"
proof -
  from assms obtain ports withdraw reason where
    ps: "ps = [(''registration_id'', JStr reg), (''selected_ports'', ports), (''withdraw_all'', withdraw), (''reason'', reason)]"
    and b: "jbool withdraw \<noteq> None" and p: "sorted_ports (config_ports (id_config ident)) ports"
    and e: "\<not> ((withdraw = JBool True \<and> ports \<noteq> JList []) \<or> (withdraw \<noteq> JBool True \<and> ports = JList []))"
    by (auto simp: deregister_parameters_def Let_def split: if_splits)
  from b obtain w where w: "withdraw = JBool w" by auto
  from p obtain js where js: "ports = JList (map JInt js)" "set js \<subseteq> set (config_ports (id_config ident))" "sorted_wrt (<) js"
    by (auto simp: sorted_ports_iff)
  from e w js have "w = (js = [])" by (cases w) auto
  with ps w js show ?thesis by (auto simp: deregister_scope_def)
qed

lemma check_txt_Inr: "check_txt v = Inr u \<Longrightarrow> \<exists>txt digest. v = JStr txt \<and> length digest = 32 \<and> txt = b64url digest"
  by (auto simp: check_txt_def split: option.splits if_splits)

lemma challenge_times_iff:
  "challenge_times ident ttl lifetime \<longleftrightarrow> (\<exists>l t. lifetime = JInt l \<and> 1 \<le> l \<and> l \<le> min 3600 (config_lease (id_config ident))
     \<and> ttl = JInt t \<and> 1 \<le> t \<and> t \<le> min 300 l)"
  by (auto simp: challenge_times_def int_between_iff split: option.splits)

lemma create_parameters_scope:
  assumes "create_parameters ident reg v = Inr ps"
  shows "map_of ps ''registration_id'' = Some (JStr reg) \<and> create_scope ident ps"
proof -
  from assms obtain order tv ttl lifetime host where
    ps: "ps = [(''registration_id'', JStr reg), (''order_id'', order), (''name'', host), (''txt_value'', tv), (''ttl'', ttl), (''lifetime_seconds'', lifetime)]"
    and "check_txt tv = Inr ()" "challenge_times ident ttl lifetime" "map_of (id_config ident) ''service_host'' = Some host"
    by (auto simp: create_parameters_def split: if_splits)
  then show ?thesis by (auto simp: create_scope_def challenge_times_iff dest!: check_txt_Inr)
qed

lemma delete_parameters_scope:
  "delete_parameters issued v = Inr ps \<Longrightarrow> \<exists>c \<in> set issued. map_of ps ''challenge_id'' = Some (JStr c)"
  by (auto simp: delete_parameters_def split: option.splits if_splits)

lemma lifecycle_parameters_scope:
  assumes "lifecycle_parameters ident issued reg op v = Inr ps"
    and "\<exists>m \<in> sent. reg = derived_id ''reg-'' m" "\<forall>c \<in> set issued. \<exists>m \<in> sent. c = derived_id ''chal-'' m"
  shows "operation_scope ident sent (Some op) ps"
proof -
  consider "op = JStr ''renew''" "renew_parameters ident reg v = Inr ps"
    | "op = JStr ''deregister''" "deregister_parameters ident reg v = Inr ps"
    | "op = JStr ''acme_challenge_create''" "create_parameters ident reg v = Inr ps"
    | "op = JStr ''acme_challenge_delete''" "delete_parameters issued v = Inr ps"
    using assms(1) by (auto simp: lifecycle_parameters_def split: if_splits)
  then show ?thesis
  proof cases
    case 1
    then show ?thesis using renew_parameters_scope [OF 1(2)] assms(2) by (auto simp: operation_scope_def registered_def)
  next
    case 2
    then show ?thesis using deregister_parameters_scope [OF 2(2)] assms(2) by (auto simp: operation_scope_def registered_def)
  next
    case 3
    then show ?thesis using create_parameters_scope [OF 3(2)] assms(2) by (auto simp: operation_scope_def registered_def)
  next
    case 4
    then show ?thesis using delete_parameters_scope [OF 4(2)] assms(3) by (force simp: operation_scope_def delete_scope_def)
  qed
qed

lemma pick_keys_Inr:
  "pick_keys d keys = Inr ps \<longleftrightarrow> (\<exists>vs. ps = zip keys vs \<and> list_all2 (\<lambda>k v. map_of d k = Some v) keys vs)"
proof (induction keys arbitrary: ps)
  case (Cons k keys)
  then show ?case
    by (auto simp: pick_keys_def list_all2_Cons1) (metis zip_Cons_Cons)+
qed (auto simp: pick_keys_def)

lemma lifecycle_action_fields:
  assumes "lifecycle_action ident rid op ps = Inr a" "id_ok rid"
  shows "fixed_fields ident a \<and> has_id a ''request_id'' \<and> map_of a ''operation'' = Some op \<and> map_of a ''parameters'' = Some (JDict ps)"
proof -
  let ?keys = "[''audience'', ''grant_id'', ''zone'', ''signer_spki_der'']"
  from assms(1) obtain ps0 where p: "pick_keys (id_action ident) ?keys = Inr ps0"
    and a: "a = ps0 @ [(''request_id'', JStr rid), (''operation'', op), (''parameters'', JDict ps)]"
    unfolding lifecycle_action_def bindr_eq_Inr by blast
  from p obtain v1 v2 v3 v4 where "ps0 = zip ?keys [v1, v2, v3, v4]"
    "map_of (id_action ident) ''audience'' = Some v1" "map_of (id_action ident) ''grant_id'' = Some v2"
    "map_of (id_action ident) ''zone'' = Some v3" "map_of (id_action ident) ''signer_spki_der'' = Some v4"
    unfolding pick_keys_Inr list_all2_Cons1 by auto
  with a assms(2) show ?thesis by (simp add: fixed_fields_def has_id_def)
qed

lemma build_action_scope:
  assumes "build_action ident rid op v s = (Inr a, s')" "cap_inv ident s" "id_ok rid"
  shows "s' = s" "lifecycle_scope ident (set (signatures s)) a"
proof -
  from assms(1) obtain reg where r: "registration_id s = Some reg" by (cases "registration_id s") (simp_all add: build_action_def)
  with assms(1) have "bindr (lifecycle_parameters ident (challenge_ids s) reg op v) (lifecycle_action ident rid op) = Inr a \<and> s' = s"
    unfolding build_action_def r option.case prod.inject by metis
  then obtain ps where p: "lifecycle_parameters ident (challenge_ids s) reg op v = Inr ps" and a: "lifecycle_action ident rid op ps = Inr a"
    and s: "s' = s" unfolding bindr_eq_Inr by blast
  show "s' = s" by (rule s)
  have "operation_scope ident (set (signatures s)) (Some op) ps"
    by (rule lifecycle_parameters_scope [OF p]) (use assms(2) r in \<open>simp_all add: cap_inv_def signing_inv_def challenges_inv_def\<close>)
  with lifecycle_action_fields [OF a assms(3)] show "lifecycle_scope ident (set (signatures s)) a"
    by (auto simp: lifecycle_scope_def)
qed

end
