(* ===== verification/Capture_Signing.thy ===== *)
theory Capture_Signing
  imports Capture_Safety
begin

text \<open>
  What the capture worker signs: every method keeps the invariant, whatever requests arrive and
  whatever CCF answers, so that every signature is on an action of the fixed scope; a handle that is
  still retained gives the same envelope again, and no second signature.
\<close>

section \<open>Signing keeps the invariant\<close>

text \<open>What the constructor establishes.\<close>

definition ident_ok :: "identity \<Rightarrow> bool" where
  "ident_ok ident \<longleftrightarrow> action_hash (id_action ident) = Inr (id_intent_hash ident)
     \<and> map_of (id_action ident) ''operation'' = Some (JStr ''register'')"

lemma cap_inv_sign:
  assumes inv: "cap_inv ident s" and m: "message_scope ident (set (signatures s)) m"
  shows "cap_inv ident (s\<lparr>signatures := signatures s @ [m]\<rparr>)" (is "cap_inv ident ?s")
proof -
  have sub: "set (signatures s) \<subseteq> set (signatures ?s)" by auto
  have "prepared_ok ident ?s i a" if "prepared_ok ident s i a" for i a
    using that lifecycle_scope_mono [OF _ sub] by (simp add: prepared_ok_def)
  then have "tables_inv ident ?s" using inv by (simp add: cap_inv_def tables_inv_def)
  moreover have "challenges_inv ?s" using inv by (auto simp: cap_inv_def challenges_inv_def)
  moreover have "message_scope ident (set (signatures ?s)) m'" if "m' \<in> set (signatures ?s)" for m'
    using that m inv message_scope_mono [OF _ sub] by (auto simp: cap_inv_def signing_inv_def)
  then have "signing_inv ident ?s" using inv by (auto simp: cap_inv_def signing_inv_def)
  ultimately show ?thesis by (simp add: cap_inv_def)
qed

lemma note_registration_inv:
  assumes "note_registration (sha256_hex m) expected s = (r, s')" "cap_inv ident s" "m \<in> set (signatures s)"
    "expected = id_intent_hash ident"
  shows "cap_inv ident s' \<and> signatures s' = signatures s"
proof -
  have "s' = s \<or> s' = s\<lparr>registration_id := Some (derived_id ''reg-'' m), registration_action_id := expected\<rparr>"
    using assms(1) by (auto simp: note_registration_def derived_id_def Let_def split: if_splits)
  moreover have "cap_inv ident (s\<lparr>registration_id := Some (derived_id ''reg-'' m), registration_action_id := expected\<rparr>)"
  proof -
    let ?s = "s\<lparr>registration_id := Some (derived_id ''reg-'' m), registration_action_id := expected\<rparr>"
    have "tables_inv ident ?s" "challenges_inv ?s"
      using assms(2) by (simp_all add: cap_inv_def tables_inv_def challenges_inv_def prepared_ok_def)
    moreover have "signing_inv ident ?s" using assms(2-4) by (auto simp: cap_inv_def signing_inv_def)
    ultimately show ?thesis by (simp add: cap_inv_def)
  qed
  ultimately show ?thesis using assms(2) by auto
qed

lemma insert_challenge_inv:
  assumes inv: "cap_inv ident s" and room: "length (challenge_ids s) < MAX_LIFECYCLE_ACTIONS" and m: "m \<in> set (signatures s)"
  shows "cap_inv ident (s\<lparr>challenge_ids := List.insert (derived_id ''chal-'' m) (challenge_ids s),
    challenge_deadlines := AList.update (derived_id ''chal-'' m) d (challenge_deadlines s)\<rparr>)" (is "cap_inv ident ?s")
proof -
  let ?c = "derived_id ''chal-'' m"
  have "length (List.insert ?c (challenge_ids s)) \<le> MAX_LIFECYCLE_ACTIONS"
    using room length_insert_le [of ?c "challenge_ids s"] by simp
  then have "challenges_inv ?s"
    using inv m by (simp add: cap_inv_def challenges_inv_def distinct_update update_keys del: set_map) blast
  moreover have "tables_inv ident ?s" "signing_inv ident ?s"
    using inv by (simp_all add: cap_inv_def tables_inv_def signing_inv_def prepared_ok_def)
  ultimately show ?thesis by (simp add: cap_inv_def)
qed

lemma prune_lifecycle_inv:
  fixes s :: "'z cap_scheme"
  assumes "prune_lifecycle en s = (r, s')" "cap_inv ident s"
  shows "r = Inr () \<and> cap_inv ident s' \<and> signatures s' = signatures s \<and> registration_id s' = registration_id s
    \<and> ticks s' = Suc (ticks s)"
proof -
  from prune_lifecycle_ok [OF assms(2), of en] obtain t where
    "prune_lifecycle en s = (Inr (), t)" "cap_inv ident t" "pruned (mono en (ticks s)) (s\<lparr>ticks := Suc (ticks s)\<rparr>) t" by blast
  with assms(1) show ?thesis by (simp add: pruned_def)
qed

lemma note_challenge_inv:
  fixes s :: "'z cap_scheme"
  assumes run: "note_challenge en a (sha256_hex m) s = (r, s')" and inv: "cap_inv ident s" and m: "m \<in> set (signatures s)"
    and l: "lifetime_of a = Inr l"
  shows "cap_inv ident s' \<and> signatures s' = signatures s"
proof -
  obtain x s1 where p: "prune_lifecycle en s = (x, s1)" by fastforce
  note f = prune_lifecycle_inv [OF p inv]
  show ?thesis
  proof (cases "length (challenge_ids s1) < MAX_LIFECYCLE_ACTIONS")
    case True
    let ?n = "s1\<lparr>ticks := Suc (ticks s1)\<rparr>"
    have "s' = ?n\<lparr>challenge_ids := List.insert (derived_id ''chal-'' m) (challenge_ids ?n),
        challenge_deadlines := AList.update (derived_id ''chal-'' m) (mono en (ticks s1) + 300 + of_int l) (challenge_deadlines ?n)\<rparr>"
      using run p f True l by (cases s1) (auto simp: note_challenge_def bind_act_def now_def Let_def derived_id_def)
    moreover have "cap_inv ident (?n\<lparr>challenge_ids := List.insert (derived_id ''chal-'' m) (challenge_ids ?n),
        challenge_deadlines := AList.update (derived_id ''chal-'' m) (mono en (ticks s1) + 300 + of_int l) (challenge_deadlines ?n)\<rparr>)"
      by (rule insert_challenge_inv) (use f True m in simp_all)
    ultimately show ?thesis using f by simp
  next
    case False
    then have "s' = s1" using run p f by (simp add: note_challenge_def bind_act_def lift_res_def)
    then show ?thesis using f by simp
  qed
qed

lemma keep_signed_inv: "cap_inv ident s \<Longrightarrow> cap_inv ident (keep_signed en expected m env s) \<and> signatures (keep_signed en expected m env s) = signatures s"
  using retain_until_inv [of ident "s\<lparr>signed_actions := AList.update expected (m, env) (signed_actions s)\<rparr>" expected en]
  by (auto simp: keep_signed_def Let_def retain_until_def now_def)

lemma operation_of_scope:
  assumes "ident_ok ident" "action_scope ident sent a" "map_of a ''operation'' = Some op"
  shows "op = JStr ''register'' \<Longrightarrow> a = id_action ident"
    and "op = JStr ''acme_challenge_create'' \<Longrightarrow> \<exists>l. lifetime_of a = Inr l"
proof -
  show "op = JStr ''register'' \<Longrightarrow> a = id_action ident"
    using assms by (auto simp: action_scope_def lifecycle_scope_def operation_scope_def)
  assume op: "op = JStr ''acme_challenge_create''"
  with assms have "lifecycle_scope ident sent a" by (auto simp: action_scope_def ident_ok_def)
  with op assms(3) obtain ps where "map_of a ''parameters'' = Some (JDict ps)" "create_scope ident ps"
    by (auto simp: lifecycle_scope_def operation_scope_def)
  then show "\<exists>l. lifetime_of a = Inr l" by (auto simp: lifetime_of_def create_scope_def dict_index_def)
qed

lemma note_operation_inv:
  fixes s :: "'z cap_scheme"
  assumes run: "note_operation en a op (sha256_hex m) expected s = (r, s')" and inv: "cap_inv ident s" and m: "m \<in> set (signatures s)"
    and a: "ident_ok ident" "action_scope ident sent a" "map_of a ''operation'' = Some op" "action_hash a = Inr expected"
  shows "cap_inv ident s' \<and> signatures s' = signatures s"
proof -
  consider "op = JStr ''register''" | "op = JStr ''acme_challenge_create''"
    | "op \<noteq> JStr ''register''" "op \<noteq> JStr ''acme_challenge_create''" by blast
  then show ?thesis
  proof cases
    case 1
    then have "expected = id_intent_hash ident" using operation_of_scope(1) [OF a(1-3)] a by (simp add: ident_ok_def)
    moreover have "note_registration (sha256_hex m) expected s = (r, s')" using run 1 by (simp add: note_operation_def)
    ultimately show ?thesis using note_registration_inv inv m by blast
  next
    case 2
    then obtain l where "lifetime_of a = Inr l" using operation_of_scope(2) [OF a(1-3)] by blast
    moreover have "note_challenge en a (sha256_hex m) s = (r, s')" using run 2 by (simp add: note_operation_def)
    ultimately show ?thesis using note_challenge_inv inv m by blast
  next
    case 3
    then show ?thesis using run inv by (simp add: note_operation_def)
  qed
qed

lemma hex_field_Inr: "hex_field d k = Inr u \<longleftrightarrow> (\<exists>s. map_of d k = Some (JStr s) \<and> sha_hex s)"
  by (auto simp: hex_field_def split: option.splits if_splits)

lemma check_nonce_Inr:
  assumes "check_nonce a v = Inr (d, expected, expiry)"
  shows "v = JDict d \<and> nonce_scope a d \<and> action_hash a = Inr expected \<and> map_of d ''nonce_expires_at'' = Some (JInt expiry)"
proof -
  from assms have f: "exact_fields v [''nonce'', ''nonce_expires_at'', ''intent_hash''] [] = Inr d"
    and h: "for_each (hex_field d) [''nonce'', ''intent_hash''] = Inr ()" and e: "action_hash a = Inr expected"
    and i: "map_of d ''intent_hash'' = Some (JStr expected)" and x: "map_of d ''nonce_expires_at'' = Some (JInt expiry)"
    unfolding check_nonce_def by (auto split: if_splits option.splits)
  from f have "v = JDict d" "set (map fst d) = {''nonce'', ''nonce_expires_at'', ''intent_hash''}"
    by (auto simp: exact_fields_Inr)
  moreover obtain nonce where "map_of d ''nonce'' = Some (JStr nonce)" "sha_hex nonce" using h by (auto simp: hex_field_Inr)
  ultimately show ?thesis using e i x by (simp add: nonce_scope_def)
qed

lemma sign_fresh_inv:
  fixes s :: "'z cap_scheme"
  assumes run: "sign_fresh depth en ident a body expected expiry m s = (r, s')" and inv: "cap_inv ident s"
    and a: "ident_ok ident" "action_scope ident (set (signatures s)) a" "action_hash a = Inr expected"
    and m: "message_scope ident (set (signatures s)) m"
  shows "cap_inv ident s'"
proof (cases "wall en (ticks s) < expiry \<and> expiry \<le> wall en (ticks s) + 300")
  case False
  then have "s' = s\<lparr>ticks := Suc (ticks s)\<rparr>" using run by (auto simp: sign_fresh_def Let_def)
  then show ?thesis using inv by simp
next
  case time: True
  let ?s1 = "(s\<lparr>ticks := Suc (ticks s)\<rparr>)\<lparr>signatures := signatures s @ [m]\<rparr>"
  have inv1: "cap_inv ident ?s1" using cap_inv_sign [of ident "s\<lparr>ticks := Suc (ticks s)\<rparr>" m] inv m by simp
  obtain x where k: "key_sign en m (s\<lparr>ticks := Suc (ticks s)\<rparr>) = (x, ?s1)" by (simp add: key_sign_def)
  show ?thesis
  proof (cases "\<exists>signature op. x = Inr signature \<and> map_of a ''operation'' = Some op")
    case False
    then have "s' = ?s1" using run time k
      by (cases x; cases "map_of a ''operation''") (simp_all add: sign_fresh_def Let_def bind_act_def dict_index_def lift_res_def)
    then show ?thesis using inv1 by simp
  next
    case True
    then obtain signature op where x: "x = Inr signature" and op: "map_of a ''operation'' = Some op" by blast
    obtain y s2 where n: "note_operation en a op (sha256_hex m) expected ?s1 = (y, s2)" by fastforce
    have i2: "cap_inv ident s2" using note_operation_inv [OF n inv1 _ a(1,2) op a(3)] by simp
    have "s' = s2 \<or> s' = keep_signed en expected m (envelope ident op body signature) s2"
      using run time k x op n by (cases y) (auto simp: sign_fresh_def Let_def bind_act_def dict_index_def lift_res_def)
    then show ?thesis using i2 keep_signed_inv by blast
  qed
qed

lemma sign_action_inv:
  fixes s :: "'z cap_scheme"
  assumes run: "sign_action depth en ident a v s = (r, s')" and inv: "cap_inv ident s"
    and a: "ident_ok ident" "action_scope ident (set (signatures s)) a"
  shows "cap_inv ident s'"
proof (cases "check_nonce a v")
  case (Inl e)
  then have "s' = s" using run by (simp add: sign_action_def bind_act_def lift_res_def)
  then show ?thesis using inv by simp
next
  case (Inr t)
  then obtain d expected expiry where c: "check_nonce a v = Inr (d, expected, expiry)" by (metis prod_cases3)
  note n = check_nonce_Inr [OF c]
  show ?thesis
  proof (cases "canonical (JDict (signed_body a d))")
    case (Inl e)
    then have "s' = s" using run c by (simp add: sign_action_def bind_act_def lift_res_def)
    then show ?thesis using inv by simp
  next
    case (Inr m)
    have "s' = s \<or> sign_fresh depth en ident a (signed_body a d) expected expiry m s = (r, s')"
      using run c Inr by (auto simp: sign_action_def bind_act_def lift_res_def split: option.splits if_splits)
    moreover have "message_scope ident (set (signatures s)) m"
      unfolding message_scope_def using Inr a n by blast
    ultimately show ?thesis using sign_fresh_inv [of depth en ident a "signed_body a d" expected expiry m s r s'] inv a n by blast
  qed
qed

lemma prepare_action_inv:
  fixes s :: "'z cap_scheme"
  assumes run: "prepare_action depth en a s = (r, s')" and inv: "cap_inv ident s"
    and a: "lifecycle_scope ident (set (signatures s)) a"
  shows "cap_inv ident s'"
proof -
  obtain x s1 where p: "prune_lifecycle en s = (x, s1)" by fastforce
  note f = prune_lifecycle_inv [OF p inv]
  show ?thesis
  proof (cases "\<exists>i rid. action_hash a = Inr i \<and> action_request_id a = Inr rid")
    case True
    then obtain i rid where h: "action_hash a = Inr i" "action_request_id a = Inr rid" by blast
    obtain y s2 where c: "cache_action en a rid i s1 = (y, s2)" by fastforce
    have "s' = s2" using run p f h c by (cases y) (auto simp: prepare_action_def bind_act_def lift_res_def)
    then show ?thesis using cache_action_inv [OF c _ h] f a by simp
  next
    case False
    then have "s' = s1" using run p f
      by (cases "action_hash a"; cases "action_request_id a") (auto simp: prepare_action_def bind_act_def lift_res_def)
    then show ?thesis using f by simp
  qed
qed

lemma request_fields_id: "request_fields v = Inr (rid, op, supplied) \<Longrightarrow> id_ok rid"
  by (auto simp: request_fields_def split: option.splits if_splits)

lemma prepare_lifecycle_inv:
  fixes s :: "'z cap_scheme"
  assumes run: "prepare_lifecycle depth en ident v s = (r, s')" and inv: "cap_inv ident s"
  shows "cap_inv ident s'"
proof (cases "request_fields v")
  case (Inl e)
  then show ?thesis using run inv by (simp add: prepare_lifecycle_def bind_act_def lift_res_def)
next
  case (Inr t)
  then obtain rid op supplied where q: "request_fields v = Inr (rid, op, supplied)" by (metis prod_cases3)
  obtain x s1 where p: "prune_lifecycle en s = (x, s1)" by fastforce
  note f = prune_lifecycle_inv [OF p inv]
  obtain y s2 where b: "build_action ident rid op supplied s1 = (y, s2)" by fastforce
  show ?thesis
  proof (cases y)
    case (Inl e)
    have "s2 = s1" using b by (auto simp: build_action_def split: option.splits)
    then show ?thesis using run q p f b Inl by (simp add: prepare_lifecycle_def bind_act_def lift_res_def)
  next
    case (Inr a)
    note sc = build_action_scope [OF b [unfolded Inr] _ request_fields_id [OF q]]
    have "prepare_action depth en a s2 = (r, s')" using run q p f b Inr by (simp add: prepare_lifecycle_def bind_act_def lift_res_def)
    then show ?thesis using prepare_action_inv sc f by blast
  qed
qed

lemma sign_lifecycle_inv:
  fixes s :: "'z cap_scheme"
  assumes run: "sign_lifecycle depth en ident v s = (r, s')" and inv: "cap_inv ident s" and ident: "ident_ok ident"
  shows "cap_inv ident s'"
proof (cases "\<exists>d i. exact_fields v [''action_id'', ''nonce'', ''nonce_expires_at'', ''intent_hash''] [] = Inr d \<and> map_of d ''action_id'' = Some (JStr i)")
  case False
  then have "s' = s" using run
    by (cases "exact_fields v [''action_id'', ''nonce'', ''nonce_expires_at'', ''intent_hash''] []")
      (auto simp: sign_lifecycle_def bind_act_def lift_res_def dict_index_def split: option.splits)
  then show ?thesis using inv by simp
next
  case True
  then obtain d i where d: "exact_fields v [''action_id'', ''nonce'', ''nonce_expires_at'', ''intent_hash''] [] = Inr d"
    "map_of d ''action_id'' = Some (JStr i)" by blast
  obtain x s1 where p: "prune_lifecycle en s = (x, s1)" by fastforce
  note f = prune_lifecycle_inv [OF p inv]
  show ?thesis
  proof (cases "\<exists>a fs. map_of (prepared_actions s1) i = Some a \<and> pick_keys d [''nonce'', ''nonce_expires_at'', ''intent_hash''] = Inr fs")
    case False
    then have "s' = s1" using run d p f
      by (cases "pick_keys d [''nonce'', ''nonce_expires_at'', ''intent_hash'']")
        (auto simp: sign_lifecycle_def bind_act_def lift_res_def dict_index_def split: option.splits)
    then show ?thesis using f by simp
  next
    case True
    then obtain a fs where a: "map_of (prepared_actions s1) i = Some a"
      and k: "pick_keys d [''nonce'', ''nonce_expires_at'', ''intent_hash''] = Inr fs" by blast
    have "sign_action depth en ident a (JDict fs) s1 = (r, s')"
      using run d p f a k by (simp add: sign_lifecycle_def bind_act_def lift_res_def dict_index_def)
    moreover have "prepared_ok ident s1 i a" using f a by (simp add: cap_inv_def tables_inv_def)
    then have "action_scope ident (set (signatures s1)) a" by (simp add: prepared_ok_def action_scope_def)
    ultimately show ?thesis using sign_action_inv f ident by blast
  qed
qed

section \<open>The network leaves the signer alone\<close>

lemma framed_remaining [framed_intros]: "web_framed (deadline_remaining clk e)"
  by (auto simp: web_framed_def deadline_remaining_def now_def Let_def)

lemma framed_bind_deadline [framed_intros]: "web_framed (deadline_bind clk e)"
  by (auto simp: web_framed_def deadline_bind_def deadline_remaining_def now_def Let_def bind_act_def settimeout_def
      split: if_splits)

lemma read_upto_more: "read_upto n data s = (r, s') \<Longrightarrow> \<exists>q. s' = s\<lparr>inbox := q\<rparr>"
proof (induction n data s rule: read_upto.induct)
  case (1 n data s)
  show ?case
  proof (cases "length data \<ge> n")
    case True
    with 1(2) have "s' = s\<lparr>inbox := inbox s\<rparr>" by (simp add: read_upto.simps [of n data s])
    then show ?thesis by blast
  next
    case False
    obtain x q where q: "recv_queue (n - length data) (inbox s) = (x, q)" by fastforce
    then have rc: "recv (n - length data) s = (x, s\<lparr>inbox := q\<rparr>)" by (simp add: recv_def)
    show ?thesis
    proof (cases "\<exists>chunk. x = Inr chunk \<and> chunk \<noteq> []")
      case True
      then obtain chunk where c: "x = Inr chunk" "chunk \<noteq> []" by blast
      with 1(2) False rc have "read_upto n (data @ chunk) (s\<lparr>inbox := q\<rparr>) = (r, s')" by (subst (asm) read_upto.simps) simp
      from 1(1) [OF False rc [symmetric] c(1) c(2) this] show ?thesis by auto
    next
      case no: False
      then have "s' = s\<lparr>inbox := q\<rparr>"
        using 1(2) False rc by (cases x) (auto simp: read_upto.simps [of n data s])
      then show ?thesis by blast
    qed
  qed
qed

lemma framed_read_upto [framed_intros]: "web_framed (read_upto n data)"
  unfolding web_framed_def using read_upto_more by fastforce

lemma framed_reply [framed_intros]: "web_framed (ccf_reply depth clk e response)"
  unfolding ccf_reply_def by (auto intro: framed_intros)

lemma framed_post_ccf [framed_intros]: "web_framed (post_ccf depth en trust ident suffix body)"
proof -
  have "web_framed (\<lambda>s. let (t, s1) = now (mono en) s; end_time = t + CCF_DEADLINE_SECONDS in
            bind_act create_connection (\<lambda>a.
            bind_act (lift_res (at_handshake a)) (\<lambda>_.
            bind_act (deadline_bind (mono en) end_time) (\<lambda>_.
            bind_act (lift_res (canonical body)) (\<lambda>payload.
            bind_act (http_exchange a (rq payload)) (ccf_reply depth (mono en) end_time))))) s1)" for rq
    unfolding Let_def case_prod_beta by (intro framed_intros framed_now [unfolded case_prod_beta])
  then show ?thesis
    unfolding post_ccf_def by (auto intro!: framed_intros split: option.split json.split)
qed

lemma framed_fetch_nonce [framed_intros]: "web_framed (fetch_nonce depth en trust ident)"
  unfolding fetch_nonce_def by (intro framed_intros)

end
