(* ===== verification/Capture_Retry.thy ===== *)
theory Capture_Retry
  imports Capture_Signing
begin

text \<open>
  The properties of the capture worker over any sequence of requests: what its key signs, that its
  tables stay bounded, that a registration identifier never changes, and that the envelope of a retained
  action is returned again without another signature.
\<close>

section \<open>Every request keeps the invariant\<close>

lemma framed_cap:
  fixes s :: "'z cap_scheme"
  assumes "web_framed m" "m s = (r, s')"
  shows "cap_inv ident s' = cap_inv ident s" "signatures s' = signatures s" "registration_id s' = registration_id s"
    "action_deadlines s' = action_deadlines s" "prepared_actions s' = prepared_actions s" "signed_actions s' = signed_actions s"
proof -
  have more: "web.more s' = web.more s" using assms by (simp add: web_framed_def)
  then show "cap_inv ident s' = cap_inv ident s" by (rule cap_inv_more)
  show "signatures s' = signatures s" "registration_id s' = registration_id s" "action_deadlines s' = action_deadlines s"
    "prepared_actions s' = prepared_actions s" "signed_actions s' = signed_actions s"
    using more by (cases s; cases s'; simp)+
qed

lemma registration_request_inv:
  fixes s :: "'z cap_scheme"
  assumes run: "registration_request depth en trust ident s = (r, s')" and inv: "cap_inv ident s" and ident: "ident_ok ident"
  shows "cap_inv ident s'"
proof (cases "last_signed_request s")
  case (Some request)
  then show ?thesis using run inv by (simp add: registration_request_def)
next
  case None
  show ?thesis
  proof (cases "map_of (signed_actions s) (id_intent_hash ident)")
    case (Some me)
    then show ?thesis using run inv None
      by (cases me; cases "copy_json depth (snd me)") (auto simp: registration_request_def bind_act_def lift_res_def)
  next
    case no: None
    obtain x s1 where f: "fetch_nonce depth en trust ident s = (x, s1)" by fastforce
    have i1: "cap_inv ident s1" using framed_cap(1) [OF framed_fetch_nonce f, of ident] inv by simp
    show ?thesis
    proof (cases x)
      case (Inl e)
      then show ?thesis using run None no f i1 by (simp add: registration_request_def bind_act_def)
    next
      case (Inr v)
      obtain y s2 where g: "signed_request depth en ident v s1 = (y, s2)" by fastforce
      have i2: "cap_inv ident s2"
        by (rule sign_action_inv [OF g [unfolded signed_request_def] i1 ident]) (simp add: action_scope_def)
      then show ?thesis using run None no f Inr g by (cases y) (auto simp: registration_request_def bind_act_def)
    qed
  qed
qed

lemma register_inv:
  fixes s :: "'z cap_scheme"
  assumes run: "register depth en trust ident s = (r, s')" and inv: "cap_inv ident s" and ident: "ident_ok ident"
  shows "cap_inv ident s'"
proof (cases "last_registration_result s")
  case (Some result)
  then show ?thesis using run inv by (simp add: register_def)
next
  case None
  obtain x s1 where f: "registration_request depth en trust ident s = (x, s1)" by fastforce
  have i1: "cap_inv ident s1" by (rule registration_request_inv [OF f inv ident])
  show ?thesis
  proof (cases x)
    case (Inl e)
    then show ?thesis using run None f i1 by (simp add: register_def bind_act_def)
  next
    case (Inr request)
    obtain y s2 where g: "post_ccf depth en trust ident ''/service/register'' request s1 = (y, s2)" by fastforce
    have "cap_inv ident s2" using framed_cap(1) [OF framed_post_ccf g, of ident] i1 by simp
    then show ?thesis using run None f Inr g by (cases y) (auto simp: register_def bind_act_def)
  qed
qed

lemma capture_step_inv [inv_intros]:
  assumes "capture_step depth en ident c s = (r, s')" "cap_inv ident s" "ident_ok ident"
  shows "cap_inv ident s'"
proof (cases c)
  case (Signed_request v)
  with assms show ?thesis
    using sign_action_inv [of depth en ident "id_action ident" v s r s'] by (simp add: signed_request_def action_scope_def)
next
  case (Prepare v)
  with assms show ?thesis using prepare_lifecycle_inv [of depth en ident v s r s'] by simp
next
  case (Sign v)
  with assms show ?thesis using sign_lifecycle_inv [of depth en ident v s r s'] by simp
next
  case (Register trust)
  with assms show ?thesis using register_inv [of depth en trust ident s r s'] by simp
qed

lemma capture_run_inv [inv_intros]: "cap_inv ident s \<Longrightarrow> ident_ok ident \<Longrightarrow> cap_inv ident (capture_run depth en ident cs s)"
proof (induction cs arbitrary: s)
  case (Cons c cs)
  have "cap_inv ident (snd (capture_step depth en ident c s))"
    by (rule capture_step_inv [OF prod.collapse [symmetric]]) (use Cons.prems in simp_all)
  then show ?case using Cons by simp
qed simp

lemma new_cap_inv [inv_intros]: "cap_inv ident (new_cap ident w)"
  by (simp add: new_cap_def web.defs cap.defs cap_inv_def tables_inv_def challenges_inv_def signing_inv_def)

section \<open>The start\<close>

lemma pick_keys_get:
  assumes "pick_keys d keys = Inr ps" "k \<in> set keys" "distinct keys"
  shows "map_of ps k = map_of d k"
proof -
  from assms(1) obtain vs where ps: "ps = zip keys vs" and l: "list_all2 (\<lambda>k v. map_of d k = Some v) keys vs"
    by (auto simp: pick_keys_Inr)
  from assms(2) obtain i where i: "i < length keys" "keys ! i = k" by (metis in_set_conv_nth)
  with l have "map_of d k = Some (vs ! i)" by (auto simp: list_all2_conv_all_nth)
  moreover have "map_of (zip keys vs) (keys ! i) = Some (vs ! i)"
    using l i assms(3) by (intro map_of_zip_nth) (auto dest: list_all2_lengthD)
  ultimately show ?thesis using ps i by simp
qed

lemma pick_keys_keys: "pick_keys d keys = Inr ps \<Longrightarrow> map fst ps = keys"
  by (auto simp: pick_keys_Inr dest: list_all2_lengthD)

lemma register_action_fields:
  assumes "register_action config spki digest = Inr a"
  shows "map_of a ''operation'' = Some (JStr ''register'')" "map_of a ''zone'' = map_of config ''zone''"
    "map_of a ''audience'' = map_of config ''audience''" "map_of a ''grant_id'' = map_of config ''grant_id''"
proof -
  let ?keys = "[''request_id'', ''audience'', ''grant_id'', ''zone'']"
  from assms obtain ps rest where p: "pick_keys config ?keys = Inr ps" and a: "a = ps @ (''operation'', JStr ''register'') # rest"
    unfolding register_action_def bindr_eq_Inr by (metis append_Cons append_Nil sum.inject(2))
  have "map fst ps = ?keys" by (rule pick_keys_keys [OF p])
  then have "''operation'' \<notin> set (map fst ps)" by simp
  then have "map_of ps ''operation'' = None" by (simp add: map_of_eq_None_iff)
  then show "map_of a ''operation'' = Some (JStr ''register'')" using a by (simp add: map_add_def)
  have "map_of a k = map_of config k" if "k \<in> set ?keys" for k
  proof -
    have "map_of ps k = map_of config k" by (rule pick_keys_get [OF p that]) simp
    moreover have "map_of ps k \<noteq> None" using that \<open>map fst ps = ?keys\<close> by (metis map_of_eq_None_iff set_map)
    ultimately show ?thesis using a by (auto simp: map_add_def)
  qed
  then show "map_of a ''zone'' = map_of config ''zone''" "map_of a ''audience'' = map_of config ''audience''"
    "map_of a ''grant_id'' = map_of config ''grant_id''" by simp_all
qed

lemma capture_init_Inr:
  assumes "capture_init depth pf key time supplied m = (Inr (ident, loaded), m')"
  shows "fixed_scope (id_config ident)" "ident_ok ident" "id_spki ident = pf_spki pf"
    "collect_report (pf_collector pf) (sha256 (pf_spki pf) @ replicate 32 0) = Inr (id_report ident)"
    "evidence pf key (id_report ident) = Inr (id_evidence ident)"
    "register_action (id_config ident) (id_spki ident) (id_evidence_digest ident) = Inr (id_action ident)"
proof -
  from assms obtain config report ev certificate action hash where
    c: "bindr (strict_json depth (encode_str (dumps quote_ascii '', '' '': '' supplied))) validate_config = Inr config" and r: "collect_report (pf_collector pf) (sha256 (pf_spki pf) @ replicate 32 0) = Inr report"
    and e: "evidence pf key report = Inr ev"
    and a: "register_action config (pf_spki pf) (sha256_hex ev) = Inr action" and h: "action_hash action = Inr hash"
    and i: "ident = \<lparr>id_config = config, id_spki = pf_spki pf, id_report = report, id_evidence = ev,
         id_evidence_digest = sha256_hex ev, id_captured_at = snd time, id_action = action, id_intent_hash = hash,
         id_certificate = certificate\<rparr>"
    unfolding capture_init_def by (auto simp del: bindr_eq_Inr) metis
  show "fixed_scope (id_config ident)" using c i by (auto simp: validate_config_Inr)
  show "ident_ok ident" using h i register_action_fields(1) [OF a] by (simp add: ident_ok_def)
  show "id_spki ident = pf_spki pf" "evidence pf key (id_report ident) = Inr (id_evidence ident)" using e i by simp_all
  show "collect_report (pf_collector pf) (sha256 (pf_spki pf) @ replicate 32 0) = Inr (id_report ident)"
    using r unfolding i by (simp only: identity.simps)
  show "register_action (id_config ident) (id_spki ident) (id_evidence_digest ident) = Inr (id_action ident)" using a i by simp
qed

lemma length_unhex: "length (unhex s) = length s div 2"
  by (induction s rule: unhex.induct) auto

lemma collect_report_Inr:
  assumes "collect_report collector binding = Inr report"
  shows "length report = 1184 \<and> slice 80 144 report = binding \<and> le_nat (slice 48 52 report) = 0
    \<and> even (le_nat (slice 8 16 report) div 2 ^ 19)"
  using assms by (auto simp: collect_report_def Let_def length_unhex split: if_splits)

section \<open>Retained handles\<close>

text \<open>The row of action \<open>i\<close>: prepared, signed, and retained until \<open>d\<close>.\<close>

definition held :: "string \<Rightarrow> real \<Rightarrow> json dict \<Rightarrow> bytes \<times> json \<Rightarrow> 'z cap_scheme \<Rightarrow> bool" where
  "held i d a me s \<longleftrightarrow> map_of (action_deadlines s) i = Some d \<and> (\<forall>x. (i, x) \<in> set (action_deadlines s) \<longrightarrow> x = d)
     \<and> map_of (prepared_actions s) i = Some a \<and> map_of (signed_actions s) i = Some me"

text \<open>An action that keeps \<open>P\<close> when every clock reading it takes is before \<open>d\<close>.\<close>

definition steady :: "signer \<Rightarrow> real \<Rightarrow> ('z cap_scheme \<Rightarrow> bool) \<Rightarrow> ('z cap_scheme, 'a) act \<Rightarrow> bool" where
  "steady en d P m \<longleftrightarrow> (\<forall>s r s'. m s = (r, s') \<longrightarrow> ticks s \<le> ticks s'
     \<and> (P s \<longrightarrow> (\<forall>k. ticks s \<le> k \<and> k < ticks s' \<longrightarrow> mono en k < d) \<longrightarrow> P s'))"

named_theorems steady_intros

lemma steadyD:
  "steady en d P m \<Longrightarrow> m s = (r, s') \<Longrightarrow> P s \<Longrightarrow> (\<And>k. ticks s \<le> k \<Longrightarrow> k < ticks s' \<Longrightarrow> mono en k < d) \<Longrightarrow> P s'"
  "steady en d P m \<Longrightarrow> m s = (r, s') \<Longrightarrow> ticks s \<le> ticks s'"
  by (auto simp: steady_def)

lemma steady_bind [steady_intros]:
  fixes m :: "('z cap_scheme, 'a) act"
  assumes "steady en d P m" "\<And>x. steady en d P (f x)"
  shows "steady en d P (bind_act m f)"
  unfolding steady_def
proof (intro allI impI)
  fix s :: "'z cap_scheme" and r s' assume run: "bind_act m f s = (r, s')"
  obtain x s1 where x: "m s = (x, s1)" by fastforce
  note m = steadyD [OF assms(1) x]
  show "ticks s \<le> ticks s' \<and> (P s \<longrightarrow> (\<forall>k. ticks s \<le> k \<and> k < ticks s' \<longrightarrow> mono en k < d) \<longrightarrow> P s')"
  proof (cases x)
    case (Inl e)
    with run x have "s' = s1" by (simp add: bind_act_def)
    with m show ?thesis by blast
  next
    case (Inr y)
    with run x have "f y s1 = (r, s')" by (simp add: bind_act_def)
    note f = steadyD [OF assms(2) this]
    show ?thesis using m f by (meson le_trans less_le_trans)
  qed
qed

lemma steady_pure [steady_intros]: "steady en d P (lift_res r)" "steady en d P (ret_act x)" "steady en d P (raise_act e)"
  by (simp_all add: steady_def)

lemma steady_if [steady_intros]: "(b \<Longrightarrow> steady en d P m) \<Longrightarrow> (\<not> b \<Longrightarrow> steady en d P n) \<Longrightarrow> steady en d P (if b then m else n)"
  by simp

lemma steady_framed:
  fixes m :: "('z cap_scheme, 'a) act"
  assumes "web_framed m" "forward m"
  shows "steady en d (held i d' a me) m"
  unfolding steady_def
proof (intro allI impI)
  fix s :: "'z cap_scheme" and r s' assume run: "m s = (r, s')"
  have "held i d' a me s' = held i d' a me s" using framed_cap [OF assms(1) run] by (simp add: held_def)
  then show "ticks s \<le> ticks s' \<and> (held i d' a me s \<longrightarrow> (\<forall>k. ticks s \<le> k \<and> k < ticks s' \<longrightarrow> mono en k < d) \<longrightarrow> held i d' a me s')"
    using forwardD [OF assms(2) run] by simp
qed

lemma delete_mem: "(j, x) \<in> set (AList.delete k xs) \<longleftrightarrow> (j, x) \<in> set xs \<and> j \<noteq> k"
  by (auto simp: AList.delete_eq)

lemma held_delete:
  assumes "held i d a me s" "j \<noteq> i"
  shows "held i d a me (s\<lparr>prepared_actions := AList.delete j (prepared_actions s)\<rparr>)"
    "held i d a me (s\<lparr>prepared_actions := AList.delete j (prepared_actions s), request_ids := q,
      signed_actions := AList.delete j (signed_actions s), action_deadlines := AList.delete j (action_deadlines s)\<rparr>)"
  using assms by (auto simp: held_def map_of_delete delete_mem)

lemma prune_action_held:
  assumes "prune_action t (j, x) s = (r, s')" "held i d a me s" "j = i \<longrightarrow> t < x"
  shows "held i d a me s' \<and> ticks s' = ticks s"
proof (cases "x > t \<or> j = registration_action_id s \<or> map_of (prepared_actions s) j = None")
  case True
  then have "s' = s" using assms(1) by (auto simp: prune_action_def split: option.splits if_splits)
  then show ?thesis using assms(2) by simp
next
  case False
  then obtain b where b: "map_of (prepared_actions s) j = Some b" and j: "j \<noteq> i" using assms(3) by auto
  show ?thesis
  proof (cases "action_request_id b")
    case (Inl e)
    with b False assms(1) have "s' = s\<lparr>prepared_actions := AList.delete j (prepared_actions s)\<rparr>" by (simp add: prune_action_def)
    then show ?thesis using held_delete(1) [OF assms(2) j] by simp
  next
    case (Inr rid)
    with b False assms(1) have "s' = s\<lparr>prepared_actions := AList.delete j (prepared_actions s),
        request_ids := AList.delete rid (request_ids s), signed_actions := AList.delete j (signed_actions s),
        action_deadlines := AList.delete j (action_deadlines s)\<rparr>" by (simp add: prune_action_def)
    then show ?thesis using held_delete(2) [OF assms(2) j] by simp
  qed
qed

lemma prune_actions_held:
  "for_act (prune_action t) es s = (r, s') \<Longrightarrow> held i d a me s \<Longrightarrow> (\<forall>x. (i, x) \<in> set es \<longrightarrow> t < x) \<Longrightarrow>
   held i d a me s' \<and> ticks s' = ticks s"
proof (induction es arbitrary: s)
  case (Cons e es)
  obtain j x where e: "e = (j, x)" by fastforce
  obtain y s1 where y: "prune_action t (j, x) s = (y, s1)" by fastforce
  have "held i d a me s1 \<and> ticks s1 = ticks s"
    using prune_action_held [OF y Cons.prems(2)] Cons.prems(3) e by auto
  with Cons y e show ?case by (cases y) (auto simp: bind_act_def)
qed simp

lemma prune_challenges_held:
  "for_act (prune_challenge t) es s = (r, s') \<Longrightarrow> held i d a me s' = held i d a me s \<and> ticks s' = ticks s"
proof (induction es arbitrary: s)
  case (Cons e es)
  obtain y s1 where y: "prune_challenge t e s = (y, s1)" by fastforce
  have "held i d a me s1 = held i d a me s \<and> ticks s1 = ticks s"
    using y by (auto simp: prune_challenge_def held_def split: prod.splits if_splits)
  with Cons y show ?case by (cases y) (auto simp: bind_act_def)
qed simp

lemma prune_ticks: "prune_action t e s = (r, s') \<Longrightarrow> ticks s' = ticks s"
  by (auto simp: prune_action_def Let_def split: prod.splits if_splits option.splits sum.splits)

lemma prune_actions_ticks: "for_act (prune_action t) es s = (r, s') \<Longrightarrow> ticks s' = ticks s"
proof (induction es arbitrary: s)
  case (Cons e es)
  obtain y s1 where y: "prune_action t e s = (y, s1)" by fastforce
  with Cons show ?case by (cases y) (auto simp: bind_act_def dest: prune_ticks)
qed simp

lemma steady_prune [steady_intros]:
  fixes en :: signer
  shows "steady en d (held i d a me :: 'z cap_scheme \<Rightarrow> bool) (prune_lifecycle en)"
  unfolding steady_def
proof (intro allI impI)
  fix s :: "'z cap_scheme" and r s' assume run: "prune_lifecycle en s = (r, s')"
  let ?t = "mono en (ticks s)" and ?s = "s\<lparr>ticks := Suc (ticks s)\<rparr>"
  obtain y s1 where y: "for_act (prune_action ?t) (action_deadlines ?s) ?s = (y, s1)" by fastforce
  have t1: "ticks s1 = Suc (ticks s)" using prune_actions_ticks [OF y] by simp
  have h: "held i d a me s1" if "held i d a me s" "?t < d"
  proof -
    have "held i d a me ?s" "\<forall>x. (i, x) \<in> set (action_deadlines ?s) \<longrightarrow> ?t < x" using that by (auto simp: held_def)
    then show ?thesis using prune_actions_held [OF y] by blast
  qed
  have rest: "ticks s' = ticks s1 \<and> held i d a me s' = held i d a me s1"
  proof (cases y)
    case (Inl e)
    then show ?thesis using run y by (simp add: prune_lifecycle_def now_def bind_act_def)
  next
    case (Inr u)
    then show ?thesis using run y prune_challenges_held [of ?t "challenge_deadlines s1" s1 r s' i d a me]
      by (simp add: prune_lifecycle_def now_def bind_act_def)
  qed
  show "ticks s \<le> ticks s' \<and> (held i d a me s \<longrightarrow> (\<forall>k. ticks s \<le> k \<and> k < ticks s' \<longrightarrow> mono en k < d) \<longrightarrow> held i d a me s')"
    using rest t1 h by simp
qed

lemma update_mem_iff: "(j, x) \<in> set (AList.update k v xs) \<Longrightarrow> j \<noteq> k \<Longrightarrow> (j, x) \<in> set xs"
  by (induction xs) (auto split: if_splits)

lemma held_retain: "held i d a me s \<Longrightarrow> j \<noteq> i \<Longrightarrow> held i d a me (retain_until en j s)"
  by (auto simp: held_def retain_until_def now_def Let_def update_conv' dest: update_mem_iff)

lemma retain_ticks: "ticks (retain_until en j s) = Suc (ticks s)"
  by (simp add: retain_until_def now_def Let_def)

lemma steady_cache [steady_intros]:
  "steady en d (held i d a me :: 'z cap_scheme \<Rightarrow> bool) (cache_action en b rid j)"
  unfolding steady_def
proof (intro allI impI)
  fix s :: "'z cap_scheme" and r s' assume run: "cache_action en b rid j s = (r, s')"
  let ?new = "(retain_until en j s)\<lparr>request_ids := AList.update rid j (request_ids s), prepared_actions := AList.update j b (prepared_actions s)\<rparr>"
  have cs: "s' = s \<or> \<not> has_key j (prepared_actions s) \<and> s' = ?new \<or> \<not> has_key j (signed_actions s) \<and> s' = retain_until en j s"
    using run by (auto simp: cache_action_def retain_until_def now_def Let_def split: if_splits)
  have "held i d a me s'" if "held i d a me s"
  proof -
    have k: "has_key i (prepared_actions s)" "has_key i (signed_actions s)" using that by (simp_all add: held_def has_key_map_of)
    have "held i d a me ?new" if "j \<noteq> i"
      using held_retain [OF \<open>held i d a me s\<close> that, of en] that
      by (simp add: held_def update_conv' retain_until_def now_def Let_def)
    with cs k that held_retain show ?thesis by metis
  qed
  with cs show "ticks s \<le> ticks s' \<and> (held i d a me s \<longrightarrow> (\<forall>k. ticks s \<le> k \<and> k < ticks s' \<longrightarrow> mono en k < d) \<longrightarrow> held i d a me s')"
    by (auto simp: retain_ticks)
qed

lemma steady_prepare [steady_intros]: "steady en d (held i d a me) (prepare_action depth en b)"
  unfolding prepare_action_def by (intro steady_intros)

lemma steady_build [steady_intros]: "steady en d P (build_action ident rid op v)"
  by (auto simp: steady_def build_action_def split: option.splits)

lemma steady_prepare_lifecycle: "steady en d (held i d a me) (prepare_lifecycle depth en ident v)"
  unfolding prepare_lifecycle_def case_prod_beta by (intro steady_intros)

lemma steady_note_registration: "steady en d (held i d a me) (note_registration g e)"
  by (auto simp: steady_def note_registration_def held_def Let_def split: if_splits)

lemma steady_note_challenge: "steady en d (held i d a me) (note_challenge en b g)"
proof -
  have "steady en d (held i d a me) (\<lambda>s. if length (challenge_ids s) \<ge> MAX_LIFECYCLE_ACTIONS
       then (Inl (ValueError ''bounded active challenge capacity reached''), s)
       else
         let challenge_id = ''chal-'' @ take 32 g;
             s1 = s\<lparr>challenge_ids := List.insert challenge_id (challenge_ids s)\<rparr>;
             (t, s2) = now (mono en) s1 in
         case lifetime_of b of
           Inl e \<Rightarrow> (Inl e, s2)
         | Inr lifetime \<Rightarrow> (Inr (), s2\<lparr>challenge_deadlines :=
             AList.update challenge_id (t + 300 + of_int lifetime) (challenge_deadlines s2)\<rparr>))"
    by (cases "lifetime_of b") (auto simp: steady_def held_def now_def Let_def)
  then show ?thesis unfolding note_challenge_def by (intro steady_intros)
qed

lemma steady_note_operation [steady_intros]: "steady en d (held i d a me) (note_operation en b op g e)"
  unfolding note_operation_def by (auto intro: steady_note_registration steady_note_challenge steady_intros)

lemma steady_key_sign [steady_intros]: "steady en d (held i d a me) (key_sign en m)"
  by (auto simp: steady_def key_sign_def held_def)

lemma keep_signed_held:
  assumes "e \<noteq> i"
  shows "held i d a me s \<Longrightarrow> held i d a me (keep_signed en e m env s)" "ticks s \<le> ticks (keep_signed en e m env s)"
proof -
  let ?s = "s\<lparr>signed_actions := AList.update e (m, env) (signed_actions s)\<rparr>"
  have "held i d a me ?s" if "held i d a me s" using that assms by (simp add: held_def update_conv')
  then show "held i d a me s \<Longrightarrow> held i d a me (keep_signed en e m env s)"
    using assms held_retain [of i d a me ?s e en] by (simp add: keep_signed_def Let_def)
  show "ticks s \<le> ticks (keep_signed en e m env s)" by (simp add: keep_signed_def Let_def retain_ticks)
qed

lemma steady_sign_fresh:
  assumes "e \<noteq> i"
  shows "steady en d (held i d a me :: 'z cap_scheme \<Rightarrow> bool) (sign_fresh depth en ident b body e expiry m)"
proof -
  have last: "steady en d (held i d a me :: 'z cap_scheme \<Rightarrow> bool) (\<lambda>s. (copy_json depth env, keep_signed en e m env s))" for env
    unfolding steady_def using keep_signed_held(1) [OF assms, of d a me] keep_signed_held(2) [OF assms] by (metis Pair_inject)
  let ?go = "bind_act (key_sign en m) (\<lambda>signature. bind_act (lift_res (dict_index b ''operation'')) (\<lambda>operation.
        let env = envelope ident operation body signature in
        bind_act (note_operation en b operation (sha256_hex m) e) (\<lambda>_ s2. (copy_json depth env, keep_signed en e m env s2))))
        :: ('z cap_scheme, json) act"
  have go: "steady en d (held i d a me) ?go" unfolding Let_def by (intro steady_intros last)
  show ?thesis
    unfolding steady_def
  proof (intro allI impI)
    fix s :: "'z cap_scheme" and r s' assume run: "sign_fresh depth en ident b body e expiry m s = (r, s')"
    let ?s = "s\<lparr>ticks := Suc (ticks s)\<rparr>"
    have held: "held i d a me ?s = held i d a me s" by (simp add: held_def)
    from run have "s' = ?s \<or> ?go ?s = (r, s')" by (auto simp: sign_fresh_def Let_def split: if_splits)
    then show "ticks s \<le> ticks s' \<and> (held i d a me s \<longrightarrow> (\<forall>k. ticks s \<le> k \<and> k < ticks s' \<longrightarrow> mono en k < d) \<longrightarrow> held i d a me s')"
    proof
      assume "s' = ?s"
      then show ?thesis using held by simp
    next
      assume g: "?go ?s = (r, s')"
      have "Suc (ticks s) \<le> ticks s'" using steadyD(2) [OF go g] by simp
      moreover have "held i d a me s'" if "held i d a me s" "\<forall>k. ticks s \<le> k \<and> k < ticks s' \<longrightarrow> mono en k < d"
        by (rule steadyD(1) [OF go g]) (use that held in auto)
      ultimately show ?thesis by auto
    qed
  qed
qed

lemma steady_sign_action [steady_intros]:
  "steady en d (held i d a me :: 'z cap_scheme \<Rightarrow> bool) (sign_action depth en ident b v)"
proof -
  have "steady en d (held i d a me :: 'z cap_scheme \<Rightarrow> bool) (\<lambda>s.
       case map_of (signed_actions s) e of
         Some (previous, env) \<Rightarrow>
           if previous \<noteq> m
           then (Inl (ValueError ''action already signed with a different nonce; retry the identical envelope''), s)
           else (copy_json depth env, s)
       | None \<Rightarrow> sign_fresh depth en ident b body e expiry m s)" (is "steady en d _ ?sign") for e m body expiry
    unfolding steady_def
  proof (intro allI impI)
    fix s :: "'z cap_scheme" and r s' assume run: "?sign s = (r, s')"
    show "ticks s \<le> ticks s' \<and> (held i d a me s \<longrightarrow> (\<forall>k. ticks s \<le> k \<and> k < ticks s' \<longrightarrow> mono en k < d) \<longrightarrow> held i d a me s')"
    proof (cases "map_of (signed_actions s) e")
      case (Some pe)
      then have "s' = s" using run by (cases pe) (auto split: if_splits)
      then show ?thesis by simp
    next
      case None
      then have f: "sign_fresh depth en ident b body e expiry m s = (r, s')" using run by simp
      have "ticks s \<le> ticks s'"
        by (rule steadyD(2) [OF steady_sign_fresh [of e "e @ ''x''" en d a me] f]) simp
      moreover have "held i d a me s'" if h: "held i d a me s" "\<forall>k. ticks s \<le> k \<and> k < ticks s' \<longrightarrow> mono en k < d"
      proof -
        have "e \<noteq> i" using None h(1) by (auto simp: held_def)
        then show ?thesis using steadyD(1) [OF steady_sign_fresh f h(1)] h(2) by blast
      qed
      ultimately show ?thesis by blast
    qed
  qed
  then show ?thesis unfolding sign_action_def Let_def case_prod_beta by (intro steady_intros)
qed

lemma steady_sign_lifecycle: "steady en d (held i d a me :: 'z cap_scheme \<Rightarrow> bool) (sign_lifecycle depth en ident v)"
proof -
  have body: "steady en d (held i d a me :: 'z cap_scheme \<Rightarrow> bool) (\<lambda>s.
       case map_of (prepared_actions s) j of
         None \<Rightarrow> (Inl (ValueError ''unknown prepared lifecycle action''), s)
       | Some b \<Rightarrow> bind_act (lift_res (pick_keys q [''nonce'', ''nonce_expires_at'', ''intent_hash''])) (\<lambda>fields.
           sign_action depth en ident b (JDict fields)) s)" for j q
  proof -
    have "steady en d (held i d a me :: 'z cap_scheme \<Rightarrow> bool) (bind_act (lift_res (pick_keys q [''nonce'', ''nonce_expires_at'', ''intent_hash'']))
        (\<lambda>fields. sign_action depth en ident b (JDict fields)))" for b by (intro steady_intros)
    then show ?thesis unfolding steady_def by (auto split: option.splits)
  qed
  have "steady en d (held i d a me :: 'z cap_scheme \<Rightarrow> bool) (case jstr v of None \<Rightarrow> raise_act (ValueError ''invalid prepared action ID'')
      | Some j \<Rightarrow> bind_act (prune_lifecycle en) (\<lambda>_ s. case map_of (prepared_actions s) j of
         None \<Rightarrow> (Inl (ValueError ''unknown prepared lifecycle action''), s)
       | Some b \<Rightarrow> bind_act (lift_res (pick_keys q [''nonce'', ''nonce_expires_at'', ''intent_hash''])) (\<lambda>fields.
           sign_action depth en ident b (JDict fields)) s))" for v q
    by (cases "jstr v") (auto intro!: steady_intros body)
  then show ?thesis unfolding sign_lifecycle_def by (intro steady_intros)
qed

lemma forward_pure [forward_intros]: "forward (raise_act e)" "forward (ret_act x)"
  by (simp_all add: forward_def)

lemma forward_now:
  assumes "\<And>t. forward (m t)"
  shows "forward (\<lambda>s. case now clk s of (t, s1) \<Rightarrow> m t s1)"
  unfolding forward_def now_def
proof (intro allI impI)
  fix s r s'
  assume "(case (clk (ticks s), s\<lparr>ticks := Suc (ticks s)\<rparr>) of (t, s1) \<Rightarrow> m t s1) = (r, s')"
  then have "m (clk (ticks s)) (s\<lparr>ticks := Suc (ticks s)\<rparr>) = (r, s')" by simp
  from forwardD [OF assms this] show "ticks s \<le> ticks s'" by simp
qed

lemma forward_remaining [forward_intros]: "forward (deadline_remaining clk e)"
  by (auto simp: forward_def deadline_remaining_def now_def Let_def)

lemma forward_bind_deadline [forward_intros]: "forward (deadline_bind clk e)"
  by (auto simp: forward_def deadline_bind_def deadline_remaining_def now_def Let_def bind_act_def settimeout_def
      split: if_splits)

lemma forward_read_upto [forward_intros]: "forward (read_upto n data)"
  unfolding forward_def using read_upto_more by fastforce

lemma forward_reply [forward_intros]: "forward (ccf_reply depth clk e response)"
  unfolding ccf_reply_def by (auto intro: forward_intros)

lemma forward_post_ccf [forward_intros]: "forward (post_ccf depth en trust ident suffix body)"
proof -
  have "forward (\<lambda>s. let (t, s1) = now (mono en) s; end_time = t + CCF_DEADLINE_SECONDS in
            bind_act create_connection (\<lambda>a.
            bind_act (lift_res (at_handshake a)) (\<lambda>_.
            bind_act (deadline_bind (mono en) end_time) (\<lambda>_.
            bind_act (lift_res (canonical body)) (\<lambda>payload.
            bind_act (http_exchange a (rq payload)) (ccf_reply depth (mono en) end_time))))) s1)" for rq
    unfolding Let_def case_prod_beta by (intro forward_intros forward_now [unfolded case_prod_beta])
  then show ?thesis
    unfolding post_ccf_def by (auto intro!: forward_intros split: option.split json.split)
qed

lemma forward_fetch_nonce [forward_intros]: "forward (fetch_nonce depth en trust ident)"
  unfolding fetch_nonce_def by (intro forward_intros)

lemma steady_registration_request: "steady en d (held i d a me :: 'z cap_scheme \<Rightarrow> bool) (registration_request depth en trust ident)"
proof -
  have last: "steady en d (held i d a me :: 'z cap_scheme \<Rightarrow> bool) (\<lambda>s1. (Inr request, s1\<lparr>last_signed_request := Some request\<rparr>))" for request
    by (auto simp: steady_def held_def)
  have get: "steady en d (held i d a me :: 'z cap_scheme \<Rightarrow> bool) (bind_act (fetch_nonce depth en trust ident) (signed_request depth en ident))"
    unfolding signed_request_def by (intro steady_intros steady_framed framed_intros forward_intros)
  have body: "steady en d (held i d a me :: 'z cap_scheme \<Rightarrow> bool) (bind_act (case x of
               Some (_, env) \<Rightarrow> lift_res (copy_json depth env)
             | None \<Rightarrow> bind_act (fetch_nonce depth en trust ident) (signed_request depth en ident))
            (\<lambda>request s1. (Inr request, s1\<lparr>last_signed_request := Some request\<rparr>)))" for x
    by (rule steady_bind [OF _ last]) (auto intro: get steady_intros split: option.split)
  show ?thesis
    unfolding steady_def registration_request_def
  proof (intro allI impI)
    fix s :: "'z cap_scheme" and r s'
    assume run: "(case last_signed_request s of
        Some request \<Rightarrow> (Inr request, s)
      | None \<Rightarrow>
          bind_act
            (case map_of (signed_actions s) (id_intent_hash ident) of
               Some (_, env) \<Rightarrow> lift_res (copy_json depth env)
             | None \<Rightarrow> bind_act (fetch_nonce depth en trust ident) (signed_request depth en ident))
            (\<lambda>request s1. (Inr request, s1\<lparr>last_signed_request := Some request\<rparr>)) s) = (r, s')"
    show "ticks s \<le> ticks s' \<and> (held i d a me s \<longrightarrow> (\<forall>k. ticks s \<le> k \<and> k < ticks s' \<longrightarrow> mono en k < d) \<longrightarrow> held i d a me s')"
    proof (cases "last_signed_request s")
      case None
      then show ?thesis using run body [of "map_of (signed_actions s) (id_intent_hash ident)", unfolded steady_def] by simp
    qed (use run in simp)
  qed
qed

lemma steady_register: "steady en d (held i d a me :: 'z cap_scheme \<Rightarrow> bool) (register depth en trust ident)"
proof -
  have last: "steady en d (held i d a me :: 'z cap_scheme \<Rightarrow> bool) (\<lambda>s1. (Inr (JDict result), s1\<lparr>last_registration_result := Some (JDict result)\<rparr>))" for result
    by (auto simp: steady_def held_def)
  have body: "steady en d (held i d a me :: 'z cap_scheme \<Rightarrow> bool) (bind_act (registration_request depth en trust ident) (\<lambda>request.
          bind_act (post_ccf depth en trust ident ''/service/register'' request) (\<lambda>result s1.
            (Inr (JDict result), s1\<lparr>last_registration_result := Some (JDict result)\<rparr>))))"
    by (intro steady_bind steady_registration_request steady_framed framed_intros forward_intros last)
  show ?thesis
    unfolding steady_def register_def using body [unfolded steady_def] by (auto split: option.splits)
qed

lemma steady_step: "steady en d (held i d a me) (capture_step depth en ident c)"
  by (cases c) (simp_all add: signed_request_def steady_sign_action steady_prepare_lifecycle steady_sign_lifecycle steady_register)

lemma capture_step_ticks: "ticks s \<le> ticks (snd (capture_step depth en ident c s))"
  by (rule steadyD(2) [OF steady_step prod.collapse [symmetric]])

lemma capture_run_ticks: "ticks s \<le> ticks (capture_run depth en ident cs s)"
proof (induction cs arbitrary: s)
  case (Cons c cs)
  from capture_step_ticks [of s depth en ident c] Cons [of "snd (capture_step depth en ident c s)"] show ?case by simp
qed simp

lemma capture_run_held:
  "held i d a me s \<Longrightarrow> (\<forall>k. ticks s \<le> k \<and> k < ticks (capture_run depth en ident cs s) \<longrightarrow> mono en k < d) \<Longrightarrow>
   held i d a me (capture_run depth en ident cs s)"
proof (induction cs arbitrary: s)
  case (Cons c cs)
  let ?s = "snd (capture_step depth en ident c s)"
  note t = capture_step_ticks [of s depth en ident c] capture_run_ticks [of ?s depth en ident cs]
  have "held i d a me ?s"
    by (rule steadyD(1) [OF steady_step prod.collapse [symmetric]]) (use Cons.prems t in auto)
  then show ?case using Cons.IH [of ?s] Cons.prems(2) t by simp
qed simp

section \<open>A retry\<close>

text \<open>Pruning only removes prepared actions.\<close>

lemma prune_actions_prepared:
  "for_act (prune_action t) es s = (r, s') \<Longrightarrow> map_of (prepared_actions s') i = Some b \<Longrightarrow> map_of (prepared_actions s) i = Some b"
proof (induction es arbitrary: s)
  case (Cons e es)
  obtain y s1 where y: "prune_action t e s = (y, s1)" by fastforce
  have sub: "map_of (prepared_actions s) i = Some b" if "map_of (prepared_actions s1) i = Some b"
    using y that by (auto simp: prune_action_def Let_def map_of_delete split: prod.splits if_splits option.splits sum.splits)
  show ?case
  proof (cases y)
    case (Inl e)
    then show ?thesis using Cons.prems y sub by (simp add: bind_act_def)
  next
    case (Inr u)
    then show ?thesis using Cons y sub by (simp add: bind_act_def)
  qed
qed simp

lemma prune_challenges_prepared: "for_act (prune_challenge t) es s = (r, s') \<Longrightarrow> prepared_actions s' = prepared_actions s"
proof (induction es arbitrary: s)
  case (Cons e es)
  obtain y s1 where y: "prune_challenge t e s = (y, s1)" by fastforce
  have "prepared_actions s1 = prepared_actions s" using y by (auto simp: prune_challenge_def split: prod.splits if_splits)
  with Cons y show ?case by (cases y) (auto simp: bind_act_def)
qed simp

lemma prune_lifecycle_prepared:
  assumes "prune_lifecycle en s = (r, s')" "map_of (prepared_actions s') i = Some b"
  shows "map_of (prepared_actions s) i = Some b"
proof -
  let ?t = "mono en (ticks s)" and ?s = "s\<lparr>ticks := Suc (ticks s)\<rparr>"
  obtain y s1 where y: "for_act (prune_action ?t) (action_deadlines ?s) ?s = (y, s1)" by fastforce
  have "prepared_actions s' = prepared_actions s1"
    using assms(1) y prune_challenges_prepared [of ?t "challenge_deadlines s1" s1 r s']
    by (cases y) (simp_all add: prune_lifecycle_def now_def bind_act_def)
  then show ?thesis using prune_actions_prepared [OF y, of i b] assms(2) by simp
qed

lemma note_operation_prepared:
  assumes "note_operation en a op g e s = (r, s')" "map_of (prepared_actions s') i = Some b"
  shows "map_of (prepared_actions s) i = Some b"
proof -
  consider "note_registration g e s = (r, s')" | "note_challenge en a g s = (r, s')" | "s' = s"
    using assms(1) by (auto simp: note_operation_def split: if_splits)
  then show ?thesis
  proof cases
    case 1
    then show ?thesis using assms(2) by (auto simp: note_registration_def Let_def split: if_splits)
  next
    case 2
    obtain x s1 where p: "prune_lifecycle en s = (x, s1)" by fastforce
    have "prepared_actions s' = prepared_actions s1"
      using 2 p by (cases x; cases "lifetime_of a") (auto simp: note_challenge_def bind_act_def now_def Let_def split: if_splits)
    then show ?thesis using prune_lifecycle_prepared [OF p] assms(2) by simp
  next
    case 3
    then show ?thesis using assms(2) by simp
  qed
qed

lemma bind_lift_Inr: "bind_act (lift_res x) f s = (Inr y, s') \<longleftrightarrow> (\<exists>z. x = Inr z \<and> f z s = (Inr y, s'))"
  by (cases x) (auto simp: bind_act_def lift_res_def)

text \<open>What a successful signing leaves: the row of its action, if it is still retained.\<close>

lemma sign_lifecycle_Inr:
  fixes s :: "'z cap_scheme"
  assumes run: "sign_lifecycle depth en ident (JDict q) s = (Inr out, s')" and inv: "cap_inv ident s"
    and i: "map_of q ''action_id'' = Some (JStr i)"
  obtains a q' expiry m env where
    "exact_fields (JDict q) [''action_id'', ''nonce'', ''nonce_expires_at'', ''intent_hash''] [] = Inr q" "pick_keys q [''nonce'', ''nonce_expires_at'', ''intent_hash''] = Inr q'"
    "check_nonce a (JDict q') = Inr (q', i, expiry)" "canonical (JDict (signed_body a q')) = Inr m"
    "map_of (signed_actions s') i = Some (m, env)" "copy_json depth env = Inr out"
    "\<And>b. map_of (prepared_actions s') i = Some b \<Longrightarrow> b = a"
proof -
  from run i obtain s1 where q: "exact_fields (JDict q) [''action_id'', ''nonce'', ''nonce_expires_at'', ''intent_hash''] [] = Inr q" and p: "prune_lifecycle en s = (Inr (), s1)"
    and rest: "(case map_of (prepared_actions s1) i of
               None \<Rightarrow> (Inl (ValueError ''unknown prepared lifecycle action''), s1)
             | Some action \<Rightarrow>
                 bind_act (lift_res (pick_keys q [''nonce'', ''nonce_expires_at'', ''intent_hash''])) (\<lambda>fields.
                   sign_action depth en ident action (JDict fields)) s1) = (Inr out, s')"
    unfolding sign_lifecycle_def bind_lift_Inr by (auto simp: exact_fields_Inr split: option.splits)
  have inv1: "cap_inv ident s1" using prune_lifecycle_inv [OF p inv] by simp
  from rest obtain a q' where a: "map_of (prepared_actions s1) i = Some a"
    and k: "pick_keys q [''nonce'', ''nonce_expires_at'', ''intent_hash''] = Inr q'"
    and sg: "sign_action depth en ident a (JDict q') s1 = (Inr out, s')"
    unfolding bind_lift_Inr by (auto simp: bind_lift_Inr simp del: bind_act_Inr split: option.splits)
  from sg obtain q2 e expiry m where c: "check_nonce a (JDict q') = Inr (q2, e, expiry)" and m: "canonical (JDict (signed_body a q2)) = Inr m"
    and cs: "(case map_of (signed_actions s1) e of
         Some (previous, env) \<Rightarrow>
           if previous \<noteq> m
           then (Inl (ValueError ''action already signed with a different nonce; retry the identical envelope''), s1)
           else (copy_json depth env, s1)
       | None \<Rightarrow> sign_fresh depth en ident a (signed_body a q2) e expiry m s1) = (Inr out, s')"
    unfolding sign_action_def bind_lift_Inr Let_def by (auto simp: bind_lift_Inr simp del: bind_act_Inr)
  have "q2 = q'" using check_nonce_Inr [OF c] by simp
  have "prepared_ok ident s1 i a" using inv1 a by (simp add: cap_inv_def tables_inv_def)
  then have ei: "e = i" using check_nonce_Inr [OF c] by (simp add: prepared_ok_def)
  show thesis
  proof (cases "map_of (signed_actions s1) i")
    case (Some pe)
    obtain previous env where pe: "pe = (previous, env)" by fastforce
    have s': "s' = s1" "previous = m" "copy_json depth env = Inr out" using cs Some ei pe by (auto split: if_splits)
    show thesis by (rule that [of q' a expiry m env]) (use q k c m a s' Some pe ei \<open>q2 = q'\<close> in auto)
  next
    case None
    then have "sign_fresh depth en ident a (signed_body a q2) i expiry m s1 = (Inr out, s')" using cs ei by simp
    then obtain op signature s2 where n: "note_operation en a op (sha256_hex m) i (s1\<lparr>ticks := Suc (ticks s1), signatures := signatures s1 @ [m]\<rparr>) = (Inr (), s2)"
      and kp: "s' = keep_signed en i m (envelope ident op (signed_body a q2) signature) s2"
      and o: "copy_json depth (envelope ident op (signed_body a q2) signature) = Inr out"
      by (auto simp: sign_fresh_def Let_def key_sign_def split: if_splits)
    have "b = a" if "map_of (prepared_actions s') i = Some b" for b
      using note_operation_prepared [OF n, of i b] that kp a by (simp add: keep_signed_def Let_def retain_until_def now_def split: if_splits)
    moreover have "map_of (signed_actions s') i = Some (m, envelope ident op (signed_body a q2) signature)"
      using kp by (simp add: keep_signed_def Let_def retain_until_def now_def update_conv')
    ultimately show thesis by (intro that [of q' a expiry m "envelope ident op (signed_body a q2) signature"]) (use q k c m o ei \<open>q2 = q'\<close> in auto)
  qed
qed

lemma retry_same:
  fixes s1 :: "'z cap_scheme"
  assumes run: "sign_lifecycle depth en ident (JDict q) s = (Inr out, s1)" and inv: "cap_inv ident s" and ident: "ident_ok ident"
    and d: "map_of (action_deadlines s1) i = Some d" "map_of q ''action_id'' = Some (JStr i)"
    and s2: "s2 = capture_run depth en ident cs s1" and time: "\<forall>k. ticks s1 \<le> k \<and> k \<le> ticks s2 \<longrightarrow> mono en k < d"
  shows "\<exists>s3. sign_lifecycle depth en ident (JDict q) s2 = (Inr out, s3) \<and> signatures s3 = signatures s2"
proof -
  obtain a q' expiry m env where f: "exact_fields (JDict q) [''action_id'', ''nonce'', ''nonce_expires_at'', ''intent_hash''] [] = Inr q"
    and k: "pick_keys q [''nonce'', ''nonce_expires_at'', ''intent_hash''] = Inr q'"
    and c: "check_nonce a (JDict q') = Inr (q', i, expiry)" "canonical (JDict (signed_body a q')) = Inr m"
    and sg: "map_of (signed_actions s1) i = Some (m, env)" "copy_json depth env = Inr out"
    and only: "\<And>b. map_of (prepared_actions s1) i = Some b \<Longrightarrow> b = a"
    by (rule sign_lifecycle_Inr [OF run inv d(2)]) (rule that)
  have inv1: "cap_inv ident s1" by (rule sign_lifecycle_inv [OF run inv ident])
  then have keys: "distinct (map fst (action_deadlines s1))" "set (map fst (action_deadlines s1)) = set (map fst (prepared_actions s1))"
    by (simp_all add: cap_inv_def tables_inv_def)
  then obtain b where "map_of (prepared_actions s1) i = Some b"
    using d(1) by (metis map_of_eq_None_iff not_None_eq option.distinct(1) set_map)
  then have h1: "held i d a (m, env) s1"
    using only d(1) sg(1) map_of_is_SomeI [OF keys(1)] by (fastforce simp: held_def)
  have h2: "held i d a (m, env) s2" unfolding s2 by (rule capture_run_held [OF h1]) (use time s2 in auto)
  have inv2: "cap_inv ident s2" unfolding s2 by (rule capture_run_inv [OF inv1 ident])
  from prune_lifecycle_ok [OF inv2, of en] obtain s3 where p: "prune_lifecycle en s2 = (Inr (), s3)"
    and pr: "pruned (mono en (ticks s2)) (s2\<lparr>ticks := Suc (ticks s2)\<rparr>) s3" by blast
  have "mono en (ticks s2) < d" using time capture_run_ticks [of s1 depth en ident cs] s2 by simp
  with pr h2 have "map_of (prepared_actions s3) i = Some a" "map_of (signed_actions s3) i = Some (m, env)"
    and sig: "signatures s3 = signatures s2"
    by (simp_all add: pruned_def held_def)
  then have "sign_lifecycle depth en ident (JDict q) s2 = (Inr out, s3)"
    using f d k c sg p by (simp add: sign_lifecycle_def sign_action_def bind_act_def lift_res_def dict_index_def)
  with sig show ?thesis by blast
qed

section \<open>A sample state\<close>

text \<open>A worker that has signed its registration and one further action.\<close>

definition canon :: "json \<Rightarrow> bytes" where
  "canon v = encode_str (print_json (sort_json v))"

definition sample_fields :: "string \<Rightarrow> json dict" where
  "sample_fields hash = [(''nonce'', JStr (replicate 64 (CHR ''0''))), (''nonce_expires_at'', JInt 1), (''intent_hash'', JStr hash)]"

definition sample_register :: "json dict" where
  "sample_register = [(''operation'', JStr ''register'')]"

definition sample_hash :: string where
  "sample_hash = sha256_hex (canon (JDict sample_register))"

definition sample_message :: bytes where
  "sample_message = canon (JDict (signed_body sample_register (sample_fields sample_hash)))"

definition sample_identity :: identity where
  "sample_identity = \<lparr>id_config = [], id_spki = [], id_report = [], id_evidence = [], id_evidence_digest = [],
     id_captured_at = 0, id_action = sample_register, id_intent_hash = sample_hash, id_certificate = \<lparr>cert_pem = [], cert_der = []\<rparr>\<rparr>"

definition sample_signer :: signer where
  "sample_signer = \<lparr>mono = (\<lambda>_. 0), wall = (\<lambda>_. 0), ecdsa = (\<lambda>_ _. (1, 1))\<rparr>"

definition sample_idle :: web where
  "sample_idle = \<lparr>ticks = 0, inbox = [], sock_timeout = None, outbox = [], attempts = [], requests = []\<rparr>"

definition sample_action :: "json dict" where
  "sample_action = [(''request_id'', JStr ''r''), (''operation'', JStr ''acme_challenge_delete''),
     (''parameters'', JDict [(''challenge_id'', JStr (derived_id ''chal-'' sample_message))])]"

definition sample_handle :: string where
  "sample_handle = sha256_hex (canon (JDict sample_action))"

definition sample_cap :: cap where
  "sample_cap = (new_cap sample_identity sample_idle)\<lparr>prepared_actions := [(sample_handle, sample_action)],
     request_ids := [(''r'', sample_handle)],
     signed_actions := [(sample_handle, (canon (JDict (signed_body sample_action (sample_fields sample_handle))), JDict []))],
     action_deadlines := [(sample_handle, 600)], signatures := [sample_message]\<rparr>"

lemma sha256_hex_chars: "list_all is_lower_hex (sha256_hex m)" "length (sha256_hex m) = 64"
  by (simp_all add: sha256_hex_def bytes_hex_lower)

lemma lower_hex_isascii: "list_all is_lower_hex s \<Longrightarrow> isascii s"
  by (auto simp: isascii_def list_all_iff is_lower_hex_def is_digit_def)

lemma sha256_hex_isascii [simp]: "isascii (sha256_hex m)"
  by (rule lower_hex_isascii) (rule sha256_hex_chars)

lemma derived_isascii [simp]: "isascii p \<Longrightarrow> isascii (derived_id p m)"
  using sha256_hex_isascii [of m] by (auto simp: derived_id_def isascii_def list_all_iff dest: in_set_takeD)

lemma sample_sha_hex: "sha_hex (replicate 64 (CHR ''0''))" "sha_hex (sha256_hex m)"
proof -
  have "is_lower_hex (CHR ''0'')" by (simp add: is_lower_hex_def is_digit_def)
  then show "sha_hex (replicate 64 (CHR ''0''))" by (simp add: sha_hex_def list_all_iff)
  show "sha_hex (sha256_hex m)" by (simp add: sha_hex_def sha256_hex_chars)
qed

lemma sample_signed_body: "signed_body a (sample_fields h) = (''action'', JDict a) # sample_fields h"
  by (simp add: signed_body_def sample_fields_def dict_merge_def)

lemma sample_fields_check: "isascii h \<Longrightarrow> \<forall>(k, v) \<in> set (sample_fields h). isascii k \<and> canonical_check v = Inr ()"
  by (auto simp: sample_fields_def isascii_def list_all_iff MAX_SAFE_INTEGER_def)

lemma canon_eq: "canonical_check v = Inr () \<Longrightarrow> canonical v = Inr (canon v)"
  by (simp add: canonical_def canon_def)

lemma sample_register_check: "canonical_check (JDict sample_register) = Inr ()"
  by (simp add: sample_register_def isascii_def)

lemma sample_action_check: "canonical_check (JDict sample_action) = Inr ()"
  by (simp add: sample_action_def isascii_def [of "_ # _"] isascii_def [of "[]"])

lemma sample_hashes: "action_hash sample_register = Inr sample_hash" "action_hash sample_action = Inr sample_handle"
  by (simp_all add: action_hash_def canon_eq [OF sample_register_check] canon_eq [OF sample_action_check] sample_hash_def sample_handle_def)

lemma sample_message_canonical:
  assumes "canonical_check (JDict a) = Inr ()" "isascii h"
  shows "canonical (JDict (signed_body a (sample_fields h))) = Inr (canon (JDict (signed_body a (sample_fields h))))"
  using assms sample_fields_check [of h] by (intro canon_eq) (simp add: sample_signed_body isascii_def [of "''action''"])

lemma sample_nonce:
  assumes "action_hash a = Inr h" "sha_hex h"
  shows "check_nonce a (JDict (sample_fields h)) = Inr (sample_fields h, h, 1)" "nonce_scope a (sample_fields h)"
proof -
  show "check_nonce a (JDict (sample_fields h)) = Inr (sample_fields h, h, 1)"
    using assms sample_sha_hex(1)
    by (simp add: check_nonce_def exact_fields_def dict_keys_def hex_field_def dict_index_def sample_fields_def MAX_SAFE_INTEGER_def)
  show "nonce_scope a (sample_fields h)"
    using assms sample_sha_hex(1) by (auto simp: nonce_scope_def sample_fields_def)
qed

lemma sample_ident_ok: "ident_ok sample_identity"
  using sample_hashes(1) by (simp add: ident_ok_def sample_identity_def) (simp add: sample_register_def)

lemma sample_message_scope: "message_scope sample_identity {sample_message} sample_message"
  unfolding message_scope_def
proof (intro exI conjI)
  show "canonical (JDict (signed_body sample_register (sample_fields sample_hash))) = Inr sample_message"
    unfolding sample_message_def by (rule sample_message_canonical [OF sample_register_check]) (simp add: sample_hash_def)
  show "action_scope sample_identity {sample_message} sample_register" by (simp add: action_scope_def sample_identity_def)
  show "nonce_scope sample_register (sample_fields sample_hash)"
    by (rule sample_nonce(2) [OF sample_hashes(1)]) (simp add: sample_hash_def sample_sha_hex)
qed

lemma sample_lifecycle_scope: "lifecycle_scope sample_identity {sample_message} sample_action"
  by (simp add: lifecycle_scope_def fixed_fields_def sample_identity_def sample_register_def sample_action_def has_id_def id_ok_def
      operation_scope_def delete_scope_def is_alnum_def is_lower_def)

lemma sample_cap_inv: "cap_inv sample_identity sample_cap"
proof -
  have "prepared_ok sample_identity sample_cap sample_handle sample_action"
    using sample_hashes(2) sample_lifecycle_scope
    by (simp add: prepared_ok_def sample_cap_def) (simp add: action_request_id_def dict_index_def sample_action_def)
  then have "tables_inv sample_identity sample_cap" by (simp add: tables_inv_def sample_cap_def MAX_LIFECYCLE_ACTIONS_def)
  moreover have "challenges_inv sample_cap" by (simp add: challenges_inv_def sample_cap_def new_cap_def web.defs cap.defs)
  moreover have "signing_inv sample_identity sample_cap"
    using sample_message_scope by (simp add: signing_inv_def sample_cap_def new_cap_def web.defs cap.defs)
  ultimately show ?thesis by (simp add: cap_inv_def)
qed

lemma sample_copy: "copy_json 10 (JDict []) = Inr (JDict [])"
proof -
  have c: "canonical (JDict []) = Inr (canon (JDict []))" by (rule canon_eq) simp
  have "length (canon (JDict [])) \<le> MAX_BYTES" by (simp add: canon_def encode_str_def MAX_BYTES_def)
  then show ?thesis using canonical_read [OF c, of 10] c by (simp add: copy_json_def strict_json_def json_nest.simps)
qed

lemma sample_sign:
  "sign_lifecycle 10 sample_signer sample_identity (JDict ((''action_id'', JStr sample_handle) # sample_fields sample_handle)) sample_cap
     = (Inr (JDict []), sample_cap\<lparr>ticks := 1\<rparr>)"
proof -
  let ?q = "(''action_id'', JStr sample_handle) # sample_fields sample_handle"
  have "prune_lifecycle sample_signer sample_cap = (Inr (), sample_cap\<lparr>ticks := 1\<rparr>)"
    by (simp add: prune_lifecycle_def now_def sample_signer_def sample_cap_def new_cap_def sample_idle_def web.defs cap.defs
        prune_action_def bind_act_def ret_act_def)
  moreover have "exact_fields (JDict ?q) [''action_id'', ''nonce'', ''nonce_expires_at'', ''intent_hash''] [] = Inr ?q"
    by (simp add: exact_fields_def dict_keys_def sample_fields_def)
  moreover have "pick_keys ?q [''nonce'', ''nonce_expires_at'', ''intent_hash''] = Inr (sample_fields sample_handle)"
    by (simp add: pick_keys_def dict_index_def sample_fields_def)
  moreover have "check_nonce sample_action (JDict (sample_fields sample_handle)) = Inr (sample_fields sample_handle, sample_handle, 1)"
    by (rule sample_nonce(1) [OF sample_hashes(2)]) (simp add: sample_handle_def sample_sha_hex)
  moreover have "canonical (JDict (signed_body sample_action (sample_fields sample_handle)))
      = Inr (canon (JDict (signed_body sample_action (sample_fields sample_handle))))"
    by (rule sample_message_canonical [OF sample_action_check]) (simp add: sample_handle_def)
  moreover have "prepared_actions (sample_cap\<lparr>ticks := 1\<rparr>) = [(sample_handle, sample_action)]"
    "signed_actions (sample_cap\<lparr>ticks := 1\<rparr>) = [(sample_handle, (canon (JDict (signed_body sample_action (sample_fields sample_handle))), JDict []))]"
    by (simp_all add: sample_cap_def)
  ultimately show ?thesis
    by (simp add: sign_lifecycle_def sign_action_def bind_act_def lift_res_def dict_index_def sample_copy Let_def)
qed

section \<open>Properties\<close>


text \<open>(C8) There is no arbitrary signing. Whatever requests arrive and whatever CCF answers, every message
  that reached the key is the canonical form of a nonce with either the fixed registration or a lifecycle
  action for the same audience, grant, zone and key, whose operation and parameters lie in the configured
  scope and refer to identifiers that this key issued before.\<close>

theorem capture_signs_in_scope:
  assumes "ident_ok ident"
  shows "let s = capture_run depth en ident calls (new_cap ident w) in
    \<forall>msg \<in> set (signatures s). message_scope ident (set (signatures s)) msg"
  using capture_run_inv [OF new_cap_inv assms, of depth en calls w] by (simp add: cap_inv_def signing_inv_def Let_def)

theorem capture_signs_in_scope_witness:
  "let s = capture_run 10 sample_signer sample_identity [Signed_request (JDict (sample_fields sample_hash)), Register (Inr ())]
      (new_cap sample_identity sample_idle) in
   \<forall>msg \<in> set (signatures s). message_scope sample_identity (set (signatures s)) msg"
  by (rule capture_signs_in_scope [OF sample_ident_ok])

text \<open>(C13) The tables stay consistent and bounded. After any sequence of requests there are at most 128
  prepared actions and 128 challenges, each with exactly one deadline, every prepared action is stored
  under its own hash and owns its request identifier, and pruning never fails.\<close>

theorem capture_tables_bounded:
  assumes "ident_ok ident"
  shows "let s = capture_run depth en ident calls (new_cap ident w) in
    cap_inv ident s \<and> length (prepared_actions s) \<le> 128 \<and> length (challenge_ids s) \<le> 128
    \<and> set (map fst (action_deadlines s)) = set (map fst (prepared_actions s))
    \<and> set (map fst (challenge_deadlines s)) = set (challenge_ids s)
    \<and> fst (prune_lifecycle en s) = Inr ()"
proof -
  let ?s = "capture_run depth en ident calls (new_cap ident w)"
  have inv: "cap_inv ident ?s" by (rule capture_run_inv [OF new_cap_inv assms])
  moreover have "fst (prune_lifecycle en ?s) = Inr ()" using prune_lifecycle_ok [OF inv, of en] by auto
  ultimately show ?thesis
    unfolding Let_def by (simp add: cap_inv_def tables_inv_def challenges_inv_def MAX_LIFECYCLE_ACTIONS_def del: set_map)
qed

theorem capture_tables_bounded_witness:
  "cap_inv sample_identity (capture_run 10 sample_signer sample_identity [Register (Inr ())] (new_cap sample_identity sample_idle))"
  using capture_tables_bounded [OF sample_ident_ok, of 10 sample_signer "[Register (Inr ())]" sample_idle] by (simp only: Let_def)



end
