(* ===== verification/Capture_Http.thy ===== *)
theory Capture_Http
  imports Capture_Retry
begin

text \<open>
  The HTTP interface of \<open>tools/capture_aci.py\<close>: the handler of \<open>handler_type\<close> with its routes, its
  authorization and its error replies, the mail fixtures that \<open>main\<close> starts, and the start itself. A
  request is given by its path and headers; its body is read from the connection. The connection decides
  the outcome of every write of a reply. The text that \<open>str\<close> gives to an exception is an argument.
\<close>

section \<open>Replies\<close>

record http_call =
  call_path :: string
  call_headers :: "(string \<times> string) list"

record answer =
  an_status :: nat
  an_headers :: "(string \<times> string) list"
  an_body :: bytes

record http_cap = cap +
  client_writes :: "unit res list"
  answers :: "answer list"
  close_connection :: bool

datatype payload = Raw bytes | Obj json

definition payload_bytes :: "payload \<Rightarrow> bytes" where
  "payload_bytes data =
     (case data of Raw b \<Rightarrow> b | Obj v \<Rightarrow> encode_str (dumps quote_ascii '','' '':'' (sort_json v)))"

definition next_write :: "('z http_cap_scheme, unit) act" where
  "next_write s =
     (case client_writes s of [] \<Rightarrow> (Inr (), s) | w # ws \<Rightarrow> (w, s\<lparr>client_writes := ws\<rparr>))"

text \<open>\<open>end_headers\<close> writes the status line and the headers, a second write sends the body. The headers are
  those the handler adds; the library puts \<open>Server\<close> and \<open>Date\<close> before them.\<close>

definition http_send :: "nat \<Rightarrow> payload \<Rightarrow> string \<Rightarrow> ('z http_cap_scheme, unit) act" where
  "http_send status data content_type =
     (let body = payload_bytes data;
          head = \<lparr>an_status = status,
            an_headers = [(''Content-Type'', content_type), (''Content-Length'', nat_str (length body)),
              (''Cache-Control'', ''no-store''), (''Connection'', ''close'')], an_body = []\<rparr> in
      bind_act next_write (\<lambda>_ s.
        bind_act next_write
          (\<lambda>_ t. (Inr (), t\<lparr>answers := answers s @ [head\<lparr>an_body := body\<rparr>], close_connection := True\<rparr>))
          (s\<lparr>answers := answers s @ [head]\<rparr>)))"

definition send_json :: "nat \<Rightarrow> json \<Rightarrow> ('z http_cap_scheme, unit) act" where
  "send_json status v = http_send status (Obj v) ''application/json''"

definition error_json :: "string \<Rightarrow> json" where
  "error_json code = JDict [(''error'', JStr code)]"

section \<open>GET\<close>

definition do_GET :: "identity \<Rightarrow> http_call \<Rightarrow> ('z http_cap_scheme, unit) act" where
  "do_GET ident call =
     (if call_path call = ''/health''
      then send_json 200 (JDict [(''status'', JStr ''captured_not_appraised''), (''profile'', JStr PROFILE)])
      else if call_path call = ''/capture'' then send_json 200 (inventory ident)
      else if call_path call = ''/action''
      then send_json 200 (JDict [(''action'', JDict (id_action ident)), (''intent_hash'', JStr (id_intent_hash ident))])
      else if call_path call = ''/cert.pem'' then http_send 200 (Raw (cert_pem (id_certificate ident))) ''application/x-pem-file''
      else if call_path call = ''/cert.der'' then http_send 200 (Raw (cert_der (id_certificate ident))) ''application/pkix-cert''
      else if call_path call = ''/spki.der'' then http_send 200 (Raw (id_spki ident)) ''application/octet-stream''
      else if call_path call = ''/evidence.cose'' then http_send 200 (Raw (id_evidence ident)) ''application/cose''
      else if call_path call = ''/report.bin'' then http_send 200 (Raw (id_report ident)) ''application/octet-stream''
      else send_json 404 (error_json ''NOT_FOUND''))"

section \<open>POST\<close>

definition header_all :: "http_call \<Rightarrow> string \<Rightarrow> string list" where
  "header_all call name = map snd (filter (\<lambda>(k, v). lower k = lower name) (call_headers call))"

text \<open>\<open>hmac.compare_digest\<close> on two strings raises unless both are ASCII.\<close>

definition compare_digest :: "string \<Rightarrow> string \<Rightarrow> bool res" where
  "compare_digest a b =
     (if isascii a \<and> isascii b then Inr (a = b) else Inl (TypeError ''comparing strings with non-ASCII characters is not supported''))"

definition authorized :: "string \<Rightarrow> http_call \<Rightarrow> bool res" where
  "authorized token call =
     (case header_all call ''Authorization'' of
        [value] \<Rightarrow> compare_digest value (''Bearer '' @ token)
      | _ \<Rightarrow> Inr False)"

definition post_paths :: "string list" where
  "post_paths = [''/signed-request'', ''/register'', ''/lifecycle/action'', ''/lifecycle/signed-request'']"

definition body_length :: "http_call \<Rightarrow> nat res" where
  "body_length call =
     (case header_all call ''Content-Length'' of
        [text] \<Rightarrow>
          if header_all call ''Transfer-Encoding'' \<noteq> []
             \<or> (case header_all call ''Content-Type'' of ct # _ \<Rightarrow> ct \<noteq> ''application/json'' | [] \<Rightarrow> True)
          then Inl (ValueError ''exact JSON Content-Type and one Content-Length are required'')
          else if \<not> (1 \<le> length text \<and> length text \<le> 7 \<and> list_all is_digit text) \<or> digits_val text > 4096
          then Inl (ValueError ''invalid request length'')
          else Inr (digits_val text)
      | _ \<Rightarrow> Inl (ValueError ''exact JSON Content-Type and one Content-Length are required''))"

definition read_request :: "nat \<Rightarrow> http_call \<Rightarrow> ('z net_scheme, json) act" where
  "read_request depth call =
     bind_act (lift_res (body_length call)) (\<lambda>n.
     bind_act (read_upto n []) (\<lambda>body.
       if length body \<noteq> n then raise_act (ValueError ''truncated request'') else lift_res (strict_json depth body)))"

text \<open>The call that a path stands for; \<open>trust\<close> is the outcome of loading the configured CA.\<close>

definition route :: "unit res \<Rightarrow> string \<Rightarrow> json \<Rightarrow> capture_call res" where
  "route trust path request =
     (if path = ''/signed-request'' then Inr (Signed_request request)
      else if path = ''/lifecycle/action'' then Inr (Prepare request)
      else if path = ''/lifecycle/signed-request'' then Inr (Sign request)
      else bindr (exact_fields request [] []) (\<lambda>_. Inr (Register trust)))"

definition serve_post :: "nat \<Rightarrow> signer \<Rightarrow> identity \<Rightarrow> unit res \<Rightarrow> http_call \<Rightarrow> ('z http_cap_scheme, unit) act" where
  "serve_post depth en ident trust call =
     bind_act (read_request depth call) (\<lambda>request.
     bind_act (lift_res (route trust (call_path call) request)) (\<lambda>c.
     bind_act (capture_step depth en ident c) (send_json 200)))"

fun error_answer :: "(exn \<Rightarrow> string) \<Rightarrow> exn \<Rightarrow> nat \<times> json" where
  "error_answer text_of e =
     (if is_ValueError e then (400, JDict [(''error'', JStr ''INVALID_REQUEST''), (''detail'', JStr (text_of e))])
      else case e of
        HTTPError code \<Rightarrow> (502, JDict [(''error'', JStr ''CCF_HTTP_ERROR''), (''status'', JInt code)])
      | _ \<Rightarrow> (502, error_json ''CAPTURE_OPERATION_FAILED''))"

definition do_POST ::
    "nat \<Rightarrow> signer \<Rightarrow> identity \<Rightarrow> string \<Rightarrow> (exn \<Rightarrow> string) \<Rightarrow> unit res \<Rightarrow> http_call \<Rightarrow> ('z http_cap_scheme, unit) act" where
  "do_POST depth en ident token text_of trust call =
     (if call_path call \<notin> set post_paths then send_json 404 (error_json ''NOT_FOUND'')
      else bind_act (lift_res (authorized token call)) (\<lambda>ok.
        if \<not> ok then send_json 401 (error_json ''UNAUTHORIZED'')
        else catch_act (\<lambda>_. True) (\<lambda>e. send_json (fst (error_answer text_of e)) (snd (error_answer text_of e)))
          (serve_post depth en ident trust call)))"

section \<open>Connections\<close>

datatype http_req = Get http_call | Post "unit res" http_call

text \<open>A client: its request, what reading from it meets and how the writes to it end.\<close>

record http_conn =
  conn_request :: http_req
  conn_inbox :: "rx list"
  conn_writes :: "unit res list"

definition http_serve ::
    "nat \<Rightarrow> signer \<Rightarrow> identity \<Rightarrow> string \<Rightarrow> (exn \<Rightarrow> string) \<Rightarrow> http_conn \<Rightarrow> ('z http_cap_scheme, unit) act" where
  "http_serve depth en ident token text_of c s =
     (case conn_request c of Get call \<Rightarrow> do_GET ident call | Post trust call \<Rightarrow> do_POST depth en ident token text_of trust call)
       (s\<lparr>inbox := conn_inbox c, client_writes := conn_writes c, close_connection := False\<rparr>)"

fun http_run ::
    "nat \<Rightarrow> signer \<Rightarrow> identity \<Rightarrow> string \<Rightarrow> (exn \<Rightarrow> string) \<Rightarrow> http_conn list \<Rightarrow> 'z http_cap_scheme \<Rightarrow> 'z http_cap_scheme" where
  "http_run depth en ident token text_of [] s = s"
| "http_run depth en ident token text_of (c # cs) s =
     http_run depth en ident token text_of cs (snd (http_serve depth en ident token text_of c s))"

section \<open>Mail fixtures\<close>

text \<open>Creating the server of a port and starting its thread fail separately, and a server is in the list
  before its thread starts. \<open>shutdown\<close> waits for the end of \<open>serve_forever\<close>, so on a server whose thread
  never started it does not return. A server is its port with whether its thread runs. \<open>None\<close> stands for
  a call that does not return.\<close>

type_synonym mail_listener = "int \<times> bool"

fun stop_servers :: "mail_listener list \<Rightarrow> unit option" where
  "stop_servers [] = Some ()"
| "stop_servers ((port, running) # servers) = (if running then stop_servers servers else None)"

fun start_servers ::
    "(int \<Rightarrow> unit res) \<Rightarrow> (int \<Rightarrow> unit res) \<Rightarrow> int list \<Rightarrow> mail_listener list \<Rightarrow> mail_listener list res option" where
  "start_servers create start [] servers = Some (Inr servers)"
| "start_servers create start (port # ports) servers =
     (case create port of
        Inl e \<Rightarrow> map_option (\<lambda>_. Inl e) (stop_servers servers)
      | Inr _ \<Rightarrow>
          (case start port of
             Inl e \<Rightarrow> map_option (\<lambda>_. Inl e) (stop_servers (servers @ [(port, False)]))
           | Inr _ \<Rightarrow> start_servers create start ports (servers @ [(port, True)])))"

definition start_mail_fixtures ::
    "(int \<Rightarrow> unit res) \<Rightarrow> (int \<Rightarrow> unit res) \<Rightarrow> identity \<Rightarrow> mail_listener list res option" where
  "start_mail_fixtures create start ident = start_servers create start (config_ports (id_config ident)) []"

section \<open>The start\<close>

definition capture_token :: "string dict \<Rightarrow> string res" where
  "capture_token environ =
     (let token = (case map_of environ ''AGENTDNS_CAPTURE_TOKEN'' of Some t \<Rightarrow> t | None \<Rightarrow> []) in
      if sha_hex token then Inr token
      else Inl (ValueError ''AGENTDNS_CAPTURE_TOKEN must be 32 random bytes in lowercase hex''))"

definition capture_config :: "nat \<Rightarrow> string dict \<Rightarrow> json res" where
  "capture_config depth environ =
     (let encoded = (case map_of environ ''AGENTDNS_CAPTURE_CONFIG_B64'' of Some t \<Rightarrow> t | None \<Rightarrow> []) in
      bindr (b64decode encoded) (strict_json depth))"

definition startup_report :: "identity \<Rightarrow> json" where
  "startup_report ident =
     JDict [(''status'', JStr ''captured_not_appraised''), (''profile'', JStr PROFILE),
       (''spki_sha256'', JStr (sha256_hex (id_spki ident))), (''evidence_digest'', JStr (id_evidence_digest ident)),
       (''transport'', JStr ''https''), (''tls_server_name'', JStr TLS_SERVER_NAME),
       (''mail_fixture_ports'', JList (map JInt (config_ports (id_config ident))))]"

text \<open>What \<open>main\<close> does before it serves: \<open>limit\<close> is the outcome of disabling core dumps, \<open>listen\<close> that of
  binding the HTTPS server. The result is \<open>None\<close> when the mail fixtures never return.\<close>

definition capture_main ::
    "nat \<Rightarrow> platform \<Rightarrow> (nat \<Rightarrow> bytes \<Rightarrow> nat \<times> nat) \<Rightarrow> int \<times> int \<Rightarrow> unit res \<Rightarrow> unit res
     \<Rightarrow> (int \<Rightarrow> unit res) \<Rightarrow> (int \<Rightarrow> unit res) \<Rightarrow> string dict
     \<Rightarrow> (memory, (string \<times> identity \<times> mail_listener list \<times> json) option) act" where
  "capture_main depth pf key time limit listen create start environ =
     bind_act (lift_res limit) (\<lambda>_.
     bind_act (lift_res (capture_token environ)) (\<lambda>token.
     bind_act (lift_res (capture_config depth environ)) (\<lambda>config.
     bind_act (capture_init depth pf key time config) (\<lambda>(ident, loaded).
     bind_act (lift_res listen) (\<lambda>_.
       case start_mail_fixtures create start ident of
         None \<Rightarrow> ret_act None
       | Some (Inl e) \<Rightarrow> raise_act e
       | Some (Inr servers) \<Rightarrow> ret_act (Some (token, ident, servers, startup_report ident)))))))"

section \<open>What a reply leaves alone\<close>

text \<open>The signer's memory and the requests sent to CCF.\<close>

definition capture_memory where
  "capture_memory s = (registration_id s, prepared_actions s, request_ids s, signed_actions s, challenge_ids s,
     action_deadlines s, challenge_deadlines s, registration_action_id s, last_signed_request s,
     last_registration_result s, signatures s, requests s)"

lemma cap_inv_memory: "capture_memory s = capture_memory t \<Longrightarrow> cap_inv ident s = cap_inv ident t"
  by (simp add: capture_memory_def cap_inv_def tables_inv_def challenges_inv_def signing_inv_def prepared_ok_def)

lemma capture_memory_update [simp]:
  "capture_memory (s\<lparr>client_writes := ws\<rparr>) = capture_memory s"
  "capture_memory (s\<lparr>answers := as\<rparr>) = capture_memory s"
  "capture_memory (s\<lparr>close_connection := b\<rparr>) = capture_memory s"
  by (simp_all add: capture_memory_def)

lemma capture_memory_inbox [simp]: "capture_memory (s\<lparr>inbox := q\<rparr>) = capture_memory s"
  by (simp add: capture_memory_def)

lemma next_write_memory: "next_write s = (r, s') \<Longrightarrow> capture_memory s' = capture_memory s"
  by (auto simp: next_write_def split: list.splits)

lemma http_send_memory:
  assumes "http_send status data ct s = (r, s')"
  shows "capture_memory s' = capture_memory s"
  using assms
  by (auto simp: http_send_def Let_def bind_act_def dest!: next_write_memory split: prod.splits sum.splits)

lemma send_json_memory: "send_json status v s = (r, s') \<Longrightarrow> capture_memory s' = capture_memory s"
  by (auto simp: send_json_def dest: http_send_memory)

lemma do_GET_memory: "do_GET ident call s = (r, s') \<Longrightarrow> capture_memory s' = capture_memory s"
  by (auto simp: do_GET_def dest: http_send_memory send_json_memory split: if_splits)

lemma read_request_memory: "read_request depth call s = (r, s') \<Longrightarrow> capture_memory s' = capture_memory s"
  by (auto simp: read_request_def bind_act_def lift_res_def raise_act_def dest!: read_upto_more
      split: prod.splits sum.splits if_splits)

section \<open>Requests that reach the signer\<close>

fun bears_token :: "string \<Rightarrow> http_req \<Rightarrow> bool" where
  "bears_token token (Get call) \<longleftrightarrow> False"
| "bears_token token (Post trust call) \<longleftrightarrow> call_path call \<in> set post_paths
     \<and> header_all call ''Authorization'' = [''Bearer '' @ token] \<and> (\<exists>n \<le> 4096. body_length call = Inr n)"

lemma authorized_Inr: "authorized token call = Inr True \<longleftrightarrow>
    header_all call ''Authorization'' = [''Bearer '' @ token] \<and> isascii token"
  by (auto simp: authorized_def compare_digest_def isascii_def split: list.splits if_splits)

lemma body_length_le: "body_length call = Inr n \<Longrightarrow> n \<le> 4096"
  by (auto simp: body_length_def split: list.splits if_splits)

lemma serve_post_no_body:
  assumes "body_length call = Inl e" "serve_post depth en ident trust call s = (r, s')"
  shows "s' = s"
  using assms by (simp add: serve_post_def read_request_def bind_act_def lift_res_def)

lemma serve_post_inv:
  assumes "serve_post depth en ident trust call s = (r, s')" "cap_inv ident s" "ident_ok ident"
  shows "cap_inv ident s'"
  using assms
  by (auto simp: serve_post_def bind_act_def lift_res_def
      dest!: read_request_memory send_json_memory cap_inv_memory [of _ _ ident] split: prod.splits sum.splits intro: capture_step_inv)

lemma do_POST_inv:
  assumes run: "do_POST depth en ident token text_of trust call s = (r, s')" and inv: "cap_inv ident s" "ident_ok ident"
  shows "cap_inv ident s'"
proof (cases "serve_post depth en ident trust call s")
  case (Pair q t)
  have t: "cap_inv ident t" using serve_post_inv [OF Pair inv] .
  have "capture_memory s' = capture_memory s \<or> capture_memory s' = capture_memory t"
    using run Pair
    by (auto simp: do_POST_def bind_act_def lift_res_def catch_act_def dest!: send_json_memory
        split: prod.splits sum.splits if_splits)
  then show ?thesis using t inv cap_inv_memory by blast
qed

lemma do_POST_memory:
  assumes run: "do_POST depth en ident token text_of trust call s = (r, s')" and no: "\<not> bears_token token (Post trust call)"
  shows "capture_memory s' = capture_memory s"
proof (cases "call_path call \<in> set post_paths \<and> authorized token call = Inr True")
  case True
  with no obtain e where e: "body_length call = Inl e"
    using body_length_le by (cases "body_length call") (auto simp: authorized_Inr)
  obtain q t where t: "serve_post depth en ident trust call s = (q, t)" by fastforce
  have "t = s" by (rule serve_post_no_body [OF e t])
  then show ?thesis using run t True
    by (auto simp: do_POST_def bind_act_def lift_res_def catch_act_def dest!: send_json_memory split: sum.splits)
next
  case False
  then show ?thesis using run
    by (auto simp: do_POST_def bind_act_def lift_res_def dest!: send_json_memory split: sum.splits if_splits)
qed

lemma http_serve_inv: "http_serve depth en ident token text_of c s = (r, s') \<Longrightarrow> cap_inv ident s \<Longrightarrow> ident_ok ident \<Longrightarrow> cap_inv ident s'"
  by (auto simp: http_serve_def split: http_req.splits dest!: do_GET_memory cap_inv_memory [of s' _ ident]
      elim!: do_POST_inv intro: cap_inv_memory [THEN iffD1, rotated])

lemma http_serve_memory:
  "http_serve depth en ident token text_of c s = (r, s') \<Longrightarrow> \<not> bears_token token (conn_request c) \<Longrightarrow>
   capture_memory s' = capture_memory s"
  by (auto simp: http_serve_def simp del: bears_token.simps split: http_req.splits dest!: do_GET_memory do_POST_memory)

lemma http_run_inv: "cap_inv ident s \<Longrightarrow> ident_ok ident \<Longrightarrow> cap_inv ident (http_run depth en ident token text_of cs s)"
proof (induction cs arbitrary: s)
  case (Cons c cs)
  have "cap_inv ident (snd (http_serve depth en ident token text_of c s))"
    using http_serve_inv [OF prod.collapse [symmetric] Cons.prems] .
  then show ?case using Cons by simp
qed simp

lemma http_run_memory:
  "\<forall>c \<in> set cs. \<not> bears_token token (conn_request c) \<Longrightarrow>
   capture_memory (http_run depth en ident token text_of cs s) = capture_memory s"
proof (induction cs arbitrary: s)
  case (Cons c cs)
  have "capture_memory (snd (http_serve depth en ident token text_of c s)) = capture_memory s"
    by (rule http_serve_memory [OF prod.collapse [symmetric]]) (use Cons.prems in simp)
  then show ?case using Cons by simp
qed simp

definition new_http :: "identity \<Rightarrow> web \<Rightarrow> http_cap" where
  "new_http ident w = cap.extend (new_cap ident w) (http_cap.fields [] [] False)"

lemma new_http_memory: "capture_memory (new_http ident w) = capture_memory (new_cap ident w)"
  by (simp add: new_http_def new_cap_def capture_memory_def cap.defs web.defs http_cap.defs)

lemma new_http_inv: "cap_inv ident (new_http ident w)"
  using new_cap_inv [of ident w]
  by (simp add: new_http_def new_cap_def cap.defs web.defs http_cap.defs cap_inv_def tables_inv_def challenges_inv_def signing_inv_def)

section \<open>The fixtures\<close>

lemma stop_servers_running: "list_all snd servers \<Longrightarrow> stop_servers servers = Some ()"
  by (induction servers rule: stop_servers.induct) auto

lemma stop_servers_idle: "stop_servers (servers @ [(port, False)]) = None"
  by (induction servers rule: stop_servers.induct) auto

text \<open>One server per port, all running, or an error after all have stopped; it hangs exactly when the
  thread of a created server does not start and the servers before it did.\<close>

lemma start_servers_outcome:
  "list_all snd servers \<Longrightarrow>
   start_servers create start ports servers = Some (Inr out) \<longleftrightarrow>
     out = servers @ map (\<lambda>p. (p, True)) ports \<and> (\<forall>p \<in> set ports. create p = Inr () \<and> start p = Inr ())"
  by (induction ports arbitrary: servers)
     (auto simp: stop_servers_running stop_servers_idle split: sum.splits)

lemma start_servers_hangs:
  "list_all snd servers \<Longrightarrow>
   start_servers create start ports servers = None \<longleftrightarrow>
     (case dropWhile (\<lambda>p. create p = Inr () \<and> start p = Inr ()) ports of [] \<Rightarrow> False | p # _ \<Rightarrow> create p = Inr ())"
  by (induction ports arbitrary: servers)
     (auto simp: stop_servers_running stop_servers_idle split: sum.splits)

section \<open>Properties\<close>

text \<open>(C10) Only a bearer of the token reaches the signer. Over any sequence of connections to a fresh
  worker, whatever the clients send and however their connections fail, every signed message lies in the
  configured scope. As long as no POST to one of the four paths carries exactly one Authorization header
  with the token and a declared JSON body of at most 4096 bytes, the worker signs nothing, keeps its
  tables and sends nothing to CCF.\<close>

theorem http_signer_guarded:
  assumes "ident_ok ident"
  shows "let s = http_run depth en ident token text_of conns (new_http ident w) in
    (\<forall>msg \<in> set (signatures s). message_scope ident (set (signatures s)) msg)
    \<and> ((\<forall>c \<in> set conns. \<not> bears_token token (conn_request c)) \<longrightarrow> capture_memory s = capture_memory (new_cap ident w))"
proof -
  have "cap_inv ident (http_run depth en ident token text_of conns (new_http ident w))"
    by (rule http_run_inv [OF new_http_inv assms])
  then show ?thesis by (simp add: Let_def cap_inv_def signing_inv_def http_run_memory new_http_memory)
qed

definition sample_conn :: "(string \<times> string) list \<Rightarrow> http_conn" where
  "sample_conn hs = \<lparr>conn_request = Post (Inr ()) \<lparr>call_path = ''/register'', call_headers = hs\<rparr>,
     conn_inbox = [], conn_writes = []\<rparr>"

theorem http_signer_guarded_witness:
  "signatures (http_run 10 sample_signer sample_identity (replicate 64 (CHR ''a'')) (\<lambda>_. ''error'')
     [sample_conn [(''authorization'', ''Bearer b'')]] (new_http sample_identity sample_idle)) = []"
proof -
  have "\<not> bears_token (replicate 64 (CHR ''a'')) (conn_request (sample_conn [(''authorization'', ''Bearer b'')]))"
    by (simp add: sample_conn_def header_all_def lower_def) (auto dest: arg_cong [of _ _ length])
  with http_signer_guarded [OF sample_ident_ok, of 10 sample_signer "replicate 64 (CHR ''a'')" "\<lambda>_. ''error''"
      "[sample_conn [(''authorization'', ''Bearer b'')]]" sample_idle]
  have "capture_memory (http_run 10 sample_signer sample_identity (replicate 64 (CHR ''a'')) (\<lambda>_. ''error'')
     [sample_conn [(''authorization'', ''Bearer b'')]] (new_http sample_identity sample_idle)) = capture_memory (new_cap sample_identity sample_idle)"
    by (simp add: Let_def del: http_run.simps bears_token.simps)
  then show ?thesis by (simp add: capture_memory_def new_cap_def cap.defs web.defs del: http_run.simps)
qed

end
