(* ===== verification/Capture_Mail.thy ===== *)
theory Capture_Mail
  imports Capture_Action Socket_Io
begin

text \<open>
  The mail validation fixture of \<open>tools/capture_aci.py\<close> (\<open>MailFixtureHandler\<close>): a peer that speaks
  enough SMTP and IMAP for a TLS and STARTTLS test, and accepts neither mail nor authentication. The
  client is the queue of what \<open>recv\<close> meets; \<open>handshakes\<close> are the outcomes of its TLS handshakes.
\<close>

section \<open>The connection\<close>

record mail = net +
  secured :: bool
  handshakes :: "unit res list"
  stream_closed :: bool

definition mail_late :: exn where
  "mail_late = TimeoutError ''validation connection deadline exceeded''"

definition mail_timeout :: "clock \<Rightarrow> real \<Rightarrow> ('z mail_scheme, unit) act" where
  "mail_timeout clk deadline s =
     (let (t, s1) = now clk s in
      if deadline - t \<le> 0 then (Inl mail_late, s1) else (Inr (), settimeout (min 10 (deadline - t)) s1))"

definition crlf :: string where
  "crlf = [CHR 0x0D, CHR 0x0A]"

definition mail_send :: "clock \<Rightarrow> real \<Rightarrow> string \<Rightarrow> ('z mail_scheme, unit) act" where
  "mail_send clk deadline line =
     bind_act (mail_timeout clk deadline) (\<lambda>_ s.
       if \<not> isascii line then (Inl (UnicodeError ''ordinal not in range(128)''), s)
       else (Inr (), sendall (encode_str (line @ crlf)) s))"

function receive_loop_line :: "clock \<Rightarrow> real \<Rightarrow> bytes \<Rightarrow> ('z mail_scheme, string option) act" where
  "receive_loop_line clk deadline line s =
     (if length line < 512 then
        case bind_act (mail_timeout clk deadline) (\<lambda>_. recv 1) s of
          (Inl e, s1) \<Rightarrow> (Inl e, s1)
        | (Inr byte, s1) \<Rightarrow>
            if byte = [] then (Inr None, s1)
            else
              let line' = line @ byte in
              if drop (length line' - 2) line' = [13, 10] \<and> 2 \<le> length line'
              then (bindr (decode_ascii (take (length line' - 2) line')) (\<lambda>t. Inr (Some t)), s1)
              else receive_loop_line clk deadline line' s1
      else (Inl (ValueError ''validation protocol line exceeds 512 bytes''), s))"
  by pat_completeness auto
termination
  by (relation "measure (\<lambda>(clk, deadline, line, s). 512 - length line)") (auto simp: neq_Nil_conv)

declare receive_loop_line.simps [simp del]

definition mail_receive :: "clock \<Rightarrow> real \<Rightarrow> ('z mail_scheme, string option) act" where
  "mail_receive clk deadline = receive_loop_line clk deadline []"

text \<open>\<open>wrap_socket\<close> with its handshake; an exhausted queue is a client that hangs up.\<close>

definition start_tls :: "clock \<Rightarrow> real \<Rightarrow> ('z mail_scheme, unit) act" where
  "start_tls clk deadline =
     bind_act (mail_timeout clk deadline) (\<lambda>_ s.
       case handshakes s of
         [] \<Rightarrow> (Inl (OSError ''handshake''), s)
       | Inl e # hs \<Rightarrow> (Inl e, s\<lparr>handshakes := hs\<rparr>)
       | Inr _ # hs \<Rightarrow> (Inr (), s\<lparr>handshakes := hs, secured := True\<rparr>))"

section \<open>IMAP\<close>

text \<open>\<open>line.split(" ", n)\<close>.\<close>

fun split_max :: "nat \<Rightarrow> string \<Rightarrow> string list" where
  "split_max 0 s = [s]"
| "split_max (Suc n) s =
     (case partition_at CHR '' '' s of None \<Rightarrow> [s] | Some (a, b) \<Rightarrow> a # split_max n b)"

definition imap_tag :: "string \<Rightarrow> bool" where
  "imap_tag s \<longleftrightarrow> 1 \<le> length s \<and> length s \<le> 32
     \<and> list_all (\<lambda>c. is_alnum c \<or> c \<in> {CHR ''.'', CHR ''_'', CHR ''-''}) s"

definition send_each :: "clock \<Rightarrow> real \<Rightarrow> string list \<Rightarrow> ('z mail_scheme, unit) act" where
  "send_each clk deadline lines = foldr (\<lambda>l m. bind_act (mail_send clk deadline l) (\<lambda>_. m)) lines (ret_act ())"

text \<open>The replies to one line, and whether the session goes on.\<close>

definition imap_reply :: "string \<Rightarrow> string list \<times> bool" where
  "imap_reply line =
     (case split_max 2 line of
        tag # command # _ \<Rightarrow>
          if \<not> imap_tag tag then ([''* BAD invalid validation command''], False)
          else if upper command = ''LOGOUT''
          then ([''* BYE validation session closed'', tag @ '' OK LOGOUT completed''], False)
          else if upper command = ''CAPABILITY''
          then ([''* CAPABILITY IMAP4rev1 LOGINDISABLED'', tag @ '' OK CAPABILITY completed''], True)
          else if upper command = ''NOOP'' then ([tag @ '' OK NOOP completed''], True)
          else ([tag @ '' NO validation fixture has no authentication or mailbox''], True)
      | _ \<Rightarrow> ([''* BAD invalid validation command''], False))"

fun imap_loop :: "clock \<Rightarrow> real \<Rightarrow> nat \<Rightarrow> ('z mail_scheme, unit) act" where
  "imap_loop clk deadline 0 = ret_act ()"
| "imap_loop clk deadline (Suc n) =
     bind_act (mail_receive clk deadline) (\<lambda>received.
       case received of
         None \<Rightarrow> ret_act ()
       | Some line \<Rightarrow>
           bind_act (send_each clk deadline (fst (imap_reply line))) (\<lambda>_.
             if snd (imap_reply line) then imap_loop clk deadline n else ret_act ()))"

section \<open>SMTP\<close>

datatype smtp_next = Go | Stop | StartTls

definition smtp_reply :: "string \<Rightarrow> bool \<Rightarrow> string \<Rightarrow> string list \<times> smtp_next" where
  "smtp_reply host tls line =
     (let command = upper (hd (split_max 1 line)) in
      if command = ''HELO'' then ([''250 '' @ host], Go)
      else if command = ''EHLO''
      then ((''250-'' @ host) # (if tls then [] else [''250-STARTTLS'']) @ [''250 HELP''], Go)
      else if command = ''STARTTLS'' then
        (if upper line \<noteq> ''STARTTLS'' then ([''501 5.5.2 STARTTLS accepts no parameters''], Go)
         else if tls then ([''503 5.5.1 TLS already active''], Go)
         else ([''220 2.0.0 Ready to start TLS''], StartTls))
      else if command = ''QUIT'' then ([''221 2.0.0 Validation session closed''], Stop)
      else if command \<in> {''NOOP'', ''RSET'', ''HELP''} then ([''250 2.0.0 Validation fixture ready''], Go)
      else if command \<in> {''MAIL'', ''RCPT'', ''DATA'', ''AUTH''}
      then ([''550 5.7.1 Validation fixture does not accept mail or authentication''], Go)
      else ([''502 5.5.1 Unsupported validation command''], Go))"

fun smtp_loop :: "clock \<Rightarrow> real \<Rightarrow> string \<Rightarrow> nat \<Rightarrow> ('z mail_scheme, unit) act" where
  "smtp_loop clk deadline host 0 = ret_act ()"
| "smtp_loop clk deadline host (Suc n) =
     bind_act (mail_receive clk deadline) (\<lambda>received.
       case received of
         None \<Rightarrow> ret_act ()
       | Some line \<Rightarrow> (\<lambda>s.
           let (lines, next) = smtp_reply host (secured s) line in
           bind_act (send_each clk deadline lines) (\<lambda>_.
             case next of
               Go \<Rightarrow> smtp_loop clk deadline host n
             | Stop \<Rightarrow> ret_act ()
             | StartTls \<Rightarrow> bind_act (start_tls clk deadline) (\<lambda>_. smtp_loop clk deadline host n)) s))"

section \<open>The handler\<close>

definition mail_session :: "clock \<Rightarrow> real \<Rightarrow> string \<Rightarrow> nat \<Rightarrow> ('z mail_scheme, unit) act" where
  "mail_session clk deadline host port =
     bind_act (if port \<in> {465, 993} then start_tls clk deadline else ret_act ()) (\<lambda>_.
       if port = 993 then
         bind_act (mail_send clk deadline ''* OK agentdns isolated TLS validation fixture'') (\<lambda>_.
           imap_loop clk deadline 16)
       else
         bind_act (mail_send clk deadline (''220 '' @ host @ '' ESMTP isolated validation fixture'')) (\<lambda>_.
           smtp_loop clk deadline host 16))"

definition mail_handle :: "clock \<Rightarrow> string \<Rightarrow> nat \<Rightarrow> ('z mail_scheme, unit) act" where
  "mail_handle clk host port s =
     (let (t, s1) = now clk s in
      finally_act (\<lambda>s. s\<lparr>stream_closed := True\<rparr>)
        (catch_act (\<lambda>e. is_OSError e \<or> is_ValueError e) (\<lambda>_. ret_act ())
          (mail_session clk (t + 30) host port)) (s1\<lparr>secured := False\<rparr>))"

section \<open>What the fixture sends\<close>

definition wire_line :: "string \<Rightarrow> bytes" where
  "wire_line l = encode_str (l @ crlf)"

text \<open>An action that sends at most \<open>n\<close> lines, each of them in \<open>P\<close>, and raises only errors in \<open>E\<close> when
  the client and its handshakes do.\<close>

definition peer_errors :: "'z mail_scheme \<Rightarrow> exn set" where
  "peer_errors s = {e. RxErr e \<in> set (inbox s)} \<union> {e. Inl e \<in> set (handshakes s)}"

definition handled :: "exn \<Rightarrow> bool" where
  "handled e \<longleftrightarrow> is_OSError e \<or> is_ValueError e"

definition emits :: "(string \<Rightarrow> bool) \<Rightarrow> nat \<Rightarrow> ('z mail_scheme, 'a) act \<Rightarrow> bool" where
  "emits P n m \<longleftrightarrow> (\<forall>s r s'. m s = (r, s') \<longrightarrow>
     (\<exists>ls. outbox s' = outbox s @ map wire_line ls \<and> length ls \<le> n \<and> (\<forall>l \<in> set ls. P l))
     \<and> peer_errors s' \<subseteq> peer_errors s \<and> (\<forall>e. r = Inl e \<longrightarrow> handled e \<or> e \<in> peer_errors s))"

named_theorems emits_intros

lemma emits_quiet:
  assumes "\<And>s r s'. m s = (r, s') \<Longrightarrow> outbox s' = outbox s \<and> peer_errors s' \<subseteq> peer_errors s
    \<and> (\<forall>e. r = Inl e \<longrightarrow> handled e \<or> e \<in> peer_errors s)"
  shows "emits P 0 m"
  unfolding emits_def using assms by fastforce

lemma emitsE:
  assumes "emits P n m" "m s = (r, s')"
  obtains ls where "outbox s' = outbox s @ map wire_line ls" "length ls \<le> n" "\<forall>l \<in> set ls. P l"
    "peer_errors s' \<subseteq> peer_errors s" "\<forall>e. r = Inl e \<longrightarrow> handled e \<or> e \<in> peer_errors s"
proof -
  from assms have "(\<exists>ls. outbox s' = outbox s @ map wire_line ls \<and> length ls \<le> n \<and> (\<forall>l \<in> set ls. P l))
     \<and> peer_errors s' \<subseteq> peer_errors s \<and> (\<forall>e. r = Inl e \<longrightarrow> handled e \<or> e \<in> peer_errors s)"
    unfolding emits_def by simp
  then show thesis by (elim conjE exE) (rule that)
qed

lemma emits_weaken: "emits P n m \<Longrightarrow> n \<le> k \<Longrightarrow> emits P k m"
  unfolding emits_def by (blast intro: le_trans)

lemma emits_bind [emits_intros]:
  assumes "emits P n m" "\<And>x. emits P k (f x)"
  shows "emits P (n + k) (bind_act m f)"
  unfolding emits_def
proof (intro allI impI)
  fix s r s' assume run: "bind_act m f s = (r, s')"
  obtain x s1 where x: "m s = (x, s1)" by fastforce
  from assms(1) x obtain ls where ls: "outbox s1 = outbox s @ map wire_line ls" "length ls \<le> n" "\<forall>l \<in> set ls. P l"
    and e1: "peer_errors s1 \<subseteq> peer_errors s" "\<forall>e. x = Inl e \<longrightarrow> handled e \<or> e \<in> peer_errors s"
    by (rule emitsE)
  show "(\<exists>ls. outbox s' = outbox s @ map wire_line ls \<and> length ls \<le> n + k \<and> (\<forall>l \<in> set ls. P l))
     \<and> peer_errors s' \<subseteq> peer_errors s \<and> (\<forall>e. r = Inl e \<longrightarrow> handled e \<or> e \<in> peer_errors s)"
  proof (cases x)
    case (Inl e)
    with run x have "s' = s1" "r = Inl e" by (simp_all add: bind_act_def)
    with ls e1 Inl show ?thesis by (intro conjI exI [of _ ls]) auto
  next
    case (Inr y)
    with run x have "f y s1 = (r, s')" by (simp add: bind_act_def)
    from assms(2) this obtain ks where ks: "outbox s' = outbox s1 @ map wire_line ks" "length ks \<le> k" "\<forall>l \<in> set ks. P l"
      and e2: "peer_errors s' \<subseteq> peer_errors s1" "\<forall>e. r = Inl e \<longrightarrow> handled e \<or> e \<in> peer_errors s1"
      by (rule emitsE)
    have "outbox s' = outbox s @ map wire_line (ls @ ks)" "length (ls @ ks) \<le> n + k" "\<forall>l \<in> set (ls @ ks). P l"
      using ls ks by auto
    then show ?thesis using e1 e2 by blast
  qed
qed

lemma emits_ret [emits_intros]: "emits P 0 (ret_act x)"
  by (rule emits_quiet) simp

lemma emits_ret_any: "emits P n (ret_act x)"
  by (rule emits_weaken [OF emits_ret]) simp

lemma emits_state: "(\<And>t. emits P n (m t)) \<Longrightarrow> emits P n (\<lambda>s. m (g s) s)"
  unfolding emits_def by blast

lemma emits_timeout [emits_intros]: "emits P 0 (mail_timeout clk deadline)"
  by (rule emits_quiet) (auto simp: mail_timeout_def now_def Let_def settimeout_def peer_errors_def handled_def mail_late_def split: if_splits)

lemma emits_recv: "emits P 0 (recv n)"
proof (rule emits_quiet)
  fix s :: "'a mail_scheme" and r s' assume "recv n s = (r, s')"
  then obtain q where q: "recv_queue n (inbox s) = (r, q)" and s': "s' = s\<lparr>inbox := q\<rparr>" by (auto simp: recv_def split: prod.splits)
  have "handled e \<or> e \<in> peer_errors s" if "r = Inl e" for e
    using recv_queue_error [OF q [unfolded that]] by (auto simp: peer_errors_def handled_def)
  then show "outbox s' = outbox s \<and> peer_errors s' \<subseteq> peer_errors s \<and> (\<forall>e. r = Inl e \<longrightarrow> handled e \<or> e \<in> peer_errors s)"
    using s' recv_queue_sub [OF q] by (auto simp: peer_errors_def)
qed

lemma receive_quiet:
  "receive_loop_line clk deadline line s = (r, s') \<Longrightarrow> outbox s' = outbox s \<and> peer_errors s' \<subseteq> peer_errors s
    \<and> (\<forall>e. r = Inl e \<longrightarrow> handled e \<or> e \<in> peer_errors s)"
proof (induction clk deadline line s arbitrary: r s' rule: receive_loop_line.induct)
  case (1 clk deadline line s)
  show ?case
  proof (cases "length line < 512")
    case False
    then show ?thesis using 1(2) by (auto simp: receive_loop_line.simps [of clk deadline line s] handled_def)
  next
    case short: True
    obtain x s1 where x: "bind_act (mail_timeout clk deadline) (\<lambda>_. recv 1) s = (x, s1)" by fastforce
    have "emits (\<lambda>_. False) (0 + 0) (bind_act (mail_timeout clk deadline) (\<lambda>_. recv 1))"
      by (intro emits_intros emits_recv)
    from this x have s1: "outbox s1 = outbox s" "peer_errors s1 \<subseteq> peer_errors s" "\<forall>e. x = Inl e \<longrightarrow> handled e \<or> e \<in> peer_errors s"
      by (auto elim!: emitsE)
    have step: "receive_loop_line clk deadline line s =
       (case x of Inl e \<Rightarrow> (Inl e, s1)
        | Inr byte \<Rightarrow>
            if byte = [] then (Inr None, s1)
            else if drop (length (line @ byte) - 2) (line @ byte) = [13, 10] \<and> 2 \<le> length (line @ byte)
            then (bindr (decode_ascii (take (length (line @ byte) - 2) (line @ byte))) (\<lambda>t. Inr (Some t)), s1)
            else receive_loop_line clk deadline (line @ byte) s1)"
      unfolding receive_loop_line.simps [of clk deadline line s] x Let_def using short by (cases x) simp_all
    show ?thesis
    proof (cases x)
      case (Inl e)
      then show ?thesis using 1(2) step s1 by auto
    next
      case (Inr byte)
      show ?thesis
      proof (cases "byte \<noteq> [] \<and> \<not> (drop (length (line @ byte) - 2) (line @ byte) = [13, 10] \<and> 2 \<le> length (line @ byte))")
        case True
        then have "receive_loop_line clk deadline (line @ byte) s1 = (r, s')"
          using 1(2) unfolding step Inr sum.case by (auto split: if_splits)
        from 1(1) [OF short x [symmetric] Inr _ refl _ this] True s1 show ?thesis by auto
      next
        case False
        then have "s' = s1 \<and> (\<forall>e. r = Inl e \<longrightarrow> handled e)"
          using 1(2) unfolding step Inr sum.case
          by (auto simp: handled_def bindr_eq_Inl dest: decode_ascii_error split: if_splits)
        then show ?thesis using s1 by auto
      qed
    qed
  qed
qed

lemma emits_receive [emits_intros]: "emits P 0 (mail_receive clk deadline)"
  unfolding mail_receive_def by (rule emits_quiet) (rule receive_quiet)

lemma emits_send: "P line \<Longrightarrow> emits P 1 (mail_send clk deadline line)"
proof -
  assume p: "P line"
  have "emits P 1 (\<lambda>s. if \<not> isascii line then (Inl (UnicodeError ''ordinal not in range(128)''), s)
       else (Inr (), sendall (encode_str (line @ crlf)) s))"
    unfolding emits_def using p
    by (auto simp: sendall_def wire_line_def peer_errors_def handled_def intro: exI [of _ "[line]"] exI [of _ "[]"])
  from emits_bind [OF emits_timeout this] show ?thesis by (simp add: mail_send_def)
qed

lemma emits_start_tls [emits_intros]: "emits P 0 (start_tls clk deadline)"
proof -
  have "emits P 0 (\<lambda>s. case handshakes s of
         [] \<Rightarrow> (Inl (OSError ''handshake''), s)
       | Inl e # hs \<Rightarrow> (Inl e, s\<lparr>handshakes := hs\<rparr>)
       | Inr _ # hs \<Rightarrow> (Inr (), s\<lparr>handshakes := hs, secured := True\<rparr>))"
    by (rule emits_quiet) (auto simp: peer_errors_def handled_def split: list.splits sum.splits)
  from emits_bind [OF emits_timeout this] show ?thesis by (simp add: start_tls_def)
qed

lemma emits_send_each: "(\<forall>l \<in> set ls. P l) \<Longrightarrow> emits P (length ls) (send_each clk deadline ls :: ('z mail_scheme, unit) act)"
proof (induction ls)
  case Nil
  then show ?case by (simp add: send_each_def emits_ret)
next
  case (Cons l ls)
  then have "emits P (1 + length ls) (bind_act (mail_send clk deadline l) (\<lambda>_. send_each clk deadline ls) :: ('z mail_scheme, unit) act)"
    by (intro emits_bind emits_send) auto
  then show ?case by (simp add: send_each_def)
qed

text \<open>The lines of the fixture.\<close>

definition imap_line :: "string \<Rightarrow> bool" where
  "imap_line l \<longleftrightarrow> l \<in> {''* OK agentdns isolated TLS validation fixture'', ''* BAD invalid validation command'',
       ''* BYE validation session closed'', ''* CAPABILITY IMAP4rev1 LOGINDISABLED''}
     \<or> (\<exists>tag. imap_tag tag \<and> l \<in> {tag @ '' OK LOGOUT completed'', tag @ '' OK CAPABILITY completed'', tag @ '' OK NOOP completed'',
          tag @ '' NO validation fixture has no authentication or mailbox''})"

definition smtp_line :: "string \<Rightarrow> string \<Rightarrow> bool" where
  "smtp_line host l \<longleftrightarrow> l \<in> {''220 '' @ host @ '' ESMTP isolated validation fixture'', ''250 '' @ host, ''250-'' @ host,
     ''250-STARTTLS'', ''250 HELP'', ''501 5.5.2 STARTTLS accepts no parameters'', ''503 5.5.1 TLS already active'',
     ''220 2.0.0 Ready to start TLS'', ''221 2.0.0 Validation session closed'', ''250 2.0.0 Validation fixture ready'',
     ''550 5.7.1 Validation fixture does not accept mail or authentication'', ''502 5.5.1 Unsupported validation command''}"

lemma imap_reply_lines: "length (fst (imap_reply line)) \<le> 2 \<and> (\<forall>l \<in> set (fst (imap_reply line)). imap_line l)"
  unfolding imap_reply_def by (auto simp: imap_line_def split: list.split)

lemma smtp_reply_lines: "length (fst (smtp_reply host tls line)) \<le> 3 \<and> (\<forall>l \<in> set (fst (smtp_reply host tls line)). smtp_line host l)"
  unfolding smtp_reply_def Let_def smtp_line_def by simp

lemma emits_imap: "emits imap_line (2 * n) (imap_loop clk deadline n :: ('z mail_scheme, unit) act)"
proof (induction n)
  case 0
  then show ?case by (simp add: emits_ret)
next
  case (Suc n)
  have "emits imap_line (2 + 2 * n) (case received of
         None \<Rightarrow> (ret_act () :: ('z mail_scheme, unit) act)
       | Some line \<Rightarrow>
           bind_act (send_each clk deadline (fst (imap_reply line))) (\<lambda>_.
             if snd (imap_reply line) then imap_loop clk deadline n else ret_act ()))" for received
  proof (cases received)
    case None
    then show ?thesis by (simp add: emits_ret_any)
  next
    case (Some line)
    have "emits imap_line 2 (send_each clk deadline (fst (imap_reply line)) :: ('z mail_scheme, unit) act)"
      by (rule emits_weaken [OF emits_send_each]) (use imap_reply_lines in simp_all)
    moreover have "emits imap_line (2 * n) (if snd (imap_reply line) then imap_loop clk deadline n else (ret_act () :: ('z mail_scheme, unit) act))"
      using Suc by (simp add: emits_ret_any)
    ultimately show ?thesis unfolding Some option.case by (rule emits_bind)
  qed
  from emits_bind [OF emits_receive this] show ?case by simp
qed

lemma emits_smtp: "emits (smtp_line host) (3 * n) (smtp_loop clk deadline host n :: ('z mail_scheme, unit) act)"
proof (induction n)
  case 0
  then show ?case by (simp add: emits_ret)
next
  case (Suc n)
  have answer: "emits (smtp_line host) (3 + 3 * n) (bind_act (send_each clk deadline (fst (smtp_reply host tls line))) (\<lambda>_.
             case snd (smtp_reply host tls line) of
               Go \<Rightarrow> smtp_loop clk deadline host n
             | Stop \<Rightarrow> (ret_act () :: ('z mail_scheme, unit) act)
             | StartTls \<Rightarrow> bind_act (start_tls clk deadline) (\<lambda>_. smtp_loop clk deadline host n)))" for tls line
  proof (rule emits_bind)
    show "emits (smtp_line host) 3 (send_each clk deadline (fst (smtp_reply host tls line)) :: ('z mail_scheme, unit) act)"
      by (rule emits_weaken [OF emits_send_each]) (use smtp_reply_lines in simp_all)
    have "emits (smtp_line host) (0 + 3 * n) (bind_act (start_tls clk deadline) (\<lambda>_. smtp_loop clk deadline host n) :: ('z mail_scheme, unit) act)"
      by (intro emits_bind emits_start_tls Suc)
    then show "emits (smtp_line host) (3 * n) (case snd (smtp_reply host tls line) of
               Go \<Rightarrow> smtp_loop clk deadline host n
             | Stop \<Rightarrow> (ret_act () :: ('z mail_scheme, unit) act)
             | StartTls \<Rightarrow> bind_act (start_tls clk deadline) (\<lambda>_. smtp_loop clk deadline host n))"
      using Suc by (auto simp: emits_ret_any split: smtp_next.split)
  qed
  have "emits (smtp_line host) (3 + 3 * n) (case received of
         None \<Rightarrow> (ret_act () :: ('z mail_scheme, unit) act)
       | Some line \<Rightarrow> (\<lambda>s.
           let (lines, next) = smtp_reply host (secured s) line in
           bind_act (send_each clk deadline lines) (\<lambda>_.
             case next of
               Go \<Rightarrow> smtp_loop clk deadline host n
             | Stop \<Rightarrow> ret_act ()
             | StartTls \<Rightarrow> bind_act (start_tls clk deadline) (\<lambda>_. smtp_loop clk deadline host n)) s))" for received
  proof (cases received)
    case None
    then show ?thesis by (simp add: emits_ret_any)
  next
    case (Some line)
    show ?thesis unfolding Some option.case Let_def case_prod_beta by (rule emits_state [where g = secured, OF answer])
  qed
  from emits_bind [OF emits_receive this] have "emits (smtp_line host) (0 + (3 + 3 * n)) (smtp_loop clk deadline host (Suc n) :: ('z mail_scheme, unit) act)"
    unfolding smtp_loop.simps .
  then show ?case by (simp del: smtp_loop.simps)
qed

lemma emits_session:
  "emits (if port = 993 then imap_line else smtp_line host) 49 (mail_session clk deadline host port :: ('z mail_scheme, unit) act)"
proof -
  have tls: "emits P 0 (if port \<in> {465, 993} then start_tls clk deadline else (ret_act () :: ('z mail_scheme, unit) act))" for P
    by (simp add: emits_start_tls emits_ret)
  show ?thesis
  proof (cases "port = 993")
    case True
    have "emits imap_line (1 + 2 * 16) (bind_act (mail_send clk deadline ''* OK agentdns isolated TLS validation fixture'')
        (\<lambda>_. imap_loop clk deadline 16) :: ('z mail_scheme, unit) act)"
      by (rule emits_bind [OF emits_send emits_imap]) (simp add: imap_line_def)
    from emits_bind [OF tls this] have "emits imap_line (0 + (1 + 2 * 16)) (mail_session clk deadline host port :: ('z mail_scheme, unit) act)"
      unfolding mail_session_def if_P [OF True] .
    from emits_weaken [OF this, of 49] show ?thesis using True by simp
  next
    case False
    have "emits (smtp_line host) (1 + 3 * 16) (bind_act (mail_send clk deadline (''220 '' @ host @ '' ESMTP isolated validation fixture''))
        (\<lambda>_. smtp_loop clk deadline host 16) :: ('z mail_scheme, unit) act)"
      by (rule emits_bind [OF emits_send emits_smtp]) (simp add: smtp_line_def)
    from emits_bind [OF tls this] have "emits (smtp_line host) (0 + (1 + 3 * 16)) (mail_session clk deadline host port :: ('z mail_scheme, unit) act)"
      unfolding mail_session_def if_not_P [OF False] .
    then show ?thesis using False by simp
  qed
qed

section \<open>Properties\<close>

text \<open>(C30) The mail fixture is inert. Whatever a client sends, the handler writes at most 49 lines, each one
  of its fixed replies, so that it never accepts a message, a recipient or a login; it always closes its
  stream; and when the errors of the connection are socket or value errors, it ends without raising.\<close>

theorem mail_handle_inert:
  assumes "mail_handle clk host port s = (r, s')"
  shows "(\<exists>lines. outbox s' = outbox s @ map wire_line lines \<and> length lines \<le> 49
      \<and> (\<forall>l \<in> set lines. if port = 993 then imap_line l else smtp_line host l))
    \<and> stream_closed s' \<and> ((\<forall>e \<in> peer_errors s. handled e) \<longrightarrow> r = Inr ())"
proof -
  let ?P = "if port = 993 then imap_line else smtp_line host"
  let ?s = "s\<lparr>ticks := Suc (ticks s), secured := False\<rparr>"
  obtain x s1 where x: "mail_session clk (clk (ticks s) + 30) host port ?s = (x, s1)" by fastforce
  from emits_session this obtain ls where
    ls: "outbox s1 = outbox ?s @ map wire_line ls" "length ls \<le> 49" "\<forall>l \<in> set ls. ?P l"
    and e: "\<forall>e. x = Inl e \<longrightarrow> handled e \<or> e \<in> peer_errors ?s"
    by (rule emitsE)
  have s': "s' = s1\<lparr>stream_closed := True\<rparr>" and r: "r = Inr () \<or> (\<exists>e. x = Inl e \<and> \<not> handled e)"
    using assms x
    by (cases x; auto simp: mail_handle_def now_def finally_act_def catch_act_def ret_act_def handled_def split: if_splits)+
  have "peer_errors ?s = peer_errors s" by (simp add: peer_errors_def)
  then have "(\<forall>e \<in> peer_errors s. handled e) \<longrightarrow> r = Inr ()" using r e by auto
  then show ?thesis using ls s' by (auto intro!: exI [of _ ls])
qed

text \<open>A client that asks to log in on the IMAP port.\<close>

definition mail_sample :: mail where
  "mail_sample = \<lparr>ticks = 0, inbox = [Data (encode_str (''a LOGIN x y'' @ crlf)), Closed], sock_timeout = None,
     outbox = [], secured = False, handshakes = [Inr ()], stream_closed = False\<rparr>"

theorem mail_handle_inert_witness:
  "stream_closed (snd (mail_handle (\<lambda>n. real n) ''mx.example'' 993 mail_sample))
   \<and> fst (mail_handle (\<lambda>n. real n) ''mx.example'' 993 mail_sample) = Inr ()
   \<and> length (outbox (snd (mail_handle (\<lambda>n. real n) ''mx.example'' 993 mail_sample))) \<le> 49"
proof -
  have "\<forall>e \<in> peer_errors mail_sample. handled e" by (simp add: peer_errors_def mail_sample_def)
  then show ?thesis
    using mail_handle_inert [of "\<lambda>n. real n" "''mx.example''" 993 mail_sample, OF prod.collapse [symmetric]]
    by (auto simp: mail_sample_def)
qed

end
