(* ===== verification/Crypto_Lib.thy ===== *)
theory Crypto_Lib
  imports Json_Access Sha256 Base64_Codec
begin

text \<open>
  The interface of the certificate and signature library that the offline verifiers call
  (\<open>cryptography\<close>, and the \<open>openssl\<close> command). It is a parameter of their models: a certificate is
  the value of the fields that the verifiers read from the parsed object, and the library supplies the
  parsers and the signature checks, each of which may raise.
\<close>

datatype curve = P256 | P384 | Other_curve string

text \<open>A public key with its encoding as SubjectPublicKeyInfo.\<close>

datatype pubkey = Ec_key curve bytes | Other_key bytes

fun key_der :: "pubkey \<Rightarrow> bytes" where
  "key_der (Ec_key c der) = der"
| "key_der (Other_key der) = der"

fun is_ec :: "pubkey \<Rightarrow> bool" where
  "is_ec (Ec_key c der) \<longleftrightarrow> True"
| "is_ec (Other_key der) \<longleftrightarrow> False"

fun on_curve :: "curve list \<Rightarrow> pubkey \<Rightarrow> bool" where
  "on_curve cs (Ec_key c der) \<longleftrightarrow> c \<in> set cs"
| "on_curve cs (Other_key der) \<longleftrightarrow> False"

text \<open>An extension that is absent is \<open>None\<close>; reading it raises \<open>ExtensionNotFound\<close>.\<close>

record x509 =
  x_der :: bytes
  x_pem :: bytes
  x_key :: pubkey
  x_issuer :: string
  x_subject :: string
  x_tbs :: bytes
  x_signature :: bytes
  x_hash :: string
  x_not_before :: int
  x_not_after :: int
  x_ekus :: "string list option"
  x_digital_signature :: "bool option"
  x_ca :: "bool option"
  x_dns_names :: "string list option"

definition extension :: "'a option \<Rightarrow> 'a res" where
  "extension e = (case e of Some v \<Rightarrow> Inr v | None \<Rightarrow> Inl ExtensionNotFound)"

lemma extension_Inr [simp]: "extension e = Inr v \<longleftrightarrow> e = Some v"
  by (cases e) (simp_all add: extension_def)

datatype scheme = Ecdsa string | Ecdsa_prehashed string | Pss string nat

record crypto =
  load_pem_cert :: "bytes \<Rightarrow> x509 res"
  load_der_cert :: "bytes \<Rightarrow> x509 res"
  load_pem_key :: "bytes \<Rightarrow> pubkey res"
  load_der_key :: "bytes \<Rightarrow> pubkey res"
  key_verify :: "pubkey \<Rightarrow> scheme \<Rightarrow> bytes \<Rightarrow> bytes \<Rightarrow> unit res"
  directly_issued :: "x509 \<Rightarrow> x509 \<Rightarrow> unit res"
  p384_point :: "bytes \<Rightarrow> unit res"
  encode_dss :: "nat \<Rightarrow> nat \<Rightarrow> bytes"

section \<open>Bytes\<close>

definition to_bytes_be :: "nat \<Rightarrow> nat \<Rightarrow> bytes res" where
  "to_bytes_be n x = (if x < 256 ^ n then Inr (nat_be n x) else Inl OverflowError)"

lemma be_nat_Cons: "be_nat (b # bs) = unat b * 256 ^ length bs + be_nat bs"
  by (induction bs rule: rev_induct) (simp_all add: be_nat_snoc be_nat_def)

lemma nat_be_Suc: "nat_be (Suc n) x = word_of_nat (x div 256 ^ n) # nat_be n x"
  by (simp add: nat_be_def)

lemma be_nat_nat_be: "x < 256 ^ n \<Longrightarrow> be_nat (nat_be n x) = x"
proof (induction n arbitrary: x)
  case 0
  then show ?case by (simp add: nat_be_def)
next
  case (Suc n)
  have "x div 256 ^ n < 256" using Suc.prems by (simp add: less_mult_imp_div_less mult.commute)
  then have "unat (word_of_nat (x div 256 ^ n) :: byte) = x div 256 ^ n"
    by (simp add: unat_of_nat)
  moreover have "nat_be n x = nat_be n (x mod 256 ^ n)"
    unfolding nat_be_def
  proof (rule map_cong [OF refl])
    fix i assume "i \<in> set (rev [0..<n])"
    then have "i < n" by simp
    then have d: "256 ^ n = 256 ^ i * (256 * 256 ^ (n - Suc i) :: nat)"
      by (metis Suc_diff_Suc add_diff_inverse_nat not_less_iff_gr_or_eq power_Suc power_add)
    have "x mod 256 ^ n div 256 ^ i = x div 256 ^ i mod (256 * 256 ^ (n - Suc i))"
      unfolding d by (simp add: mod_mult2_eq)
    then have "x mod 256 ^ n div 256 ^ i mod 256 = x div 256 ^ i mod 256" by (simp add: mod_mult_right_eq mod_mod_cancel)
    then show "(word_of_nat (x div 256 ^ i) :: byte) = word_of_nat (x mod 256 ^ n div 256 ^ i)"
      by (simp add: of_nat_eq_iff word_of_nat_eq_iff take_bit_eq_mod)
  qed
  moreover have "be_nat (nat_be n (x mod 256 ^ n)) = x mod 256 ^ n" by (rule Suc.IH) simp
  ultimately show ?case by (simp add: nat_be_Suc be_nat_Cons div_mult_mod_eq)
qed

lemma nat_be_inj: "x < 256 ^ n \<Longrightarrow> y < 256 ^ n \<Longrightarrow> nat_be n x = nat_be n y \<Longrightarrow> x = y"
  by (metis be_nat_nat_be)

lemma to_bytes_be_Inr: "to_bytes_be n x = Inr bs \<longleftrightarrow> x < 256 ^ n \<and> bs = nat_be n x"
  by (auto simp: to_bytes_be_def)

end
