(* ===== verification/Ksk_Receipt.thy ===== *)
theory Ksk_Receipt
  imports Crypto_Lib Json_Laws
begin

text \<open>
  The offline verifiers of CCF receipts: \<open>tools/verify_ksk_receipt.py\<close>, for the key signing key of a
  zone, and \<open>tools/verify_claims_receipt.py\<close>, for typed claims. The certificate library is a parameter.
\<close>

section \<open>Encodings\<close>

definition digest :: "bytes \<Rightarrow> bytes" where
  "digest data = sha256 data"

definition lower_hex_pairs :: "string \<Rightarrow> bool" where
  "lower_hex_pairs s \<longleftrightarrow> s \<noteq> [] \<and> even (length s) \<and> list_all is_lower_hex s"

definition hexbytes :: "json \<Rightarrow> nat option \<Rightarrow> bytes res" where
  "hexbytes v size_bound =
     (case jstr v of
        Some s \<Rightarrow>
          if \<not> lower_hex_pairs s then Inl (ValueError ''noncanonical hexadecimal value'')
          else
            let decoded = unhex s in
            (case size_bound of
               Some n \<Rightarrow> if length decoded \<noteq> n then Inl (ValueError ''wrong digest length'') else Inr decoded
             | None \<Rightarrow> Inr decoded)
      | None \<Rightarrow> Inl (ValueError ''noncanonical hexadecimal value''))"

text \<open>The pattern \<open>[a-z0-9](?:[a-z0-9-]*[a-z0-9])?\<close> under the bound on the length.\<close>

definition owner_label :: "string \<Rightarrow> bool" where
  "owner_label s \<longleftrightarrow> 1 \<le> length s \<and> length s \<le> 63
     \<and> list_all (\<lambda>c. is_lower c \<or> is_digit c \<or> c = CHR ''-'') s \<and> hd s \<noteq> CHR ''-'' \<and> last s \<noteq> CHR ''-''"

fun label_wire :: "string list \<Rightarrow> bytes \<Rightarrow> bytes res" where
  "label_wire [] encoded = Inr (encoded @ [0])"
| "label_wire (l # ls) encoded =
     (if \<not> owner_label l then Inl (ValueError ''noncanonical owner label'')
      else label_wire ls (encoded @ word_of_nat (length l) # encode_str l))"

definition owner_wire :: "json \<Rightarrow> bytes res" where
  "owner_wire owner =
     (case jstr owner of
        Some s \<Rightarrow>
          if \<not> endswith s ''.'' \<or> str_len s > 254 then Inl (ValueError ''noncanonical owner'')
          else bindr (label_wire (split_on CHR ''.'' (butlast s)) []) (\<lambda>encoded.
            if length encoded > 255 then Inl (ValueError ''owner too long'') else Inr encoded)
      | None \<Rightarrow> Inl (ValueError ''noncanonical owner''))"

definition ksk_domain :: bytes where
  "ksk_domain = encode_str ''agentdns.ksk.receipt.v1'' @ [0]"

definition ksk_preimage :: "bytes \<Rightarrow> bytes \<Rightarrow> bytes res" where
  "ksk_preimage wire dnskey =
     bindr (to_bytes_be 2 (length wire)) (\<lambda>n. bindr (to_bytes_be 4 (length dnskey)) (\<lambda>m.
       Inr (ksk_domain @ n @ wire @ m @ dnskey)))"

definition ksk_claims_digest :: "json \<Rightarrow> bytes \<Rightarrow> bytes res" where
  "ksk_claims_digest owner dnskey =
     bindr (owner_wire owner) (\<lambda>wire. bindr (ksk_preimage wire dnskey) (\<lambda>m. Inr (digest m)))"

section \<open>Certificates\<close>

datatype pem_arg = Pem_bytes bytes | Pem_value json

definition certificate :: "crypto \<Rightarrow> pem_arg \<Rightarrow> x509 res" where
  "certificate lib arg =
     bindr (case arg of Pem_bytes b \<Rightarrow> bindr (decode_ascii b) (\<lambda>t. Inr (JStr t)) | Pem_value v \<Rightarrow> Inr v) (\<lambda>pem.
       case jstr pem of
         Some t \<Rightarrow>
           if str_len t > 65536 then Inl (ValueError ''invalid certificate'')
           else if \<not> isascii t then Inl (UnicodeError ''ordinal not in range(128)'')
           else load_pem_cert lib (encode_str t)
       | None \<Rightarrow> Inl (ValueError ''invalid certificate''))"

definition endorse :: "crypto \<Rightarrow> x509 \<Rightarrow> x509 \<Rightarrow> unit res" where
  "endorse lib child parent =
     (if \<not> is_ec (x_key parent) then Inl (ValueError ''CCF service must use an EC identity'')
      else if x_issuer child \<noteq> x_subject parent then Inl (ValueError ''CCF certificate issuer mismatch'')
      else key_verify lib (x_key parent) (Ecdsa (x_hash child)) (x_signature child) (x_tbs child))"

text \<open>The loop over the endorsements: the last certificate is the one that the service must endorse.\<close>

fun endorse_chain :: "crypto \<Rightarrow> x509 \<Rightarrow> json list \<Rightarrow> x509 res" where
  "endorse_chain lib current [] = Inr current"
| "endorse_chain lib current (pem # pems) =
     bindr (certificate lib (Pem_value pem)) (\<lambda>parent.
     bindr (endorse lib current parent) (\<lambda>_. endorse_chain lib parent pems))"

section \<open>The Merkle path\<close>

definition merkle_step :: "bytes \<Rightarrow> json \<Rightarrow> bytes res" where
  "merkle_step accumulator step =
     (case jdict step of
        Some d \<Rightarrow>
          if length d \<noteq> 1 then Inl (ValueError ''ambiguous Merkle proof step'')
          else (case map_of d ''left'' of
            Some v \<Rightarrow> bindr (hexbytes v (Some 32)) (\<lambda>h. Inr (digest (h @ accumulator)))
          | None \<Rightarrow>
              (case map_of d ''right'' of
                 Some v \<Rightarrow> bindr (hexbytes v (Some 32)) (\<lambda>h. Inr (digest (accumulator @ h)))
               | None \<Rightarrow> Inl (ValueError ''unknown Merkle proof direction'')))
      | None \<Rightarrow> Inl (ValueError ''ambiguous Merkle proof step''))"

fun merkle_fold :: "bytes \<Rightarrow> json list \<Rightarrow> bytes res" where
  "merkle_fold accumulator [] = Inr accumulator"
| "merkle_fold accumulator (step # steps) =
     bindr (merkle_step accumulator step) (\<lambda>acc. merkle_fold acc steps)"

definition merkle_path :: "bytes \<Rightarrow> json \<Rightarrow> bytes res" where
  "merkle_path accumulator path =
     (case jlist path of
        Some steps \<Rightarrow>
          if length steps > 64 then Inl (ValueError ''invalid Merkle proof path'') else merkle_fold accumulator steps
      | None \<Rightarrow> Inl (ValueError ''invalid Merkle proof path''))"

definition leaf_preimage :: "bytes \<Rightarrow> string \<Rightarrow> bytes \<Rightarrow> bytes" where
  "leaf_preimage write_set evidence claim = write_set @ digest (encode_str evidence) @ claim"

text \<open>The pattern \<open>ce:((?:0|[1-9][0-9]*)\.[1-9][0-9]*):[0-9a-f]{64}\<close>, with its group.\<close>

definition decimal_text :: "string \<Rightarrow> bool" where
  "decimal_text s \<longleftrightarrow> s \<noteq> [] \<and> list_all is_digit s \<and> hd s \<noteq> CHR ''0''"

definition evidence_txid :: "string \<Rightarrow> string option" where
  "evidence_txid s =
     (if \<not> startswith s ''ce:'' then None
      else case partition_at CHR '':'' (drop 3 s) of
        None \<Rightarrow> None
      | Some (txid, nonce) \<Rightarrow>
          (case split_on CHR ''.'' txid of
             [view, seqno] \<Rightarrow>
               if (view = ''0'' \<or> decimal_text view) \<and> decimal_text seqno \<and> length nonce = 64 \<and> list_all is_lower_hex nonce
               then Some txid else None
           | _ \<Rightarrow> None))"

section \<open>The KSK receipt\<close>

definition receipt_zone :: "json dict \<Rightarrow> string option \<Rightarrow> json res" where
  "receipt_zone receipt expected =
     bindr (dict_index receipt ''zone'') (\<lambda>zone.
     bindr (dict_index receipt ''owner_name'') (\<lambda>owner.
       if \<not> py_eq zone owner \<or> (case expected of Some z \<Rightarrow> zone \<noteq> JStr z | None \<Rightarrow> False)
       then Inl (ValueError ''zone/owner mismatch'') else Inr zone))"

definition dnskey_checksum :: "bytes \<Rightarrow> nat" where
  "dnskey_checksum rdata = sum_list (map (\<lambda>(i, b). if even i then unat b * 256 else unat b) (enumerate 0 rdata))"

definition key_tag :: "bytes \<Rightarrow> nat" where
  "key_tag rdata = (let checksum = dnskey_checksum rdata in (checksum + checksum div 2 ^ 16) mod 2 ^ 16)"

definition receipt_key :: "crypto \<Rightarrow> json dict \<Rightarrow> bytes res" where
  "receipt_key lib receipt =
     bindr (dict_index receipt ''dnskey_rdata_hex'') (\<lambda>v.
     bindr (hexbytes v (Some 100)) (\<lambda>rdata.
     bindr (if take 4 rdata \<noteq> [1, 1, 3, 14] then Inr False
            else bindr (dict_index receipt ''algorithm'') (\<lambda>a. Inr (py_eq a (JInt 14)))) (\<lambda>ok.
       if \<not> ok then Inl (ValueError ''requires KSK flags257, protocol3, algorithm14'')
       else bindr (p384_point lib (4 # drop 4 rdata)) (\<lambda>_.
         bindr (dict_index receipt ''key_tag'') (\<lambda>tag.
           if \<not> py_eq tag (JInt (int (key_tag rdata))) then Inl (ValueError ''DNSKEY key tag mismatch'')
           else Inr rdata)))))"

definition receipt_ds :: "json dict \<Rightarrow> bytes \<Rightarrow> bytes \<Rightarrow> bytes res" where
  "receipt_ds receipt wire rdata =
     (let ds = digest (wire @ rdata) in
      bindr (dict_index receipt ''ds_digest'') (\<lambda>obj.
      bindr (jindex obj ''digest_type'') (\<lambda>kind.
      bindr (if \<not> py_eq kind (JInt 2) then Inr False
             else bindr (jindex obj ''digest_hex'') (\<lambda>v. bindr (hexbytes v (Some 32)) (\<lambda>h. Inr (h = ds)))) (\<lambda>ok.
        if ok then Inr ds else Inl (ValueError ''DS does not bind exact owner and DNSKEY RDATA'')))))"

definition same_identity :: "crypto \<Rightarrow> json dict \<Rightarrow> string \<Rightarrow> x509 res" where
  "same_identity lib receipt trusted_pem =
     bindr (certificate lib (Pem_value (JStr trusted_pem))) (\<lambda>trusted.
     bindr (dict_index receipt ''ccf_service_identity'') (\<lambda>v.
     bindr (certificate lib (Pem_value v)) (\<lambda>announced.
       if x_der announced \<noteq> x_der trusted then Inl (ValueError ''receipt CCF identity is not the trusted service'')
       else Inr trusted)))"

definition ksk_evidence :: "json dict \<Rightarrow> json \<Rightarrow> string res" where
  "ksk_evidence receipt leaf =
     bindr (jindex leaf ''commit_evidence'') (\<lambda>v.
       case jstr v of
         Some evidence \<Rightarrow>
           if str_len evidence > 4096 then Inl (ValueError ''invalid commit evidence'')
           else (case evidence_txid evidence of
             Some txid \<Rightarrow>
               bindr (dict_index receipt ''tx_id'') (\<lambda>shown.
                 if shown \<noteq> JStr txid then Inl (ValueError ''transaction ID does not match authenticated commit evidence'')
                 else if list_ex (\<lambda>part. digits_val part \<ge> 2 ^ 64) (split_on CHR ''.'' txid)
                 then Inl (ValueError ''transaction ID exceeds CCF bounds'') else Inr evidence)
           | None \<Rightarrow> Inl (ValueError ''transaction ID does not match authenticated commit evidence''))
       | None \<Rightarrow> Inl (ValueError ''invalid commit evidence''))"

definition ksk_endorsements :: "json \<Rightarrow> json list res" where
  "ksk_endorsements proof =
     bindr (jget proof ''service_endorsements'' (JList [])) (\<lambda>v.
       case jlist v of
         Some es \<Rightarrow> if length es > 16 then Inl (ValueError ''invalid identity endorsement chain'') else Inr es
       | None \<Rightarrow> Inl (ValueError ''invalid identity endorsement chain''))"

text \<open>\<open>base64.b64decode\<close> of a parsed value.\<close>

definition json_b64decode :: "json \<Rightarrow> bytes res" where
  "json_b64decode v = (case jstr v of Some t \<Rightarrow> b64decode t | None \<Rightarrow> Inl (TypeError ''bytes-like object''))"

definition root_signature :: "crypto \<Rightarrow> x509 \<Rightarrow> x509 \<Rightarrow> json list \<Rightarrow> json \<Rightarrow> bytes \<Rightarrow> unit res" where
  "root_signature lib trusted node pems proof merkle_root =
     bindr (endorse_chain lib node pems) (\<lambda>current.
     bindr (endorse lib current trusted) (\<lambda>_.
       if \<not> is_ec (x_key node) then Inl (ValueError ''CCF node must use an EC key'')
       else bindr (jindex proof ''signature'') (\<lambda>v.
         bindr (json_b64decode v) (\<lambda>signature.
           key_verify lib (x_key node) (Ecdsa_prehashed ''sha256'') signature merkle_root))))"

definition ksk_verify :: "crypto \<Rightarrow> json \<Rightarrow> string \<Rightarrow> string option \<Rightarrow> json res" where
  "ksk_verify lib v trusted_pem expected =
     (case jdict v of
        None \<Rightarrow> Inl (ValueError ''receipt object required'')
      | Some receipt \<Rightarrow>
          bindr (receipt_zone receipt expected) (\<lambda>zone.
          bindr (owner_wire zone) (\<lambda>wire.
          bindr (receipt_key lib receipt) (\<lambda>rdata.
          bindr (receipt_ds receipt wire rdata) (\<lambda>ds.
          bindr (same_identity lib receipt trusted_pem) (\<lambda>trusted.
          bindr (dict_index receipt ''proof'') (\<lambda>proof.
          bindr (jindex proof ''leaf_components'') (\<lambda>leaf.
          bindr (ksk_claims_digest zone rdata) (\<lambda>claim.
          bindr (bindr (jindex leaf ''claims_digest'') (\<lambda>c. hexbytes c (Some 32))) (\<lambda>shown.
            if shown \<noteq> claim then Inl (ValueError ''KSK claim mismatch'')
            else
              bindr (ksk_evidence receipt leaf) (\<lambda>evidence.
              bindr (bindr (jindex leaf ''write_set_digest'') (\<lambda>w. hexbytes w (Some 32))) (\<lambda>write_set.
              bindr (jindex proof ''proof'') (\<lambda>path.
              bindr (merkle_path (digest (leaf_preimage write_set evidence claim)) path) (\<lambda>merkle_root.
              bindr (bindr (jindex proof ''cert'') (\<lambda>c. certificate lib (Pem_value c))) (\<lambda>node.
              bindr (ksk_endorsements proof) (\<lambda>pems.
              bindr (root_signature lib trusted node pems proof merkle_root) (\<lambda>_.
              bindr (dict_index receipt ''tx_id'') (\<lambda>tx.
                Inr (JDict [(''zone'', zone), (''key_tag'', JInt (int (key_tag rdata))), (''ds_sha256'', JStr (bytes_hex ds)),
                  (''claims_digest'', JStr (bytes_hex claim)), (''tx_id'', tx)])))))))))))))))))))"

section \<open>Claims receipts\<close>

definition claim_types :: "string list" where
  "claim_types = [''agentdns-anchor-v1'', ''agentdns-appraisal-policy-v1'', ''agentdns-anchors-v1'']"

function claims_walk :: "json \<Rightarrow> string res" where
  "claims_walk JNull = Inr ''null''"
| "claims_walk (JBool b) = Inr (if b then ''true'' else ''false'')"
| "claims_walk (JStr t) = Inr (quote_str t)"
| "claims_walk (JInt i) =
     (if \<bar>i\<bar> > 2 ^ 53 - 1 then Inl (ValueError ''integer outside safe range'') else Inr (int_str i))"
| "claims_walk (JFloat t) = Inl (ValueError ''floats are not permitted in claims'')"
| "claims_walk (JList xs) = bindr (map_res claims_walk xs) (\<lambda>ts. Inr (''['' @ join_with '','' ts @ '']''))"
| "claims_walk (JDict d) =
     bindr (map_res (\<lambda>m. bindr (claims_walk (snd m)) (\<lambda>t. Inr (quote_str (fst m) @ '':'' @ t))) (sort_key fst d))
       (\<lambda>ts. Inr (''{'' @ join_with '','' ts @ ''}''))"
  by pat_completeness auto
termination
proof (relation "measure size")
  show "(x, JList xs) \<in> measure size" if "x \<in> set xs" for x xs
    using size_list_estimation' [OF that, of "size x" size] by simp
  show "(snd m, JDict d) \<in> measure size" if "m \<in> set (sort_key fst d)" for m d
    using size_list_estimation' [of m d "size (snd m)" "size_prod (\<lambda>_. 0) size"] that by (cases m) (simp add: size_char_eq_0)
qed simp

text \<open>\<open>text.encode("utf-8")\<close>, which refuses a lone surrogate.\<close>

definition utf8_encode :: "string \<Rightarrow> bytes res" where
  "utf8_encode t = (if utf8_ok (encode_str t) then Inr (encode_str t) else Inl (UnicodeError ''surrogates not allowed''))"

definition claims_canonical :: "json \<Rightarrow> bytes res" where
  "claims_canonical v = bindr (claims_walk v) utf8_encode"

definition claims_preimage :: "string \<Rightarrow> json \<Rightarrow> bytes res" where
  "claims_preimage kind claims =
     bindr (claims_canonical claims) (\<lambda>c. bindr (to_bytes_be 4 (length c)) (\<lambda>n. Inr (encode_str kind @ [0] @ n @ c)))"

definition claims_digest :: "string \<Rightarrow> json \<Rightarrow> bytes res" where
  "claims_digest kind claims = bindr (claims_preimage kind claims) (\<lambda>m. Inr (digest m))"

definition typed_claims :: "json dict \<Rightarrow> string option \<Rightarrow> (string \<times> json) res" where
  "typed_claims response expected =
     (let claims = (case map_of response ''claims'' of
          Some c \<Rightarrow> c | None \<Rightarrow> (case map_of response ''anchor'' of Some a \<Rightarrow> a | None \<Rightarrow> JNull)) in
      case jdict claims of
        None \<Rightarrow> Inl (ValueError ''response carries no typed claims'')
      | Some d \<Rightarrow>
          (case map_of d ''type'' of
             None \<Rightarrow> Inl (ValueError ''response carries no typed claims'')
           | Some v \<Rightarrow>
               bindr (hashable v) (\<lambda>_.
                 case jstr v of
                   Some kind \<Rightarrow>
                     if kind \<notin> set claim_types \<or> (case expected of Some e \<Rightarrow> e \<noteq> [] \<and> kind \<noteq> e | None \<Rightarrow> False)
                     then Inl (ValueError ''unexpected claims type'') else Inr (kind, claims)
                 | None \<Rightarrow> Inl (ValueError ''unexpected claims type''))))"

definition claims_evidence :: "json dict \<Rightarrow> json \<Rightarrow> string res" where
  "claims_evidence response leaf =
     bindr (jindex leaf ''commit_evidence'') (\<lambda>v.
       let evidence = (case jstr v of Some t \<Rightarrow> t | None \<Rightarrow> []) in
       case evidence_txid evidence of
         Some txid \<Rightarrow>
           if map_of response ''tx_id'' \<noteq> Some (JStr txid)
           then Inl (ValueError ''transaction ID does not match authenticated commit evidence'') else Inr evidence
       | None \<Rightarrow> Inl (ValueError ''transaction ID does not match authenticated commit evidence''))"

definition claims_endorsements :: "json \<Rightarrow> json list res" where
  "claims_endorsements proof =
     bindr (jget proof ''service_endorsements'' (JList [])) (\<lambda>v. if truthy v then jiter v else Inr [])"

definition claims_verify :: "crypto \<Rightarrow> json \<Rightarrow> string \<Rightarrow> string option \<Rightarrow> json res" where
  "claims_verify lib v trusted_pem expected =
     (case jdict v of
        None \<Rightarrow> Inl (ValueError ''response object required'')
      | Some response \<Rightarrow>
          bindr (typed_claims response expected) (\<lambda>(kind, claims).
          bindr (same_identity lib response trusted_pem) (\<lambda>trusted.
          bindr (dict_index response ''proof'') (\<lambda>proof.
          bindr (jindex proof ''leaf_components'') (\<lambda>leaf.
          bindr (claims_digest kind claims) (\<lambda>claim.
          bindr (bindr (jindex leaf ''claims_digest'') (\<lambda>c. hexbytes c (Some 32))) (\<lambda>shown.
            if shown \<noteq> claim then Inl (ValueError ''claims digest mismatch: body claims differ from the receipted leaf'')
            else
              bindr (claims_evidence response leaf) (\<lambda>evidence.
              bindr (bindr (jindex leaf ''write_set_digest'') (\<lambda>w. hexbytes w (Some 32))) (\<lambda>write_set.
              bindr (jindex proof ''proof'') (\<lambda>path.
              bindr (merkle_path (digest (leaf_preimage write_set evidence claim)) path) (\<lambda>merkle_root.
              bindr (bindr (jindex proof ''cert'') (\<lambda>c. certificate lib (Pem_value c))) (\<lambda>node.
              bindr (claims_endorsements proof) (\<lambda>pems.
              bindr (endorse_chain lib node pems) (\<lambda>current.
              bindr (endorse lib current trusted) (\<lambda>_.
              bindr (bindr (jindex proof ''signature'') json_b64decode) (\<lambda>signature.
              bindr (key_verify lib (x_key node) (Ecdsa_prehashed ''sha256'') signature merkle_root) (\<lambda>_.
              bindr (dict_index response ''tx_id'') (\<lambda>tx.
                Inr (JDict [(''type'', JStr kind), (''claims'', claims), (''claims_digest'', JStr (bytes_hex claim)),
                  (''tx_id'', tx)])))))))))))))))))))"

end
