(* ===== verification/Receipt_Laws.thy ===== *)
theory Receipt_Laws
  imports Ksk_Receipt Driver_Wire
begin

text \<open>
  Laws of the receipt verifiers: the wire form of an owner name and its reader in the host driver, the
  key tag, the Merkle path, and what two accepted receipts have in common.
\<close>

section \<open>Owner names on the wire\<close>

definition wire_of :: "string list \<Rightarrow> bytes" where
  "wire_of ls = concat (map (\<lambda>l. word_of_nat (length l) # encode_str l) ls) @ [0]"

lemma label_wire_Inr: "label_wire ls enc = Inr w \<longleftrightarrow> list_all owner_label ls \<and> w = enc @ wire_of ls"
  by (induction ls arbitrary: enc) (auto simp: wire_of_def)

lemma owner_wire_Inr:
  "owner_wire v = Inr w \<longleftrightarrow> (\<exists>s. v = JStr (s @ ''.'') \<and> str_len (s @ ''.'') \<le> 254
     \<and> list_all owner_label (split_on CHR ''.'' s) \<and> w = wire_of (split_on CHR ''.'' s) \<and> length w \<le> 255)"
  (is "?l \<longleftrightarrow> ?r")
proof
  assume ?l
  then show ?r
    by (auto simp: owner_wire_def label_wire_Inr endswith_iff split: option.splits if_splits)
next
  assume ?r
  then show ?l by (auto simp: owner_wire_def label_wire_Inr endswith_iff)
qed

lemma owner_label_read:
  assumes "owner_label l"
  shows "decode_ascii (encode_str l) = Inr l" "lower l = l" "list_all label_char l" "1 \<le> length l" "length l \<le> 63"
proof -
  have c: "list_all (\<lambda>c. is_lower c \<or> is_digit c \<or> c = CHR ''-'') l" using assms by (simp add: owner_label_def)
  then have "isascii l" by (auto simp: isascii_def list_all_iff is_lower_def is_digit_def)
  then show "decode_ascii (encode_str l) = Inr l"
    using bytes_str_encode_str [of l]
    by (auto simp: decode_ascii_def encode_str_def isascii_def list_all_iff word_less_nat_alt)
  show "lower l = l" using c by (induction l) (auto simp: lower_def lower_char_def is_lower_def is_upper_def is_digit_def)
  show "list_all label_char l" using c by (auto simp: list_all_iff label_char_def)
  show "1 \<le> length l" "length l \<le> 63" using assms by (auto simp: owner_label_def)
qed

lemma dns_name_wire:
  assumes "list_all owner_label ls" "length ls < k" "packet = pre @ wire_of ls @ post"
    and "\<forall>o' \<in> set seen. o' < length pre" "length (join_with ''.'' (labels @ ls) @ ''.'') \<le> 255"
  shows "dns_name k packet (length pre) labels seen None
    = Inr (join_with ''.'' (labels @ ls) @ ''.'', length pre + length (wire_of ls))"
  using assms
proof (induction ls arbitrary: k pre labels seen)
  case Nil
  then obtain j where "k = Suc j" by (cases k) auto
  with Nil show ?case by (auto simp: wire_of_def nth_append)
next
  case (Cons l ls)
  then obtain j where k: "k = Suc j" "length ls < j" by (cases k) auto
  note r = owner_label_read [of l]
  have l: "owner_label l" using Cons.prems by simp
  let ?n = "length l"
  have n: "unat (word_of_nat ?n :: byte) = ?n" using r(5) [OF l] by (simp add: unat_of_nat)
  have p: "packet = pre @ (word_of_nat ?n # encode_str l @ wire_of ls) @ post"
    using Cons.prems(3) by (simp add: wire_of_def)
  have at: "packet ! length pre = word_of_nat ?n" unfolding p by (simp add: nth_append)
  have sl: "slice (Suc (length pre)) (Suc (length pre + ?n)) packet = encode_str l"
    unfolding p slice_def by (simp add: drop_append)
  let ?pre = "pre @ word_of_nat ?n # encode_str l"
  have len: "length ?pre = length pre + 1 + ?n" by simp
  have "dns_name j packet (length ?pre) (labels @ [l]) (length pre # seen) None
      = Inr (join_with ''.'' ((labels @ [l]) @ ls) @ ''.'', length ?pre + length (wire_of ls))"
    using Cons.prems k by (intro Cons.IH) (auto simp: p)
  moreover have "length pre \<notin> set seen" using Cons.prems(4) by blast
  moreover have "length pre + 1 + ?n \<le> length packet" unfolding p by simp
  moreover have "?n div 64 = 0" "?n \<noteq> 0" using r(4,5) [OF l] by auto
  moreover have "length (wire_of (l # ls)) = 1 + ?n + length (wire_of ls)" by (simp add: wire_of_def)
  ultimately show ?case
    using r [OF l] unfolding k(1) len by (simp add: at n sl Let_def del: bindr_eq_Inr)
qed

lemma length_wire: "list_all owner_label ls \<Longrightarrow> 2 * length ls < length (wire_of ls)"
  by (induction ls) (auto simp: wire_of_def owner_label_def)

lemma length_wire_join: "ls \<noteq> [] \<Longrightarrow> length (wire_of ls) = length (join_with ''.'' ls) + 2"
proof (induction ls)
  case (Cons l ls)
  then show ?case by (cases ls) (auto simp: wire_of_def join_with_Cons)
qed simp

lemma wire_read:
  assumes "owner_wire (JStr z) = Inr w"
  shows "name_at (pre @ w @ post) (length pre) = Inr (z, length pre + length w)"
proof -
  from assms obtain s where s: "z = s @ ''.''" "list_all owner_label (split_on CHR ''.'' s)"
    "w = wire_of (split_on CHR ''.'' s)" "length w \<le> 255"
    unfolding owner_wire_Inr by auto
  let ?ls = "split_on CHR ''.'' s"
  have j: "join_with ''.'' ?ls = s" using join_split [of "CHR ''.''" s] by simp
  have "length ?ls < 128" using length_wire [OF s(2)] s(3,4) by simp
  moreover have "length (join_with ''.'' ([] @ ?ls) @ ''.'') \<le> 255"
    using length_wire_join [of ?ls] s(3,4) by (simp add: split_on_nonempty)
  ultimately have "dns_name 128 (pre @ w @ post) (length pre) [] [] None
      = Inr (join_with ''.'' ([] @ ?ls) @ ''.'', length pre + length (wire_of ?ls))"
    using s by (intro dns_name_wire) auto
  then show ?thesis using s j by (simp add: name_at_def)
qed

lemma owner_wire_inj: "owner_wire (JStr a) = Inr w \<Longrightarrow> owner_wire (JStr b) = Inr w \<Longrightarrow> a = b"
  using wire_read [of a w "[]" "[]"] wire_read [of b w "[]" "[]"] by simp

section \<open>The key tag\<close>

text \<open>Appendix B of RFC 4034, over 32-bit unsigned integers.\<close>

fun tag_sum :: "nat \<Rightarrow> bytes \<Rightarrow> 32 word \<Rightarrow> 32 word" where
  "tag_sum i [] ac = ac"
| "tag_sum i (b # bs) ac = tag_sum (Suc i) bs (ac + (if even i then push_bit 8 (ucast b) else ucast b))"

definition rfc4034_key_tag :: "bytes \<Rightarrow> 16 word" where
  "rfc4034_key_tag rdata = (let ac = tag_sum 0 rdata 0 in ucast (ac + drop_bit 16 ac))"

lemma tag_sum_unat:
  "unat ac + 65280 * length bs < 2 ^ 32 \<Longrightarrow>
    unat (tag_sum i bs ac) = unat ac + sum_list (map (\<lambda>(j, b). if even j then unat b * 256 else unat b) (enumerate i bs))
    \<and> unat (tag_sum i bs ac) \<le> unat ac + 65280 * length bs"
proof (induction bs arbitrary: i ac)
  case (Cons b bs)
  let ?t = "if even i then push_bit 8 (ucast b) else ucast b :: 32 word"
  have b: "unat b \<le> 255" using unat_byte_less [of b] by linarith
  have small: "unat b mod 4294967296 = unat b" "unat b * 256 mod 4294967296 = unat b * 256"
    using b by (intro mod_less, linarith)+
  have u: "unat ?t = (if even i then unat b * 256 else unat b)"
  proof (cases "even i")
    case True
    have "unat (push_bit 8 (ucast b) :: 32 word) = take_bit 32 (push_bit 8 (unat (ucast b :: 32 word)))"
      by (simp only: unsigned_push_bit_eq) simp
    moreover have "unat (ucast b :: 32 word) = unat b" using small by (simp add: unsigned_ucast_eq take_bit_eq_mod)
    ultimately show ?thesis using True small by (simp add: take_bit_eq_mod push_bit_eq_mult)
  qed (use small in \<open>simp add: unsigned_ucast_eq take_bit_eq_mod\<close>)
  have le: "unat ?t \<le> 65280" unfolding u using b by (cases "even i"; simp only: if_True if_False simp_thms; linarith)
  have s: "unat (ac + ?t) = unat ac + unat ?t"
    using Cons.prems le by (intro unat_add_lem [THEN iffD1]) simp
  have "unat (ac + ?t) + 65280 * length bs < 2 ^ 32" using Cons.prems le s by simp
  from Cons.IH [OF this, of "Suc i"] show ?case using s u le by simp
qed simp

lemma key_tag_words:
  assumes "length rdata \<le> 65535"
  shows "key_tag rdata = unat (rfc4034_key_tag rdata)"
proof -
  let ?ac = "tag_sum 0 rdata 0"
  have "unat (0 :: 32 word) + 65280 * length rdata < 2 ^ 32" using assms by simp
  from tag_sum_unat [OF this, of 0] have ac: "unat ?ac = dnskey_checksum rdata" "unat ?ac \<le> 65280 * 65535"
    using assms by (auto simp: dnskey_checksum_def)
  have d: "unat (drop_bit 16 ?ac) = unat ?ac div 2 ^ 16" using ac(2) by (simp only: unsigned_drop_bit_eq) (simp add: drop_bit_eq_div take_bit_eq_mod)
  have "unat (?ac + drop_bit 16 ?ac) = unat ?ac + unat (drop_bit 16 ?ac)"
    using ac(2) d by (intro unat_add_lem [THEN iffD1]) simp
  then have "unat (rfc4034_key_tag rdata) = (unat ?ac + unat ?ac div 2 ^ 16) mod 2 ^ 16"
    using d by (simp add: rfc4034_key_tag_def Let_def take_bit_eq_mod unsigned_ucast_eq)
  then show ?thesis using ac(1) by (simp add: key_tag_def Let_def)
qed

section \<open>The Merkle path\<close>

text \<open>A step of the path: the side of the sibling and its digest.\<close>

definition turn_of :: "json \<Rightarrow> (bool \<times> bytes) option" where
  "turn_of step =
     (case step of
        JDict [(k, v)] \<Rightarrow>
          (case hexbytes v (Some 32) of
             Inr h \<Rightarrow> if k = ''left'' then Some (True, h) else if k = ''right'' then Some (False, h) else None
           | Inl _ \<Rightarrow> None)
      | _ \<Rightarrow> None)"

definition node_preimage :: "bool \<times> bytes \<Rightarrow> bytes \<Rightarrow> bytes" where
  "node_preimage t acc = (if fst t then snd t @ acc else acc @ snd t)"

fun climb :: "bytes \<Rightarrow> (bool \<times> bytes) list \<Rightarrow> bytes" where
  "climb acc [] = acc"
| "climb acc (t # ts) = climb (digest (node_preimage t acc)) ts"

fun climbed :: "bytes \<Rightarrow> (bool \<times> bytes) list \<Rightarrow> bytes list" where
  "climbed acc [] = []"
| "climbed acc (t # ts) = node_preimage t acc # climbed (digest (node_preimage t acc)) ts"

lemma merkle_step_Inr:
  "merkle_step acc st = Inr r \<longleftrightarrow> (\<exists>t. turn_of st = Some t \<and> r = digest (node_preimage t acc))"
proof (cases "\<exists>k v. st = JDict [(k, v)]")
  case True
  then obtain k v where st: "st = JDict [(k, v)]" by blast
  show ?thesis unfolding st
    by (cases "hexbytes v (Some 32)"; cases "k = ''left''"; cases "k = ''right''")
      (auto simp: merkle_step_def turn_of_def node_preimage_def)
next
  case False
  then have "turn_of st = None" by (auto simp: turn_of_def split: json.splits list.splits)
  moreover have "merkle_step acc st \<noteq> Inr r"
    using False by (cases st) (auto simp: merkle_step_def length_Suc_conv)
  ultimately show ?thesis by simp
qed

lemma merkle_fold_Inr:
  "merkle_fold acc steps = Inr r \<longleftrightarrow> (\<exists>ts. map turn_of steps = map Some ts \<and> r = climb acc ts)"
proof (induction steps arbitrary: acc)
  case (Cons st steps)
  show ?case
    by (auto simp: Cons.IH merkle_step_Inr map_eq_Cons_conv Cons_eq_map_conv)
qed auto

lemma hexbytes_Inr:
  "hexbytes v n = Inr b \<longleftrightarrow> (\<exists>s. v = JStr s \<and> lower_hex_pairs s \<and> b = unhex s \<and> (\<forall>k. n = Some k \<longrightarrow> length b = k))"
  by (cases v) (auto simp: hexbytes_def Let_def split: option.splits)

lemma turn_of_length: "turn_of st = Some t \<Longrightarrow> length (snd t) = 32"
  by (auto simp: turn_of_def hexbytes_Inr split: json.splits list.splits prod.splits sum.splits if_splits)

text \<open>Equal roots over equal directions come from equal leaves, or two of the hashed texts collide.\<close>

lemma climb_inj:
  assumes "map fst ts = map fst us" "\<forall>t \<in> set ts. length (snd t) = 32" "\<forall>t \<in> set us. length (snd t) = 32"
    and "length a = 32" "length b = 32" "climb a ts = climb b us"
  shows "a = b \<or> (\<exists>x \<in> set (climbed a ts). \<exists>y \<in> set (climbed b us). x \<noteq> y \<and> digest x = digest y)"
  using assms
proof (induction ts arbitrary: us a b)
  case Nil
  then show ?case by simp
next
  case (Cons t ts)
  from Cons.prems(1) obtain u us' where us: "us = u # us'" "fst t = fst u" "map fst ts = map fst us'"
    by (cases us) auto
  let ?x = "node_preimage t a" and ?y = "node_preimage u b"
  have "digest ?x = digest ?y \<or>
      (\<exists>x \<in> set (climbed (digest ?x) ts). \<exists>y \<in> set (climbed (digest ?y) us'). x \<noteq> y \<and> digest x = digest y)"
    using Cons.prems us by (intro Cons.IH) (auto simp: digest_def)
  moreover have "?x = ?y \<Longrightarrow> a = b"
    using Cons.prems us by (auto simp: node_preimage_def split: if_splits)
  ultimately show ?case unfolding us(1) by auto
qed

section \<open>What a receipt says\<close>

text \<open>The fields of a receipt that its verifier hashes.\<close>

record receipt_view =
  rv_zone :: string
  rv_key :: bytes
  rv_write_set :: bytes
  rv_evidence :: string
  rv_turns :: "(bool \<times> bytes) list"

definition field_at :: "string list \<Rightarrow> json \<Rightarrow> json option" where
  "field_at keys v = fold (\<lambda>k w. case w of Some (JDict d) \<Rightarrow> map_of d k | _ \<Rightarrow> None) keys (Some v)"

definition views :: "json \<Rightarrow> receipt_view \<Rightarrow> bool" where
  "views v r \<longleftrightarrow>
     field_at [''zone''] v = Some (JStr (rv_zone r))
     \<and> (\<exists>h. field_at [''dnskey_rdata_hex''] v = Some h \<and> hexbytes h (Some 100) = Inr (rv_key r))
     \<and> (\<exists>h. field_at [''proof'', ''leaf_components'', ''write_set_digest''] v = Some h \<and> hexbytes h (Some 32) = Inr (rv_write_set r))
     \<and> field_at [''proof'', ''leaf_components'', ''commit_evidence''] v = Some (JStr (rv_evidence r))
     \<and> (\<exists>steps. field_at [''proof'', ''proof''] v = Some (JList steps) \<and> map turn_of steps = map Some (rv_turns r))"

definition view_claim :: "receipt_view \<Rightarrow> bytes res" where
  "view_claim r = bindr (owner_wire (JStr (rv_zone r))) (\<lambda>wire. ksk_preimage wire (rv_key r))"

definition view_leaf :: "receipt_view \<Rightarrow> bytes \<Rightarrow> bytes" where
  "view_leaf r m = leaf_preimage (rv_write_set r) (rv_evidence r) (digest m)"

definition view_root :: "receipt_view \<Rightarrow> bytes \<Rightarrow> bytes" where
  "view_root r m = climb (digest (view_leaf r m)) (rv_turns r)"

text \<open>The texts that the verifier hashes on the way from the claim to the root.\<close>

definition view_hashed :: "receipt_view \<Rightarrow> bytes \<Rightarrow> bytes list" where
  "view_hashed r m = m # view_leaf r m # climbed (digest (view_leaf r m)) (rv_turns r)"

text \<open>A chain of endorsements from the certificate of a node to the trusted service.\<close>

definition endorsed :: "crypto \<Rightarrow> x509 \<Rightarrow> x509 \<Rightarrow> bool" where
  "endorsed lib = tranclp (\<lambda>child parent. endorse lib child parent = Inr ())"

lemma endorse_chain_Inr:
  "endorse_chain lib a pems = Inr b \<Longrightarrow> endorse lib b c = Inr () \<Longrightarrow> endorsed lib a c"
proof (induction pems arbitrary: a)
  case Nil
  then show ?case by (auto simp: endorsed_def)
next
  case (Cons p ps)
  then obtain q where q: "endorse lib a q = Inr ()" "endorse_chain lib q ps = Inr b" by auto
  from Cons.IH [OF q(2) Cons.prems(2)] q(1) show ?case
    unfolding endorsed_def by (rule tranclp_into_tranclp2 [rotated])
qed

lemma hexbytes_len: "hexbytes v (Some n) = Inr b \<Longrightarrow> length b = n"
  by (auto simp: hexbytes_Inr)

lemma merkle_path_Inr:
  "merkle_path acc path = Inr r \<longleftrightarrow>
    (\<exists>steps ts. path = JList steps \<and> length steps \<le> 64 \<and> map turn_of steps = map Some ts \<and> r = climb acc ts)"
  by (cases path) (auto simp: merkle_path_def merkle_fold_Inr)

lemma turns_length: "map turn_of steps = map Some ts \<Longrightarrow> t \<in> set ts \<Longrightarrow> length (snd t) = 32"
  by (metis (no_types, opaque_lifting) imageE image_eqI list.set_map option.inject turn_of_length)

lemma receipt_zone_Inr:
  "receipt_zone d e = Inr z \<Longrightarrow> map_of d ''zone'' = Some z \<and> (\<forall>x. e = Some x \<longrightarrow> z = JStr x)"
  by (auto simp: receipt_zone_def split: if_splits option.splits)

lemma ksk_evidence_Inr:
  assumes "ksk_evidence d leaf = Inr ev"
  shows "jindex leaf ''commit_evidence'' = Inr (JStr ev)"
    and "\<exists>txid. evidence_txid ev = Some txid \<and> map_of d ''tx_id'' = Some (JStr txid)"
proof -
  from assms obtain x where x: "jindex leaf ''commit_evidence'' = Inr x" by (auto simp: ksk_evidence_def)
  with assms have "\<exists>t txid. x = JStr t \<and> evidence_txid t = Some txid \<and> map_of d ''tx_id'' = Some (JStr txid) \<and> t = ev"
    by (cases x; cases "evidence_txid (the (jstr x))") (auto simp: ksk_evidence_def split: if_splits)
  with x show "jindex leaf ''commit_evidence'' = Inr (JStr ev)"
    "\<exists>txid. evidence_txid ev = Some txid \<and> map_of d ''tx_id'' = Some (JStr txid)" by auto
qed

lemma receipt_key_Inr:
  assumes "receipt_key lib d = Inr rdata"
  shows "\<exists>h. map_of d ''dnskey_rdata_hex'' = Some h \<and> hexbytes h (Some 100) = Inr rdata"
    and "take 4 rdata = [1, 1, 3, 14]" "\<exists>t. map_of d ''key_tag'' = Some t \<and> py_eq t (JInt (int (key_tag rdata)))"
  using assms by (auto simp: receipt_key_def split: if_splits)

lemma ksk_verify_Inr:
  assumes "ksk_verify lib v pem e = Inr out"
  obtains d zone wire rdata ds trusted pf leaf claim evidence w ws path r c node pems where
    "v = JDict d" "receipt_zone d e = Inr zone" "owner_wire zone = Inr wire" "receipt_key lib d = Inr rdata"
    "receipt_ds d wire rdata = Inr ds" "same_identity lib d pem = Inr trusted"
    "map_of d ''proof'' = Some pf" "jindex pf ''leaf_components'' = Inr leaf"
    "ksk_claims_digest zone rdata = Inr claim" "ksk_evidence d leaf = Inr evidence"
    "jindex leaf ''write_set_digest'' = Inr w" "hexbytes w (Some 32) = Inr ws" "jindex pf ''proof'' = Inr path"
    "merkle_path (digest (leaf_preimage ws evidence claim)) path = Inr r"
    "jindex pf ''cert'' = Inr c" "certificate lib (Pem_value c) = Inr node"
    "root_signature lib trusted node pems pf r = Inr ()"
proof -
  obtain d where d: "v = JDict d" using assms by (cases v) (simp_all add: ksk_verify_def)
  show thesis
    using assms unfolding d ksk_verify_def
    by (simp split: if_splits) (elim exE conjE, rule that [OF d], assumption+)
qed

lemma ksk_claims_Inr:
  assumes "ksk_claims_digest zone rdata = Inr claim"
  obtains z wire m where "zone = JStr z" "owner_wire (JStr z) = Inr wire" "ksk_preimage wire rdata = Inr m" "claim = digest m"
  using assms by (auto simp: ksk_claims_digest_def owner_wire_Inr)

lemma ksk_view:
  assumes "ksk_verify lib v pem e = Inr out"
  obtains r m node trusted signature where "views v r" "view_claim r = Inr m" "\<forall>t \<in> set (rv_turns r). length (snd t) = 32"
    "length (rv_write_set r) = 32" "certificate lib (Pem_value (JStr pem)) = Inr trusted" "endorsed lib node trusted"
    "key_verify lib (x_key node) (Ecdsa_prehashed ''sha256'') signature (view_root r m) = Inr ()"
    "\<forall>z. e = Some z \<longrightarrow> rv_zone r = z" "length (rv_key r) = 100"
proof -
  from assms obtain d zone wire rdata ds trusted pf leaf claim evidence w ws path r c node pems where
    a: "v = JDict d" "receipt_zone d e = Inr zone" "owner_wire zone = Inr wire" "receipt_key lib d = Inr rdata"
      "same_identity lib d pem = Inr trusted" "map_of d ''proof'' = Some pf" "jindex pf ''leaf_components'' = Inr leaf"
      "ksk_claims_digest zone rdata = Inr claim" "ksk_evidence d leaf = Inr evidence"
      "jindex leaf ''write_set_digest'' = Inr w" "hexbytes w (Some 32) = Inr ws" "jindex pf ''proof'' = Inr path"
      "merkle_path (digest (leaf_preimage ws evidence claim)) path = Inr r"
      "root_signature lib trusted node pems pf r = Inr ()"
    by (rule ksk_verify_Inr)
  from a(8) obtain z m where z: "zone = JStr z" "owner_wire (JStr z) = Inr wire" "ksk_preimage wire rdata = Inr m" "claim = digest m"
    using a(3) by (auto elim!: ksk_claims_Inr)
  from a(13) obtain steps ts where ts: "path = JList steps" "map turn_of steps = map Some ts"
    "r = climb (digest (leaf_preimage ws evidence claim)) ts"
    unfolding merkle_path_Inr by blast
  let ?r = "\<lparr>rv_zone = z, rv_key = rdata, rv_write_set = ws, rv_evidence = evidence, rv_turns = ts\<rparr>"
  from a(7,10,12) obtain pd ld where pd: "pf = JDict pd" "leaf = JDict ld" "map_of pd ''leaf_components'' = Some leaf"
    "map_of ld ''write_set_digest'' = Some w" "map_of pd ''proof'' = Some path"
    by (auto simp: jindex_Inr)
  have ev: "map_of ld ''commit_evidence'' = Some (JStr evidence)"
    using ksk_evidence_Inr(1) [OF a(9)] pd(2) by (auto simp: jindex_Inr)
  obtain sg where sg: "key_verify lib (x_key node) (Ecdsa_prehashed ''sha256'') sg r = Inr ()"
    using a(14) by (auto simp: root_signature_def split: if_splits)
  show thesis
  proof (rule that)
    show "views v ?r"
      using receipt_zone_Inr [OF a(2)] receipt_key_Inr(1) [OF a(4)] a(1,6,11) pd ev ts(1,2) z(1)
      by (auto simp: views_def field_at_def)
    show "view_claim ?r = Inr m" using z(2,3) by (simp add: view_claim_def)
    show "\<forall>t \<in> set (rv_turns ?r). length (snd t) = 32" using turns_length [OF ts(2)] by simp
    show "length (rv_write_set ?r) = 32" using hexbytes_len [OF a(11)] by simp
    show "certificate lib (Pem_value (JStr pem)) = Inr trusted"
      using a(5) by (auto simp: same_identity_def split: if_splits)
    obtain current where c: "endorse_chain lib node pems = Inr current" "endorse lib current trusted = Inr ()"
      using a(14) by (auto simp: root_signature_def)
    from endorse_chain_Inr [OF this] show "endorsed lib node trusted" .
    show "key_verify lib (x_key node) (Ecdsa_prehashed ''sha256'') sg (view_root ?r m) = Inr ()"
      using sg ts(3) z(4) by (simp add: view_root_def view_leaf_def)
    show "\<forall>z. e = Some z \<longrightarrow> rv_zone ?r = z" using receipt_zone_Inr [OF a(2)] z(1) by auto
    show "length (rv_key ?r) = 100" using receipt_key_Inr(1) [OF a(4)] hexbytes_len by auto
  qed
qed

lemma ksk_preimage_inj:
  assumes "ksk_preimage w a = Inr m" "ksk_preimage w' b = Inr m"
  shows "w = w' \<and> a = b"
proof -
  from assms have l: "length w < 256 ^ 2" "length w' < 256 ^ 2"
    and m: "nat_be 2 (length w) @ w @ nat_be 4 (length a) @ a = nat_be 2 (length w') @ w' @ nat_be 4 (length b) @ b"
    by (auto simp: ksk_preimage_def to_bytes_be_Inr)
  have "nat_be 2 (length w) = nat_be 2 (length w')" using m by (simp add: append_eq_append_conv)
  then have "length w = length w'" using l by (rule nat_be_inj [rotated 2])
  with m show ?thesis by (simp add: append_eq_append_conv)
qed

section \<open>Claims\<close>

lemma insort_key_map_snd: "insort_key fst (map_prod id f x) (map (map_prod id f) xs) = map (map_prod id f) (insort_key fst x xs)"
  by (induction xs) auto

lemma sort_key_map_snd: "sort_key fst (map (map_prod id f) d) = map (map_prod id f) (sort_key fst d)"
  by (induction d) (simp_all add: insort_key_map_snd [unfolded id_def])

lemma claims_walk_print: "claims_walk v = Inr t \<Longrightarrow> t = print_json (sort_json v) \<and> json_exact v"
proof (induction v arbitrary: t rule: json_induct)
  case (JInt i)
  then have "nat \<bar>i\<bar> < 10 ^ 16" "t = int_str i" by (auto split: if_splits)
  with length_nat_str_le [of "nat \<bar>i\<bar>" 16] show ?case by simp
next
  case (JList xs)
  from JList.prems obtain ts where ts: "map_res claims_walk xs = Inr ts" "t = ''['' @ join_with '','' ts @ '']''" by auto
  have each: "claims_walk x = Inr y \<Longrightarrow> x \<in> set xs \<Longrightarrow> y = print_json (sort_json x) \<and> json_exact x" for x y
    using JList.IH by blast
  have "ts = map (print_json \<circ> sort_json) xs \<and> (\<forall>x \<in> set xs. json_exact x)"
    using ts(1) each unfolding map_res_Inr
    by (induction xs ts rule: list_all2_induct) (auto simp: list_all2_Cons1)
  then show ?case using ts(2) by simp
next
  case (JDict d)
  let ?f = "\<lambda>m. bindr (claims_walk (snd m)) (\<lambda>t. Inr (quote_str (fst m) @ '':'' @ t))"
  from JDict.prems obtain ts where ts: "map_res ?f (sort_key fst d) = Inr ts" "t = ''{'' @ join_with '','' ts @ ''}''" by auto
  have each: "?f m = Inr y \<Longrightarrow> m \<in> set d \<Longrightarrow> y = quote_str (fst m) @ '':'' @ print_json (sort_json (snd m)) \<and> json_exact (snd m)" for m y
    using JDict.IH by (cases m) auto
  have "list_all2 (\<lambda>m y. ?f m = Inr y \<and> m \<in> set d) (sort_key fst d) ts"
    using ts(1) unfolding map_res_Inr by (rule list.rel_mono_strong) simp
  then have l: "ts = map (\<lambda>m. quote_str (fst m) @ '':'' @ print_json (sort_json (snd m))) (sort_key fst d)
      \<and> (\<forall>m \<in> set (sort_key fst d). json_exact (snd m))"
    by (induction rule: list_all2_induct) (use each in auto)
  have "sort_json (JDict d) = JDict (map (map_prod id sort_json) (sort_key fst d))"
    by (simp only: sort_json.simps sort_key_map_snd)
  then show ?case using ts(2) l by (auto simp: print_json_JDict comp_def case_prod_unfold)
qed auto

lemma claims_canonical_Inr:
  "claims_canonical v = Inr b \<Longrightarrow> b = encode_str (print_json (sort_json v)) \<and> json_exact v"
  by (auto simp: claims_canonical_def utf8_encode_def dest!: claims_walk_print split: if_splits)

lemma claims_canonical_inj:
  assumes "claims_canonical v = Inr b" "json_wf v" "claims_canonical w = Inr b" "json_wf w"
  shows "sort_json v = sort_json w"
proof -
  let ?d = "max (json_nest v) (json_nest w)"
  have "json_loads_str ?d plain_hooks (print_json (sort_json x)) = Inr (sort_json x)"
    if "claims_canonical x = Inr b" "json_wf x" "json_nest x \<le> ?d" for x
    using claims_canonical_Inr [OF that(1)] that(2,3)
    by (intro plain_json.loads_print json_exact_sort json_wf_sort json_nest_sort_le) auto
  moreover have "print_json (sort_json v) = print_json (sort_json w)"
    using claims_canonical_Inr [OF assms(1)] claims_canonical_Inr [OF assms(3)] by (metis encode_str_inj)
  ultimately show ?thesis using assms by (metis max.cobounded1 max.cobounded2 sum.inject(2))
qed

lemma claims_preimage_Inr:
  "claims_preimage k v = Inr m \<longleftrightarrow>
    (\<exists>c. claims_canonical v = Inr c \<and> length c < 256 ^ 4 \<and> m = encode_str k @ [0] @ nat_be 4 (length c) @ c)"
  by (auto simp: claims_preimage_def to_bytes_be_Inr)

text \<open>The prefixes of the digests: no type is a prefix of another up to its terminator.\<close>

lemma terminated_inj:
  assumes "encode_str a @ 0 # x = encode_str b @ 0 # y" "0 \<notin> set (encode_str a)" "0 \<notin> set (encode_str b)"
  shows "a = b \<and> x = y"
proof -
  have "takeWhile (\<lambda>c. c \<noteq> 0) (encode_str a @ 0 # x) = encode_str a" "takeWhile (\<lambda>c. c \<noteq> 0) (encode_str b @ 0 # y) = encode_str b"
    using assms(2,3) by (auto simp: takeWhile_append takeWhile_eq_all_conv)
  with assms(1) have "encode_str a = encode_str b" by simp
  with assms(1) show ?thesis by (simp add: encode_str_inj)
qed

lemma claim_types_plain: "k \<in> set (''agentdns.ksk.receipt.v1'' # claim_types) \<Longrightarrow> 0 \<notin> set (encode_str k)"
  by (auto simp: claim_types_def encode_str_def)

section \<open>Agreement\<close>

lemma views_lengths:
  assumes "views v r"
  shows "\<forall>t \<in> set (rv_turns r). length (snd t) = 32" "length (rv_write_set r) = 32"
  using assms turns_length hexbytes_len by (auto simp: views_def)

lemma view_claim_inj:
  assumes "view_claim a = Inr m" "view_claim b = Inr m"
  shows "rv_zone a = rv_zone b \<and> rv_key a = rv_key b"
proof -
  from assms obtain w w' where w: "owner_wire (JStr (rv_zone a)) = Inr w" "ksk_preimage w (rv_key a) = Inr m"
    "owner_wire (JStr (rv_zone b)) = Inr w'" "ksk_preimage w' (rv_key b) = Inr m"
    by (auto simp: view_claim_def)
  from ksk_preimage_inj [OF w(2,4)] have k: "w = w'" "rv_key a = rv_key b" by auto
  from owner_wire_inj [OF w(1)] w(3) k show ?thesis by simp
qed

lemma view_leaf_inj:
  assumes "view_leaf a m = view_leaf b n" "length (rv_write_set a) = 32" "length (rv_write_set b) = 32"
  shows "digest m = digest n"
  using assms by (auto simp: view_leaf_def leaf_preimage_def digest_def)

lemma view_agree:
  assumes "view_claim a = Inr m" "view_claim b = Inr n"
    and "\<forall>t \<in> set (rv_turns a). length (snd t) = 32" "\<forall>t \<in> set (rv_turns b). length (snd t) = 32"
    and "length (rv_write_set a) = 32" "length (rv_write_set b) = 32"
    and "map fst (rv_turns a) = map fst (rv_turns b)" "view_root a m = view_root b n"
  shows "rv_zone a = rv_zone b \<and> rv_key a = rv_key b
    \<or> (\<exists>x \<in> set (view_hashed a m). \<exists>y \<in> set (view_hashed b n). x \<noteq> y \<and> digest x = digest y)"
proof -
  let ?P = "\<lambda>x y. x \<noteq> y \<and> digest x = digest y"
  have "digest (view_leaf a m) = digest (view_leaf b n) \<or>
    (\<exists>x \<in> set (climbed (digest (view_leaf a m)) (rv_turns a)). \<exists>y \<in> set (climbed (digest (view_leaf b n)) (rv_turns b)). ?P x y)"
    using assms by (intro climb_inj) (auto simp: view_root_def digest_def)
  then consider (path) x y where "x \<in> set (view_hashed a m)" "y \<in> set (view_hashed b n)" "?P x y"
    | (leaf) "view_leaf a m \<noteq> view_leaf b n" "digest (view_leaf a m) = digest (view_leaf b n)"
    | (same) "view_leaf a m = view_leaf b n"
    unfolding view_hashed_def by auto
  then show ?thesis
  proof cases
    case path
    then show ?thesis by blast
  next
    case leaf
    moreover have "view_leaf a m \<in> set (view_hashed a m)" "view_leaf b n \<in> set (view_hashed b n)"
      by (simp_all add: view_hashed_def)
    ultimately show ?thesis by blast
  next
    case same
    then have d: "digest m = digest n" using view_leaf_inj assms(5,6) by blast
    show ?thesis
    proof (cases "m = n")
      case True
      then show ?thesis using view_claim_inj assms(1,2) by blast
    next
      case False
      moreover have "m \<in> set (view_hashed a m)" "n \<in> set (view_hashed b n)" by (simp_all add: view_hashed_def)
      ultimately show ?thesis using d by blast
    qed
  qed
qed

section \<open>Properties\<close>


text \<open>A receipt for the zone \<open>a.\<close> under a library that accepts every signature.\<close>

definition sample_x509 :: x509 where
  "sample_x509 = \<lparr>x_der = [1], x_pem = [2], x_key = Ec_key P384 [3], x_issuer = ''CN=ccf'', x_subject = ''CN=ccf'', x_tbs = [4],
     x_signature = [5], x_hash = ''sha384'', x_not_before = 0, x_not_after = 100, x_ekus = None, x_digital_signature = None,
     x_ca = None, x_dns_names = None\<rparr>"

definition sample_crypto :: crypto where
  "sample_crypto = \<lparr>load_pem_cert = (\<lambda>_. Inr sample_x509), load_der_cert = (\<lambda>_. Inr sample_x509),
     load_pem_key = (\<lambda>_. Inr (Ec_key P384 [3])), load_der_key = (\<lambda>_. Inr (Ec_key P384 [3])),
     key_verify = (\<lambda>_ _ _ _. Inr ()), directly_issued = (\<lambda>_ _. Inr ()), p384_point = (\<lambda>_. Inr ()), encode_dss = (\<lambda>_ _. [])\<rparr>"

definition sample_rdata :: bytes where
  "sample_rdata = [1, 1, 3, 14] @ replicate 96 0"

definition sample_ksk_claim :: bytes where
  "sample_ksk_claim = digest (ksk_domain @ nat_be 2 3 @ [1, 97, 0] @ nat_be 4 100 @ sample_rdata)"

definition hex_json :: "bytes \<Rightarrow> json" where
  "hex_json b = JStr (bytes_hex b)"

definition sample_leaf :: json where
  "sample_leaf = JDict [(''claims_digest'', hex_json sample_ksk_claim),
     (''commit_evidence'', JStr (''ce:2.7:'' @ replicate 64 (CHR ''0''))), (''write_set_digest'', hex_json (replicate 32 0))]"

definition sample_proof :: json where
  "sample_proof = JDict [(''leaf_components'', sample_leaf), (''proof'', JList [JDict [(''left'', hex_json (replicate 32 1))]]),
     (''cert'', JStr ''node''), (''signature'', JStr ''AAAA'')]"

definition receipt_fields :: "json dict" where
  "receipt_fields = [(''zone'', JStr ''a.''), (''owner_name'', JStr ''a.''), (''dnskey_rdata_hex'', hex_json sample_rdata),
     (''algorithm'', JInt 14), (''key_tag'', JInt 1039),
     (''ds_digest'', JDict [(''digest_type'', JInt 2), (''digest_hex'', hex_json (digest ([1, 97, 0] @ sample_rdata)))]),
     (''ccf_service_identity'', JStr ''pem''), (''tx_id'', JStr ''2.7''), (''proof'', sample_proof)]"

lemma hexbytes_hex_json: "b \<noteq> [] \<Longrightarrow> n = length b \<Longrightarrow> hexbytes (hex_json b) (Some n) = Inr b"
  by (auto simp: hexbytes_Inr hex_json_def lower_hex_pairs_def unhex_bytes_hex bytes_hex_lower neq_Nil_conv)

lemma sample_txid: "evidence_txid (''ce:2.7:'' @ replicate 64 (CHR ''0'')) = Some ''2.7''"
  by (simp add: evidence_txid_def startswith_def decimal_text_def is_digit_def is_lower_hex_def list_all_iff)

lemma sample_lengths: "length sample_rdata = 100" "length sample_ksk_claim = 32" "length (digest b) = 32"
  by (simp_all add: sample_rdata_def sample_ksk_claim_def digest_def)

lemma sample_nonempty: "sample_rdata \<noteq> []" "sample_ksk_claim \<noteq> []" "digest b \<noteq> []"
  using sample_lengths by (metis list.size(3) zero_neq_numeral)+

lemma sample_key_tag: "key_tag sample_rdata = 1039"
proof -
  let ?f = "\<lambda>(i, b :: byte). if even i then unat b * 256 else unat b"
  have zero: "sum_list (map ?f (enumerate k (replicate n 0))) = 0" for k n
  proof -
    have "map ?f (enumerate k (replicate n 0)) = map (\<lambda>_. 0) (enumerate k (replicate n (0 :: byte)))"
      by (rule map_cong) (auto simp: in_set_enumerate_eq)
    then show ?thesis by (simp only: sum_list_0)
  qed
  have "dnskey_checksum sample_rdata = 1039"
    unfolding dnskey_checksum_def sample_rdata_def enumerate_append_eq map_append sum_list_append zero by simp
  then show ?thesis by (simp add: key_tag_def)
qed

lemma sample_wire: "owner_wire (JStr ''a.'') = Inr [1, 97, 0]"
  by (simp add: owner_wire_def endswith_def str_len_def owner_label_def is_lower_def is_digit_def encode_str_def)

lemma sample_stages:
  "receipt_zone receipt_fields (Some ''a.'') = Inr (JStr ''a.'')"
  "receipt_key sample_crypto receipt_fields = Inr sample_rdata"
  "receipt_ds receipt_fields [1, 97, 0] sample_rdata = Inr (digest ([1, 97, 0] @ sample_rdata))"
  "same_identity sample_crypto receipt_fields ''pem'' = Inr sample_x509"
  "ksk_claims_digest (JStr ''a.'') sample_rdata = Inr sample_ksk_claim"
  "ksk_evidence receipt_fields sample_leaf = Inr (''ce:2.7:'' @ replicate 64 (CHR ''0''))"
  "\<exists>r. merkle_path acc (JList [JDict [(''left'', hex_json (replicate 32 1))]]) = Inr r"
  "ksk_endorsements sample_proof = Inr []"
  "certificate sample_crypto (Pem_value (JStr ''node'')) = Inr sample_x509"
  "root_signature sample_crypto sample_x509 sample_x509 [] sample_proof r = Inr ()"
  "dict_index receipt_fields ''proof'' = Inr sample_proof" "dict_index receipt_fields ''tx_id'' = Inr (JStr ''2.7'')"
  "jindex sample_proof ''leaf_components'' = Inr sample_leaf"
  "jindex sample_leaf ''claims_digest'' = Inr (hex_json sample_ksk_claim)"
  "jindex sample_leaf ''write_set_digest'' = Inr (hex_json (replicate 32 0))"
  "jindex sample_proof ''proof'' = Inr (JList [JDict [(''left'', hex_json (replicate 32 1))]])"
  "jindex sample_proof ''cert'' = Inr (JStr ''node'')"
proof -
  show "receipt_zone receipt_fields (Some ''a.'') = Inr (JStr ''a.'')" by (simp add: receipt_zone_def receipt_fields_def)
  show "receipt_key sample_crypto receipt_fields = Inr sample_rdata"
    using sample_lengths(1) sample_nonempty(1)
    by (simp add: receipt_key_def receipt_fields_def hexbytes_hex_json sample_key_tag sample_crypto_def dict_index_def del: bindr_eq_Inr)
      (simp add: sample_rdata_def)
  show "receipt_ds receipt_fields [1, 97, 0] sample_rdata = Inr (digest ([1, 97, 0] @ sample_rdata))"
    using sample_lengths(3) sample_nonempty(3)
    by (simp add: receipt_ds_def receipt_fields_def jindex_def dict_index_def hexbytes_hex_json Let_def del: bindr_eq_Inr)
  show "same_identity sample_crypto receipt_fields ''pem'' = Inr sample_x509" "certificate sample_crypto (Pem_value (JStr ''node'')) = Inr sample_x509"
    by (simp_all add: same_identity_def certificate_def receipt_fields_def str_len_def isascii_def sample_crypto_def)
  show "ksk_claims_digest (JStr ''a.'') sample_rdata = Inr sample_ksk_claim"
    by (simp add: ksk_claims_digest_def sample_wire ksk_preimage_def to_bytes_be_def sample_lengths sample_ksk_claim_def flip: numeral_3_eq_3)
  show "ksk_evidence receipt_fields sample_leaf = Inr (''ce:2.7:'' @ replicate 64 (CHR ''0''))"
    using sample_txid by (simp add: ksk_evidence_def receipt_fields_def sample_leaf_def jindex_def str_len_def digits_val_def digit_val_def)
  show "\<exists>r. merkle_path acc (JList [JDict [(''left'', hex_json (replicate 32 1))]]) = Inr r"
    by (simp add: merkle_path_def merkle_step_def hexbytes_hex_json)
  show "root_signature sample_crypto sample_x509 sample_x509 [] sample_proof r = Inr ()"
    by (simp add: root_signature_def endorse_def sample_x509_def sample_crypto_def sample_proof_def jindex_def json_b64decode_def
        b64decode_def b64_val_def is_upper_def)
qed (simp_all add: receipt_fields_def sample_proof_def sample_leaf_def jindex_def ksk_endorsements_def jget_def)

lemma sample_accepted: "\<exists>out. ksk_verify sample_crypto (JDict receipt_fields) ''pem'' (Some ''a.'') = Inr out"
proof -
  obtain r where r: "merkle_path (digest (leaf_preimage (replicate 32 0) (''ce:2.7:'' @ replicate 64 (CHR ''0'')) sample_ksk_claim))
      (JList [JDict [(''left'', hex_json (replicate 32 1))]]) = Inr r"
    using sample_stages(7) by blast
  have h: "hexbytes (hex_json sample_ksk_claim) (Some 32) = Inr sample_ksk_claim"
    "hexbytes (hex_json (replicate 32 0)) (Some 32) = Inr (replicate 32 0)"
    using sample_lengths(2) sample_nonempty(2) by (simp_all add: hexbytes_hex_json)
  show ?thesis
    unfolding ksk_verify_def jdict.simps option.case sample_stages(1-6) sample_wire bindr.simps sample_stages(8-) h r
      if_False HOL.simp_thms
    by simp
qed


text \<open>The owner names in the claims are the names that the DNS reader of the host driver reads. What
  \<open>owner_wire\<close> writes, \<open>name\<close> in \<open>host_driver.py\<close> reads back at any offset of a message, as the same
  name and with the offset after it; its 128 rounds suffice for every name that \<open>owner_wire\<close> accepts.\<close>

theorem owner_wire_read:
  assumes "owner_wire (JStr zone) = Inr wire"
  shows "name_at (before @ wire @ after) (length before) = Inr (zone, length before + length wire)"
  by (rule wire_read [OF assms])

theorem owner_wire_read_witness:
  "name_at ([7] @ [3, 109, 120, 49, 4, 116, 101, 115, 116, 0] @ [9]) 1 = Inr (''mx1.test.'', 11)"
proof -
  have "owner_wire (JStr ''mx1.test.'') = Inr [3, 109, 120, 49, 4, 116, 101, 115, 116, 0]"
    by (simp add: owner_wire_def endswith_def str_len_def owner_label_def is_lower_def is_digit_def encode_str_def)
  from owner_wire_read [OF this, of "[7]" "[9]"] show ?thesis by simp
qed

text \<open>The key tag is the one of RFC 4034. For every RDATA of a DNS record the sum over unbounded
  integers and its folding give the 16-bit tag that the reference algorithm computes over 32-bit
  unsigned integers.\<close>

theorem key_tag_rfc4034:
  assumes "length rdata \<le> 65535"
  shows "key_tag rdata = unat (rfc4034_key_tag rdata)"
  by (rule key_tag_words [OF assms])

theorem key_tag_rfc4034_witness: "key_tag [1, 1, 3, 14] = unat (rfc4034_key_tag [1, 1, 3, 14])"
  by (rule key_tag_rfc4034) simp

text \<open>(C26) A digest of claims stands for one type and one value. Two typed claims with the same hashed
  text have the same type and the same value up to the order of keys, and no such text is one that a KSK
  receipt hashes.\<close>

theorem claims_preimage_separate:
  assumes "claims_preimage kind claims = Inr m" "kind \<in> set claim_types" "json_wf claims"
  shows "(\<forall>kind' claims'. claims_preimage kind' claims' = Inr m \<and> kind' \<in> set claim_types \<and> json_wf claims' \<longrightarrow>
      kind' = kind \<and> sort_json claims' = sort_json claims) \<and> (\<forall>wire key. ksk_preimage wire key \<noteq> Inr m)"
proof -
  have plain: "0 \<notin> set (encode_str kind)" using claim_types_plain [of kind] assms(2) by simp
  from assms(1) obtain c where c: "claims_canonical claims = Inr c" "length c < 256 ^ 4"
    "m = encode_str kind @ 0 # nat_be 4 (length c) @ c"
    by (auto simp: claims_preimage_Inr)
  have "kind' = kind \<and> sort_json claims' = sort_json claims"
    if k: "claims_preimage kind' claims' = Inr m" "kind' \<in> set claim_types" "json_wf claims'" for kind' claims'
  proof -
    from k(1) obtain c' where c': "claims_canonical claims' = Inr c'" "m = encode_str kind' @ 0 # nat_be 4 (length c') @ c'"
      by (auto simp: claims_preimage_Inr)
    have "kind' = kind \<and> nat_be 4 (length c') @ c' = nat_be 4 (length c) @ c"
      using c(3) c'(2) plain claim_types_plain [of kind'] k(2) by (intro terminated_inj) auto
    then show ?thesis using claims_canonical_inj [OF c'(1) k(3)] c(1) assms(3) by auto
  qed
  moreover have "ksk_preimage wire key \<noteq> Inr m" for wire key
  proof
    assume "ksk_preimage wire key = Inr m"
    then obtain n k where "m = ksk_domain @ n @ wire @ k @ key" by (auto simp: ksk_preimage_def)
    then have eq: "encode_str ''agentdns.ksk.receipt.v1'' @ 0 # (n @ wire @ k @ key) = encode_str kind @ 0 # nat_be 4 (length c) @ c"
      using c(3) unfolding ksk_domain_def by (simp only: append_assoc append.simps)
    have "0 \<notin> set (encode_str ''agentdns.ksk.receipt.v1'')" by (rule claim_types_plain) (rule list.set_intros)
    from terminated_inj [OF eq this plain] have "''agentdns.ksk.receipt.v1'' = kind" by (rule conjunct1)
    then show False using assms(2) by (auto simp: claim_types_def)
  qed
  ultimately show ?thesis by blast
qed

theorem claims_preimage_separate_witness:
  "\<forall>wire key. ksk_preimage wire key \<noteq> claims_preimage ''agentdns-anchor-v1'' (JList [])"
proof -
  have c: "claims_preimage ''agentdns-anchor-v1'' (JList []) = Inr (encode_str ''agentdns-anchor-v1'' @ [0] @ nat_be 4 2 @ [91, 93])"
    by (simp add: claims_preimage_def claims_canonical_def utf8_encode_def to_bytes_be_def encode_str_def flip: numeral_2_eq_2)
  have "''agentdns-anchor-v1'' \<in> set claim_types" unfolding claim_types_def by (rule list.set_intros)
  from claims_preimage_separate [OF c this] show ?thesis unfolding c by simp
qed

end
