(* ===== verification/Control_Client.thy ===== *)
theory Control_Client
  imports Supervisor_Http Json_Access
begin

text \<open>
  The operators' clients of a CCF service: the bounded HTTP helpers of \<open>tools/http_limits.py\<close>, the
  pinned client and the member governance of \<open>tools/ccf_control.py\<close>. The COSE signer of the \<open>ccf\<close>
  package and the member certificate are parameters.
\<close>

section \<open>Bounded HTTP\<close>

definition http_late :: exn where
  "http_late = TimeoutError ''HTTP request deadline exceeded''"

definition socket_deadline :: "clock \<Rightarrow> real \<Rightarrow> ('z net_scheme, 'a) act \<Rightarrow> ('z net_scheme, 'a) act" where
  "socket_deadline clk deadline body = with_deadline clk http_late deadline body"

function http_body_loop :: "clock \<Rightarrow> nat \<Rightarrow> real \<Rightarrow> bytes \<Rightarrow> ('z net_scheme, bytes) act" where
  "http_body_loop clk maximum deadline data s =
     (if length data \<le> maximum then
        let (t, s1) = now clk s in
        if t \<ge> deadline then (Inl (TimeoutError ''HTTP response deadline exceeded''), s1)
        else case recv (min 65536 (maximum + 1 - length data)) s1 of
          (Inl e, s2) \<Rightarrow> (Inl e, s2)
        | (Inr chunk, s2) \<Rightarrow>
            if chunk = [] then (Inr data, s2) else http_body_loop clk maximum deadline (data @ chunk) s2
      else (Inl (ValueError ''HTTP response exceeds byte bound''), s))"
  by pat_completeness auto
termination
  by (relation "measure (\<lambda>(_, maximum, _, data, _). maximum + 1 - length data)") (auto simp: neq_Nil_conv)

declare http_body_loop.simps [simp del]

interpretation http_reader: bounded_reader clk maximum deadline "TimeoutError ''HTTP response deadline exceeded''"
  "ValueError ''HTTP response exceeds byte bound''" "http_body_loop clk maximum deadline" for clk maximum deadline
  by unfold_locales
    (subst http_body_loop.simps, auto simp: http_body_loop.simps [of clk maximum deadline "_ @ _"] Let_def split: prod.splits sum.splits)

definition http_read_bounded :: "clock \<Rightarrow> nat \<Rightarrow> real \<Rightarrow> ('z net_scheme, bytes) act" where
  "http_read_bounded clk maximum deadline = http_body_loop clk maximum deadline []"

section \<open>The client\<close>

record ccf_client =
  cl_host :: string
  cl_port :: nat
  cl_ip :: string

text \<open>The test of every client of the tools: an HTTPS origin.\<close>

definition https_origin :: "url_parts \<Rightarrow> bool" where
  "https_origin u \<longleftrightarrow> url_scheme u = ''https'' \<and> url_hostname u \<noteq> None \<and> url_path u \<in> {[], ''/''} \<and> \<not> url_extras u"

definition origin_port :: "url_parts \<Rightarrow> nat res" where
  "origin_port u = bindr (url_port u) (\<lambda>p. Inr (case p of None \<Rightarrow> 443 | Some n \<Rightarrow> if n = 0 then 443 else n))"

definition origin_host :: "url_parts \<Rightarrow> string" where
  "origin_host u = (case url_hostname u of Some h \<Rightarrow> h | None \<Rightarrow> [])"

text \<open>\<open>trust\<close> is the outcome of loading the service certificate as the only trusted root.\<close>

definition client_init :: "unit res \<Rightarrow> string \<Rightarrow> string option \<Rightarrow> ccf_client res" where
  "client_init trust url connect_ip =
     bindr (urlsplit url) (\<lambda>parsed.
       if \<not> https_origin parsed then Inl (ValueError ''CCF URL must be a TLS origin'')
       else
         bindr (origin_port parsed) (\<lambda>port.
         bindr (case connect_ip of
             Some t \<Rightarrow> if t = [] then Inr (origin_host parsed) else bindr (ip_address t) (\<lambda>ip. Inr (ip_str ip))
           | None \<Rightarrow> Inr (origin_host parsed)) (\<lambda>ip.
         bindr trust (\<lambda>_. Inr \<lparr>cl_host = origin_host parsed, cl_port = port, cl_ip = ip\<rparr>))))"

datatype ccf_body = No_body | Raw_body bytes | Json_body json

definition ccf_body_bytes :: "ccf_body \<Rightarrow> bytes option" where
  "ccf_body_bytes body =
     (case body of No_body \<Rightarrow> None | Raw_body b \<Rightarrow> Some b | Json_body v \<Rightarrow> Some (encode_str (dumps quote_ascii '','' '':'' v)))"

definition request_path :: "string \<Rightarrow> bool" where
  "request_path path \<longleftrightarrow> str_len path \<le> 8192 \<and> startswith path ''/'' \<and> \<not> startswith path ''//''
     \<and> list_all (\<lambda>c. 32 < ord c \<and> ord c < 127) path"

definition commitment_headers :: "string set" where
  "commitment_headers = {''x-ms-ccf-transaction-id'', ''x-agentdns-transaction-id'', ''x-agentdns-commit-status''}"

fun client_headers :: "(string \<times> string) list \<Rightarrow> string dict \<Rightarrow> string dict res" where
  "client_headers [] headers = Inr headers"
| "client_headers ((key, v) # rest) headers =
     (if has_key (lower key) headers \<and> lower key \<in> commitment_headers
      then Inl (ValueError ''duplicate CCF commitment header'')
      else client_headers rest (AList.update (lower key) v headers))"

record ccf_response =
  cr_status :: int
  cr_headers :: "string dict"
  cr_body :: json
  cr_confirmed :: "string option"

definition response_json :: "nat \<Rightarrow> bytes \<Rightarrow> json res" where
  "response_json depth data =
     (if data = [] then Inr JNull
      else case json_loads depth plain_hooks data of
        Inr v \<Rightarrow> Inr v
      | Inl e \<Rightarrow> if is_ValueError e then Inr (JDict [(''non_json_sha256'', JStr (sha256_hex data))]) else Inl e)"

definition client_rq :: "ccf_client \<Rightarrow> string \<Rightarrow> string \<Rightarrow> bytes option \<Rightarrow> string \<Rightarrow> http_request" where
  "client_rq cl verb path body content_type =
     \<lparr>rq_host = cl_host cl, rq_port = cl_port cl, rq_method = verb, rq_path = path,
      rq_body = (case body of Some b \<Rightarrow> b | None \<Rightarrow> []), rq_headers = [(''Content-Type'', content_type)]\<rparr>"

definition client_receive :: "nat \<Rightarrow> clock \<Rightarrow> real \<Rightarrow> http_reply \<Rightarrow> ('z net_scheme, ccf_response) act" where
  "client_receive depth clk deadline response =
     bind_act (http_read_bounded clk (4 * 1024 * 1024) deadline) (\<lambda>data.
     bind_act (lift_res (client_headers (reply_headers response) [])) (\<lambda>headers.
     bind_act (lift_res (response_json depth data)) (\<lambda>v.
       ret_act \<lparr>cr_status = reply_status response, cr_headers = headers, cr_body = v, cr_confirmed = None\<rparr>)))"

definition client_send ::
    "nat \<Rightarrow> clock \<Rightarrow> real \<Rightarrow> http_request \<Rightarrow> ('z web_scheme, ccf_response) act" where
  "client_send depth clk deadline rq =
     own_connection (
       bind_act create_connection (\<lambda>a s.
         let (t, s1) = now clk s in
         bind_act (lift_res (at_handshake a)) (\<lambda>_.
           socket_deadline clk deadline (bind_act (http_exchange a rq) (client_receive depth clk deadline)))
         (settimeout (max (1 / 1000) (deadline - t)) s1)))"

definition client_request ::
    "nat \<Rightarrow> clock \<Rightarrow> ccf_client \<Rightarrow> string \<Rightarrow> string \<Rightarrow> ccf_body \<Rightarrow> string \<Rightarrow> real option \<Rightarrow> ('z web_scheme, ccf_response) act" where
  "client_request depth clk cl verb path body content_type limit s =
     (if \<not> request_path path then (Inl (ValueError ''relative ASCII absolute-path request required''), s)
      else if (case ccf_body_bytes body of Some b \<Rightarrow> length b > 4 * 1024 * 1024 | None \<Rightarrow> False)
      then (Inl (ValueError ''CCF request exceeds bound''), s)
      else
        let (t, s1) = now clk s;
            deadline = (case limit of Some d \<Rightarrow> min d (t + 30) | None \<Rightarrow> t + 30);
            (t', s2) = now clk s1 in
        if deadline - t' \<le> 0 then (Inl (TimeoutError ''CCF request deadline exceeded''), s2)
        else client_send depth clk deadline (client_rq cl verb path (ccf_body_bytes body) content_type) s2)"

section \<open>Commitment\<close>

definition response_txid :: "ccf_response \<Rightarrow> string res" where
  "response_txid response =
     (let body_txid = (case jdict (cr_body response) of
            Some d \<Rightarrow> (case map_of d ''tx_id'' of Some v \<Rightarrow> v | None \<Rightarrow> JNull) | None \<Rightarrow> JNull);
          application = (case map_of (cr_headers response) ''x-agentdns-transaction-id'' of Some h \<Rightarrow> JStr h | None \<Rightarrow> JNull);
          framework = (case map_of (cr_headers response) ''x-ms-ccf-transaction-id'' of Some h \<Rightarrow> JStr h | None \<Rightarrow> JNull) in
      if truthy body_txid \<and> truthy application \<and> \<not> py_eq body_txid application
      then Inl (ValueError ''CCF body and application transaction IDs disagree'')
      else
        let txid = (if truthy body_txid then body_txid else if truthy application then application else framework) in
        if canonical_transaction (jstr txid) then Inr (case jstr txid of Some t \<Rightarrow> t | None \<Rightarrow> [])
        else Inl (ValueError ''CCF response omitted a canonical transaction ID''))"

datatype tx_poll = Tx_committed | Tx_again

definition transaction_status :: "string \<Rightarrow> ccf_response \<Rightarrow> tx_poll res" where
  "transaction_status txid state =
     (case jdict (cr_body state) of
        Some d \<Rightarrow>
          if cr_status state \<noteq> 200 \<or> map_of d ''transaction_id'' \<noteq> Some (JStr txid)
          then Inl (ValueError ''invalid CCF transaction-status response'')
          else if map_of d ''status'' = Some (JStr ''Committed'') then Inr Tx_committed
          else if map_of d ''status'' = Some (JStr ''Invalid'') then Inl (ValueError ''CCF transaction rolled back'')
          else if map_of d ''status'' \<notin> {Some (JStr ''Unknown''), Some (JStr ''Pending'')}
          then Inl (ValueError ''unknown CCF transaction status'')
          else Inr Tx_again
      | None \<Rightarrow> Inl (ValueError ''invalid CCF transaction-status response''))"

definition poll_status :: "nat \<Rightarrow> clock \<Rightarrow> ccf_client \<Rightarrow> string \<Rightarrow> real \<Rightarrow> ('z web_scheme, tx_poll) act" where
  "poll_status depth clk cl txid deadline =
     bind_act (client_request depth clk cl ''GET'' (''/node/tx?transaction_id='' @ txid) No_body ''application/json'' (Some deadline))
       (\<lambda>state. lift_res (transaction_status txid state))"

text \<open>What a successful exchange consumed: one attempt whose whole body was read.\<close>

definition answered :: "nat \<Rightarrow> attempt \<Rightarrow> ccf_response \<Rightarrow> bool" where
  "answered depth a response \<longleftrightarrow> at_connect a = Inr () \<and> at_handshake a = Inr () \<and>
     (\<exists>reply. at_reply a = Inr reply \<and> rx_closed (reply_body reply) \<and> length (rx_data (reply_body reply)) \<le> 4 * 1024 * 1024
        \<and> cr_status response = reply_status reply \<and> client_headers (reply_headers reply) [] = Inr (cr_headers response)
        \<and> response_json depth (rx_data (reply_body reply)) = Inr (cr_body response) \<and> cr_confirmed response = None)"

lemma http_read_bounded_Inr:
  fixes s :: "'z net_scheme"
  assumes "http_read_bounded clk maximum deadline s = (Inr d, s')"
  shows "d = rx_data (inbox s)" "rx_closed (inbox s)" "length d \<le> maximum" "\<exists>n q. s' = s\<lparr>ticks := n, inbox := q\<rparr>"
  using http_reader.loop_result [of "[]" maximum clk deadline s d s'] http_reader.loop_frame [of "[]" maximum clk deadline s "Inr d" s']
    assms by (auto simp: http_read_bounded_def)

lemma exchange_receive_Inr:
  fixes s :: "'z web_scheme"
  assumes "bind_act (http_exchange a rq) (client_receive depth clk deadline) s = (Inr response, s')"
    and "at_connect a = Inr ()" "at_handshake a = Inr ()"
  shows "answered depth a response" "requests s' = requests s @ [rq]" "attempts s' = attempts s"
proof -
  from assms(1) obtain reply data headers v s1 where r: "at_reply a = Inr reply"
    and d: "http_read_bounded clk (4 * 1024 * 1024) deadline (s\<lparr>requests := requests s @ [rq], inbox := reply_body reply\<rparr>) = (Inr data, s1)"
    and h: "client_headers (reply_headers reply) [] = Inr headers" and v: "response_json depth data = Inr v"
    and out: "s' = s1" "response = \<lparr>cr_status = reply_status reply, cr_headers = headers, cr_body = v, cr_confirmed = None\<rparr>"
    by (auto simp: http_exchange_def client_receive_def Let_def eq_commute [of "Inr _" "client_headers _ _"]
        eq_commute [of "Inr _" "response_json _ _"] split: sum.splits)
  note b = http_read_bounded_Inr [OF d]
  show "answered depth a response" using r b(1-3) h v out assms(2,3) by (auto simp: answered_def)
  show "requests s' = requests s @ [rq]" "attempts s' = attempts s" using b(4) out by auto
qed

lemma client_request_Inr:
  fixes s :: "'z web_scheme"
  assumes "client_request depth clk cl verb path body content_type limit s = (Inr response, s')"
  obtains a where "attempts s = a # attempts s'" "answered depth a response"
    "requests s' = requests s @ [client_rq cl verb path (ccf_body_bytes body) content_type]" "request_path path"
proof -
  let ?rq = "client_rq cl verb path (ccf_body_bytes body) content_type"
  let ?s = "s\<lparr>ticks := Suc (Suc (ticks s))\<rparr>"
  from assms obtain deadline where path: "request_path path" and sent: "client_send depth clk deadline ?rq ?s = (Inr response, s')"
    by (auto simp: client_request_def now_def Let_def split: if_splits)
  from sent obtain s4 a s1 where a: "create_connection ?s = (Inr a, s1)"
    and x: "bind_act (lift_res (at_handshake a)) (\<lambda>_.
        socket_deadline clk deadline (bind_act (http_exchange a ?rq) (client_receive depth clk deadline)))
        (settimeout (max (1 / 1000) (deadline - clk (ticks s1))) (s1\<lparr>ticks := Suc (ticks s1)\<rparr>)) = (Inr response, s4)"
    and s': "s' = s4\<lparr>inbox := inbox ?s, sock_timeout := sock_timeout ?s\<rparr>"
    by (auto simp: client_send_def own_connection_def now_def Let_def split: prod.splits)
  note c = create_connection_Inr [OF a]
  from x have "at_handshake a = Inr () \<and> (\<exists>s3. bind_act (http_exchange a ?rq) (client_receive depth clk deadline)
      (s1\<lparr>ticks := Suc (Suc (ticks s1)), sock_timeout := Some (deadline - clk (Suc (ticks s1)))\<rparr>) = (Inr response, s3)
      \<and> s4 = s3\<lparr>ticks := Suc (ticks s3)\<rparr>)"
    by (auto simp: lift_res_def socket_deadline_def with_deadline_Inr settimeout_def now_def simp del: bind_act_Inr simp: bind_act_Inr [of "lift_res _"])
  then obtain s3 where hs: "at_handshake a = Inr ()" and s4: "s4 = s3\<lparr>ticks := Suc (ticks s3)\<rparr>"
    and ex: "bind_act (http_exchange a ?rq) (client_receive depth clk deadline)
      (s1\<lparr>ticks := Suc (Suc (ticks s1)), sock_timeout := Some (deadline - clk (Suc (ticks s1)))\<rparr>) = (Inr response, s3)"
    by blast
  note e = exchange_receive_Inr [OF ex c(2) hs]
  have "attempts s = a # attempts s'" "requests s' = requests s @ [?rq]"
  proof -
    have s1: "attempts s = a # attempts s1" "requests s1 = requests s" using c(1) by auto
    then show "attempts s = a # attempts s'" "requests s' = requests s @ [?rq]" using s4 e(2,3) s' by simp_all
  qed
  with that e(1) path show thesis by blast
qed

text \<open>The polling loop. Every round takes one attempt of the environment, and a connection that no longer
  exists ends it; the sleep is the time that passes between two readings of the clock.\<close>

function confirm_loop :: "nat \<Rightarrow> clock \<Rightarrow> ccf_client \<Rightarrow> string \<Rightarrow> real \<Rightarrow> ('z web_scheme, unit) act" where
  "confirm_loop depth clk cl txid deadline s =
     (let (t, s1) = now clk s in
      if t \<ge> deadline then (Inl (TimeoutError ''CCF transaction not globally committed before deadline''), s1)
      else case poll_status depth clk cl txid deadline s1 of
        (Inl e, s2) \<Rightarrow> (Inl e, s2)
      | (Inr Tx_committed, s2) \<Rightarrow> (Inr (), s2)
      | (Inr Tx_again, s2) \<Rightarrow> confirm_loop depth clk cl txid deadline (snd (now clk s2)))"
  by pat_completeness auto

lemma poll_status_Inr:
  fixes s :: "'z web_scheme"
  assumes "poll_status depth clk cl txid deadline s = (Inr p, s')"
  obtains a state where "attempts s = a # attempts s'" "answered depth a state" "transaction_status txid state = Inr p"
    "requests s' = requests s @ [client_rq cl ''GET'' (''/node/tx?transaction_id='' @ txid) None ''application/json'']"
  using assms by (auto simp: poll_status_def ccf_body_bytes_def elim!: client_request_Inr)

termination confirm_loop
  by (relation "measure (\<lambda>(depth, clk, cl, txid, deadline, s). length (attempts s))")
    (auto simp: now_def dest!: sym [of "(Inr Tx_again, _)"] elim!: poll_status_Inr)

declare confirm_loop.simps [simp del]

definition require_committed :: "nat \<Rightarrow> clock \<Rightarrow> ccf_client \<Rightarrow> ccf_response \<Rightarrow> ('z web_scheme, ccf_response) act" where
  "require_committed depth clk cl response =
     (if \<not> (200 \<le> cr_status response \<and> cr_status response < 300)
      then raise_act (ValueError ''failed CCF response cannot confirm commitment'')
      else
        bind_act (lift_res (response_txid response)) (\<lambda>txid s.
          let (t, s1) = now clk s in
          bind_act (confirm_loop depth clk cl txid (t + 30)) (\<lambda>_. ret_act (response\<lparr>cr_confirmed := Some txid\<rparr>)) s1))"

section \<open>Governance\<close>

record governor =
  gov_id :: string
  gov_sign :: "bytes \<Rightarrow> json dict \<Rightarrow> bytes res"
  gov_wall :: "nat \<Rightarrow> int"

definition gov_headers :: "int \<Rightarrow> string \<Rightarrow> string option \<Rightarrow> json dict" where
  "gov_headers created message_type proposal_id =
     [(''ccf.gov.msg.type'', JStr message_type), (''ccf.gov.msg.created_at'', JInt created)]
     @ (case proposal_id of Some p \<Rightarrow> if p = [] then [] else [(''ccf.gov.msg.proposal_id'', JStr p)] | None \<Rightarrow> [])"

definition gov_payload :: "json option \<Rightarrow> bytes" where
  "gov_payload body = (case body of None \<Rightarrow> [] | Some v \<Rightarrow> encode_str (dumps quote_ascii '', '' '': '' v))"

definition gov_post ::
    "nat \<Rightarrow> clock \<Rightarrow> ccf_client \<Rightarrow> governor \<Rightarrow> string \<Rightarrow> json option \<Rightarrow> string \<Rightarrow> string option \<Rightarrow> ('z web_scheme, ccf_response) act" where
  "gov_post depth clk cl gov path body message_type proposal_id s =
     (let created = gov_wall gov (ticks s); s1 = s\<lparr>ticks := Suc (ticks s)\<rparr> in
      bind_act (lift_res (gov_sign gov (gov_payload body) (gov_headers created message_type proposal_id))) (\<lambda>signed.
      bind_act (client_request depth clk cl ''POST'' (path @ ''?api-version=2024-07-01'') (Raw_body signed) ''application/cose'' None) (\<lambda>result.
        if cr_status result \<notin> {200, 204} then raise_act (ValueError ''signed governance request failed'')
        else require_committed depth clk cl result)) s1)"

definition gov_ack :: "nat \<Rightarrow> clock \<Rightarrow> ccf_client \<Rightarrow> governor \<Rightarrow> ('z web_scheme, ccf_response) act" where
  "gov_ack depth clk cl gov =
     bind_act (gov_post depth clk cl gov (''/gov/members/state-digests/'' @ gov_id gov @ '':update'') None ''state_digest'' None) (\<lambda>digest.
       gov_post depth clk cl gov (''/gov/members/state-digests/'' @ gov_id gov @ '':ack'')
         (case cr_body digest of JNull \<Rightarrow> None | v \<Rightarrow> Some v) ''ack'' None)"

definition proposal_hex :: "string \<Rightarrow> bool" where
  "proposal_hex s \<longleftrightarrow> length s = 64 \<and> list_all is_lower_hex s"

definition ballot_json :: json where
  "ballot_json = JDict [(''ballot'', JStr ''export function vote(proposal, proposer_id) { return true; }'')]"

definition submit_ballot ::
    "nat \<Rightarrow> clock \<Rightarrow> ccf_client \<Rightarrow> governor \<Rightarrow> json dict \<Rightarrow> ('z web_scheme, ccf_response) act" where
  "submit_ballot depth clk cl gov proposal =
     (case map_of proposal ''proposalId'' of
        Some (JStr pid) \<Rightarrow>
          if \<not> proposal_hex pid then raise_act (ValueError ''invalid proposal ID'')
          else
            bind_act (gov_post depth clk cl gov (''/gov/members/proposals/'' @ pid @ ''/ballots/'' @ gov_id gov @ '':submit'')
                (Some ballot_json) ''ballot'' (Some pid)) (\<lambda>result.
            bind_act (lift_res (jindex (cr_body result) ''proposalState'')) (\<lambda>state.
              if state \<noteq> JStr ''Accepted'' then raise_act (ValueError ''proposal did not reach accepted state'')
              else ret_act result))
      | _ \<Rightarrow> raise_act (ValueError ''invalid proposal ID''))"

definition propose ::
    "nat \<Rightarrow> clock \<Rightarrow> ccf_client \<Rightarrow> governor \<Rightarrow> json \<Rightarrow> bool \<Rightarrow> ('z web_scheme, ccf_response) act" where
  "propose depth clk cl gov actions abstain =
     bind_act (gov_post depth clk cl gov ''/gov/members/proposals:create'' (Some (JDict [(''actions'', actions)])) ''proposal'' None) (\<lambda>result.
       case jdict (cr_body result) of
         None \<Rightarrow> raise_act (ValueError ''proposal failed or returned an invalid state'')
       | Some proposal \<Rightarrow>
           if map_of proposal ''proposalState'' \<notin> {Some (JStr ''Open''), Some (JStr ''Accepted'')}
           then raise_act (ValueError ''proposal failed or returned an invalid state'')
           else if abstain then ret_act result
           else if map_of proposal ''proposalState'' \<noteq> Some (JStr ''Accepted'') then submit_ballot depth clk cl gov proposal
           else ret_act result)"

section \<open>The command\<close>

text \<open>A command ends with a value or, by the argument parser or \<open>SystemExit\<close>, with a code.\<close>

datatype 'a cli = Done 'a | Exits nat

datatype control_mode =
    Mode_request string "string option" "bytes option"
  | Mode_ack
  | Mode_propose "json res option" bool

definition app_route :: "string \<Rightarrow> bool" where
  "app_route path \<longleftrightarrow> startswith path ''/app/'' \<and> fst (cut_at CHR ''?'' path) \<noteq> ''/app/tx''"

definition control_request :: "nat \<Rightarrow> clock \<Rightarrow> ccf_client \<Rightarrow> string \<Rightarrow> string \<Rightarrow> bytes option \<Rightarrow> ('z web_scheme, ccf_response) act" where
  "control_request depth clk cl verb path body =
     bind_act (client_request depth clk cl verb path (case body of None \<Rightarrow> No_body | Some b \<Rightarrow> Raw_body b) ''application/json'' None) (\<lambda>result.
       if 200 \<le> cr_status result \<and> cr_status result < 300 \<and> app_route path then
         if map_of (cr_headers result) ''x-agentdns-commit-status'' \<noteq> Some ''committed''
         then raise_act (ValueError ''application response lacks global-commit confirmation'')
         else require_committed depth clk cl result
       else ret_act result)"

text \<open>\<open>gov\<close> is the outcome of loading the member's key and certificate, absent when one is not given. The
  second component is the exit code after the result has been written.\<close>

definition control_main ::
    "nat \<Rightarrow> clock \<Rightarrow> unit res \<Rightarrow> string \<Rightarrow> string option \<Rightarrow> governor res option \<Rightarrow> control_mode
     \<Rightarrow> ('z web_scheme, (ccf_response \<times> nat) cli) act" where
  "control_main depth clk trust url connect_ip gov mode =
     bind_act (lift_res (client_init trust url connect_ip)) (\<lambda>cl.
       let finish = (\<lambda>result. ret_act (Done (result, if 200 \<le> cr_status result \<and> cr_status result < 300 then 0 else 1))) in
       case mode of
         Mode_request verb path body \<Rightarrow>
           (case path of
              Some p \<Rightarrow> if p = [] then ret_act (Exits 2) else bind_act (control_request depth clk cl verb p body) finish
            | None \<Rightarrow> ret_act (Exits 2))
       | _ \<Rightarrow>
           (case gov of
              None \<Rightarrow> ret_act (Exits 2)
            | Some g \<Rightarrow>
                bind_act (lift_res g) (\<lambda>member.
                  case mode of
                    Mode_propose actions abstain \<Rightarrow>
                      (case actions of
                         None \<Rightarrow> ret_act (Exits 2)
                       | Some a \<Rightarrow> bind_act (lift_res a) (\<lambda>v. bind_act (propose depth clk cl member v abstain) finish))
                  | _ \<Rightarrow> bind_act (gov_ack depth clk cl member) finish)))"

section \<open>What a confirmation means\<close>

text \<open>One of the attempts answered the status query of the transaction with its commitment.\<close>

definition commit_seen :: "nat \<Rightarrow> string \<Rightarrow> attempt list \<Rightarrow> bool" where
  "commit_seen depth txid as \<longleftrightarrow> (\<exists>a \<in> set as. \<exists>state. answered depth a state \<and> transaction_status txid state = Inr Tx_committed)"

lemma transaction_status_committed:
  "transaction_status txid state = Inr Tx_committed \<longleftrightarrow> cr_status state = 200
     \<and> (\<exists>d. cr_body state = JDict d \<and> map_of d ''transaction_id'' = Some (JStr txid) \<and> map_of d ''status'' = Some (JStr ''Committed''))"
  by (cases "cr_body state") (auto simp: transaction_status_def)

lemma confirm_loop_Inr:
  fixes s :: "'z web_scheme"
  assumes "confirm_loop depth clk cl txid deadline s = (Inr u, s')"
  shows "\<exists>used. attempts s = used @ attempts s' \<and> commit_seen depth txid used
    \<and> (\<exists>n. requests s' = requests s @ replicate n (client_rq cl ''GET'' (''/node/tx?transaction_id='' @ txid) None ''application/json''))"
  using assms
proof (induction depth clk cl txid deadline s rule: confirm_loop.induct)
  case (1 depth clk cl txid deadline s)
  let ?rq = "client_rq cl ''GET'' (''/node/tx?transaction_id='' @ txid) None ''application/json''"
  let ?s = "s\<lparr>ticks := Suc (ticks s)\<rparr>"
  from 1(2) have early: "clk (ticks s) < deadline"
    by (subst (asm) confirm_loop.simps) (auto simp: now_def Let_def split: if_splits)
  obtain p s2 where p: "poll_status depth clk cl txid deadline ?s = (Inr p, s2)"
    using 1(2) early by (subst (asm) confirm_loop.simps) (auto simp: now_def Let_def split: prod.splits sum.splits)
  obtain a state where a: "attempts ?s = a # attempts s2" "answered depth a state" "transaction_status txid state = Inr p"
    "requests s2 = requests ?s @ [?rq]"
    by (rule poll_status_Inr [OF p])
  show ?case
  proof (cases p)
    case Tx_committed
    then have "s' = s2" using 1(2) early p by (subst (asm) confirm_loop.simps) (auto simp: now_def Let_def)
    moreover have "commit_seen depth txid [a]" using a(2,3) Tx_committed by (auto simp: commit_seen_def)
    ultimately show ?thesis using a(1,4) by (intro exI [of _ "[a]"] conjI exI [of _ 1]) auto
  next
    case Tx_again
    then have rest: "confirm_loop depth clk cl txid deadline (snd (now clk s2)) = (Inr u, s')"
      using 1(2) early p by (subst (asm) confirm_loop.simps) (auto simp: now_def Let_def)
    have "\<exists>used. attempts (snd (now clk s2)) = used @ attempts s' \<and> commit_seen depth txid used
        \<and> (\<exists>n. requests s' = requests (snd (now clk s2)) @ replicate n ?rq)"
      by (rule "1.IH" [OF _ refl _ _ _ _ rest]) (use early p Tx_again in \<open>auto simp: now_def\<close>)
    then obtain used n where u: "attempts s2 = used @ attempts s'" "commit_seen depth txid used" "requests s' = requests s2 @ replicate n ?rq"
      by (auto simp: now_def)
    have "commit_seen depth txid (a # used)" using u(2) by (auto simp: commit_seen_def)
    moreover have "requests s' = requests s @ replicate (Suc n) ?rq" using u(3) a(4) by simp
    ultimately show ?thesis using u(1) a(1) by (intro exI [of _ "a # used"] conjI exI [of _ "Suc n"]) auto
  qed
qed

text \<open>A response whose transaction was seen committed after it, on the attempts that were used.\<close>

definition confirmed :: "nat \<Rightarrow> ccf_response \<Rightarrow> attempt list \<Rightarrow> bool" where
  "confirmed depth result used \<longleftrightarrow> 200 \<le> cr_status result \<and> cr_status result < 300 \<and>
     (\<exists>txid. cr_confirmed result = Some txid \<and> response_txid result = Inr txid \<and> canonical_transaction (Some txid)
        \<and> commit_seen depth txid used)"

lemma response_txid_canonical: "response_txid response = Inr txid \<Longrightarrow> canonical_transaction (Some txid)"
  by (auto simp: response_txid_def Let_def canonical_transaction_def split: if_splits option.splits)

lemma commit_seen_append: "commit_seen depth txid used \<Longrightarrow> commit_seen depth txid (before @ used)"
  by (auto simp: commit_seen_def)

lemma confirmed_append: "confirmed depth result used \<Longrightarrow> confirmed depth result (before @ used)"
  unfolding confirmed_def using commit_seen_append by blast

definition posts :: "http_request list \<Rightarrow> http_request list" where
  "posts rqs = filter (\<lambda>r. rq_method r = ''POST'') rqs"

lemma posts_append [simp]: "posts (xs @ ys) = posts xs @ posts ys"
  by (simp add: posts_def)

lemma posts_client_rq [simp]:
  "posts (replicate n (client_rq cl ''GET'' path body ct)) = []"
  "posts [client_rq cl ''POST'' path body ct] = [client_rq cl ''POST'' path body ct]"
  by (simp_all add: posts_def client_rq_def)

lemma require_committed_Inr:
  fixes s :: "'z web_scheme"
  assumes "require_committed depth clk cl response s = (Inr result, s')"
  obtains used where "attempts s = used @ attempts s'" "confirmed depth result used" "posts (requests s') = posts (requests s)"
    "cr_body result = cr_body response" "cr_status result = cr_status response" "cr_headers result = cr_headers response"
proof -
  have status: "200 \<le> cr_status response \<and> cr_status response < 300"
    using assms by (cases "200 \<le> cr_status response \<and> cr_status response < 300") (auto simp: require_committed_def)
  with assms obtain txid s1 where t: "response_txid response = Inr txid"
    and loop: "confirm_loop depth clk cl txid (clk (ticks s) + 30) (s\<lparr>ticks := Suc (ticks s)\<rparr>) = (Inr (), s')"
    and r: "result = response\<lparr>cr_confirmed := Some txid\<rparr>"
    by (auto simp: require_committed_def now_def Let_def eq_commute [of "Inr _" "response_txid _"])
  from confirm_loop_Inr [OF loop] obtain used n where u: "attempts s = used @ attempts s'" "commit_seen depth txid used"
    "requests s' = requests s @ replicate n (client_rq cl ''GET'' (''/node/tx?transaction_id='' @ txid) None ''application/json'')"
    by auto
  have "response_txid result = Inr txid" using t r by (simp add: response_txid_def)
  with u r status have "confirmed depth result used" using response_txid_canonical [OF t] by (auto simp: confirmed_def)
  with u r show thesis by (intro that [of used]) auto
qed

lemma gov_post_Inr:
  fixes s :: "'z web_scheme"
  assumes "gov_post depth clk cl gov path body kind proposal s = (Inr result, s')"
  obtains used created signed where "attempts s = used @ attempts s'" "confirmed depth result used"
    "gov_sign gov (gov_payload body) (gov_headers created kind proposal) = Inr signed"
    "posts (requests s') = posts (requests s) @ [client_rq cl ''POST'' (path @ ''?api-version=2024-07-01'') (Some signed) ''application/cose'']"
proof -
  let ?s = "s\<lparr>ticks := Suc (ticks s)\<rparr>" and ?created = "gov_wall gov (ticks s)"
  from assms obtain signed response s1 where sg: "gov_sign gov (gov_payload body) (gov_headers ?created kind proposal) = Inr signed"
    and rq: "client_request depth clk cl ''POST'' (path @ ''?api-version=2024-07-01'') (Raw_body signed) ''application/cose'' None ?s = (Inr response, s1)"
    and rc: "require_committed depth clk cl response s1 = (Inr result, s')"
    by (auto simp: gov_post_def Let_def eq_commute [of "Inr _" "gov_sign _ _ _"] split: if_splits)
  obtain a where a: "attempts ?s = a # attempts s1"
    "requests s1 = requests ?s @ [client_rq cl ''POST'' (path @ ''?api-version=2024-07-01'') (Some signed) ''application/cose'']"
    by (rule client_request_Inr [OF rq]) (simp add: ccf_body_bytes_def)
  obtain used where u: "attempts s1 = used @ attempts s'" "confirmed depth result used" "posts (requests s') = posts (requests s1)"
    by (rule require_committed_Inr [OF rc])
  have "confirmed depth result ([a] @ used)" by (rule confirmed_append [OF u(2)])
  then show thesis using that [of "[a] @ used" ?created signed] a u sg by simp
qed

lemma submit_ballot_Inr:
  fixes s :: "'z web_scheme"
  assumes "submit_ballot depth clk cl gov proposal s = (Inr result, s')"
  obtains used pid rq d where "attempts s = used @ attempts s'" "confirmed depth result used" "posts (requests s') = posts (requests s) @ [rq]"
    "map_of proposal ''proposalId'' = Some (JStr pid)" "proposal_hex pid"
    "rq_path rq = ''/gov/members/proposals/'' @ pid @ ''/ballots/'' @ gov_id gov @ '':submit'' @ ''?api-version=2024-07-01''"
    "cr_body result = JDict d" "map_of d ''proposalState'' = Some (JStr ''Accepted'')"
proof -
  from assms obtain pid s1 where pid: "map_of proposal ''proposalId'' = Some (JStr pid)" "proposal_hex pid"
    and post: "gov_post depth clk cl gov (''/gov/members/proposals/'' @ pid @ ''/ballots/'' @ gov_id gov @ '':submit'')
        (Some ballot_json) ''ballot'' (Some pid) s = (Inr result, s')"
    and acc: "jindex (cr_body result) ''proposalState'' = Inr (JStr ''Accepted'')"
    by (auto simp: submit_ballot_def eq_commute [of "Inr _" "jindex _ _"] split: option.splits json.splits if_splits)
  from acc obtain d where d: "cr_body result = JDict d" "map_of d ''proposalState'' = Some (JStr ''Accepted'')"
    by (auto simp: jindex_Inr)
  obtain used signed where u: "attempts s = used @ attempts s'" "confirmed depth result used"
    "posts (requests s') = posts (requests s) @ [client_rq cl ''POST'' ((''/gov/members/proposals/'' @ pid @ ''/ballots/'' @ gov_id gov @ '':submit'') @ ''?api-version=2024-07-01'') (Some signed) ''application/cose'']"
    by (rule gov_post_Inr [OF post])
  show thesis by (rule that [OF u pid _ d]) (simp add: client_rq_def)
qed

section \<open>A confirmation arrives\<close>

text \<open>Readings of the clock that all lie within the time of one request, and before the given limit.\<close>

definition in_time :: "clock \<Rightarrow> real option \<Rightarrow> bool" where
  "in_time clk limit \<longleftrightarrow> (\<forall>i j. clk i < clk j + 30) \<and> (\<forall>d i. limit = Some d \<longrightarrow> clk i < d)"

lemma http_read_bounded_returns:
  fixes s :: "'z net_scheme"
  assumes "rx_closed (inbox s)" "length (rx_data (inbox s)) \<le> maximum" "\<And>i. clk i < deadline"
  shows "\<exists>s'. http_read_bounded clk maximum deadline s = (Inr (rx_data (inbox s)), s')"
  using http_reader.loop_returns [of "[]" maximum s clk deadline] assms
  by (auto simp: http_read_bounded_def prod_eq_iff intro: exI [of _ "snd (http_body_loop clk maximum deadline [] s)"])

lemma client_send_returns:
  fixes s :: "'z web_scheme"
  assumes "attempts s = a # rest" "answered depth a response" "\<And>i. clk i < deadline"
  shows "\<exists>s'. client_send depth clk deadline rq s = (Inr response, s')"
proof -
  from assms(2) obtain reply where r: "at_connect a = Inr ()" "at_handshake a = Inr ()" "at_reply a = Inr reply"
    "rx_closed (reply_body reply)" "length (rx_data (reply_body reply)) \<le> 4 * 1024 * 1024"
    "client_headers (reply_headers reply) [] = Inr (cr_headers response)"
    "response_json depth (rx_data (reply_body reply)) = Inr (cr_body response)"
    "response = \<lparr>cr_status = reply_status reply, cr_headers = cr_headers response, cr_body = cr_body response, cr_confirmed = None\<rparr>"
    unfolding answered_def by (metis ccf_response.surjective old.unit.exhaust)
  have rd: "\<exists>s'. bind_act (http_exchange a rq) (client_receive depth clk deadline) t = (Inr response, s')" for t :: "'z web_scheme"
  proof -
    obtain s' where "http_read_bounded clk (4 * 1024 * 1024) deadline (t\<lparr>requests := requests t @ [rq], inbox := reply_body reply\<rparr>)
        = (Inr (rx_data (reply_body reply)), s')"
      using http_read_bounded_returns [of "t\<lparr>requests := requests t @ [rq], inbox := reply_body reply\<rparr>" "4 * 1024 * 1024" clk deadline] r(4,5) assms(3)
      by auto
    then have "bind_act (http_exchange a rq) (client_receive depth clk deadline) t
        = (Inr \<lparr>cr_status = reply_status reply, cr_headers = cr_headers response, cr_body = cr_body response, cr_confirmed = None\<rparr>, s')"
      using r(3,6,7) by (simp add: bind_act_def http_exchange_def client_receive_def lift_res_def ret_act_def)
    then show ?thesis using r(8) by (intro exI [of _ s']) simp
  qed
  define t where "t = settimeout (deadline - clk (Suc (ticks s))) (settimeout (max (1 / 1000) (deadline - clk (ticks s)))
    (s\<lparr>attempts := rest, ticks := Suc (Suc (ticks s))\<rparr>))"
  obtain s2 where s2: "bind_act (http_exchange a rq) (client_receive depth clk deadline) t = (Inr response, s2)" using rd by blast
  have "create_connection s = (Inr a, s\<lparr>attempts := rest\<rparr>)" using assms(1) r(1) by (simp add: create_connection_def)
  moreover have "socket_deadline clk deadline (bind_act (http_exchange a rq) (client_receive depth clk deadline))
      (settimeout (max (1 / 1000) (deadline - clk (ticks s))) (s\<lparr>attempts := rest, ticks := Suc (ticks s)\<rparr>))
      = (Inr response, s2\<lparr>ticks := Suc (ticks s2)\<rparr>)"
    using s2 assms(3) [of "Suc (ticks s)"] assms(3) [of "ticks s2"]
    by (simp add: socket_deadline_def with_deadline_def now_def t_def settimeout_def del: bind_act_Inr)
  ultimately show ?thesis
    using r(2) by (simp add: client_send_def own_connection_def bind_act_def now_def Let_def lift_res_def)
qed

lemma client_request_returns:
  fixes s :: "'z web_scheme"
  assumes "attempts s = a # rest" "answered depth a response" "in_time clk limit" "request_path path"
    and "\<And>b. ccf_body_bytes body = Some b \<Longrightarrow> length b \<le> 4 * 1024 * 1024"
  shows "\<exists>s'. client_request depth clk cl verb path body ct limit s = (Inr response, s')"
proof -
  let ?d = "case limit of Some d \<Rightarrow> min d (clk (ticks s) + 30) | None \<Rightarrow> clk (ticks s) + 30"
  have d: "clk i < ?d" for i using assms(3) by (auto simp: in_time_def split: option.splits)
  have "\<exists>s'. client_send depth clk ?d (client_rq cl verb path (ccf_body_bytes body) ct) (s\<lparr>ticks := Suc (Suc (ticks s))\<rparr>) = (Inr response, s')"
    by (rule client_send_returns [OF _ assms(2) d]) (use assms(1) in simp)
  moreover have "\<not> (case ccf_body_bytes body of Some b \<Rightarrow> length b > 4 * 1024 * 1024 | None \<Rightarrow> False)"
    using assms(5) by (auto split: option.splits simp: not_less)
  ultimately show ?thesis
    using assms(4) d [of "Suc (ticks s)"] by (simp add: client_request_def now_def Let_def not_le)
qed

lemma txid_path:
  assumes "canonical_transaction (Some txid)"
  shows "request_path (''/node/tx?transaction_id='' @ txid)"
proof -
  from assms obtain v q where t: "v < 2 ^ 64" "q < 2 ^ 64" "txid = nat_str v @ ''.'' @ nat_str q"
    by (auto simp: canonical_transaction_text)
  have "length (nat_str v) \<le> 20" "length (nat_str q) \<le> 20"
    by (rule length_nat_str_le; use t(1,2) in simp)+
  then have "length (''/node/tx?transaction_id='' @ txid) \<le> 8192" using t(3) by simp
  then have "str_len (''/node/tx?transaction_id='' @ txid) \<le> 8192" using str_len_le le_trans by blast
  moreover have "32 < ord c \<and> ord c < 127" if "c \<in> set (nat_str n)" for c n
    using nat_str_digits [OF that] by (auto simp: is_digit_def less_eq_char_def)
  ultimately show ?thesis using t(3) by (auto simp: request_path_def startswith_def list_all_iff)
qed

lemma poll_returns:
  fixes s :: "'z web_scheme"
  assumes "attempts s = a # rest" "answered depth a state" "transaction_status txid state = Inr p"
    and "in_time clk (Some deadline)" "canonical_transaction (Some txid)"
  shows "\<exists>s'. poll_status depth clk cl txid deadline s = (Inr p, s') \<and> attempts s' = rest"
proof -
  have "\<exists>s'. client_request depth clk cl ''GET'' (''/node/tx?transaction_id='' @ txid) No_body ''application/json'' (Some deadline) s = (Inr state, s')"
    by (rule client_request_returns [OF assms(1,2,4) txid_path [OF assms(5)]]) (simp add: ccf_body_bytes_def)
  then obtain s' where s': "client_request depth clk cl ''GET'' (''/node/tx?transaction_id='' @ txid) No_body ''application/json'' (Some deadline) s = (Inr state, s')"
    by blast
  have "attempts s = (hd (attempts s)) # attempts s'" by (rule client_request_Inr [OF s']) simp
  with assms(1) s' assms(3) show ?thesis
    by (intro exI [of _ s']) (simp add: poll_status_def bind_act_def lift_res_def)
qed

lemma confirm_loop_returns:
  fixes s :: "'z web_scheme"
  assumes "attempts s = pending @ a # rest" "\<forall>x \<in> set pending. \<exists>st. answered depth x st \<and> transaction_status txid st = Inr Tx_again"
    and "answered depth a state" "transaction_status txid state = Inr Tx_committed"
    and "in_time clk (Some deadline)" "canonical_transaction (Some txid)"
  shows "\<exists>s'. confirm_loop depth clk cl txid deadline s = (Inr (), s') \<and> attempts s' = rest"
  using assms(1,2)
proof (induction pending arbitrary: s)
  case Nil
  obtain s' where "poll_status depth clk cl txid deadline (s\<lparr>ticks := Suc (ticks s)\<rparr>) = (Inr Tx_committed, s')" "attempts s' = rest"
    using poll_returns [OF _ assms(3-6), of "s\<lparr>ticks := Suc (ticks s)\<rparr>" rest cl] Nil by auto
  moreover have "clk (ticks s) < deadline" using assms(5) by (simp add: in_time_def)
  ultimately show ?case by (subst confirm_loop.simps) (simp add: now_def Let_def)
next
  case (Cons x pending)
  from Cons.prems(2) obtain st where st: "answered depth x st" "transaction_status txid st = Inr Tx_again" by auto
  obtain s2 where s2: "poll_status depth clk cl txid deadline (s\<lparr>ticks := Suc (ticks s)\<rparr>) = (Inr Tx_again, s2)" "attempts s2 = pending @ a # rest"
    using poll_returns [OF _ st assms(5,6), of "s\<lparr>ticks := Suc (ticks s)\<rparr>" "pending @ a # rest" cl] Cons.prems by auto
  have "clk (ticks s) < deadline" using assms(5) by (simp add: in_time_def)
  moreover have "\<exists>s'. confirm_loop depth clk cl txid deadline (snd (now clk s2)) = (Inr (), s') \<and> attempts s' = rest"
    by (rule Cons.IH) (use s2 Cons.prems in \<open>auto simp: now_def\<close>)
  ultimately show ?case using s2 by (subst confirm_loop.simps) (simp add: now_def Let_def)
qed

end
