(* ===== verification/Control_Tools.thy ===== *)
theory Control_Tools
  imports Control_Client Crypto_Lib
begin

text \<open>
  The operators' tools around the client: \<open>tools/measure_ccf_request.py\<close>, \<open>tools/audit_ccf_node.py\<close>,
  \<open>tools/fetch_capture.py\<close> and \<open>tools/sign_capture_request.py\<close>. The certificate that a TLS peer
  presents is a function of the connection. The native appraisers, run as processes, and \<open>openssl\<close> are
  parameters; the files that a tool writes are part of its state.
\<close>

record tool = web +
  files :: "(string \<times> bytes) list"

definition write_file :: "string \<Rightarrow> bytes \<Rightarrow> ('z tool_scheme, unit) act" where
  "write_file name data s = (Inr (), s\<lparr>files := files s @ [(name, data)]\<rparr>)"

text \<open>\<open>json.dumps(v, indent=2)\<close> at a level of nesting, and the line break after it.\<close>

definition indent_line :: "nat \<Rightarrow> string" where
  "indent_line n = CHR 0x0A # replicate (2 * n) (CHR '' '')"

primrec json_indent :: "json \<Rightarrow> nat \<Rightarrow> string" where
  "json_indent JNull n = ''null''"
| "json_indent (JBool b) n = (if b then ''true'' else ''false'')"
| "json_indent (JInt i) n = int_str i"
| "json_indent (JFloat t) n = t"
| "json_indent (JStr s) n = quote_ascii s"
| "json_indent (JList xs) n =
     (if xs = [] then ''[]''
      else ''['' @ indent_line (Suc n) @ join_with ('','' @ indent_line (Suc n)) (map (\<lambda>f. f (Suc n)) (map json_indent xs))
        @ indent_line n @ '']'')"
| "json_indent (JDict d) n =
     (if d = [] then ''{}''
      else ''{'' @ indent_line (Suc n)
        @ join_with ('','' @ indent_line (Suc n)) (map (\<lambda>(k, f). quote_ascii k @ '': '' @ f (Suc n)) (map (map_prod id json_indent) d))
        @ indent_line n @ ''}'')"

definition json_file :: "json \<Rightarrow> bytes" where
  "json_file v = encode_str (json_indent v 0 @ [CHR 0x0A])"

section \<open>Measured requests\<close>

definition MEASURE_ROUTES :: "(string \<times> string \<times> string) list" where
  "MEASURE_ROUTES = [(''register'', ''POST'', ''/app/service/register''), (''renew'', ''POST'', ''/app/service/renew''),
     (''deregister'', ''POST'', ''/app/service/deregister''), (''acme_challenge_create'', ''POST'', ''/app/zone/acme-challenge''),
     (''acme_challenge_delete'', ''DELETE'', ''/app/zone/acme-challenge'')]"

definition MEASURE_MAX_BYTES :: nat where "MEASURE_MAX_BYTES = 2 * 1024 * 1024"
definition REQUEST_SECONDS :: real where "REQUEST_SECONDS = 30"

definition measure_hooks :: json_hooks where
  "measure_hooks = \<lparr>pairs_hook = (\<lambda>ps. bindr (unique_pairs ''duplicate JSON field'' [] ps) (\<lambda>d. Inr (JDict d))),
     float_hook = (\<lambda>t. Inr (JFloat t)), const_hook = (\<lambda>_. Inl (ValueError ''nonfinite JSON number''))\<rparr>"

definition measure_object :: "nat \<Rightarrow> bytes \<Rightarrow> json dict res" where
  "measure_object depth raw =
     bindr (json_loads depth measure_hooks raw) (\<lambda>v.
       case jdict v of Some d \<Rightarrow> Inr d | None \<Rightarrow> Inl (ValueError ''JSON object required''))"

text \<open>\<open>perf\<close> is the performance counter, in nanoseconds.\<close>

definition measure_exchange ::
    "nat \<Rightarrow> clock \<Rightarrow> (nat \<Rightarrow> int) \<Rightarrow> string \<Rightarrow> nat \<Rightarrow> string \<Rightarrow> string \<Rightarrow> bytes option \<Rightarrow> string option
     \<Rightarrow> ('z web_scheme, int \<times> string dict \<times> json dict \<times> int) act" where
  "measure_exchange depth clk perf host port verb path body connect_ip s =
     (case ip_address (case connect_ip of Some t \<Rightarrow> t | None \<Rightarrow> host) of
        Inl _ \<Rightarrow> (Inl (ValueError ''DNS-name URL requires a numeric --connect-ip override''), s)
      | Inr ip \<Rightarrow>
          let started = perf (ticks s); s0 = s\<lparr>ticks := Suc (ticks s)\<rparr>; (t, s1) = now clk s0; deadline = t + REQUEST_SECONDS in
          bind_act (own_connection (
            bind_act create_connection (\<lambda>a s2.
              let (t', s3) = now clk s2 in
              if deadline - t' \<le> 0 then (Inl (TimeoutError ''CCF connection deadline exceeded''), s3)
              else
                bind_act (lift_res (at_handshake a)) (\<lambda>_.
                  socket_deadline clk deadline (
                    bind_act (http_exchange a \<lparr>rq_host = host, rq_port = port, rq_method = verb, rq_path = path,
                        rq_body = (case body of Some b \<Rightarrow> b | None \<Rightarrow> []), rq_headers = [(''Content-Type'', ''application/json'')]\<rparr>) (\<lambda>response.
                    bind_act (http_read_bounded clk MEASURE_MAX_BYTES deadline) (\<lambda>raw.
                    bind_act (lift_res (client_headers (reply_headers response) [])) (\<lambda>headers.
                      ret_act (reply_status response, headers, raw)))))) (settimeout (deadline - t') s3))))
          (\<lambda>(status, headers, raw) s4.
            let elapsed = perf (ticks s4) - started; s5 = s4\<lparr>ticks := Suc (ticks s4)\<rparr> in
            bind_act (lift_res (measure_object depth raw)) (\<lambda>d. ret_act (status, headers, d, elapsed)) s5) s1)"

definition canonical_txid :: "json \<Rightarrow> bool" where
  "canonical_txid v = canonical_transaction (jstr v)"

definition measure_committed :: "int \<Rightarrow> string dict \<Rightarrow> json dict \<Rightarrow> string res" where
  "measure_committed status headers result =
     (if status \<noteq> 200 \<or> map_of headers ''x-agentdns-commit-status'' \<noteq> Some ''committed'' \<or> map_of result ''status'' \<noteq> Some (JStr ''committed'')
      then Inl (ValueError ''request did not return a globally committed successful result'')
      else case map_of headers ''x-agentdns-transaction-id'' of
        None \<Rightarrow> Inl (ValueError ''CCF transaction identity is missing or inconsistent'')
      | Some txid \<Rightarrow>
          if \<not> canonical_txid (JStr txid) \<or> map_of result ''tx_id'' \<noteq> Some (JStr txid)
          then Inl (ValueError ''CCF transaction identity is missing or inconsistent'')
          else if (case map_of headers ''x-ms-ccf-transaction-id'' of Some f \<Rightarrow> \<not> canonical_txid (JStr f) | None \<Rightarrow> False)
          then Inl (ValueError ''CCF framework transaction identity is malformed'')
          else Inr txid)"

text \<open>The pattern \<open>[A-Za-z0-9][A-Za-z0-9._:-]{0,127}\<close>.\<close>

definition request_ident :: "json option \<Rightarrow> string option" where
  "request_ident v =
     (case v of
        Some (JStr s) \<Rightarrow>
          if s \<noteq> [] \<and> length s \<le> 128 \<and> is_alnum (hd s) \<and> list_all (\<lambda>c. is_alnum c \<or> c \<in> set ''._:-'') s then Some s else None
      | _ \<Rightarrow> None)"

definition signed_action :: "json dict \<Rightarrow> (string \<times> string \<times> string) res" where
  "signed_action request =
     bindr (dict_index request ''action'') (\<lambda>v.
       case jdict v of
         None \<Rightarrow> Inl (ValueError ''invalid signed action identity or operation'')
       | Some action \<Rightarrow>
           bindr (hashable (case map_of action ''operation'' of Some w \<Rightarrow> w | None \<Rightarrow> JNull)) (\<lambda>operation.
             case (jstr operation, request_ident (map_of action ''grant_id''), request_ident (map_of action ''request_id'')) of
               (Some op, Some grant, Some rid) \<Rightarrow>
                 if map_of MEASURE_ROUTES op = None then Inl (ValueError ''invalid signed action identity or operation'') else Inr (op, grant, rid)
             | _ \<Rightarrow> Inl (ValueError ''invalid signed action identity or operation'')))"

text \<open>\<open>urllib.parse.quote_plus\<close>.\<close>

definition url_safe :: "char \<Rightarrow> bool" where
  "url_safe c \<longleftrightarrow> is_alnum c \<or> c \<in> set ''_.-~''"

definition quote_plus :: "string \<Rightarrow> string" where
  "quote_plus s = concat (map (\<lambda>c. if url_safe c then [c] else if c = CHR '' '' then ''+''
     else CHR ''%'' # upper [hex_digit (ord c div 16), hex_digit (ord c mod 16)]) s)"

record measurement =
  ms_operation :: string
  ms_request_id :: string
  ms_txid :: string
  ms_envelope_sha256 :: string
  ms_latency :: int
  ms_reconcile_latency :: int
  ms_result :: "json dict"

text \<open>\<open>source\<close> holds the envelope file; \<open>trust\<close> the outcome of loading the CA.\<close>

definition measure_main ::
    "nat \<Rightarrow> clock \<Rightarrow> (nat \<Rightarrow> int) \<Rightarrow> unit res \<Rightarrow> string \<Rightarrow> string option \<Rightarrow> bytes \<Rightarrow> ('z web_scheme, measurement cli) act" where
  "measure_main depth clk perf trust address connect_ip source =
     bind_act (lift_res (urlsplit address)) (\<lambda>url.
       if \<not> https_origin url then ret_act (Exits 2)
       else
         let raw = take (MEASURE_MAX_BYTES + 1) source in
         if raw = [] \<or> length raw > MEASURE_MAX_BYTES then raise_act (ValueError ''signed envelope size is invalid'')
         else
           bind_act (lift_res (measure_object depth raw)) (\<lambda>request.
           bind_act (lift_res (signed_action request)) (\<lambda>(op, grant, rid).
           case map_of MEASURE_ROUTES op of
             None \<Rightarrow> raise_act (KeyError op)
           | Some (verb, path) \<Rightarrow>
               bind_act (lift_res trust) (\<lambda>_.
               bind_act (lift_res (origin_port url)) (\<lambda>port.
               bind_act (measure_exchange depth clk perf (origin_host url) port verb path (Some raw) connect_ip) (\<lambda>(status, headers, result, latency).
               bind_act (lift_res (measure_committed status headers result)) (\<lambda>txid.
               bind_act (measure_exchange depth clk perf (origin_host url) port ''GET''
                   (''/app/service/request?grant_id='' @ quote_plus grant @ ''&request_id='' @ quote_plus rid) None connect_ip)
                 (\<lambda>(status', headers', reconciled, latency').
               bind_act (lift_res (measure_committed status' headers' reconciled)) (\<lambda>txid'.
                 if txid' \<noteq> txid \<or> \<not> py_eq (JDict reconciled) (JDict result)
                 then raise_act (ValueError ''historical request reconciliation does not match the committed result'')
                 else ret_act (Done \<lparr>ms_operation = op, ms_request_id = rid, ms_txid = txid, ms_envelope_sha256 = sha256_hex raw,
                   ms_latency = latency, ms_reconcile_latency = latency', ms_result = result\<rparr>))))))))))"

section \<open>The node audit\<close>

definition AUDIT_MAX_BYTES :: nat where "AUDIT_MAX_BYTES = 1024 * 1024"
definition BOOTSTRAP_DEADLINE_SECONDS :: real where "BOOTSTRAP_DEADLINE_SECONDS = 15"

definition bootstrap_late :: exn where
  "bootstrap_late = TimeoutError ''CCF bootstrap response deadline exceeded''"

text \<open>The loop of \<open>public_get\<close>: it ends with an empty block or with more bytes than the bound.\<close>

function bootstrap_loop :: "clock \<Rightarrow> real \<Rightarrow> bytes \<Rightarrow> ('z net_scheme, bytes) act" where
  "bootstrap_loop clk deadline body s =
     (if length body \<le> AUDIT_MAX_BYTES then
        let (t, s1) = now clk s in
        if t > deadline then (Inl bootstrap_late, s1)
        else case recv (min 65536 (AUDIT_MAX_BYTES + 1 - length body)) s1 of
          (Inl e, s2) \<Rightarrow> (Inl e, s2)
        | (Inr block, s2) \<Rightarrow> if block = [] then (Inr body, s2) else bootstrap_loop clk deadline (body @ block) s2
      else (Inr body, s))"
  by pat_completeness auto
termination
  by (relation "measure (\<lambda>(_, _, body, _). AUDIT_MAX_BYTES + 1 - length body)") (auto simp: neq_Nil_conv)

declare bootstrap_loop.simps [simp del]

definition bootstrap_body :: "clock \<Rightarrow> real \<Rightarrow> ('z net_scheme, bytes) act" where
  "bootstrap_body clk deadline =
     bind_act (bootstrap_loop clk deadline []) (\<lambda>body s.
       let (t, s1) = now clk s in
       if t \<ge> deadline then (Inl bootstrap_late, s1)
       else if length body > AUDIT_MAX_BYTES then (Inl (ValueError ''CCF bootstrap response too large''), s1)
       else (Inr body, s1))"

definition public_request :: "string \<Rightarrow> nat \<Rightarrow> string \<Rightarrow> http_request" where
  "public_request host port path = \<lparr>rq_host = host, rq_port = port, rq_method = ''GET'', rq_path = path, rq_body = [],
     rq_headers = [(''Accept'', ''application/json'')]\<rparr>"

text \<open>The handshake of this connection verifies nothing; \<open>peer\<close> gives the certificate that it showed. The
  timer of the function shuts the connection down at the deadline: what a read then meets is a matter of
  the connection, and the clock has reached the deadline.\<close>

definition public_get ::
    "clock \<Rightarrow> (attempt \<Rightarrow> bytes) \<Rightarrow> string \<Rightarrow> nat \<Rightarrow> string \<Rightarrow> bytes option \<Rightarrow> ('z web_scheme, bytes \<times> bytes) act" where
  "public_get clk peer host port path expected s =
     (let (t, s1) = now clk s; deadline = t + BOOTSTRAP_DEADLINE_SECONDS in
      own_connection (
        bind_act create_connection (\<lambda>a s2.
          let (t', s3) = now clk s2 in
          if deadline - t' \<le> 0 then (Inl bootstrap_late, s3)
          else
            bind_act (lift_res (at_handshake a)) (\<lambda>_.
              if expected \<noteq> None \<and> expected \<noteq> Some (peer a) then raise_act (ValueError ''TLS peer changed after the native node audit'')
              else
                bind_act (http_exchange a (public_request host port path)) (\<lambda>response.
                  if reply_status response \<noteq> 200 then raise_act (RuntimeError ''public CCF bootstrap endpoint returned an error'')
                  else bind_act (bootstrap_body clk deadline) (\<lambda>body. ret_act (body, peer a))))
              (settimeout (min 10 (deadline - t')) s3))) s1)"

text \<open>\<open>binascii.a2b_base64\<close> as \<open>base64.decodebytes\<close> calls it: characters outside the alphabet are
  skipped, and the padding that completes a group ends the input. The arguments are the position in the
  group, the padding seen and the bits that wait.\<close>

fun a2b_lenient :: "string \<Rightarrow> nat \<Rightarrow> nat \<Rightarrow> nat \<Rightarrow> bytes res" where
  "a2b_lenient [] pos pads left = (if pos = 0 then Inr [] else Inl (ValueError ''binascii.Error''))"
| "a2b_lenient (c # cs) pos pads left =
     (if c = CHR ''='' then
        if pos \<ge> 2 \<and> pos + Suc pads \<ge> 4 then Inr [] else a2b_lenient cs pos (if pos \<ge> 2 then Suc pads else pads) left
      else case b64_val c of
        None \<Rightarrow> a2b_lenient cs pos pads left
      | Some v \<Rightarrow>
          if pos = 0 then a2b_lenient cs 1 0 v
          else if pos = 1 then bindr (a2b_lenient cs 2 0 (v mod 16)) (\<lambda>bs. Inr (word_of_nat (left * 4 + v div 16) # bs))
          else if pos = 2 then bindr (a2b_lenient cs 3 0 (v mod 4)) (\<lambda>bs. Inr (word_of_nat (left * 16 + v div 4) # bs))
          else bindr (a2b_lenient cs 0 0 0) (\<lambda>bs. Inr (word_of_nat (left * 64 + v) # bs)))"

definition PEM_HEADER :: string where "PEM_HEADER = ''-----BEGIN CERTIFICATE-----''"
definition PEM_FOOTER :: string where "PEM_FOOTER = ''-----END CERTIFICATE-----''"

definition PEM_cert_to_DER_cert :: "string \<Rightarrow> bytes res" where
  "PEM_cert_to_DER_cert pem =
     (if \<not> startswith pem PEM_HEADER then Inl (ValueError ''Invalid PEM encoding'')
      else if \<not> endswith (strip pem) PEM_FOOTER then Inl (ValueError ''Invalid PEM encoding'')
      else
        let d = drop (length PEM_HEADER) (take (length (strip pem) - length PEM_FOOTER) (strip pem)) in
        if \<not> isascii d then Inl (UnicodeError ''ordinal not in range(128)'') else a2b_lenient d 0 0 0)"

definition DER_cert_to_PEM_cert :: "bytes \<Rightarrow> string" where
  "DER_cert_to_PEM_cert der =
     join_with [CHR 0x0A] (PEM_HEADER # groups 64 (b64encode der) @ [PEM_FOOTER @ [CHR 0x0A]])"

text \<open>\<open>verifier\<close> is the native audit on the quote, the certificate, the policy of the operator and the
  time; \<open>der_check\<close> is \<open>openssl x509\<close>; \<open>wall\<close> is the wall clock.\<close>

record auditor =
  au_verifier :: "bytes \<Rightarrow> bytes \<Rightarrow> int \<Rightarrow> bytes res"
  au_der_check :: "bytes \<Rightarrow> unit res"
  au_wall :: "nat \<Rightarrow> int"

definition wall_now :: "(nat \<Rightarrow> int) \<Rightarrow> ('z net_scheme, int) act" where
  "wall_now w s = (Inr (w (ticks s)), s\<lparr>ticks := Suc (ticks s)\<rparr>)"

definition audit_accepts :: "json \<Rightarrow> int \<Rightarrow> bool res" where
  "audit_accepts audit time =
     bindr (jget audit ''purpose'' JNull) (\<lambda>purpose.
       if purpose \<noteq> JStr ''ccf-node-tls-bootstrap-only'' then Inr False
       else bindr (jindex audit ''valid_until'') (\<lambda>until. bindr (json_le until (JInt time)) (\<lambda>over. Inr (\<not> over))))"

definition audit_node ::
    "nat \<Rightarrow> clock \<Rightarrow> auditor \<Rightarrow> (attempt \<Rightarrow> bytes) \<Rightarrow> string \<Rightarrow> nat \<Rightarrow> ('z tool_scheme, bytes \<times> json \<times> int) act" where
  "audit_node depth clk au peer_of host port =
     bind_act (public_get clk peer_of host port ''/node/quotes/self'' None) (\<lambda>(quote, peer).
     bind_act (write_file ''node-quote.json'' quote) (\<lambda>_.
     bind_act (write_file ''node-peer.der'' peer) (\<lambda>_.
     bind_act (wall_now (au_wall au)) (\<lambda>time.
     bind_act (lift_res (au_verifier au quote peer time)) (\<lambda>stdout.
     bind_act (lift_res (bindr (utf8_text stdout) (json_loads_str depth plain_hooks))) (\<lambda>audit.
     bind_act (wall_now (au_wall au)) (\<lambda>later.
     bind_act (lift_res (audit_accepts audit later)) (\<lambda>ok.
       if \<not> ok then raise_act (ValueError ''native node audit did not establish a current TLS identity'')
       else ret_act (peer, audit, time)))))))))"

text \<open>The service certificate in the reply of the network endpoint, as text and as DER.\<close>

definition network_certificate :: "nat \<Rightarrow> auditor \<Rightarrow> bytes \<Rightarrow> (string \<times> bytes) res" where
  "network_certificate depth au network_raw =
     bindr (json_loads depth plain_hooks network_raw) (\<lambda>network.
     bindr (jget network ''service_certificate'' JNull) (\<lambda>v.
       case jstr v of
         None \<Rightarrow> Inl (ValueError ''authenticated node did not return a service certificate'')
       | Some service_pem \<Rightarrow>
           bindr (PEM_cert_to_DER_cert service_pem) (\<lambda>service_der.
           bindr (au_der_check au service_der) (\<lambda>_. Inr (service_pem, service_der)))))"

definition audit_service ::
    "nat \<Rightarrow> clock \<Rightarrow> auditor \<Rightarrow> (attempt \<Rightarrow> bytes) \<Rightarrow> string \<Rightarrow> nat \<Rightarrow> bytes \<Rightarrow> json \<Rightarrow> int \<Rightarrow> ('z tool_scheme, json) act" where
  "audit_service depth clk au peer_of host port peer audit time =
     bind_act (public_get clk peer_of host port ''/node/network'' (Some peer)) (\<lambda>(network_raw, _).
     bind_act (lift_res (network_certificate depth au network_raw)) (\<lambda>(service_pem, service_der).
     bind_act (write_file ''authenticated-network.json'' network_raw) (\<lambda>_.
     bind_act (write_file ''service_cert.pem'' (encode_str service_pem)) (\<lambda>_.
       case jdict audit of
         None \<Rightarrow> raise_act (TypeError ''item assignment'')
       | Some d \<Rightarrow>
           let report = JDict (AList.update ''audited_at'' (JInt time)
             (AList.update ''authenticated_service_certificate_sha256'' (JStr (sha256_hex service_der))
             (AList.update ''actual_tls_peer_certificate_sha256'' (JStr (sha256_hex peer)) d))) in
           bind_act (write_file ''node-audit.json'' (json_file report)) (\<lambda>_. ret_act report)))))"

definition audit_main ::
    "nat \<Rightarrow> clock \<Rightarrow> auditor \<Rightarrow> (attempt \<Rightarrow> bytes) \<Rightarrow> string \<Rightarrow> ('z tool_scheme, json cli) act" where
  "audit_main depth clk au peer_of address =
     bind_act (lift_res (urlsplit address)) (\<lambda>url.
       if \<not> https_origin url then ret_act (Exits 2)
       else
         bind_act (lift_res (origin_port url)) (\<lambda>port.
         bind_act (audit_node depth clk au peer_of (origin_host url) port) (\<lambda>(peer, audit, time).
         bind_act (audit_service depth clk au peer_of (origin_host url) port peer audit time) (\<lambda>report. ret_act (Done report)))))"

section \<open>Fetching a capture\<close>

definition pad_b64 :: "string \<Rightarrow> string" where
  "pad_b64 t = t @ replicate (nat ((- int (str_len t)) mod 4)) (CHR ''='')"

text \<open>\<open>decode\<close>: base64url without padding, canonical.\<close>

definition fetch_decode :: "json \<Rightarrow> bytes res" where
  "fetch_decode v =
     (case jstr v of
        None \<Rightarrow> Inl (ValueError ''base64url input size'')
      | Some t \<Rightarrow>
          if str_len t > 2 * 1024 * 1024 then Inl (ValueError ''base64url input size'')
          else bindr (b64decode_alt (pad_b64 t)) (\<lambda>raw.
            if rstrip_eq (urlsafe_b64encode raw) \<noteq> t then Inl (ValueError ''noncanonical base64url'') else Inr raw))"

definition capture_rq :: "string \<Rightarrow> nat \<Rightarrow> string \<Rightarrow> string \<Rightarrow> bytes \<Rightarrow> string dict \<Rightarrow> http_request" where
  "capture_rq host port verb path body headers =
     \<lparr>rq_host = host, rq_port = port, rq_method = verb, rq_path = path, rq_body = body, rq_headers = headers\<rparr>"

definition fetch_inventory :: "clock \<Rightarrow> (attempt \<Rightarrow> bytes) \<Rightarrow> string \<Rightarrow> nat \<Rightarrow> ('z web_scheme, bytes \<times> bytes) act" where
  "fetch_inventory clk peer_of ip port s =
     (let (t, s1) = now clk s; deadline = t + 15 in
      own_connection (
        bind_act create_connection (\<lambda>a s2.
          let (t', s3) = now clk s2 in
          bind_act (lift_res (at_handshake a)) (\<lambda>_.
            socket_deadline clk deadline (
              bind_act (http_exchange a (capture_rq ip port ''GET'' ''/capture'' [] [(''Host'', ''agentdns-capture.test'')])) (\<lambda>response.
              bind_act (http_read_bounded clk (2 * 1024 * 1024) deadline) (\<lambda>body.
                if reply_status response \<noteq> 200 then raise_act (ValueError ''capture fetch failed'') else ret_act (body, peer_of a)))))
          (settimeout (max (1 / 1000) (deadline - t')) s3))) s1)"

text \<open>The public key of a certificate and its encoding, by two calls of \<open>openssl\<close>.\<close>

record openssl =
  ssl_pubkey :: "bytes \<Rightarrow> bytes res"
  ssl_pkey_der :: "bytes \<Rightarrow> bytes res"

definition peer_spki :: "openssl \<Rightarrow> bytes \<Rightarrow> bytes res" where
  "peer_spki ssl peer = bindr (ssl_pubkey ssl peer) (ssl_pkey_der ssl)"

definition check_inventory_peer :: "json dict \<Rightarrow> bytes \<Rightarrow> unit res" where
  "check_inventory_peer capture peer =
     bindr (dict_index capture ''status'') (\<lambda>status.
     bindr (if status \<noteq> JStr ''captured_not_appraised'' then Inr False
            else bindr (dict_index capture ''profile'') (\<lambda>p. Inr (p = JStr ''azure-aci-snp''))) (\<lambda>ok.
       if \<not> ok then Inl (ValueError ''unexpected capture schema'')
       else
         bindr (bindr (dict_index capture ''tls_certificate_der'') fetch_decode) (\<lambda>shown.
           if shown \<noteq> peer then Inl (ValueError ''inventory certificate is not the actual TLS peer'') else Inr ())))"

definition check_inventory_key :: "json dict \<Rightarrow> bytes \<Rightarrow> bytes \<Rightarrow> unit res" where
  "check_inventory_key capture spki evidence =
     bindr (bindr (dict_index capture ''signer_spki_der'') fetch_decode) (\<lambda>signer.
     bindr (if spki \<noteq> signer then Inr False
            else bindr (dict_index capture ''spki_sha256'') (\<lambda>h. Inr (h = JStr (sha256_hex spki)))) (\<lambda>ok.
       if \<not> ok then Inl (ValueError ''actual TLS peer does not use the captured service key'')
       else
         bindr (dict_index capture ''evidence_digest'') (\<lambda>h.
           if h \<noteq> JStr (sha256_hex evidence) then Inl (ValueError ''evidence digest mismatch'') else Inr ())))"

definition check_inventory_action :: "json dict \<Rightarrow> bytes \<Rightarrow> unit res" where
  "check_inventory_action capture spki =
     (case map_option jdict (map_of capture ''action'') of
        Some (Some action) \<Rightarrow>
          (case (map_of action ''operation'', map_option jdict (map_of action ''parameters'')) of
             (Some (JStr op), Some (Some parameters)) \<Rightarrow>
               if op \<noteq> ''register'' then Inl (ValueError ''invalid fixed registration action'')
               else
                 bindr (fetch_decode (case map_of action ''signer_spki_der'' of Some v \<Rightarrow> v | None \<Rightarrow> JNull)) (\<lambda>signer.
                 bindr (if signer \<noteq> spki then Inr False
                        else bindr (dict_index capture ''evidence_digest'') (\<lambda>h.
                          Inr (py_eq (case map_of parameters ''evidence_digest'' of Some v \<Rightarrow> v | None \<Rightarrow> JNull) h
                            \<and> map_of parameters ''evidence_profile'' = Some (JStr ''azure-aci-snp'')))) (\<lambda>ok.
                   if ok then Inr () else Inl (ValueError ''fixed action does not match captured evidence and key'')))
           | _ \<Rightarrow> Inl (ValueError ''invalid fixed registration action''))
      | _ \<Rightarrow> Inl (ValueError ''invalid fixed registration action''))"

definition fetch_check :: "openssl \<Rightarrow> json dict \<Rightarrow> bytes \<Rightarrow> (bytes \<times> bytes) res" where
  "fetch_check ssl capture peer =
     bindr (check_inventory_peer capture peer) (\<lambda>_.
     bindr (peer_spki ssl peer) (\<lambda>spki.
     bindr (bindr (dict_index capture ''evidence_payload'') fetch_decode) (\<lambda>evidence.
     bindr (check_inventory_key capture spki evidence) (\<lambda>_.
     bindr (check_inventory_action capture spki) (\<lambda>_. Inr (spki, evidence))))))"

definition fetch_main ::
    "nat \<Rightarrow> clock \<Rightarrow> openssl \<Rightarrow> (attempt \<Rightarrow> bytes) \<Rightarrow> string \<Rightarrow> int \<Rightarrow> ('z tool_scheme, json cli) act" where
  "fetch_main depth clk ssl peer_of ip port =
     (if \<not> (1 \<le> port \<and> port \<le> 65535) then ret_act (Exits 2)
      else
        bind_act (fetch_inventory clk peer_of ip (nat port)) (\<lambda>(body, peer).
        bind_act (lift_res (json_loads depth plain_hooks body)) (\<lambda>v.
        case jdict v of
          None \<Rightarrow> raise_act (ValueError ''unexpected capture schema'')
        | Some capture \<Rightarrow>
            bind_act (lift_res (fetch_check ssl capture peer)) (\<lambda>(spki, evidence).
            bind_act (write_file ''capture.json'' (json_file v)) (\<lambda>_.
            bind_act (write_file ''evidence.cose'' evidence) (\<lambda>_.
            bind_act (write_file ''spki.der'' spki) (\<lambda>_.
            bind_act (write_file ''peer.der'' peer) (\<lambda>_.
            bind_act (write_file ''peer.pem'' (encode_str (DER_cert_to_PEM_cert peer))) (\<lambda>_.
            bind_act (lift_res (dict_index capture ''action'')) (\<lambda>action.
            bind_act (write_file ''action.json'' (json_file (JDict [(''action'', action)]))) (\<lambda>_.
            bind_act (lift_res (map_res (\<lambda>k. dict_index capture k) [''spki_sha256'', ''evidence_digest'', ''untrusted_report_inventory''])) (\<lambda>vs.
              ret_act (Done (JDict (zip [''status'', ''spki_sha256'', ''evidence_digest'', ''actual_peer_spki_matched'', ''inventory'']
                [JStr ''captured_not_appraised'', vs ! 0, vs ! 1, JBool True, vs ! 2])))))))))))))))"

section \<open>Requesting a signature\<close>

text \<open>\<open>bytes(v)\<close> of a parsed value: a list of small integers, or that many zeros.\<close>

definition small_int :: "json \<Rightarrow> byte res" where
  "small_int v =
     (case v of
        JInt i \<Rightarrow> if 0 \<le> i \<and> i < 256 then Inr (word_of_int i) else Inl (ValueError ''bytes must be in range(0, 256)'')
      | JBool b \<Rightarrow> Inr (if b then 1 else 0)
      | _ \<Rightarrow> Inl (TypeError ''cannot be interpreted as an integer''))"

definition json_bytes :: "json \<Rightarrow> bytes res" where
  "json_bytes v =
     (case v of
        JList xs \<Rightarrow> map_res small_int xs
      | JDict d \<Rightarrow> if d = [] then Inr [] else Inl (TypeError ''cannot be interpreted as an integer'')
      | JInt i \<Rightarrow> if i < 0 then Inl (ValueError ''negative count'') else Inr (replicate (nat i) 0)
      | JBool b \<Rightarrow> Inr (if b then [0] else [])
      | _ \<Rightarrow> Inl (TypeError ''cannot convert to bytes''))"

text \<open>The files of the operator, and the appraiser on the evidence, the key, the policy and the time.\<close>

record sign_input =
  si_spki :: bytes
  si_peer :: bytes
  si_evidence :: bytes
  si_parameters :: bytes
  si_body :: bytes
  si_appraiser :: "bytes \<Rightarrow> bytes \<Rightarrow> int \<Rightarrow> bytes res"
  si_wall :: "nat \<Rightarrow> int"
  si_trust :: "string \<Rightarrow> unit res"

definition sign_paths :: "string list" where
  "sign_paths = [''/signed-request'', ''/lifecycle/action'', ''/lifecycle/signed-request'']"

definition appraisal_accepts :: "json \<Rightarrow> bytes \<Rightarrow> int \<Rightarrow> bool res" where
  "appraisal_accepts appraisal spki time =
     bindr (jindex appraisal ''spki_sha256'') (\<lambda>v.
     bindr (json_bytes v) (\<lambda>h.
       if h \<noteq> sha256 spki then Inr False
       else bindr (jindex appraisal ''valid_until'') (\<lambda>until. bindr (json_le until (JInt time)) (\<lambda>over. Inr (\<not> over)))))"

definition token_parameter :: "nat \<Rightarrow> bytes \<Rightarrow> string res" where
  "token_parameter depth raw =
     bindr (bindr (utf8_text raw) (json_loads_str depth plain_hooks)) (\<lambda>v.
     bindr (jindex v ''parameters'') (\<lambda>ps.
     bindr (jindex ps ''captureToken'') (\<lambda>t.
     bindr (jindex t ''value'') (\<lambda>token.
       case jstr token of
         Some s \<Rightarrow> if length s = 64 \<and> list_all is_lower_hex s then Inr s else Inl (ValueError ''invalid capture token'')
       | None \<Rightarrow> Inl (ValueError ''invalid capture token'')))))"

definition sign_exchange ::
    "nat \<Rightarrow> clock \<Rightarrow> (attempt \<Rightarrow> bytes) \<Rightarrow> bytes \<Rightarrow> nat \<Rightarrow> string \<Rightarrow> bytes \<Rightarrow> string \<Rightarrow> ('z web_scheme, bytes \<times> json) act" where
  "sign_exchange depth clk peer_of peer port path body token s =
     (let (t, s1) = now clk s; deadline = t + 30 in
      own_connection (
        bind_act create_connection (\<lambda>a s2.
          let (t', s3) = now clk s2 in
          bind_act (lift_res (at_handshake a)) (\<lambda>_.
            if peer_of a \<noteq> peer then raise_act (ValueError ''TLS peer changed after appraisal'')
            else
              socket_deadline clk deadline (
                bind_act (http_exchange a (capture_rq ''agentdns-capture.test'' port ''POST'' path body
                    [(''Content-Type'', ''application/json''), (''Authorization'', ''Bearer '' @ token)])) (\<lambda>response.
                bind_act (http_read_bounded clk (2 * 1024 * 1024) deadline) (\<lambda>payload.
                  if reply_status response \<noteq> 200 then raise_act (ValueError ''fixed-scope signing request failed'')
                  else bind_act (lift_res (json_loads depth plain_hooks payload)) (\<lambda>v. ret_act (payload, v))))))
          (settimeout (max (1 / 1000) (deadline - t')) s3))) s1)"

definition sign_main ::
    "nat \<Rightarrow> clock \<Rightarrow> crypto \<Rightarrow> (attempt \<Rightarrow> bytes) \<Rightarrow> sign_input \<Rightarrow> int \<Rightarrow> string \<Rightarrow> ('z tool_scheme, json cli) act" where
  "sign_main depth clk lib peer_of inp port path =
     (if path \<notin> set sign_paths \<or> \<not> (1 \<le> port \<and> port \<le> 65535) then ret_act (Exits 2)
      else
        bind_act (lift_res (load_der_cert lib (si_peer inp))) (\<lambda>certificate.
          if key_der (x_key certificate) \<noteq> si_spki inp then raise_act (ValueError ''saved peer key differs from evidence key'')
          else
            bind_act (wall_now (si_wall inp)) (\<lambda>time.
            bind_act (lift_res (si_appraiser inp (si_evidence inp) (si_spki inp) time)) (\<lambda>stdout.
            bind_act (lift_res (json_loads depth plain_hooks stdout)) (\<lambda>appraisal.
            bind_act (wall_now (si_wall inp)) (\<lambda>later.
            bind_act (lift_res (appraisal_accepts appraisal (si_spki inp) later)) (\<lambda>ok.
              if \<not> ok then raise_act (ValueError ''appraisal identity or validity mismatch'')
              else
                bind_act (lift_res (token_parameter depth (si_parameters inp))) (\<lambda>token.
                  if si_body inp = [] \<or> length (si_body inp) > 65536 then raise_act (ValueError ''request body exceeds bound'')
                  else
                    bind_act (lift_res (si_trust inp (DER_cert_to_PEM_cert (si_peer inp)))) (\<lambda>_.
                    bind_act (sign_exchange depth clk peer_of (si_peer inp) (nat port) path (si_body inp) token) (\<lambda>(payload, v).
                    bind_act (write_file ''output'' (json_file v)) (\<lambda>_.
                      ret_act (Done (JDict [(''response_sha256'', JStr (sha256_hex payload)),
                        (''peer_spki_sha256'', JStr (sha256_hex (si_spki inp))), (''native_appraisal_passed'', JBool True)])))))))))))))"

end
