(* ===== verification/Control_Laws.thy ===== *)
theory Control_Laws
  imports Control_Client Json_Laws
begin

text \<open>
  What the operators' client promises: a governance proposal is reported only after the transaction that
  the service names was seen committed, and the wait ends once the service reports the commitment in time.
\<close>

lemma propose_Inr:
  fixes s :: "'z web_scheme"
  assumes "propose depth clk cl gov actions abstain s = (Inr result, s')"
  obtains used d where "attempts s = used @ attempts s'" "confirmed depth result used" "cr_body result = JDict d"
    "map_of d ''proposalState'' = Some (JStr ''Accepted'') \<or> abstain \<and> map_of d ''proposalState'' = Some (JStr ''Open'')"
    "\<exists>first ballots created signed. posts (requests s') = posts (requests s) @ first # ballots \<and> length ballots \<le> (if abstain then 0 else 1)
      \<and> gov_sign gov (gov_payload (Some (JDict [(''actions'', actions)]))) (gov_headers created ''proposal'' None) = Inr signed
      \<and> first = client_rq cl ''POST'' ''/gov/members/proposals:create?api-version=2024-07-01'' (Some signed) ''application/cose''"
proof -
  from assms obtain r0 s1 where post: "gov_post depth clk cl gov ''/gov/members/proposals:create'' (Some (JDict [(''actions'', actions)])) ''proposal'' None s = (Inr r0, s1)"
    and rest: "(case jdict (cr_body r0) of
         None \<Rightarrow> raise_act (ValueError ''proposal failed or returned an invalid state'')
       | Some proposal \<Rightarrow>
           if map_of proposal ''proposalState'' \<notin> {Some (JStr ''Open''), Some (JStr ''Accepted'')}
           then raise_act (ValueError ''proposal failed or returned an invalid state'')
           else if abstain then ret_act r0
           else if map_of proposal ''proposalState'' \<noteq> Some (JStr ''Accepted'') then submit_ballot depth clk cl gov proposal
           else ret_act r0) s1 = (Inr result, s')"
    unfolding propose_def bind_act_Inr by blast
  obtain used created signed where u: "attempts s = used @ attempts s1" "confirmed depth r0 used"
    "gov_sign gov (gov_payload (Some (JDict [(''actions'', actions)]))) (gov_headers created ''proposal'' None) = Inr signed"
    "posts (requests s1) = posts (requests s) @ [client_rq cl ''POST'' (''/gov/members/proposals:create'' @ ''?api-version=2024-07-01'') (Some signed) ''application/cose'']"
    by (rule gov_post_Inr [OF post])
  from rest obtain proposal where pr: "cr_body r0 = JDict proposal"
    "map_of proposal ''proposalState'' \<in> {Some (JStr ''Open''), Some (JStr ''Accepted'')}"
    by (cases "cr_body r0") (auto split: if_splits)
  show thesis
  proof (cases "abstain \<or> map_of proposal ''proposalState'' = Some (JStr ''Accepted'')")
    case True
    with rest pr have r: "result = r0" "s' = s1" by (auto split: if_splits)
    show thesis
      by (rule that [OF u(1) [folded r(2)] u(2) [folded r(1)] pr(1) [folded r(1)]]) (use True pr u(3,4) r in \<open>auto intro!: exI [of _ created]\<close>)
  next
    case False
    with rest pr have sb: "submit_ballot depth clk cl gov proposal s1 = (Inr result, s')" by simp
    obtain used2 rq d where b: "attempts s1 = used2 @ attempts s'" "confirmed depth result used2" "posts (requests s') = posts (requests s1) @ [rq]"
      "cr_body result = JDict d" "map_of d ''proposalState'' = Some (JStr ''Accepted'')"
      by (rule submit_ballot_Inr [OF sb])
    show thesis
    proof (rule that [OF _ _ b(4)])
      show "attempts s = (used @ used2) @ attempts s'" using u(1) b(1) by simp
      show "confirmed depth result (used @ used2)" by (rule confirmed_append [OF b(2)])
    qed (use b(3,5) u(3,4) False in \<open>auto intro!: exI [of _ created]\<close>)
  qed
qed

section \<open>A service that answers\<close>

definition json_attempt :: "int \<Rightarrow> (string \<times> string) list \<Rightarrow> json \<Rightarrow> attempt" where
  "json_attempt status headers v = \<lparr>at_connect = Inr (), at_handshake = Inr (),
     at_reply = Inr \<lparr>reply_status = status, reply_headers = headers, reply_body = [Data (encode_str (print_json v)), Closed]\<rparr>\<rparr>"

lemma answered_json:
  assumes "json_exact v" "json_wf v" "json_ascii v" "json_nest v \<le> depth" "length (print_json v) \<le> 4 * 1024 * 1024"
    and "client_headers headers [] = Inr h"
  shows "answered depth (json_attempt status headers v) \<lparr>cr_status = status, cr_headers = h, cr_body = v, cr_confirmed = None\<rparr>"
proof -
  obtain c cs where c: "print_json v = c # cs" by (rule print_json_start [OF assms(1)])
  have len: "length (encode_str (print_json v)) = length (print_json v)" by (simp add: encode_str_def)
  have "encode_str (print_json v) \<noteq> []" using c by (simp add: encode_str_def)
  moreover from this have "response_json depth (encode_str (print_json v)) = Inr v"
    unfolding response_json_def using plain_json.loads_bytes [OF assms(3,1,2,4)] by simp
  ultimately show ?thesis using assms(5,6) len by (simp add: answered_def json_attempt_def)
qed

definition sample_client :: ccf_client where
  "sample_client = \<lparr>cl_host = ''h'', cl_port = 443, cl_ip = ''h''\<rparr>"

definition sample_service :: "attempt list \<Rightarrow> web" where
  "sample_service as = \<lparr>ticks = 0, inbox = [], sock_timeout = None, outbox = [], attempts = as, requests = []\<rparr>"

definition sample_status :: "string \<Rightarrow> json" where
  "sample_status st = JDict [(''transaction_id'', JStr ''2.7''), (''status'', JStr st)]"

definition sample_proposal :: json where
  "sample_proposal = JDict [(''proposalState'', JStr ''Accepted''), (''tx_id'', JStr ''2.7'')]"

lemma sample_txid_ok: "canonical_transaction (Some ''2.7'')"
  by (simp add: canonical_transaction_def canonical_component_def is_digit_def digits_val_def digit_val_def)

lemma sample_status_answered:
  assumes "isascii st" "length (quote_str st) \<le> 20"
  shows "answered 10 (json_attempt 200 [] (sample_status st)) \<lparr>cr_status = 200, cr_headers = [], cr_body = sample_status st, cr_confirmed = None\<rparr>"
  by (rule answered_json) (use assms in \<open>simp_all add: sample_status_def print_json_JDict json_nest.simps isascii_def quote_str_def esc_char_def short_escape_def\<close>)

lemma sample_proposal_answered:
  "answered 10 (json_attempt 200 [] sample_proposal) \<lparr>cr_status = 200, cr_headers = [], cr_body = sample_proposal, cr_confirmed = None\<rparr>"
  by (rule answered_json) (simp_all add: sample_proposal_def print_json_JDict json_nest.simps isascii_def quote_str_def esc_char_def short_escape_def)

section \<open>Properties\<close>


text \<open>(C27) The wait for a commitment ends. When the service answers the status queries with any number of
  unknown or pending replies and then with the commitment, and every reading of the clock lies within 30
  seconds of every other, \<open>require_committed\<close> returns the response with its transaction confirmed, after
  exactly these queries.\<close>

theorem commitment_confirmed:
  assumes "attempts s = pending @ a # rest" "\<forall>x \<in> set pending. \<exists>st. answered depth x st \<and> transaction_status txid st = Inr Tx_again"
    and "answered depth a state" "transaction_status txid state = Inr Tx_committed" "\<forall>i j. clk i < clk j + 30"
    and "200 \<le> cr_status response" "cr_status response < 300" "response_txid response = Inr txid"
  shows "\<exists>s'. require_committed depth clk cl response s = (Inr (response\<lparr>cr_confirmed := Some txid\<rparr>), s') \<and> attempts s' = rest"
proof -
  have "in_time clk (Some (clk (ticks s) + 30))" using assms(5) by (simp add: in_time_def)
  from confirm_loop_returns [OF _ assms(2-4) this response_txid_canonical [OF assms(8)], of "s\<lparr>ticks := Suc (ticks s)\<rparr>" rest cl]
  obtain s' where "confirm_loop depth clk cl txid (clk (ticks s) + 30) (s\<lparr>ticks := Suc (ticks s)\<rparr>) = (Inr (), s')" "attempts s' = rest"
    using assms(1) by auto
  then show ?thesis using assms(6-8)
    by (simp add: require_committed_def bind_act_def lift_res_def ret_act_def now_def Let_def)
qed

definition sample_response :: ccf_response where
  "sample_response = \<lparr>cr_status = 200, cr_headers = [], cr_body = sample_proposal, cr_confirmed = None\<rparr>"

lemma sample_response_txid: "response_txid sample_response = Inr ''2.7''"
  using sample_txid_ok by (simp add: sample_response_def sample_proposal_def response_txid_def)

lemma sample_polls:
  "transaction_status ''2.7'' \<lparr>cr_status = 200, cr_headers = [], cr_body = sample_status ''Pending'', cr_confirmed = None\<rparr> = Inr Tx_again"
  "transaction_status ''2.7'' \<lparr>cr_status = 200, cr_headers = [], cr_body = sample_status ''Committed'', cr_confirmed = None\<rparr> = Inr Tx_committed"
  by (simp_all add: transaction_status_def sample_status_def)

lemmas sample_answers = sample_status_answered [of "''Pending''"] sample_status_answered [of "''Committed''"]

theorem commitment_confirmed_witness:
  "\<exists>s'. require_committed 10 (\<lambda>_. 0) sample_client sample_response
     (sample_service [json_attempt 200 [] (sample_status ''Pending''), json_attempt 200 [] (sample_status ''Committed'')])
   = (Inr (sample_response\<lparr>cr_confirmed := Some ''2.7''\<rparr>), s')"
proof -
  have "\<exists>s'. require_committed 10 (\<lambda>_. 0) sample_client sample_response
     (sample_service [json_attempt 200 [] (sample_status ''Pending''), json_attempt 200 [] (sample_status ''Committed'')])
   = (Inr (sample_response\<lparr>cr_confirmed := Some ''2.7''\<rparr>), s') \<and> attempts s' = []"
  proof (rule commitment_confirmed [OF _ _ _ sample_polls(2) _ _ _ sample_response_txid])
    show "attempts (sample_service [json_attempt 200 [] (sample_status ''Pending''), json_attempt 200 [] (sample_status ''Committed'')])
      = [json_attempt 200 [] (sample_status ''Pending'')] @ json_attempt 200 [] (sample_status ''Committed'') # []"
      by (simp add: sample_service_def)
    show "\<forall>x \<in> set [json_attempt 200 [] (sample_status ''Pending'')]. \<exists>st. answered 10 x st \<and> transaction_status ''2.7'' st = Inr Tx_again"
      using sample_answers(1) sample_polls(1) by (auto simp: isascii_def quote_str_def esc_char_def short_escape_def)
    show "answered 10 (json_attempt 200 [] (sample_status ''Committed''))
        \<lparr>cr_status = 200, cr_headers = [], cr_body = sample_status ''Committed'', cr_confirmed = None\<rparr>"
      by (rule sample_answers(2)) (simp_all add: isascii_def quote_str_def esc_char_def short_escape_def)
  qed (simp_all add: sample_response_def)
  then show ?thesis by blast
qed

definition sample_governor :: governor where
  "sample_governor = \<lparr>gov_id = ''m'', gov_sign = (\<lambda>payload headers. Inr []), gov_wall = (\<lambda>_. 0)\<rparr>"

lemma sample_proposed:
  "\<exists>s'. propose 10 (\<lambda>_. 0) sample_client sample_governor (JList []) False
     (sample_service [json_attempt 200 [] sample_proposal, json_attempt 200 [] (sample_status ''Committed'')])
   = (Inr (sample_response\<lparr>cr_confirmed := Some ''2.7''\<rparr>), s')"
proof -
  let ?as = "[json_attempt 200 [] sample_proposal, json_attempt 200 [] (sample_status ''Committed'')]"
  let ?s = "(sample_service ?as)\<lparr>ticks := 1\<rparr>" and ?body = "Raw_body []"
  have "\<exists>s'. client_request 10 (\<lambda>_. 0) sample_client ''POST'' ''/gov/members/proposals:create?api-version=2024-07-01'' ?body ''application/cose'' None ?s
      = (Inr sample_response, s')"
    unfolding sample_response_def
  proof (rule client_request_returns [OF _ sample_proposal_answered])
    show "attempts ?s = json_attempt 200 [] sample_proposal # [json_attempt 200 [] (sample_status ''Committed'')]" by (simp add: sample_service_def)
    show "in_time (\<lambda>_. 0) None" by (simp add: in_time_def)
    show "request_path ''/gov/members/proposals:create?api-version=2024-07-01''" by (simp add: request_path_def str_len_def startswith_def)
    show "length b \<le> 4 * 1024 * 1024" if "ccf_body_bytes ?body = Some b" for b
      using that by (simp add: ccf_body_bytes_def)
  qed
  then obtain s1 where s1: "client_request 10 (\<lambda>_. 0) sample_client ''POST'' ''/gov/members/proposals:create?api-version=2024-07-01'' ?body ''application/cose'' None ?s
      = (Inr sample_response, s1)" by blast
  have "attempts ?s = hd (attempts ?s) # attempts s1" by (rule client_request_Inr [OF s1]) simp
  then have rest: "attempts s1 = [] @ json_attempt 200 [] (sample_status ''Committed'') # []" by (simp add: sample_service_def)
  have "answered 10 (json_attempt 200 [] (sample_status ''Committed''))
        \<lparr>cr_status = 200, cr_headers = [], cr_body = sample_status ''Committed'', cr_confirmed = None\<rparr>"
    by (rule sample_answers(2)) (simp_all add: isascii_def quote_str_def esc_char_def short_escape_def)
  then have "\<exists>s'. confirm_loop 10 (\<lambda>_. 0) sample_client ''2.7'' 30 (s1\<lparr>ticks := Suc (ticks s1)\<rparr>) = (Inr (), s') \<and> attempts s' = []"
    using confirm_loop_returns [OF _ _ _ sample_polls(2) _ sample_txid_ok, of "s1\<lparr>ticks := Suc (ticks s1)\<rparr>" "[]" "json_attempt 200 [] (sample_status ''Committed'')" "[]" 10 "\<lambda>_. 0" 30 sample_client] rest
    by (simp add: in_time_def)
  then obtain s' where loop: "confirm_loop 10 (\<lambda>_. 0) sample_client ''2.7'' 30 (s1\<lparr>ticks := Suc (ticks s1)\<rparr>) = (Inr (), s')" by blast
  have rc: "require_committed 10 (\<lambda>_. 0) sample_client sample_response s1 = (Inr (sample_response\<lparr>cr_confirmed := Some ''2.7''\<rparr>), s')"
    using loop sample_response_txid by (simp add: require_committed_def bind_act_def lift_res_def ret_act_def now_def sample_response_def)
  have "gov_post 10 (\<lambda>_. 0) sample_client sample_governor ''/gov/members/proposals:create'' (Some (JDict [(''actions'', JList [])])) ''proposal'' None (sample_service ?as)
      = (Inr (sample_response\<lparr>cr_confirmed := Some ''2.7''\<rparr>), s')"
    using s1 rc by (simp add: gov_post_def sample_governor_def bind_act_def lift_res_def sample_response_def sample_service_def)
  then show ?thesis
    by (intro exI [of _ s']) (simp add: propose_def bind_act_def sample_response_def sample_proposal_def ret_act_def)
qed


end
