(* ===== verification/Tool_Laws.thy ===== *)
theory Tool_Laws
  imports Control_Tools Control_Laws
begin

text \<open>
  What the operators' tools promise: the control token goes only to the peer whose evidence was appraised, and
  the service certificate is stored only when it comes from the audited node.
\<close>

section \<open>Actions that send nothing\<close>

definition quiet :: "('z web_scheme, 'a) act \<Rightarrow> bool" where
  "quiet m \<longleftrightarrow> (\<forall>s r s'. m s = (r, s') \<longrightarrow> requests s' = requests s \<and> attempts s' = attempts s \<and> web.more s' = web.more s)"

named_theorems quiet_intros

lemma quiet_bind [quiet_intros]: "quiet m \<Longrightarrow> (\<And>x. quiet (f x)) \<Longrightarrow> quiet (bind_act m f)"
  unfolding quiet_def bind_act_def by (fastforce split: prod.splits sum.splits)

lemma quiet_basic [quiet_intros]: "quiet (lift_res x)" "quiet (ret_act y)" "quiet (raise_act e)"
  by (simp_all add: quiet_def)

lemma quiet_read [quiet_intros]: "quiet (http_read_bounded clk maximum deadline)"
proof -
  have "\<exists>n q. s' = s\<lparr>ticks := n, inbox := q\<rparr>" if "http_read_bounded clk maximum deadline s = (r, s')" for s s' :: "'z web_scheme" and r
    using http_reader.loop_frame [of "[]" maximum clk deadline s r s'] that by (auto simp: http_read_bounded_def)
  then show ?thesis unfolding quiet_def by fastforce
qed

text \<open>An action that sends at most the given request, and has sent it when it returns.\<close>

definition sends :: "http_request \<Rightarrow> ('z web_scheme, 'a) act \<Rightarrow> bool" where
  "sends rq m \<longleftrightarrow> (\<forall>s r s'. m s = (r, s') \<longrightarrow> attempts s' = attempts s \<and> web.more s' = web.more s
     \<and> (requests s' = requests s \<and> (\<exists>e. r = Inl e) \<or> requests s' = requests s @ [rq]))"

named_theorems sends_intros

lemma sends_exchange [sends_intros]: "(\<And>x. quiet (f x)) \<Longrightarrow> sends rq (bind_act (http_exchange a rq) f)"
  unfolding sends_def quiet_def bind_act_def http_exchange_def by (fastforce simp: Let_def split: prod.splits sum.splits)

lemma sends_deadline [sends_intros]:
  assumes "sends rq m"
  shows "sends rq (socket_deadline clk deadline m)"
  unfolding sends_def
proof (intro allI impI)
  fix s r s'
  assume run: "socket_deadline clk deadline m s = (r, s')"
  let ?t = "settimeout (deadline - clk (ticks s)) (s\<lparr>ticks := Suc (ticks s)\<rparr>)"
  obtain x s2 where x: "m ?t = (x, s2)" by fastforce
  from assms x have "attempts s2 = attempts s \<and> web.more s2 = web.more s
      \<and> (requests s2 = requests s \<and> (\<exists>e. x = Inl e) \<or> requests s2 = requests s @ [rq])"
    unfolding sends_def by (fastforce simp: settimeout_def)
  with run x show "attempts s' = attempts s \<and> web.more s' = web.more s
     \<and> (requests s' = requests s \<and> (\<exists>e. r = Inl e) \<or> requests s' = requests s @ [rq])"
    by (auto simp: socket_deadline_def with_deadline_def now_def Let_def split: if_splits)
qed

lemma sends_lift: "(\<And>x. y = Inr x \<Longrightarrow> sends rq (f x)) \<Longrightarrow> sends rq (bind_act (lift_res y) f)"
  unfolding sends_def bind_act_def lift_res_def by (cases y) auto

lemma sends_raise [sends_intros]: "sends rq (raise_act e)"
  by (simp add: sends_def)

text \<open>A connection of its own, on which the request goes out under a condition on the peer.\<close>

definition connects :: "(attempt \<Rightarrow> bool) \<Rightarrow> http_request \<Rightarrow> ('z web_scheme, 'a) act \<Rightarrow> bool" where
  "connects ok rq m \<longleftrightarrow> (\<forall>s r s'. m s = (r, s') \<longrightarrow> web.more s' = web.more s \<and> attempts s' = tl (attempts s)
     \<and> (requests s' = requests s \<and> (\<exists>e. r = Inl e)
        \<or> requests s' = requests s @ [rq] \<and> (\<exists>a rest. attempts s = a # rest \<and> at_connect a = Inr () \<and> at_handshake a = Inr () \<and> ok a)))"

lemma connects_own:
  assumes "\<And>t a s r s'. at_connect a = Inr () \<Longrightarrow> f t a s = (r, s') \<Longrightarrow> attempts s' = attempts s \<and> web.more s' = web.more s
      \<and> (requests s' = requests s \<and> (\<exists>e. r = Inl e) \<or> requests s' = requests s @ [rq] \<and> at_handshake a = Inr () \<and> ok a)"
  shows "connects ok rq (\<lambda>s. case now clk s of (t, s1) \<Rightarrow> own_connection (bind_act create_connection (f t)) s1)"
  unfolding connects_def
proof (intro allI impI)
  fix s r s'
  assume run: "(case now clk s of (t, s1) \<Rightarrow> own_connection (bind_act create_connection (f t)) s1) = (r, s')"
  let ?s = "s\<lparr>ticks := Suc (ticks s)\<rparr>"
  obtain s4 where s4: "bind_act create_connection (f (clk (ticks s))) ?s = (r, s4)" "s' = s4\<lparr>inbox := inbox ?s, sock_timeout := sock_timeout ?s\<rparr>"
    using run by (auto simp: now_def own_connection_def Let_def split: prod.splits)
  show "web.more s' = web.more s \<and> attempts s' = tl (attempts s)
     \<and> (requests s' = requests s \<and> (\<exists>e. r = Inl e)
        \<or> requests s' = requests s @ [rq] \<and> (\<exists>a rest. attempts s = a # rest \<and> at_connect a = Inr () \<and> at_handshake a = Inr () \<and> ok a))"
  proof (cases "create_connection ?s")
    case (Pair x s2)
    have s2: "attempts s2 = tl (attempts s)" "requests s2 = requests s" "web.more s2 = web.more s"
      using Pair by (auto simp: create_connection_def Let_def split: list.splits)
    show ?thesis
    proof (cases x)
      case (Inl e)
      with s4 Pair s2 show ?thesis by (auto simp: bind_act_def)
    next
      case (Inr a)
      with create_connection_Inr [of ?s a s2] Pair have a: "\<exists>rest. attempts s = a # rest" "at_connect a = Inr ()" by auto
      have "f (clk (ticks s)) a s2 = (r, s4)" using s4(1) Pair Inr by (simp add: bind_act_def)
      from assms [OF a(2) this] s2 a s4(2) show ?thesis by auto
    qed
  qed
qed

lemma sendsD: "sends rq m \<Longrightarrow> m s = (r, s') \<Longrightarrow> attempts s' = attempts s \<and> web.more s' = web.more s
     \<and> (requests s' = requests s \<and> (\<exists>e. r = Inl e) \<or> requests s' = requests s @ [rq])"
  unfolding sends_def by blast

lemma settimeout_web [simp]:
  "attempts (settimeout t s) = attempts s" "requests (settimeout t s) = requests s" "web.more (settimeout t s) = web.more s"
  by (simp_all add: settimeout_def)

lemma connects_handshake:
  assumes m: "\<And>t a. sends rq (m t a)"
  shows "connects ok rq (\<lambda>s. case now clk s of (t, s1) \<Rightarrow> own_connection (bind_act create_connection (\<lambda>a s2.
    case now clk s2 of (t', s3) \<Rightarrow>
      if c t t' then (Inl late, s3)
      else bind_act (lift_res (at_handshake a)) (\<lambda>_. if ok a then m t a else raise_act e) (settimeout (g t t') s3))) s1)"
proof (rule connects_own)
  fix t a s r s'
  assume "(case now clk s of (t', s3) \<Rightarrow>
      if c t t' then (Inl late, s3)
      else bind_act (lift_res (at_handshake a)) (\<lambda>_. if ok a then m t a else raise_act e) (settimeout (g t t') s3)) = (r, s')"
  then show "attempts s' = attempts s \<and> web.more s' = web.more s
      \<and> (requests s' = requests s \<and> (\<exists>e. r = Inl e) \<or> requests s' = requests s @ [rq] \<and> at_handshake a = Inr () \<and> ok a)"
    by (cases "at_handshake a") (auto simp: now_def bind_act_def lift_res_def split: if_splits dest!: sendsD [OF m])
qed

lemma sign_exchange_connects:
  "connects (\<lambda>a. peer_of a = peer) (capture_rq ''agentdns-capture.test'' port ''POST'' path body
      [(''Content-Type'', ''application/json''), (''Authorization'', ''Bearer '' @ token)])
    (sign_exchange depth clk peer_of peer port path body token)" (is "connects ?ok ?rq _")
proof -
  let ?m = "\<lambda>t a. socket_deadline clk (t + 30) (bind_act (http_exchange a ?rq) (\<lambda>response.
      bind_act (http_read_bounded clk (2 * 1024 * 1024) (t + 30)) (\<lambda>payload.
        if reply_status response \<noteq> 200 then raise_act (ValueError ''fixed-scope signing request failed'')
        else bind_act (lift_res (json_loads depth plain_hooks payload)) (\<lambda>v. ret_act (payload, v)))))"
  have m: "sends ?rq (?m t a)" for t a by (intro sends_intros quiet_intros) (auto intro: quiet_intros)
  have flip: "(if peer_of a \<noteq> peer then x else y) = (if peer_of a = peer then y else x)" for a x y by simp
  show ?thesis
    using connects_handshake [where rq = ?rq and m = ?m and ok = ?ok and clk = clk and c = "\<lambda>_ _. False"
        and e = "ValueError ''TLS peer changed after appraisal''" and g = "\<lambda>t t'. max (1 / 1000) (t + 30 - t')", OF m]
    unfolding sign_exchange_def Let_def if_False flip by (simp only: case_prod_beta)
qed

section \<open>The control token\<close>

lemma bind_liftE:
  assumes "bind_act (lift_res x) f s = (r, s')"
  obtains (raised) e where "x = Inl e" "r = Inl e" "s' = s" | (went) v where "x = Inr v" "f v s = (r, s')"
  using assms by (cases x) (auto simp: bind_act_def lift_res_def)

lemma bind_wallE:
  assumes "bind_act (wall_now w) f s = (r, s')"
  shows "f (w (ticks s)) (s\<lparr>ticks := Suc (ticks s)\<rparr>) = (r, s')"
  using assms by (simp add: bind_act_def wall_now_def)

lemma write_file_requests: "requests (snd (write_file n d s)) = requests s" "attempts (snd (write_file n d s)) = attempts s"
  by (simp_all add: write_file_def)

text \<open>The certificate of the worker was loaded, has the key of the evidence, and the appraiser accepted
  the evidence for this key at some time.\<close>

definition appraised :: "nat \<Rightarrow> crypto \<Rightarrow> sign_input \<Rightarrow> bool" where
  "appraised depth lib inp \<longleftrightarrow> (\<exists>cert time stdout appraisal later.
     load_der_cert lib (si_peer inp) = Inr cert \<and> key_der (x_key cert) = si_spki inp
     \<and> si_appraiser inp (si_evidence inp) (si_spki inp) time = Inr stdout \<and> json_loads depth plain_hooks stdout = Inr appraisal
     \<and> appraisal_accepts appraisal (si_spki inp) later = Inr True)"

lemma sign_tail:
  fixes s :: "'z tool_scheme"
  assumes "bind_act (sign_exchange depth clk peer_of peer port path body token) (\<lambda>(payload, v).
      bind_act (write_file n (g v)) (\<lambda>_. ret_act (h payload))) s = (r, s')"
  shows "requests s' = requests s \<and> (\<exists>e. r = Inl e) \<or> requests s' = requests s @ [capture_rq ''agentdns-capture.test'' port ''POST'' path body
      [(''Content-Type'', ''application/json''), (''Authorization'', ''Bearer '' @ token)]]
    \<and> (\<exists>a rest. attempts s = a # rest \<and> at_handshake a = Inr () \<and> peer_of a = peer)"
proof -
  obtain x s1 where x: "sign_exchange depth clk peer_of peer port path body token s = (x, s1)" by fastforce
  have "requests s' = requests s1 \<and> ((\<exists>e. x = Inl e) \<longrightarrow> (\<exists>e. r = Inl e))"
    using assms x by (cases x) (auto simp: bind_act_def write_file_def ret_act_def split: prod.splits)
  with sign_exchange_connects [of peer_of peer port path body token depth clk, unfolded connects_def, rule_format, OF x]
  show ?thesis by auto
qed

lemma sign_main_sends:
  fixes s :: "'z tool_scheme"
  assumes "sign_main depth clk lib peer_of inp port path s = (r, s')"
  shows "requests s' = requests s \<or> appraised depth lib inp \<and>
    (\<exists>token. token_parameter depth (si_parameters inp) = Inr token \<and> requests s' = requests s @ [capture_rq ''agentdns-capture.test'' (nat port) ''POST'' path (si_body inp)
      [(''Content-Type'', ''application/json''), (''Authorization'', ''Bearer '' @ token)]])
    \<and> (\<exists>a rest. attempts s = a # rest \<and> at_handshake a = Inr () \<and> peer_of a = si_peer inp)"
proof (cases "path \<notin> set sign_paths \<or> \<not> (1 \<le> port \<and> port \<le> 65535)")
  case True
  with assms show ?thesis by (simp add: sign_main_def)
next
  case False
  note run = assms [unfolded sign_main_def if_not_P [OF False]]
  from run show ?thesis
  proof (cases rule: bind_liftE)
    case (went cert)
    show ?thesis
    proof (cases "key_der (x_key cert) = si_spki inp")
      case True
      let ?s1 = "s\<lparr>ticks := Suc (ticks s)\<rparr>" and ?time = "si_wall inp (ticks s)"
      from went(2) True have "bind_act (lift_res (si_appraiser inp (si_evidence inp) (si_spki inp) ?time)) (\<lambda>stdout.
            bind_act (lift_res (json_loads depth plain_hooks stdout)) (\<lambda>appraisal.
            bind_act (wall_now (si_wall inp)) (\<lambda>later.
            bind_act (lift_res (appraisal_accepts appraisal (si_spki inp) later)) (\<lambda>ok.
              if \<not> ok then raise_act (ValueError ''appraisal identity or validity mismatch'')
              else
                bind_act (lift_res (token_parameter depth (si_parameters inp))) (\<lambda>token.
                  if si_body inp = [] \<or> length (si_body inp) > 65536 then raise_act (ValueError ''request body exceeds bound'')
                  else
                    bind_act (lift_res (si_trust inp (DER_cert_to_PEM_cert (si_peer inp)))) (\<lambda>_.
                    bind_act (sign_exchange depth clk peer_of (si_peer inp) (nat port) path (si_body inp) token) (\<lambda>(payload, v).
                    bind_act (write_file ''output'' (json_file v)) (\<lambda>_.
                      ret_act (Done (JDict [(''response_sha256'', JStr (sha256_hex payload)),
                        (''peer_spki_sha256'', JStr (sha256_hex (si_spki inp))), (''native_appraisal_passed'', JBool True)]))))))))))
          ?s1 = (r, s')" by (auto dest!: bind_wallE)
      then show ?thesis
      proof (cases rule: bind_liftE)
        case (went stdout)
        note out = this(1)
        from went(2) show ?thesis
        proof (cases rule: bind_liftE)
          case (went appraisal)
          note ap = this(1)
          from bind_wallE [OF went(2)] show ?thesis
          proof (cases rule: bind_liftE)
            case (went ok)
            show ?thesis
            proof (cases ok)
              case True
              then obtain later where acc: "appraisal_accepts appraisal (si_spki inp) later = Inr True" using went(1) by auto
              have ok: "appraised depth lib inp"
                unfolding appraised_def using \<open>load_der_cert lib (si_peer inp) = Inr cert\<close> \<open>key_der (x_key cert) = si_spki inp\<close> out ap acc by blast
              from went(2) True show ?thesis
                by (auto elim!: bind_liftE split: if_splits dest!: sign_tail simp: ok)
            qed (use went(2) in simp)
          qed simp
        qed simp
      qed simp
    qed (use went(2) in simp)
  qed simp
qed

section \<open>The audited service\<close>

lemma bootstrap_loop_frame: "bootstrap_loop clk deadline body s = (r, s') \<Longrightarrow> \<exists>n q. s' = s\<lparr>ticks := n, inbox := q\<rparr>"
proof (induction clk deadline body s rule: bootstrap_loop.induct)
  case (1 clk deadline body s)
  obtain x q where q: "recv_queue (min 65536 (AUDIT_MAX_BYTES + 1 - length body)) (inbox s) = (x, q)" by fastforce
  let ?s = "s\<lparr>ticks := Suc (ticks s), inbox := q\<rparr>"
  show ?case
  proof (cases "length body \<le> AUDIT_MAX_BYTES \<and> clk (ticks s) \<le> deadline \<and> (\<exists>b. x = Inr b \<and> b \<noteq> [])")
    case True
    then obtain b where b: "x = Inr b" "b \<noteq> []" by blast
    with True 1(2) q have run: "bootstrap_loop clk deadline (body @ b) ?s = (r, s')"
      by (subst (asm) bootstrap_loop.simps) (simp add: now_def recv_def Let_def)
    have "\<exists>n q'. s' = ?s\<lparr>ticks := n, inbox := q'\<rparr>"
      by (rule "1.IH" [OF _ refl _ _ _ _ _ run]) (use True b q in \<open>auto simp: now_def recv_def\<close>)
    then show ?thesis by auto
  next
    case False
    have "s' = s\<lparr>ticks := ticks s, inbox := inbox s\<rparr> \<or> s' = s\<lparr>ticks := Suc (ticks s), inbox := inbox s\<rparr> \<or> s' = ?s"
      using False 1(2) q by (subst (asm) bootstrap_loop.simps) (auto simp: now_def recv_def Let_def split: if_splits sum.splits)
    then show ?thesis by blast
  qed
qed

lemma bootstrap_loop_Inr:
  "bootstrap_loop clk deadline body s = (Inr out, s') \<Longrightarrow> length out \<le> AUDIT_MAX_BYTES \<Longrightarrow>
   out = body @ rx_data (inbox s) \<and> rx_closed (inbox s)"
proof (induction clk deadline body s rule: bootstrap_loop.induct)
  case (1 clk deadline body s)
  let ?n = "min 65536 (AUDIT_MAX_BYTES + 1 - length body)"
  have small: "length body \<le> AUDIT_MAX_BYTES"
    using 1(2,3) by (subst (asm) bootstrap_loop.simps) (auto split: if_splits)
  obtain x q where q: "recv_queue ?n (inbox s) = (x, q)" by fastforce
  let ?s = "s\<lparr>ticks := Suc (ticks s), inbox := q\<rparr>"
  from 1(2) small q obtain b where t: "clk (ticks s) \<le> deadline" and b: "x = Inr b"
    by (subst (asm) bootstrap_loop.simps) (auto simp: now_def recv_def Let_def split: if_splits sum.splits)
  show ?case
  proof (cases "b = []")
    case True
    then have "out = body" using 1(2) small t q b by (subst (asm) bootstrap_loop.simps) (simp add: now_def recv_def Let_def)
    moreover have "rx_data (inbox s) = [] \<and> rx_closed (inbox s)" using recv_queue_end [of ?n "inbox s" q] q b True small by simp
    ultimately show ?thesis by simp
  next
    case False
    then have run: "bootstrap_loop clk deadline (body @ b) ?s = (Inr out, s')"
      using 1(2) small t q b by (subst (asm) bootstrap_loop.simps) (simp add: now_def recv_def Let_def)
    have "out = (body @ b) @ rx_data (inbox ?s) \<and> rx_closed (inbox ?s)"
      by (rule "1.IH" [OF small refl _ _ _ _ _ run 1(3)]) (use t b q False in \<open>auto simp: now_def recv_def\<close>)
    then show ?thesis using recv_queue_data [of ?n "inbox s" b q] q b False by simp
  qed
qed

lemma quiet_bootstrap [quiet_intros]: "quiet (bootstrap_body clk deadline)"
  unfolding bootstrap_body_def
proof (rule quiet_bind)
  show "quiet (bootstrap_loop clk deadline [])" unfolding quiet_def using bootstrap_loop_frame by fastforce
qed (auto simp: quiet_def now_def Let_def split: if_splits)

lemma bootstrap_body_Inr:
  "bootstrap_body clk deadline s = (Inr out, s') \<Longrightarrow> out = rx_data (inbox s) \<and> rx_closed (inbox s) \<and> length out \<le> AUDIT_MAX_BYTES"
  by (auto simp: bootstrap_body_def now_def Let_def dest!: bootstrap_loop_Inr split: if_splits)

lemma public_get_connects:
  "connects (\<lambda>a. expected = None \<or> expected = Some (peer_of a)) (public_request host port path)
    (public_get clk peer_of host port path expected)" (is "connects ?ok ?rq _")
proof -
  let ?m = "\<lambda>t a. bind_act (http_exchange a ?rq) (\<lambda>response.
      if reply_status response \<noteq> 200 then raise_act (RuntimeError ''public CCF bootstrap endpoint returned an error'')
      else bind_act (bootstrap_body clk (t + BOOTSTRAP_DEADLINE_SECONDS)) (\<lambda>body. ret_act (body, peer_of a)))"
  have m: "sends ?rq (?m t a)" for t a by (intro sends_intros) (auto intro: quiet_intros)
  have flip: "(if expected \<noteq> None \<and> expected \<noteq> Some (peer_of a) then x else y) = (if ?ok a then y else x)" for a x y by simp
  show ?thesis
    using connects_handshake [where rq = ?rq and m = ?m and ok = ?ok and clk = clk and c = "\<lambda>t t'. t + BOOTSTRAP_DEADLINE_SECONDS - t' \<le> 0"
        and late = bootstrap_late and e = "ValueError ''TLS peer changed after the native node audit''"
        and g = "\<lambda>t t'. min 10 (t + BOOTSTRAP_DEADLINE_SECONDS - t')", OF m]
    unfolding public_get_def Let_def flip by (simp only: case_prod_beta)
qed

lemma public_get_Inr:
  fixes s :: "'z web_scheme"
  assumes "public_get clk peer_of host port path expected s = (Inr (body, p), s')"
  obtains a reply where "attempts s = a # attempts s'" "p = peer_of a" "expected = None \<or> expected = Some p"
    "at_handshake a = Inr ()" "at_reply a = Inr reply" "reply_status reply = 200" "rx_closed (reply_body reply)" "body = rx_data (reply_body reply)"
    "requests s' = requests s @ [public_request host port path]" "web.more s' = web.more s"
proof -
  note c = public_get_connects [of expected peer_of host port path clk, unfolded connects_def, rule_format, OF assms]
  then obtain a rest where a: "attempts s = a # rest" "at_connect a = Inr ()" "at_handshake a = Inr ()" by auto
  have cc: "create_connection (s\<lparr>ticks := Suc (ticks s)\<rparr>) = (Inr a, s\<lparr>ticks := Suc (ticks s), attempts := rest\<rparr>)"
    using a by (simp add: create_connection_def)
  have "\<exists>reply (t :: 'z web_scheme) t1. at_reply a = Inr reply \<and> reply_status reply = 200 \<and> p = peer_of a
      \<and> inbox t = reply_body reply \<and> bootstrap_body clk (clk (ticks s) + BOOTSTRAP_DEADLINE_SECONDS) t = (Inr body, t1)"
    using assms a(3)
    by (auto simp: public_get_def own_connection_def cc bind_act_def lift_res_def raise_act_def ret_act_def http_exchange_def now_def Let_def
        split: prod.splits sum.splits if_splits)
       (rule exI, rule conjI [rotated], rule exI, assumption, simp)+
  then obtain reply t and t1 :: "'z web_scheme" where r: "at_reply a = Inr reply" "reply_status reply = 200" "p = peer_of a"
    "inbox t = reply_body reply" "bootstrap_body clk (clk (ticks s) + BOOTSTRAP_DEADLINE_SECONDS) t = (Inr body, t1)" by blast
  from bootstrap_body_Inr [OF r(5)] r(4) have "rx_closed (reply_body reply)" "body = rx_data (reply_body reply)" by simp_all
  then show thesis using that [of a reply] c a r by auto
qed

text \<open>The native audit accepted the quote for this certificate.\<close>

definition audited :: "nat \<Rightarrow> auditor \<Rightarrow> bytes \<Rightarrow> bytes \<Rightarrow> bool" where
  "audited depth au quote peer \<longleftrightarrow> (\<exists>time stdout audit later. au_verifier au quote peer time = Inr stdout
     \<and> bindr (utf8_text stdout) (json_loads_str depth plain_hooks) = Inr audit \<and> audit_accepts audit later = Inr True)"

lemma write_fileE: "bind_act (write_file n d) f s = (r, s') \<Longrightarrow> f () (s\<lparr>files := files s @ [(n, d)]\<rparr>) = (r, s')"
  by (simp add: bind_act_def write_file_def)

lemma files_same:
  fixes s s' :: "'z tool_scheme"
  shows "web.more s' = web.more s \<Longrightarrow> files s' = files s"
  by (cases s; cases s') simp

lemma bind_publicE:
  fixes s :: "'z tool_scheme"
  assumes "bind_act (public_get clk peer_of host port path expected) f s = (r, s')"
  obtains (raised) e where "r = Inl e" "files s' = files s"
      "requests s' = requests s \<or> requests s' = requests s @ [public_request host port path]
        \<and> (\<exists>a rest. attempts s = a # rest \<and> at_handshake a = Inr () \<and> (expected = None \<or> expected = Some (peer_of a)))"
  | (went) body p s1 where "public_get clk peer_of host port path expected s = (Inr (body, p), s1)" "f (body, p) s1 = (r, s')" "files s1 = files s"
proof (cases "public_get clk peer_of host port path expected s")
  case (Pair x s1)
  note c = public_get_connects [of expected peer_of host port path clk, unfolded connects_def, rule_format, OF Pair]
  have f: "files s1 = files s" by (rule files_same) (use c in simp)
  show thesis
  proof (cases x)
    case (Inl e)
    have "s' = s1" "r = Inl e" using assms Pair Inl by (simp_all add: bind_act_def)
    with c f Inl show thesis by (intro raised [of e]) auto
  next
    case (Inr bp)
    have "f bp s1 = (r, s')" using assms Pair Inr by (simp add: bind_act_def)
    with Pair Inr f show thesis by (cases bp) (auto intro: went)
  qed
qed

lemma audit_node_outcome:
  fixes s :: "'z tool_scheme"
  assumes "audit_node depth clk au peer_of host port s = (r, s')"
  shows "(\<exists>new. files s' = files s @ new \<and> ''service_cert.pem'' \<notin> fst ` set new) \<and> length (requests s') \<le> Suc (length (requests s))
    \<and> (\<forall>peer audit time. r = Inr (peer, audit, time) \<longrightarrow> requests s' = requests s @ [public_request host port ''/node/quotes/self''] \<and> (\<exists>a reply. attempts s = a # attempts s' \<and> peer = peer_of a \<and> at_handshake a = Inr ()
          \<and> at_reply a = Inr reply \<and> audited depth au (rx_data (reply_body reply)) peer))"
  using assms unfolding audit_node_def
proof (cases rule: bind_publicE)
  case (went quote peer s1)
  obtain a reply where a: "attempts s = a # attempts s1" "peer = peer_of a" "at_handshake a = Inr ()" "at_reply a = Inr reply"
    "quote = rx_data (reply_body reply)" "requests s1 = requests s @ [public_request host port ''/node/quotes/self'']"
    by (rule public_get_Inr [OF went(1)])
  let ?new = "[(''node-quote.json'', quote), (''node-peer.der'', peer)]"
  note run = bind_wallE [OF write_fileE [OF write_fileE [OF went(2) [unfolded prod.case]]]]
  have "files s' = files s1 @ ?new \<and> attempts s' = attempts s1 \<and> requests s' = requests s1
      \<and> (\<forall>p audit time. r = Inr (p, audit, time) \<longrightarrow> p = peer \<and> audited depth au quote peer)" (is "?goal")
    using run
  proof (cases rule: bind_liftE)
    case (went stdout)
    note out = went(1)
    from went(2) show ?goal
    proof (cases rule: bind_liftE)
      case (went audit)
      note au = went(1)
      from bind_wallE [OF went(2)] show ?goal
      proof (cases rule: bind_liftE)
        case (went ok)
        show ?goal
        proof (cases ok)
          case True
          then have "audited depth au quote peer" unfolding audited_def using out au went(1) by (auto intro!: exI)
          with went(2) True show ?goal by auto
        qed (use went(2) in auto)
      qed auto
    qed auto
  qed auto
  with a went(3) show ?thesis by auto
qed auto

lemma audit_service_outcome:
  fixes s :: "'z tool_scheme"
  assumes "audit_service depth clk au peer_of host port peer audit time s = (r, s')"
  shows "(requests s' = requests s \<or> (\<exists>a rest. attempts s = a # rest \<and> at_handshake a = Inr () \<and> peer_of a = peer))
    \<and> (\<exists>new. files s' = files s @ new \<and> (\<forall>pem. (''service_cert.pem'', pem) \<in> set new \<longrightarrow>
        (\<exists>a rest reply t der. attempts s = a # rest \<and> at_handshake a = Inr () \<and> peer_of a = peer \<and> at_reply a = Inr reply
          \<and> network_certificate depth au (rx_data (reply_body reply)) = Inr (t, der) \<and> pem = encode_str t)))"
  using assms unfolding audit_service_def
proof (cases rule: bind_publicE)
  case (went raw p s1)
  obtain a reply where a: "attempts s = a # attempts s1" "p = peer_of a" "Some peer = None \<or> Some peer = Some p" "at_handshake a = Inr ()"
    "at_reply a = Inr reply" "raw = rx_data (reply_body reply)"
    by (rule public_get_Inr [OF went(1)])
  from went(2) [unfolded prod.case] show ?thesis
  proof (cases rule: bind_liftE)
    case (went v)
    obtain t der where v: "v = (t, der)" by fastforce
    note run = write_fileE [OF write_fileE [OF went(2) [unfolded v prod.case]]]
    have "\<exists>new. files s' = files s1 @ new \<and> (\<forall>pem. (''service_cert.pem'', pem) \<in> set new \<longrightarrow> pem = encode_str t)"
      using run by (cases "jdict audit") (auto dest!: write_fileE simp: Let_def)
    then obtain new where "files s' = files s @ new" "\<forall>pem. (''service_cert.pem'', pem) \<in> set new \<longrightarrow> pem = encode_str t"
      using \<open>files s1 = files s\<close> by auto
    then show ?thesis using a went(1) v by auto
  qed (use a \<open>files s1 = files s\<close> in auto)
qed auto

lemma key_not_in: "k \<notin> fst ` set xs \<Longrightarrow> (k, v) \<notin> set xs"
  by force

text \<open>The certificate comes from a connection to the node whose quote the native audit accepted.\<close>

definition audited_source :: "nat \<Rightarrow> auditor \<Rightarrow> (attempt \<Rightarrow> bytes) \<Rightarrow> attempt list \<Rightarrow> bytes \<Rightarrow> bool" where
  "audited_source depth au peer_of as pem \<longleftrightarrow> (\<exists>a b rest quote network t der. as = a # b # rest \<and> at_handshake b = Inr ()
     \<and> peer_of b = peer_of a \<and> at_reply a = Inr quote \<and> audited depth au (rx_data (reply_body quote)) (peer_of a)
     \<and> at_reply b = Inr network \<and> network_certificate depth au (rx_data (reply_body network)) = Inr (t, der) \<and> pem = encode_str t)"

definition audited_peer :: "nat \<Rightarrow> auditor \<Rightarrow> (attempt \<Rightarrow> bytes) \<Rightarrow> attempt list \<Rightarrow> bool" where
  "audited_peer depth au peer_of as \<longleftrightarrow> (\<exists>a b rest quote. as = a # b # rest \<and> at_handshake b = Inr () \<and> peer_of b = peer_of a
     \<and> at_reply a = Inr quote \<and> audited depth au (rx_data (reply_body quote)) (peer_of a))"

lemma audit_main_outcome:
  fixes s :: "'z tool_scheme"
  assumes "audit_main depth clk au peer_of address s = (r, s')"
  shows "(length (requests s') \<le> Suc (length (requests s)) \<or> audited_peer depth au peer_of (attempts s))
    \<and> (\<exists>new. files s' = files s @ new \<and> (\<forall>pem. (''service_cert.pem'', pem) \<in> set new \<longrightarrow> audited_source depth au peer_of (attempts s) pem))"
    (is "?goal s'")
proof -
  have idle: "?goal s" by auto
  from assms [unfolded audit_main_def] show ?thesis
  proof (cases rule: bind_liftE)
    case (went url)
    show ?thesis
    proof (cases "https_origin url")
      case True
      with went(2) have "bind_act (lift_res (origin_port url)) (\<lambda>port.
         bind_act (audit_node depth clk au peer_of (origin_host url) port) (\<lambda>(peer, audit, time).
         bind_act (audit_service depth clk au peer_of (origin_host url) port peer audit time) (\<lambda>report. ret_act (Done report)))) s = (r, s')" by simp
      then show ?thesis
      proof (cases rule: bind_liftE)
        case (went port)
        obtain x s1 where x: "audit_node depth clk au peer_of (origin_host url) port s = (x, s1)" by fastforce
        note n = audit_node_outcome [OF x]
        show ?thesis
        proof (cases x)
          case (Inl e)
          then have "s' = s1" using went(2) x by (simp add: bind_act_def)
          then obtain new where new: "files s' = files s @ new" "''service_cert.pem'' \<notin> fst ` set new"
            "length (requests s') \<le> Suc (length (requests s))" using n by auto
          have no: "(''service_cert.pem'', pem) \<notin> set new" for pem by (rule key_not_in [OF new(2)])
          show ?thesis by (intro conjI disjI1 exI [of _ new] allI impI) (use new no in auto)
        next
          case (Inr y)
          obtain peer audit time where y: "y = (peer, audit, time)" by (cases y)
          obtain z where z: "audit_service depth clk au peer_of (origin_host url) port peer audit time s1 = (z, s')"
            using went(2) x Inr y by (auto simp: bind_act_def ret_act_def split: prod.splits sum.splits)
          note m = audit_service_outcome [OF z]
          from n Inr y obtain a quote where a: "attempts s = a # attempts s1" "peer = peer_of a" "at_reply a = Inr quote"
            "audited depth au (rx_data (reply_body quote)) peer" "length (requests s1) = Suc (length (requests s))" by auto
          from n obtain new1 where f1: "files s1 = files s @ new1" "''service_cert.pem'' \<notin> fst ` set new1" by auto
          from m obtain new2 where f2: "files s' = files s1 @ new2" "\<forall>pem. (''service_cert.pem'', pem) \<in> set new2 \<longrightarrow>
              (\<exists>a rest reply t der. attempts s1 = a # rest \<and> at_handshake a = Inr () \<and> peer_of a = peer \<and> at_reply a = Inr reply
                \<and> network_certificate depth au (rx_data (reply_body reply)) = Inr (t, der) \<and> pem = encode_str t)" by blast
          have src: "audited_source depth au peer_of (attempts s) pem" if "(''service_cert.pem'', pem) \<in> set (new1 @ new2)" for pem
          proof -
            have "(''service_cert.pem'', pem) \<in> set new2" using that key_not_in [OF f1(2), of pem] by simp
            from f2(2) [rule_format, OF this] a show ?thesis unfolding audited_source_def by auto
          qed
          have "\<exists>new. files s' = files s @ new \<and> (\<forall>pem. (''service_cert.pem'', pem) \<in> set new \<longrightarrow> audited_source depth au peer_of (attempts s) pem)"
            by (rule exI [of _ "new1 @ new2"]) (use f1(1) f2(1) src in simp)
          moreover have "length (requests s') \<le> Suc (length (requests s)) \<or> audited_peer depth au peer_of (attempts s)"
            using m a unfolding audited_peer_def by auto
          ultimately show ?thesis by blast
        qed
      qed (use idle in simp)
    qed (use went(2) idle in simp)
  qed (use idle in simp)
qed

section \<open>Properties\<close>

text \<open>(C3) The control token goes only to an appraised worker. Whatever files, replies and processes
  \<open>sign_capture_request\<close> meets and however it ends, it sends at most one request, with the bearer token
  of the parameter file, and only on a connection whose peer showed the very certificate that was saved
  with the capture, whose key is the key of the evidence that the native appraiser accepted for a time
  that has not passed.\<close>

theorem token_only_to_appraised:
  fixes s :: "'z tool_scheme"
  assumes "sign_main depth clk lib peer_of inp port path s = (r, s')" "requests s' \<noteq> requests s"
  shows "appraised depth lib inp \<and> (\<exists>a rest. attempts s = a # rest \<and> at_handshake a = Inr () \<and> peer_of a = si_peer inp)
    \<and> (\<exists>token rq. token_parameter depth (si_parameters inp) = Inr token \<and> requests s' = requests s @ [rq]
         \<and> rq_headers rq = [(''Content-Type'', ''application/json''), (''Authorization'', ''Bearer '' @ token)])"
  using sign_main_sends [OF assms(1)] assms(2) by (auto simp: capture_rq_def)

text \<open>(C4) The service certificate that is stored is the one of the audited node. However
  \<open>audit_ccf_node\<close> ends, it sends a second request only on a connection that shows the certificate of
  the first one, and only after the native audit accepted the quote of the first reply for that
  certificate. Every certificate that it stores as the service's was in the reply on that second
  connection.\<close>

theorem service_certificate_audited:
  fixes s :: "'z tool_scheme"
  assumes "audit_main depth clk au peer_of address s = (r, s')"
  shows "(Suc (length (requests s)) < length (requests s') \<longrightarrow> audited_peer depth au peer_of (attempts s))
    \<and> (\<exists>new. files s' = files s @ new \<and> (\<forall>pem. (''service_cert.pem'', pem) \<in> set new \<longrightarrow> audited_source depth au peer_of (attempts s) pem))"
  using audit_main_outcome [OF assms] by auto

definition hash_json :: "bytes \<Rightarrow> json" where
  "hash_json bs = JList (map (\<lambda>b. JInt (uint b)) bs)"

lemma small_int_uint: "small_int (JInt (uint b)) = Inr b"
  using uint_bounded [of b] by (simp add: small_int_def)

lemma json_bytes_hash: "json_bytes (hash_json bs) = Inr bs"
proof -
  have "map_res small_int (map (\<lambda>b. JInt (uint b)) bs) = Inr bs" by (induction bs) (simp_all add: small_int_uint)
  then show ?thesis by (simp add: json_bytes_def hash_json_def)
qed

lemma hash_json_shape: "json_ascii (hash_json bs)" "json_exact (hash_json bs)" "json_wf (hash_json bs)" "json_nest (hash_json bs) \<le> Suc n"
proof -
  have "length (nat_str (nat \<bar>uint b\<bar>)) \<le> 4300" for b :: byte
  proof -
    have "unat b < 10 ^ 3" using unat_byte_less [of b] by (rule less_le_trans) simp
    then have "length (nat_str (unat b)) \<le> 3" by (rule length_nat_str_le) simp
    moreover have "nat \<bar>uint b\<bar> = unat b" by simp
    ultimately show ?thesis by (simp only:)
  qed
  then show "json_exact (hash_json bs)" by (simp add: hash_json_def list_all_iff)
qed (simp_all add: hash_json_def list_all_iff)

text \<open>The printed text of an ASCII value is read back from a decoded file.\<close>

lemma text_loads:
  assumes "json_ascii v" "json_exact v" "json_wf v" "json_nest v \<le> d"
  shows "bindr (utf8_text (encode_str (print_json v))) (json_loads_str d plain_hooks) = Inr v"
proof -
  have t: "text_ascii (print_json v)" by (rule text_ascii_print [OF assms(1,2)])
  have "b < 0x80" if "b \<in> set (encode_str (print_json v))" for b
    using that t by (auto simp: encode_str_def text_ascii_def list_all_iff word_of_char_less)
  then have "utf8_text (encode_str (print_json v)) = Inr (print_json v)"
    by (simp add: utf8_text_def utf8_ok_ascii list_all_iff)
  then show ?thesis using plain_json.loads_print [OF assms(2-4)] by simp
qed

section \<open>Sample runs\<close>

definition sample_cert :: x509 where
  "sample_cert = \<lparr>x_der = [], x_pem = [], x_key = Other_key [], x_issuer = [], x_subject = [], x_tbs = [], x_signature = [],
     x_hash = [], x_not_before = 0, x_not_after = 0, x_ekus = None, x_digital_signature = None, x_ca = None, x_dns_names = None\<rparr>"

definition sample_lib :: crypto where
  "sample_lib = \<lparr>load_pem_cert = (\<lambda>_. Inr sample_cert), load_der_cert = (\<lambda>_. Inr sample_cert), load_pem_key = (\<lambda>_. Inr (Other_key [])),
     load_der_key = (\<lambda>_. Inr (Other_key [])), key_verify = (\<lambda>_ _ _ _. Inr ()), directly_issued = (\<lambda>_ _. Inr ()),
     p384_point = (\<lambda>_. Inr ()), encode_dss = (\<lambda>_ _. [])\<rparr>"

definition sample_appraisal :: json where
  "sample_appraisal = JDict [(''spki_sha256'', hash_json (sha256 [])), (''valid_until'', JInt 1)]"

definition sample_parameters :: json where
  "sample_parameters = JDict [(''parameters'', JDict [(''captureToken'', JDict [(''value'', JStr (replicate 64 (CHR ''a'')))])])]"

definition sample_input :: sign_input where
  "sample_input = \<lparr>si_spki = [], si_peer = [7], si_evidence = [], si_parameters = encode_str (print_json sample_parameters),
     si_body = [123, 125], si_appraiser = (\<lambda>_ _ _. Inr (encode_str (print_json sample_appraisal))), si_wall = (\<lambda>_. 0), si_trust = (\<lambda>_. Inr ())\<rparr>"

definition silent_attempt :: attempt where
  "silent_attempt = \<lparr>at_connect = Inr (), at_handshake = Inr (), at_reply = Inl (OSError ''closed'')\<rparr>"

definition sample_tool :: "attempt list \<Rightarrow> tool" where
  "sample_tool as = \<lparr>ticks = 0, inbox = [], sock_timeout = None, outbox = [], attempts = as, requests = [], files = []\<rparr>"

lemma sample_appraisal_loads: "json_loads 10 plain_hooks (encode_str (print_json sample_appraisal)) = Inr sample_appraisal"
proof (rule plain_json.loads_bytes)
  have "json_nest sample_appraisal \<le> Suc 9"
    using hash_json_shape(4) [of "sha256 []" 8] unfolding sample_appraisal_def json_nest_JDict_le by simp
  then show "json_nest sample_appraisal \<le> 10" by simp
qed (use hash_json_shape(1-3) [of "sha256 []"] in \<open>simp_all add: sample_appraisal_def isascii_def nat_str.simps [of "Suc 0"]\<close>)

lemma sample_parameters_loads:
  "bindr (utf8_text (encode_str (print_json sample_parameters))) (json_loads_str 10 plain_hooks) = Inr sample_parameters"
  by (rule text_loads) (simp_all add: sample_parameters_def isascii_def list_all_iff json_nest.simps)

lemma sample_token: "token_parameter 10 (si_parameters sample_input) = Inr (replicate 64 (CHR ''a''))"
  unfolding token_parameter_def sample_input_def sign_input.simps sample_parameters_loads
  by (simp add: sample_parameters_def jindex_def dict_index_def list_all_iff is_lower_hex_def is_digit_def del: bindr_eq_Inr)

lemma sample_accepts: "appraisal_accepts sample_appraisal [] 0 = Inr True"
  by (simp add: appraisal_accepts_def sample_appraisal_def jindex_def dict_index_def json_bytes_hash json_le_def del: bindr_eq_Inr)

lemma sample_sends:
  "\<exists>r s'. sign_main 10 (\<lambda>_. 0) sample_lib (\<lambda>_. [7]) sample_input 8080 ''/signed-request'' (sample_tool [silent_attempt]) = (r, s')
     \<and> length (requests s') = 1"
proof -
  have f: "si_spki sample_input = []" "si_peer sample_input = [7]" "si_body sample_input = [123, 125]" "si_wall sample_input = (\<lambda>_. 0)"
    "si_trust sample_input = (\<lambda>_. Inr ())" "si_appraiser sample_input = (\<lambda>_ _ _. Inr (encode_str (print_json sample_appraisal)))"
    by (simp_all add: sample_input_def)
  show ?thesis
    unfolding sign_main_def f
    by (simp add: bind_act_def lift_res_def sample_lib_def sample_cert_def wall_now_def sample_appraisal_loads sample_accepts sample_token sign_paths_def
        sign_exchange_def own_connection_def create_connection_def now_def socket_deadline_def with_deadline_def settimeout_def
        http_exchange_def silent_attempt_def sample_tool_def Let_def)
qed

theorem token_only_to_appraised_witness: "appraised 10 sample_lib sample_input"
proof -
  obtain r s' where run: "sign_main 10 (\<lambda>_. 0) sample_lib (\<lambda>_. [7]) sample_input 8080 ''/signed-request'' (sample_tool [silent_attempt]) = (r, s')"
    "length (requests s') = 1" using sample_sends by blast
  then have "requests s' \<noteq> requests (sample_tool [silent_attempt])" by (auto simp: sample_tool_def)
  from token_only_to_appraised [OF run(1) this] show ?thesis by simp
qed

definition sample_audit :: json where
  "sample_audit = JDict [(''purpose'', JStr ''ccf-node-tls-bootstrap-only''), (''valid_until'', JInt 1)]"

definition sample_auditor :: auditor where
  "sample_auditor = \<lparr>au_verifier = (\<lambda>_ _ _. Inr (encode_str (print_json sample_audit))), au_der_check = (\<lambda>_. Inr ()), au_wall = (\<lambda>_. 0)\<rparr>"

definition quote_attempt :: attempt where
  "quote_attempt = \<lparr>at_connect = Inr (), at_handshake = Inr (), at_reply = Inr \<lparr>reply_status = 200, reply_headers = [], reply_body = [Closed]\<rparr>\<rparr>"

lemma sample_audit_loads: "bindr (utf8_text (encode_str (print_json sample_audit))) (json_loads_str 10 plain_hooks) = Inr sample_audit"
  by (rule text_loads) (simp_all add: sample_audit_def isascii_def json_nest.simps nat_str.simps [of "Suc 0"])

lemma sample_audit_accepts: "audit_accepts sample_audit 0 = Inr True"
  by (simp add: audit_accepts_def sample_audit_def jget_def jindex_def dict_index_def json_le_def del: bindr_eq_Inr)

lemma sample_origin: "\<exists>url. urlsplit ''https://h'' = Inr url \<and> https_origin url \<and> origin_port url = Inr 443"
  by (simp add: urlsplit_def split_scheme_def startswith_def is_url_delim_def cut_at_def https_origin_def url_hostname_def url_hostinfo_def
      rpartition_at_def url_extras_def url_userinfo_def origin_port_def url_port_def scheme_char_def is_alnum_def is_lower_def is_upper_def lower_def lower_char_def Let_def)

lemma sample_quote: "public_get (\<lambda>_. 0) peer_of host port path None (sample_tool (quote_attempt # rest))
    = (Inr ([], peer_of quote_attempt), (sample_tool rest)\<lparr>ticks := 4, requests := [public_request host port path]\<rparr>)"
  by (simp add: public_get_def now_def own_connection_def bind_act_def create_connection_def lift_res_def http_exchange_def bootstrap_body_def
      bootstrap_loop.simps [of _ _ "[]"] recv_def settimeout_def ret_act_def quote_attempt_def sample_tool_def BOOTSTRAP_DEADLINE_SECONDS_def Let_def
      AUDIT_MAX_BYTES_def flip: numeral_2_eq_2 numeral_3_eq_3)

lemma sample_node: "audit_node 10 (\<lambda>_. 0) sample_auditor (\<lambda>_. [7]) host port (sample_tool [quote_attempt, silent_attempt])
    = (Inr ([7], sample_audit, 0), (sample_tool [silent_attempt])\<lparr>ticks := 6, requests := [public_request host port ''/node/quotes/self''],
        files := [(''node-quote.json'', []), (''node-peer.der'', [7])]\<rparr>)"
proof -
  have f: "au_verifier sample_auditor = (\<lambda>_ _ _. Inr (encode_str (print_json sample_audit)))" "au_wall sample_auditor = (\<lambda>_. 0)"
    by (simp_all add: sample_auditor_def)
  show ?thesis
    unfolding audit_node_def f bind_act_def [of "public_get _ _ _ _ _ _"] sample_quote
    by (simp add: bind_act_def write_file_def wall_now_def lift_res_def sample_audit_loads sample_audit_accepts ret_act_def sample_tool_def)
qed

theorem service_certificate_audited_witness: "audited_peer 10 sample_auditor (\<lambda>_. [7]) [quote_attempt, silent_attempt]"
proof -
  obtain url where u: "urlsplit ''https://h'' = Inr url" "https_origin url" "origin_port url = Inr 443" using sample_origin by blast
  let ?run = "audit_main 10 (\<lambda>_. 0) sample_auditor (\<lambda>_. [7]) ''https://h'' (sample_tool [quote_attempt, silent_attempt])"
  have "length (requests (snd ?run)) = 2"
    unfolding audit_main_def bind_act_def [of "lift_res _"] lift_res_def u bind_act_def [of "audit_node _ _ _ _ _ _"] sample_node prod.case sum.case
      if_not_P [OF not_not [THEN iffD2, OF u(2)]]
    by (simp add: bind_act_def lift_res_def audit_service_def public_get_def now_def own_connection_def create_connection_def
        http_exchange_def settimeout_def silent_attempt_def sample_tool_def BOOTSTRAP_DEADLINE_SECONDS_def Let_def)
  moreover obtain r s' where run: "?run = (r, s')" by fastforce
  ultimately show ?thesis using service_certificate_audited [OF run] by (simp add: sample_tool_def)
qed

end
