(* ===== verification/Native_Der.thy ===== *)
theory Native_Der
  imports Crypto_Lib
begin

text \<open>
  The primitives that the offline verifiers of native SNP evidence share (\<open>tools/verify_native_aci.py\<close>
  up to \<open>main\<close>): the walker over DER, object identifiers, the AMD certificates, the checks of both
  certificate chains and the COSE signature. The CBOR library and the \<open>openssl\<close> command are parameters;
  \<open>openssl\<close> is given by what its commands print.
\<close>

unbundle bit_operations_syntax

section \<open>Values of the CBOR library\<close>

text \<open>What \<open>cbor2\<close> returns. A key of a map that equals an integer, such as an integral float, is that
  integer; a float is its text; a date is its \<open>timestamp()\<close> cut to an integer; \<open>VOther\<close> is any other object.\<close>

datatype cval =
    VInt int | VBool bool | VFloat string | VBytes bytes | VText string | VList "cval list" | VMap "(cval \<times> cval) list"
  | VTag int cval | VDate int | VOther

text \<open>\<open>v[key]\<close>, \<open>key in v\<close>, unpacking and equality with an integer.\<close>

definition cval_index :: "cval \<Rightarrow> cval \<Rightarrow> cval res" where
  "cval_index v key =
     (case v of
        VMap m \<Rightarrow> (case map_of m key of Some w \<Rightarrow> Inr w | None \<Rightarrow> Inl (KeyError ''key''))
      | VList xs \<Rightarrow>
          (case key of
             VInt i \<Rightarrow> if 0 \<le> i \<and> nat i < length xs then Inr (xs ! nat i) else Inl (IndexError ''index out of range'')
           | _ \<Rightarrow> Inl (TypeError ''list indices must be integers''))
      | VBytes b \<Rightarrow>
          (case key of
             VInt i \<Rightarrow> if 0 \<le> i \<and> nat i < length b then Inr (VInt (uint (b ! nat i))) else Inl (IndexError ''index out of range'')
           | _ \<Rightarrow> Inl (TypeError ''byte indices must be integers''))
      | VText t \<Rightarrow>
          (case key of
             VInt i \<Rightarrow> if 0 \<le> i \<and> nat i < length (code_points t) then Inr (VText (utf8_char (code_points t ! nat i))) else Inl (IndexError ''index out of range'')
           | _ \<Rightarrow> Inl (TypeError ''string indices must be integers''))
      | _ \<Rightarrow> Inl (TypeError ''object is not subscriptable''))"

definition cval_items :: "cval \<Rightarrow> cval list res" where
  "cval_items v =
     (case v of
        VList xs \<Rightarrow> Inr xs
      | VMap m \<Rightarrow> Inr (map fst m)
      | VBytes b \<Rightarrow> Inr (map (\<lambda>x. VInt (uint x)) b)
      | VText t \<Rightarrow> Inr (map (\<lambda>c. VText (utf8_char c)) (code_points t))
      | _ \<Rightarrow> Inl (TypeError ''object is not iterable''))"

definition cval_four :: "cval \<Rightarrow> (cval \<times> cval \<times> cval \<times> cval) res" where
  "cval_four v =
     bindr (cval_items v) (\<lambda>xs. case xs of [a, b, c, d] \<Rightarrow> Inr (a, b, c, d) | _ \<Rightarrow> Inl (ValueError ''values to unpack''))"

definition cval_len :: "cval \<Rightarrow> nat res" where
  "cval_len v =
     (case v of
        VList xs \<Rightarrow> Inr (length xs) | VMap m \<Rightarrow> Inr (length m) | VBytes b \<Rightarrow> Inr (length b) | VText t \<Rightarrow> Inr (str_len t)
      | _ \<Rightarrow> Inl (TypeError ''object has no len()''))"

definition cval_is_int :: "cval \<Rightarrow> int \<Rightarrow> bool" where
  "cval_is_int v n = (case v of VInt i \<Rightarrow> i = n | VBool b \<Rightarrow> n = (if b then 1 else 0) | VFloat t \<Rightarrow> py_eq (JFloat t) (JInt n) | _ \<Rightarrow> False)"

definition cval_contains :: "int \<Rightarrow> cval \<Rightarrow> bool res" where
  "cval_contains n v =
     (case v of
        VMap m \<Rightarrow> Inr (VInt n \<in> fst ` set m)
      | VList xs \<Rightarrow> Inr (list_ex (\<lambda>x. cval_is_int x n) xs)
      | VBytes b \<Rightarrow> if 0 \<le> n \<and> n < 256 then Inr (word_of_int n \<in> set b) else Inl (ValueError ''byte must be in range(0, 256)'')
      | _ \<Rightarrow> Inl (TypeError ''argument is not iterable''))"

text \<open>Equality with a value of a JSON document, where the value is a text or a number.\<close>

definition cval_eq_json :: "cval \<Rightarrow> json \<Rightarrow> bool" where
  "cval_eq_json v j =
     (case v of
        VText t \<Rightarrow> j = JStr t
      | VInt i \<Rightarrow> py_eq (JInt i) j
      | VBool b \<Rightarrow> py_eq (JBool b) j
      | VFloat t \<Rightarrow> py_eq (JFloat t) j
      | _ \<Rightarrow> False)"

text \<open>The libraries: \<open>cb_decode\<close> gives the first item of the input and what follows it.\<close>

record native =
  cb_decode :: "bytes \<Rightarrow> (cval \<times> bytes) res"
  cb_dumps :: "cval \<Rightarrow> bytes"
  nat_crypto :: crypto
  ossl_pubkey :: "bytes \<Rightarrow> bytes res"
  ossl_dates :: "bytes \<Rightarrow> bytes res"
  ossl_verify :: "int \<Rightarrow> bytes \<Rightarrow> bytes \<Rightarrow> bytes \<Rightarrow> bool"
  oid_valid :: "string \<Rightarrow> unit res"
  spki_of_one :: bytes

definition cb_loads :: "native \<Rightarrow> bytes \<Rightarrow> cval res" where
  "cb_loads env raw = bindr (cb_decode env raw) (\<lambda>(v, _). Inr v)"

section \<open>Certificate chains\<close>

definition chain_adjacent :: "crypto \<Rightarrow> x509 list \<Rightarrow> unit res" where
  "chain_adjacent lib chain = for_each (\<lambda>(c, issuer). directly_issued lib c issuer) (zip chain (tl chain))"

text \<open>\<open>openssl verify\<close> gets the root, the certificates between and the leaf.\<close>

definition check_chain :: "native \<Rightarrow> x509 list \<Rightarrow> int \<Rightarrow> unit res" where
  "check_chain env chain time =
     bindr (for_each (\<lambda>c. assert_that (x_not_before c \<le> time \<and> time < x_not_after c)) chain) (\<lambda>_.
     bindr (chain_adjacent (nat_crypto env) chain) (\<lambda>_.
     if chain = [] then Inl (IndexError ''index out of range'')
     else
       bindr (directly_issued (nat_crypto env) (last chain) (last chain)) (\<lambda>_.
         assert_that (ossl_verify env time (x_pem (last chain)) (concat (map x_pem (butlast (tl chain)))) (x_pem (hd chain))))))"

section \<open>DER\<close>

text \<open>The length field after a tag: the length of the content and the rest of the input.\<close>

definition der_length :: "byte \<Rightarrow> bytes \<Rightarrow> (nat \<times> bytes) res" where
  "der_length sz rest =
     (if \<not> bit sz 7 then Inr (unat sz, rest)
      else
        let n = unat (sz AND 127) in
        if \<not> (1 \<le> n \<and> n \<le> 4 \<and> n \<le> length rest) then Inl (AssertionError [])
        else Inr (be_nat (take n rest), drop n rest))"

text \<open>The generator: the items that it yields, and the error that ends it, if any.\<close>

function der_items :: "bytes \<Rightarrow> (byte \<times> bytes) list \<times> exn option" where
  "der_items data =
     (case data of
        [] \<Rightarrow> ([], None)
      | [tag] \<Rightarrow> ([], Some (IndexError ''index out of range''))
      | tag # sz # rest \<Rightarrow>
          (case der_length sz rest of
             Inl e \<Rightarrow> ([], Some e)
           | Inr (n, body) \<Rightarrow>
               if length body < n then ([], Some (AssertionError []))
               else let (items, e) = der_items (drop n body) in ((tag, take n body) # items, e)))"
  by pat_completeness auto

lemma der_length_size: "der_length sz rest = Inr (n, body) \<Longrightarrow> length body \<le> length rest"
  by (auto simp: der_length_def Let_def split: if_splits)

termination der_items
  by (relation "measure length") (auto dest!: der_length_size)

declare der_items.simps [simp del]

definition der_list :: "bytes \<Rightarrow> (byte \<times> bytes) list res" where
  "der_list data = (case der_items data of (items, None) \<Rightarrow> Inr items | (_, Some e) \<Rightarrow> Inl e)"

fun oid_numbers :: "bytes \<Rightarrow> nat \<Rightarrow> nat list" where
  "oid_numbers [] n = []"
| "oid_numbers (b # bs) n =
     (let m = n * 128 + unat (b AND 127) in if bit b 7 then oid_numbers bs m else m # oid_numbers bs 0)"

definition oid_text :: "bytes \<Rightarrow> string res" where
  "oid_text encoded =
     (case encoded of
        [] \<Rightarrow> Inl (IndexError ''index out of range'')
      | b # bs \<Rightarrow>
          if bit (last encoded) 7 then Inl (AssertionError [])
          else Inr (join_with ''.'' (map nat_str (unat b div 40 # unat b mod 40 # oid_numbers bs 0))))"

section \<open>AMD certificates\<close>

text \<open>\<open>re.sub(rb'-----[^-]+-----|\s', b'', pem)\<close>.\<close>

definition pem_space :: "byte \<Rightarrow> bool" where
  "pem_space b \<longleftrightarrow> b \<in> {32, 9, 10, 13, 11, 12}"

function strip_pem :: "bytes \<Rightarrow> bytes" where
  "strip_pem data =
     (case data of
        [] \<Rightarrow> []
      | b # rest \<Rightarrow>
          let label = takeWhile (\<lambda>c. c \<noteq> 45) (drop 5 data); after = drop (5 + length label) data in
          if take 5 data = replicate 5 45 \<and> label \<noteq> [] \<and> take 5 after = replicate 5 45 then strip_pem (drop 5 after)
          else if pem_space b then strip_pem rest
          else b # strip_pem rest)"
  by pat_completeness auto
termination
  by (relation "measure length") auto

declare strip_pem.simps [simp del]

text \<open>\<open>datetime.strptime(value, '%b %d %H:%M:%S %Y %Z')\<close> as a timestamp in UTC. The zone is \<open>UTC\<close> or
  \<open>GMT\<close>, in any case of letters.\<close>

definition month_names :: "string list" where
  "month_names = [''jan'', ''feb'', ''mar'', ''apr'', ''may'', ''jun'', ''jul'', ''aug'', ''sep'', ''oct'', ''nov'', ''dec'']"

definition leap_year :: "nat \<Rightarrow> bool" where
  "leap_year y \<longleftrightarrow> y mod 4 = 0 \<and> (y mod 100 \<noteq> 0 \<or> y mod 400 = 0)"

definition month_days :: "nat \<Rightarrow> nat list" where
  "month_days y = [31, if leap_year y then 29 else 28, 31, 30, 31, 30, 31, 31, 30, 31, 30, 31]"

definition date_ordinal :: "nat \<Rightarrow> nat \<Rightarrow> nat \<Rightarrow> int" where
  "date_ordinal y m d = (let p = int y - 1 in 365 * p + p div 4 - p div 100 + p div 400 + int (sum_list (take m (month_days y)) + d))"

fun space_words :: "string \<Rightarrow> string \<Rightarrow> string list" where
  "space_words [] word = (if word = [] then [] else [word])"
| "space_words (c # cs) word =
     (if is_space c then (if word = [] then space_words cs [] else word # space_words cs []) else space_words cs (word @ [c]))"

definition two_digits :: "nat \<Rightarrow> nat \<Rightarrow> string \<Rightarrow> nat option" where
  "two_digits lo hi t =
     (if 1 \<le> length t \<and> length t \<le> 2 \<and> list_all is_digit t \<and> lo \<le> digits_val t \<and> digits_val t \<le> hi then Some (digits_val t) else None)"

definition find_index :: "'a \<Rightarrow> 'a list \<Rightarrow> nat option" where
  "find_index x xs = (let n = length (takeWhile (\<lambda>y. y \<noteq> x) xs) in if n < length xs then Some n else None)"

definition strptime :: "string \<Rightarrow> int res" where
  "strptime value =
     (if value = [] \<or> is_space (hd value) \<or> is_space (last value) then Inl (ValueError ''time data does not match format'')
      else case space_words value [] of
        [mon, day, hms, year, zone] \<Rightarrow>
          (case (find_index (lower mon) month_names, two_digits 1 31 day, map (two_digits 0 59) (split_on CHR '':'' hms)) of
             (Some m, Some d, [Some h, Some mi, Some sec]) \<Rightarrow>
               if h \<le> 23 \<and> length year = 4 \<and> list_all is_digit year \<and> 1 \<le> digits_val year \<and> d \<le> month_days (digits_val year) ! m
                  \<and> lower zone \<in> {''utc'', ''gmt''}
               then Inr ((date_ordinal (digits_val year) m d - 719163) * 86400 + int (h * 3600 + mi * 60 + sec))
               else Inl (ValueError ''time data does not match format'')
           | _ \<Rightarrow> Inl (ValueError ''time data does not match format''))
      | _ \<Rightarrow> Inl (ValueError ''time data does not match format''))"

text \<open>\<open>str.splitlines\<close> on ASCII text.\<close>

fun split_lines :: "string \<Rightarrow> string \<Rightarrow> string list" where
  "split_lines [] line = (if line = [] then [] else [line])"
| "split_lines (c # cs) line =
     (if ord c \<in> {10, 11, 12, 13, 28, 29, 30}
      then line # (if ord c = 13 \<and> cs \<noteq> [] \<and> ord (hd cs) = 10 then split_lines (tl cs) [] else split_lines cs [])
      else split_lines cs (line @ [c]))"

record amd_cert =
  am_pem :: bytes
  am_der :: bytes
  am_key :: pubkey
  am_extensions :: "bytes dict"
  am_validity :: "int dict"

text \<open>The loop over the extensions, which reads from the generator.\<close>

fun amd_extension_loop :: "(byte \<times> bytes) list \<Rightarrow> exn option \<Rightarrow> bytes dict \<Rightarrow> bytes dict res" where
  "amd_extension_loop [] stop found = (case stop of None \<Rightarrow> Inr found | Some e \<Rightarrow> Inl e)"
| "amd_extension_loop ((tag, v) # items) stop found =
     bindr (assert_that (tag = 0x30)) (\<lambda>_.
     bindr (der_list v) (\<lambda>fields.
       if fields = [] then Inl (IndexError ''list index out of range'')
       else
         bindr (assert_that (fst (hd fields) = 6 \<and> fst (last fields) = 4)) (\<lambda>_.
         bindr (oid_text (snd (hd fields))) (\<lambda>oid.
         bindr (assert_that (\<not> has_key oid found)) (\<lambda>_.
           amd_extension_loop items stop (found @ [(oid, snd (last fields))]))))))"

definition amd_extensions :: "bytes \<Rightarrow> bytes dict res" where
  "amd_extensions raw =
     bindr (der_list raw) (\<lambda>outer.
     bindr (case outer of [(tag, v)] \<Rightarrow> bindr (assert_that (tag = 0x30)) (\<lambda>_. Inr v) | _ \<Rightarrow> Inl (AssertionError [])) (\<lambda>body.
     bindr (der_list body) (\<lambda>parts.
       if parts = [] then Inl (IndexError ''list index out of range'')
       else
         bindr (assert_that (fst (hd parts) = 0x30)) (\<lambda>_.
         bindr (der_list (snd (hd parts))) (\<lambda>fields.
         bindr (case map snd (filter (\<lambda>(tag, _). tag = 0xa3) fields) of [w] \<Rightarrow> Inr w | _ \<Rightarrow> Inl (AssertionError [])) (\<lambda>wrapped.
         bindr (der_list wrapped) (\<lambda>sequence.
         bindr (case sequence of [(tag, v)] \<Rightarrow> bindr (assert_that (tag = 0x30)) (\<lambda>_. Inr v) | _ \<Rightarrow> Inl (AssertionError [])) (\<lambda>inner.
           let (items, stop) = der_items inner in amd_extension_loop items stop []))))))))"

definition amd_validity :: "bytes \<Rightarrow> int dict res" where
  "amd_validity out =
     bindr (utf8_text out) (\<lambda>dates.
     bindr (map_res (\<lambda>line.
       case partition_at CHR ''='' line of
         None \<Rightarrow> Inl (ValueError ''not enough values to unpack'')
       | Some (label, v) \<Rightarrow> bindr (strptime v) (\<lambda>t. Inr (label, t))) (split_lines dates [])) (\<lambda>pairs.
       Inr (dict_merge [] pairs)))"

definition amd_certificate :: "native \<Rightarrow> bytes \<Rightarrow> amd_cert res" where
  "amd_certificate env pem =
     bindr (b64decode (bytes_str (strip_pem pem))) (\<lambda>raw.
     bindr (amd_extensions raw) (\<lambda>extensions.
     bindr (ossl_pubkey env pem) (\<lambda>public.
     bindr (ossl_dates env pem) (\<lambda>dates.
     bindr (amd_validity dates) (\<lambda>validity.
     bindr (load_pem_key (nat_crypto env) public) (\<lambda>key.
       Inr \<lparr>am_pem = pem, am_der = raw, am_key = key, am_extensions = extensions, am_validity = validity\<rparr>))))))"

text \<open>The chain has three certificates: the leaf, the intermediate and the root.\<close>

definition check_amd_chain :: "native \<Rightarrow> amd_cert list \<Rightarrow> int \<Rightarrow> unit res" where
  "check_amd_chain env chain time =
     bindr (for_each (\<lambda>c.
       bindr (dict_index (am_validity c) ''notBefore'') (\<lambda>from.
       bindr (if time < from then Inr False else bindr (dict_index (am_validity c) ''notAfter'') (\<lambda>until. Inr (time < until))) assert_that)) chain) (\<lambda>_.
       case chain of
         a # b # c # _ \<Rightarrow> assert_that (ossl_verify env time (am_pem c) (am_pem b) (am_pem a))
       | _ \<Rightarrow> Inl (IndexError ''list index out of range''))"

section \<open>COSE signatures\<close>

definition sign1_bytes :: "native \<Rightarrow> cval \<Rightarrow> cval \<Rightarrow> bytes" where
  "sign1_bytes env protected payload = cb_dumps env (VList [VText ''Signature1'', protected, VBytes [], payload])"

text \<open>\<open>int.from_bytes\<close> also reads a list of small integers.\<close>

definition cval_byte :: "cval \<Rightarrow> byte res" where
  "cval_byte v =
     (case v of
        VInt i \<Rightarrow> if 0 \<le> i \<and> i < 256 then Inr (word_of_int i) else Inl (ValueError ''bytes must be in range(0, 256)'')
      | VBool b \<Rightarrow> Inr (if b then 1 else 0)
      | _ \<Rightarrow> Inl (TypeError ''cannot be interpreted as an integer''))"

definition raw_signature :: "cval \<Rightarrow> bytes res" where
  "raw_signature signature =
     (case signature of
        VBytes sig \<Rightarrow> bindr (assert_that (length sig = 64)) (\<lambda>_. Inr sig)
      | VList xs \<Rightarrow> bindr (assert_that (length xs = 64)) (\<lambda>_. map_res cval_byte xs)
      | VText t \<Rightarrow> bindr (assert_that (str_len t = 64)) (\<lambda>_. Inl (TypeError ''cannot convert to bytes''))
      | VMap m \<Rightarrow> bindr (assert_that (length m = 64)) (\<lambda>_. Inl (TypeError ''unhashable type: slice''))
      | _ \<Rightarrow> Inl (TypeError ''object has no len()''))"

definition verify_sign1 :: "native \<Rightarrow> bytes \<Rightarrow> pubkey \<Rightarrow> (cval \<times> bytes) res" where
  "verify_sign1 env encoded key =
     bindr (cb_loads env encoded) (\<lambda>tagged.
     bindr (case tagged of VTag n v \<Rightarrow> bindr (assert_that (n = 18)) (\<lambda>_. Inr v) | _ \<Rightarrow> Inl (AssertionError [])) (\<lambda>v.
     bindr (cval_four v) (\<lambda>(protected, unprotected, payload, signature).
     case payload of
       VBytes body \<Rightarrow>
         (case protected of
            VBytes p \<Rightarrow>
              bindr (cb_loads env p) (\<lambda>header.
              bindr (cval_index header (VInt 1)) (\<lambda>alg.
                if cval_is_int alg (- 7) then
                  bindr (assert_that (on_curve [P256] key)) (\<lambda>_.
                  bindr (raw_signature signature) (\<lambda>sig.
                  bindr (key_verify (nat_crypto env) key (Ecdsa ''sha256'')
                      (encode_dss (nat_crypto env) (be_nat (take 32 sig)) (be_nat (drop 32 sig))) (sign1_bytes env protected payload)) (\<lambda>_.
                    Inr (header, body))))
                else if cval_is_int alg (- 38) then
                  (case signature of
                     VBytes sig \<Rightarrow>
                       bindr (key_verify (nat_crypto env) key (Pss ''sha384'' 48) sig (sign1_bytes env protected payload)) (\<lambda>_. Inr (header, body))
                   | _ \<Rightarrow> Inl (TypeError ''bytes-like object''))
                else Inl (AssertionError ''unexpected native signature algorithm'')))
          | _ \<Rightarrow> Inl (TypeError ''bytes-like object''))
     | _ \<Rightarrow> Inl (AssertionError []))))"

end
