(* ===== verification/Native_Quote.thy ===== *)
theory Native_Quote
  imports Native_Der Control_Tools
begin

text \<open>
  The offline verifier of a raw CCF node quote (\<open>tools/verify_native_ccf.py\<close>): the layout of an SNP report,
  the policy and the binding of the TLS key, the hardware signature, the endorsement of the UVM and the
  whole of \<open>verify\<close> with its negative variants. The libraries are the parameters of \<open>Native_Der\<close>.
\<close>

unbundle bit_operations_syntax

section \<open>Inputs\<close>

definition QUOTE_MAX_INPUT :: nat where "QUOTE_MAX_INPUT = 1024 * 1024"

definition quote_hooks :: json_hooks where
  "quote_hooks = \<lparr>pairs_hook = (\<lambda>ps. bindr (unique_pairs ''duplicate JSON field'' [] ps) (\<lambda>d. Inr (JDict d))),
     float_hook = (\<lambda>t. Inr (JFloat t)), const_hook = (\<lambda>t. Inr (JFloat t))\<rparr>"

definition json_read :: "nat \<Rightarrow> bytes \<Rightarrow> json res" where
  "json_read depth raw = json_loads depth quote_hooks raw"

definition quote_b64 :: "json \<Rightarrow> bytes res" where
  "quote_b64 encoded =
     (case jstr encoded of
        None \<Rightarrow> Inl (ValueError ''base64 input size/type'')
      | Some t \<Rightarrow>
          bindr (require (str_len t \<le> QUOTE_MAX_INPUT) ''base64 input size/type'') (\<lambda>_.
          bindr (b64decode t) (\<lambda>result.
          bindr (require (b64encode result = t) ''noncanonical base64'') (\<lambda>_. Inr result))))"

definition cbor_read :: "native \<Rightarrow> bytes \<Rightarrow> cval res" where
  "cbor_read env raw =
     bindr (cb_decode env raw) (\<lambda>(result, rest). bindr (require (rest = []) ''trailing CBOR bytes'') (\<lambda>_. Inr result))"

section \<open>The report\<close>

text \<open>The four components of a TCB version: boot loader, TEE, SNP and microcode.\<close>

definition tcb_names :: "string list" where
  "tcb_names = [''bootloader'', ''tee'', ''snp'', ''microcode'']"

record report_fields =
  rf_version :: nat
  rf_launch_mitigation :: "nat option"
  rf_current_mitigation :: "nat option"
  rf_reserved_start :: nat
  rf_states :: "(string \<times> nat list) list"

definition reserved_ranges :: "nat \<Rightarrow> (nat \<times> nat) list" where
  "reserved_ranges start = [(76, 80), (395, 416), (491, 492), (495, 496), (start, 672), (720, 744), (792, 1184)]"

definition tcb_offsets :: "(string \<times> nat) list" where
  "tcb_offsets = [(''current'', 56), (''reported'', 384), (''committed'', 480), (''launch'', 496)]"

definition guest_policy_ok :: "bytes \<Rightarrow> bool" where
  "guest_policy_ok report =
     (let p = le_nat (slice 8 16 report) in bit p 17 \<and> \<not> bit p 18 \<and> \<not> bit p 19 \<and> drop_bit 26 p = 0)"

definition read_tcb :: "bytes \<Rightarrow> nat \<Rightarrow> nat list" where
  "read_tcb report offset = map (\<lambda>n. unat (report ! (offset + n))) [0, 1, 6, 7]"

definition layout :: "bytes \<Rightarrow> report_fields res" where
  "layout report =
     bindr (require (length report = 1184) ''SNP report length'') (\<lambda>_.
       let version = le_nat (take 4 report) in
       bindr (require (version \<in> {3, 5}) ''this independent verifier supports only report versions 3 and 5'') (\<lambda>_.
       let start = (if version = 5 then 520 else 504) in
       bindr (for_each (\<lambda>(a, b). require (list_all (\<lambda>x. x = 0) (slice a b report)) ''nonzero reserved bytes'') (reserved_ranges start)) (\<lambda>_.
       bindr (require (le_nat (slice 48 52 report) = 0) ''guest VMPL must be zero'') (\<lambda>_.
       bindr (require (le_nat (slice 52 56 report) = 1) ''P384/SHA384 report algorithm required'') (\<lambda>_.
       bindr (require (guest_policy_ok report) ''debug/migration/reserved guest policy'') (\<lambda>_.
       bindr (require (int (le_nat (slice 72 76 report)) AND (NOT 1) = 0) ''unmasked VCEK signing required'') (\<lambda>_.
       bindr (require (report ! 392 = 0x19 \<and> 0x10 \<le> report ! 393 \<and> report ! 393 \<le> 0x1f) ''Genoa CPUID required'') (\<lambda>_.
       bindr (map_res (\<lambda>(name, offset).
           bindr (require (slice (offset + 2) (offset + 6) report = replicate 4 0) ''reserved TCB bytes'') (\<lambda>_.
             Inr (name, read_tcb report offset))) tcb_offsets) (\<lambda>states.
         Inr \<lparr>rf_version = version,
           rf_launch_mitigation = (if version = 5 then Some (le_nat (slice 504 512 report)) else None),
           rf_current_mitigation = (if version = 5 then Some (le_nat (slice 512 520 report)) else None),
           rf_reserved_start = start, rf_states = states\<rparr>)))))))))"

text \<open>\<open>all(state[name] >= minimum[name] for name in NAMES)\<close>, which stops at the first failure.\<close>

fun tcb_meets :: "json \<Rightarrow> (string \<times> nat) list \<Rightarrow> bool res" where
  "tcb_meets minimum [] = Inr True"
| "tcb_meets minimum ((name, v) # rest) =
     bindr (jindex minimum name) (\<lambda>m.
     bindr (json_le m (JInt (int v))) (\<lambda>ok. if ok then tcb_meets minimum rest else Inr False))"

definition within_validity :: "json \<Rightarrow> int \<Rightarrow> bool res" where
  "within_validity policy time =
     bindr (jindex policy ''valid_from'') (\<lambda>from.
     bindr (json_le from (JInt time)) (\<lambda>ok.
       if \<not> ok then Inr False
       else bindr (jindex policy ''valid_until'') (\<lambda>until. json_lt (JInt time) until)))"

definition policy_and_binding :: "bytes \<Rightarrow> bytes \<Rightarrow> json \<Rightarrow> int \<Rightarrow> report_fields \<Rightarrow> unit res" where
  "policy_and_binding report public_der policy time parsed =
     bindr (bindr (jindex policy ''active_profiles'') (jcontains ''azure-aci-snp'')) (\<lambda>active.
     bindr (require active ''inactive profile'') (\<lambda>_.
     bindr (within_validity policy time) (\<lambda>valid.
     bindr (require valid ''expired/not-yet-valid policy'') (\<lambda>_.
     bindr (require (slice 80 144 report = sha256 public_der @ replicate 32 0) ''fixed REPORT_DATA binding'') (\<lambda>_.
     bindr (bindr (jindex policy ''approved_measurements'') (jcontains (bytes_hex (slice 144 192 report)))) (\<lambda>measured.
     bindr (require measured ''unapproved measurement'') (\<lambda>_.
     bindr (bindr (jindex policy ''approved_host_data'') (jcontains (bytes_hex (slice 192 224 report)))) (\<lambda>hosted.
     bindr (require hosted ''unapproved CCE host data'') (\<lambda>_.
     bindr (bindr (jindex policy ''minimum_tcb'') (\<lambda>m. jindex m ''Genoa'')) (\<lambda>minimum.
       for_each (\<lambda>(_, state). bindr (tcb_meets minimum (zip tcb_names state)) (\<lambda>ok. require ok ''TCB below minimum'')) (rf_states parsed)))))))))))"

definition hardware_signature :: "crypto \<Rightarrow> bytes \<Rightarrow> pubkey \<Rightarrow> unit res" where
  "hardware_signature lib report key =
     bindr (require (on_curve [P384] key) ''VCEK must be P384'') (\<lambda>_.
       key_verify lib key (Ecdsa ''sha384'') (encode_dss lib (le_nat (slice 672 720 report)) (le_nat (slice 744 792 report))) (take 672 report))"

section \<open>The UVM endorsement\<close>

text \<open>\<open>bytes.fromhex\<close>, which skips white space between the bytes, and \<open>str.split\<close> with a longer separator.\<close>

fun fromhex :: "string \<Rightarrow> bytes res" where
  "fromhex [] = Inr []"
| "fromhex (c # cs) =
     (if pem_space (word_of_nat (ord c)) then fromhex cs
      else case cs of
        d # ds \<Rightarrow> if is_hex c \<and> is_hex d then bindr (fromhex ds) (\<lambda>bs. Inr (word_of_nat (hex_nat [c, d]) # bs)) else Inl (ValueError ''non-hexadecimal number found'')
      | [] \<Rightarrow> Inl (ValueError ''non-hexadecimal number found''))"

function split_sub :: "string \<Rightarrow> string \<Rightarrow> string \<Rightarrow> string list" where
  "split_sub sep [] part = [part]"
| "split_sub sep (c # cs) part =
     (if sep \<noteq> [] \<and> startswith (c # cs) sep then part # split_sub sep (drop (length sep) (c # cs)) []
      else split_sub sep cs (part @ [c]))"
  by pat_completeness auto
termination
  by (relation "measure (\<lambda>(sep, cs, part). length cs)") (auto simp: neq_Nil_conv)

record uvm_open =
  uo_header :: cval
  uo_payload :: bytes
  uo_raw_chain :: "bytes list"
  uo_chain :: "x509 list"

definition uvm_parts :: "cval \<Rightarrow> (bytes \<times> bytes) res" where
  "uvm_parts sign1 =
     bindr (case sign1 of
         VTag n v \<Rightarrow> bindr (if n = 18 then cval_len v else Inr 0) (\<lambda>len. bindr (require (len = 4) ''UVM Sign1'') (\<lambda>_. cval_four v))
       | _ \<Rightarrow> Inl (ValueError ''UVM Sign1'')) (\<lambda>four.
     case four of
       (VBytes protected, VMap unprotected, VBytes payload, VBytes signature) \<Rightarrow> Inr (protected, payload)
     | _ \<Rightarrow> Inl (ValueError ''UVM field types''))"

definition load_chain :: "native \<Rightarrow> cval \<Rightarrow> (bytes \<times> x509) list res" where
  "load_chain env raw_chain =
     (case raw_chain of
        VList raws \<Rightarrow>
          bindr (require (2 \<le> length raws \<and> length raws \<le> 6) ''UVM chain length'') (\<lambda>_.
          bindr (map_res (\<lambda>v. case v of
              VBytes raw \<Rightarrow> bindr (load_der_cert (nat_crypto env) raw) (\<lambda>c. Inr (raw, c))
            | _ \<Rightarrow> Inl (TypeError ''bytes-like object'')) raws) (\<lambda>pairs.
          bindr (require (list_all (\<lambda>(raw, c). length raw \<le> 16384 \<and> x_der c = raw) pairs) ''noncanonical UVM certificate'') (\<lambda>_.
            Inr pairs)))
      | _ \<Rightarrow> Inl (ValueError ''UVM chain length''))"

definition open_uvm :: "native \<Rightarrow> bytes \<Rightarrow> uvm_open res" where
  "open_uvm env encoded =
     bindr (bindr (cbor_read env encoded) uvm_parts) (\<lambda>(protected, payload).
     bindr (cbor_read env protected) (\<lambda>header.
     bindr (cval_index header (VInt 1)) (\<lambda>alg.
     bindr (require (cval_is_int alg (- 38)) ''native UVM PS384 algorithm required'') (\<lambda>_.
     bindr (bindr (cval_index header (VInt 33)) (load_chain env)) (\<lambda>pairs.
     bindr (verify_sign1 env encoded (x_key (snd (hd pairs)))) (\<lambda>_.
       Inr \<lparr>uo_header = header, uo_payload = payload, uo_raw_chain = map fst pairs, uo_chain = map snd pairs\<rparr>))))))"

record uvm_claims =
  uc_did :: cval
  uc_feed :: cval
  uc_svn :: int
  uc_issuance :: "int option"
  uc_endorsed :: bytes

definition preimage_claims :: "cval \<Rightarrow> bytes \<Rightarrow> int \<Rightarrow> uvm_claims res" where
  "preimage_claims header payload time =
     bindr (cval_index header (VInt 259)) (\<lambda>kind.
     bindr (require (kind = VText ''application/octet-stream'') ''UVM preimage content type'') (\<lambda>_.
     bindr (cval_index header (VInt 15)) (\<lambda>claims.
     bindr (cval_index claims (VInt 1)) (\<lambda>did.
     bindr (cval_index claims (VInt 2)) (\<lambda>feed.
     bindr (cval_index claims (VText ''svn'')) (\<lambda>svn.
     bindr (cval_index claims (VInt 6)) (\<lambda>issued.
     bindr (case issued of VDate t \<Rightarrow> Inr t | VInt t \<Rightarrow> Inr t | _ \<Rightarrow> Inl (ValueError ''UVM issuance time'')) (\<lambda>issuance.
     bindr (require (0 \<le> issuance \<and> issuance \<le> time) ''UVM issuance time'') (\<lambda>_.
     bindr (case svn of VInt n \<Rightarrow> bindr (require (0 \<le> n \<and> n \<le> 0xffffffff) ''UVM SVN type'') (\<lambda>_. Inr n) | _ \<Rightarrow> Inl (ValueError ''UVM SVN type'')) (\<lambda>n.
       Inr \<lparr>uc_did = did, uc_feed = feed, uc_svn = n, uc_issuance = Some issuance, uc_endorsed = payload\<rparr>))))))))))"

definition legacy_claims :: "nat \<Rightarrow> cval \<Rightarrow> bytes \<Rightarrow> uvm_claims res" where
  "legacy_claims depth header payload =
     bindr (cval_index header (VInt 3)) (\<lambda>kind.
     bindr (require (kind = VText ''application/json'') ''legacy UVM content type'') (\<lambda>_.
     bindr (cval_index header (VText ''iss'')) (\<lambda>did.
     bindr (cval_index header (VText ''feed'')) (\<lambda>feed.
     bindr (json_read depth payload) (\<lambda>descriptor.
     bindr (jindex descriptor ''x-ms-sevsnpvm-guestsvn'') (\<lambda>v.
     bindr (case v of
         JInt n \<Rightarrow> Inr n
       | JStr t \<Rightarrow> if t \<noteq> [] \<and> list_all is_digit t then py_int t else Inl (ValueError ''UVM SVN type'')
       | _ \<Rightarrow> Inl (ValueError ''UVM SVN type'')) (\<lambda>svn.
     bindr (require (0 \<le> svn \<and> svn \<le> 0xffffffff) ''UVM SVN bounds'') (\<lambda>_.
     bindr (jindex descriptor ''x-ms-sevsnpvm-launchmeasurement'') (\<lambda>m.
     bindr (case jstr m of Some t \<Rightarrow> fromhex t | None \<Rightarrow> Inl (TypeError ''fromhex() argument must be str'')) (\<lambda>endorsed.
       Inr \<lparr>uc_did = did, uc_feed = feed, uc_svn = svn, uc_issuance = None, uc_endorsed = endorsed\<rparr>))))))))))"

text \<open>The entries of the policy for this publisher and feed, and the least of their minimum versions.\<close>

fun uvm_identities :: "cval \<Rightarrow> cval \<Rightarrow> json list \<Rightarrow> json list res" where
  "uvm_identities did feed [] = Inr []"
| "uvm_identities did feed (v # vs) =
     bindr (jindex v ''did'') (\<lambda>d.
     bindr (if \<not> cval_eq_json did d then Inr False else bindr (jindex v ''feed'') (\<lambda>f. Inr (cval_eq_json feed f))) (\<lambda>ok.
     bindr (uvm_identities did feed vs) (\<lambda>rest. Inr (if ok then v # rest else rest))))"

fun least_svn :: "json \<Rightarrow> json list \<Rightarrow> json res" where
  "least_svn m [] = Inr m"
| "least_svn m (v # vs) =
     bindr (jindex v ''minimum_svn'') (\<lambda>n. bindr (json_lt n m) (\<lambda>less. least_svn (if less then n else m) vs))"

definition uvm_identity_ok :: "json \<Rightarrow> uvm_claims \<Rightarrow> bool res" where
  "uvm_identity_ok policy uc =
     bindr (bindr (jindex policy ''uvm'') jiter) (\<lambda>entries.
     bindr (uvm_identities (uc_did uc) (uc_feed uc) entries) (\<lambda>identities.
       case identities of
         [] \<Rightarrow> Inr False
       | v # vs \<Rightarrow>
           bindr (jindex v ''minimum_svn'') (\<lambda>m.
           bindr (least_svn m vs) (\<lambda>least. json_le least (JInt (uc_svn uc))))))"

definition did_prefix :: string where "did_prefix = ''did:x509:0:sha256:''"

definition check_uvm_leaf :: "native \<Rightarrow> cval \<Rightarrow> bytes \<Rightarrow> x509 \<Rightarrow> unit res" where
  "check_uvm_leaf env did raw_root leaf =
     (case did of
        VText t \<Rightarrow>
          bindr (require (startswith t did_prefix) ''UVM DID format'') (\<lambda>_.
          case split_sub ''::eku:'' (drop (length did_prefix) t) [] of
            [fingerprint, eku] \<Rightarrow>
              bindr (require (rstrip_eq (urlsafe_b64encode (sha256 raw_root)) = fingerprint) ''UVM pinned DID root'') (\<lambda>_.
              bindr (oid_valid env eku) (\<lambda>_.
              bindr (extension (x_ekus leaf)) (\<lambda>ekus.
              bindr (require (eku \<in> set ekus) ''UVM leaf EKU'') (\<lambda>_.
              bindr (extension (x_digital_signature leaf)) (\<lambda>sig.
              bindr (if \<not> sig then Inr False else bindr (extension (x_ca leaf)) (\<lambda>ca. Inr (\<not> ca))) (\<lambda>ok.
                require ok ''UVM leaf usage''))))))
          | _ \<Rightarrow> Inl (ValueError ''values to unpack''))
      | _ \<Rightarrow> Inl (AttributeError ''startswith''))"

record uvm_result =
  ur_did :: cval
  ur_feed :: cval
  ur_svn :: int
  ur_mode :: json
  ur_issuance :: "int option"
  ur_time :: int
  ur_strict_valid :: bool
  ur_not_after :: int

definition verify_uvm :: "nat \<Rightarrow> native \<Rightarrow> bytes \<Rightarrow> bytes \<Rightarrow> json \<Rightarrow> int \<Rightarrow> uvm_result res" where
  "verify_uvm depth env encoded measurement policy time =
     bindr (open_uvm env encoded) (\<lambda>uo.
     bindr (cval_contains 15 (uo_header uo)) (\<lambda>preimage.
     bindr (if preimage then preimage_claims (uo_header uo) (uo_payload uo) time else legacy_claims depth (uo_header uo) (uo_payload uo)) (\<lambda>uc.
     bindr (require (uc_endorsed uc = measurement) ''UVM measurement mismatch'') (\<lambda>_.
     bindr (uvm_identity_ok policy uc) (\<lambda>known.
     bindr (require known ''UVM identity/feed/SVN'') (\<lambda>_.
     bindr (check_uvm_leaf env (uc_did uc) (last (uo_raw_chain uo)) (hd (uo_chain uo))) (\<lambda>_.
     bindr (jget policy ''uvm_endorsement_time_policy'' (JStr ''current_certificate'')) (\<lambda>mode.
     bindr (require (mode = JStr ''approved_release'' \<or> mode = JStr ''current_certificate'') ''unknown UVM expiry mode'') (\<lambda>_.
       let historical = (case uc_issuance uc of Some t \<Rightarrow> t | None \<Rightarrow> Max (set (map x_not_before (uo_chain uo)))) in
       bindr (require (historical \<le> time) ''future UVM chain validity'') (\<lambda>_.
       bindr (check_chain env (uo_chain uo) historical) (\<lambda>_.
       bindr (if mode = JStr ''current_certificate'' then check_chain env (uo_chain uo) time else Inr ()) (\<lambda>_.
         Inr \<lparr>ur_did = uc_did uc, ur_feed = uc_feed uc, ur_svn = uc_svn uc, ur_mode = mode, ur_issuance = uc_issuance uc,
           ur_time = historical, ur_strict_valid = list_all (\<lambda>c. x_not_before c \<le> time \<and> time < x_not_after c) (uo_chain uo),
           ur_not_after = x_not_after (hd (uo_chain uo))\<rparr>))))))))))))"

section \<open>The certificates of the processor\<close>

text \<open>The pattern \<open>-----BEGIN CERTIFICATE-----.*?-----END CERTIFICATE-----\<close> over all characters: the matches,
  and what remains without them.\<close>

definition pem_begin :: bytes where "pem_begin = encode_str ''-----BEGIN CERTIFICATE-----''"
definition pem_end :: bytes where "pem_end = encode_str ''-----END CERTIFICATE-----''"

definition has_prefix :: "bytes \<Rightarrow> bytes \<Rightarrow> bool" where
  "has_prefix raw p \<longleftrightarrow> take (length p) raw = p"

fun until_marker :: "bytes \<Rightarrow> bytes \<Rightarrow> bytes \<Rightarrow> (bytes \<times> bytes) option" where
  "until_marker m [] seen = None"
| "until_marker m (x # xs) seen =
     (if has_prefix (x # xs) m then Some (seen @ m, drop (length m) (x # xs)) else until_marker m xs (seen @ [x]))"

lemma until_marker_length: "until_marker m xs seen = Some (body, rest) \<Longrightarrow> length rest \<le> length xs"
  by (induction m xs seen rule: until_marker.induct) (auto split: if_splits)

lemma pem_begin_pos: "length pem_begin = 27"
  by code_simp

function pem_scan :: "bytes \<Rightarrow> bytes list \<times> bytes" where
  "pem_scan [] = ([], [])"
| "pem_scan (x # xs) =
     (case (if has_prefix (x # xs) pem_begin then until_marker pem_end (drop (length pem_begin) (x # xs)) [] else None) of
        Some (body, rest) \<Rightarrow> let (blocks, out) = pem_scan rest in ((pem_begin @ body) # blocks, out)
      | None \<Rightarrow> let (blocks, out) = pem_scan xs in (blocks, x # out))"
  by pat_completeness auto
termination
  by (relation "measure length")
    (use pem_begin_pos in \<open>auto split: if_splits dest!: until_marker_length\<close>)

definition spl_value :: "bytes dict \<Rightarrow> nat \<Rightarrow> nat res" where
  "spl_value extensions suffix =
     bindr (dict_index extensions (''1.3.6.1.4.1.3704.1.3.'' @ nat_str suffix)) (\<lambda>raw.
     bindr (case raw of
         [] \<Rightarrow> Inl (IndexError ''index out of range'')
       | [t] \<Rightarrow> if t = 2 then Inl (IndexError ''index out of range'') else Inr False
       | t # n # v \<Rightarrow> Inr (t = 2 \<and> unat n = length v \<and> 1 \<le> unat n \<and> unat n \<le> 2)) (\<lambda>ok.
     bindr (require ok ''AMD SPL integer'') (\<lambda>_.
     bindr (require (be_nat (drop 2 raw) \<le> 255) ''AMD SPL range'') (\<lambda>_.
       Inr (be_nat (drop 2 raw))))))"

fun reserved_spls :: "bytes dict \<Rightarrow> nat list \<Rightarrow> bool res" where
  "reserved_spls extensions [] = Inr True"
| "reserved_spls extensions (i # is) = bindr (spl_value extensions i) (\<lambda>v. if v = 0 then reserved_spls extensions is else Inr False)"

definition product_ok :: "bytes \<Rightarrow> bool res" where
  "product_ok product =
     (case product of
        [] \<Rightarrow> Inl (IndexError ''index out of range'')
      | [t] \<Rightarrow> if t = 0x16 then Inl (IndexError ''index out of range'') else Inr False
      | t # n # v \<Rightarrow> Inr (t = 0x16 \<and> unat n = length v \<and> has_prefix v (encode_str ''Genoa'')))"

definition check_vcek :: "bytes dict \<Rightarrow> bytes \<Rightarrow> nat list option \<Rightarrow> unit res" where
  "check_vcek extensions report reported =
     bindr (map_res (spl_value extensions) [1, 2, 3, 8]) (\<lambda>levels.
     bindr (require (reported = Some levels) ''VCEK reported TCB mismatch'') (\<lambda>_.
     bindr (reserved_spls extensions [4, 5, 6, 7]) (\<lambda>zero.
     bindr (require zero ''AMD reserved SPL'') (\<lambda>_.
     bindr (dict_index extensions ''1.3.6.1.4.1.3704.1.4'') (\<lambda>chip.
     bindr (require (chip = slice 416 480 report) ''VCEK chip ID mismatch'') (\<lambda>_.
     bindr (bindr (dict_index extensions ''1.3.6.1.4.1.3704.1.2'') product_ok) (\<lambda>ok.
       require ok ''VCEK product'')))))))"

section \<open>The negative variants\<close>

definition reject :: "string \<Rightarrow> 'a res \<Rightarrow> string res" where
  "reject name operation =
     (case operation of
        Inl (ValueError _) \<Rightarrow> Inr name
      | Inl (UnicodeError _) \<Rightarrow> Inr name
      | Inl (AssertionError _) \<Rightarrow> Inr name
      | Inl InvalidSignature \<Rightarrow> Inr name
      | Inl e \<Rightarrow> Inl e
      | Inr _ \<Rightarrow> Inl (ValueError ''negative variant unexpectedly accepted''))"

definition jput :: "string \<Rightarrow> json \<Rightarrow> json \<Rightarrow> json res" where
  "jput k v j = (case j of JDict d \<Rightarrow> Inr (JDict (AList.update k v d)) | _ \<Rightarrow> Inl (AttributeError ''update''))"

definition flipped_offsets :: "nat \<Rightarrow> (string \<times> nat) list" where
  "flipped_offsets version =
     [(''report_data'', 80), (''report_data_padding'', 112), (''measurement'', 144), (''cce'', 192),
      (if version = 5 then ''launch_mitigation_vector'' else ''reserved_504'', 504),
      (if version = 5 then ''current_mitigation_vector'' else ''reserved_512'', 512), (''reserved_520'', 520)]"

definition flip_byte :: "bytes \<Rightarrow> nat \<Rightarrow> bytes" where
  "flip_byte report offset = report[offset := report ! offset XOR 1]"

definition raise_microcode :: "json \<Rightarrow> json res" where
  "raise_microcode p =
     bindr (jindex p ''minimum_tcb'') (\<lambda>m.
     bindr (jindex m ''Genoa'') (\<lambda>g.
     bindr (jput ''microcode'' (JInt 255) g) (\<lambda>g'.
     bindr (jput ''Genoa'' g' m) (\<lambda>m'. jput ''minimum_tcb'' m' p))))"

definition policy_variants :: "int \<Rightarrow> (string \<times> (json \<Rightarrow> json res)) list" where
  "policy_variants time =
     [(''wrong_cce'', jput ''approved_host_data'' (JList [JStr (replicate 64 (CHR ''0''))])),
      (''wrong_measurement'', jput ''approved_measurements'' (JList [JStr (replicate 96 (CHR ''0''))])),
      (''inactive_profile'', jput ''active_profiles'' (JList [])),
      (''expired_policy'', jput ''valid_until'' (JInt time)),
      (''tcb_floor_above_actual'', raise_microcode)]"

definition policy_negatives :: "bytes \<Rightarrow> bytes \<Rightarrow> json \<Rightarrow> int \<Rightarrow> report_fields \<Rightarrow> string list res" where
  "policy_negatives report public_der policy time parsed =
     map_res (\<lambda>(name, mutate).
       bindr (mutate policy) (\<lambda>altered. reject (name @ ''_rejected'') (policy_and_binding report public_der altered time parsed))) (policy_variants time)"

definition raise_svn_floor :: "json \<Rightarrow> json res" where
  "raise_svn_floor policy =
     bindr (bindr (jindex policy ''uvm'') jiter) (\<lambda>identities.
     bindr (map_res (jput ''minimum_svn'' (JInt 0xffffffff)) identities) (\<lambda>raised. jput ''uvm'' (JList raised) policy))"

definition quote_negatives ::
    "nat \<Rightarrow> native \<Rightarrow> bytes \<Rightarrow> bytes \<Rightarrow> pubkey \<Rightarrow> bytes \<Rightarrow> json \<Rightarrow> int \<Rightarrow> report_fields \<Rightarrow> bool \<Rightarrow> string list res" where
  "quote_negatives depth env report uvm vcek public_der policy time parsed strict_valid =
     bindr (map_res (\<lambda>(name, offset). reject (name @ ''_original_hardware_signature_rejected'')
         (hardware_signature (nat_crypto env) (flip_byte report offset) vcek)) (flipped_offsets (rf_version parsed))) (\<lambda>ns1.
     bindr (reject ''nonzero_reserved_520_structurally_rejected'' (layout (report[520 := 1]))) (\<lambda>n2.
     bindr (reject ''wrong_spki_binding_rejected'' (policy_and_binding report (spki_of_one env) policy time parsed)) (\<lambda>n3.
     bindr (policy_negatives report public_der policy time parsed) (\<lambda>ns4.
     bindr (bindr (raise_svn_floor policy) (\<lambda>altered.
         reject ''uvm_svn_floor_above_actual_rejected'' (verify_uvm depth env uvm (slice 144 192 report) altered time))) (\<lambda>n5.
     bindr (if strict_valid then Inr []
         else
           bindr (jput ''uvm_endorsement_time_policy'' (JStr ''current_certificate'') policy) (\<lambda>altered.
           bindr (reject ''strict_current_uvm_certificate_expiry_rejected'' (verify_uvm depth env uvm (slice 144 192 report) altered time)) (\<lambda>n. Inr [n]))) (\<lambda>ns6.
       Inr (ns1 @ [n2, n3] @ ns4 @ [n5] @ ns6)))))))"

section \<open>The verifier\<close>

definition quote_names :: "string list" where
  "quote_names = [''node_id'', ''raw'', ''endorsements'', ''format'', ''measurement'', ''uvm_endorsements'']"

definition known_names :: "json \<Rightarrow> unit res" where
  "known_names quote =
     bindr (jiter quote) (\<lambda>vs.
     bindr (map_res hashable vs) (\<lambda>names.
       require (list_all (\<lambda>v. case v of JStr t \<Rightarrow> t \<in> set quote_names | _ \<Rightarrow> False) names) ''unknown quote field''))"

definition check_peer :: "native \<Rightarrow> bytes \<Rightarrow> int \<Rightarrow> x509 res" where
  "check_peer env peer_raw time =
     bindr (load_der_cert (nat_crypto env) peer_raw) (\<lambda>peer.
     bindr (require (x_der peer = peer_raw) ''noncanonical TLS peer DER'') (\<lambda>_.
     bindr (require (on_curve [P256, P384] (x_key peer)) ''node EC key curve'') (\<lambda>_.
     bindr (require (x_not_before peer \<le> time \<and> time < x_not_after peer) ''TLS peer validity'') (\<lambda>_. Inr peer))))"

definition vcek_chain :: "native \<Rightarrow> bytes \<Rightarrow> bytes \<Rightarrow> amd_cert list res" where
  "vcek_chain env amd_pem ark_pem =
     (let (blocks, rest) = pem_scan amd_pem in
      bindr (require (length blocks = 3 \<and> list_all pem_space rest) ''AMD PEM chain must contain exactly three certificates'') (\<lambda>_.
      bindr (map_res (amd_certificate env) blocks) (\<lambda>chain.
      bindr (load_pem_key (nat_crypto env) ark_pem) (\<lambda>pinned.
      bindr (require (key_der (am_key (last chain)) = key_der pinned) ''pinned AMD Genoa ARK public key mismatch'') (\<lambda>_. Inr chain)))))"

record quote_result =
  qr_node_id :: json
  qr_curve :: pubkey
  qr_fields :: report_fields
  qr_measurement :: string
  qr_host_data :: string
  qr_uvm :: uvm_result
  qr_negatives :: "string list"
  qr_provenance :: "(string \<times> string) list"

definition verify :: "nat \<Rightarrow> native \<Rightarrow> bytes \<Rightarrow> bytes \<Rightarrow> bytes \<Rightarrow> bytes \<Rightarrow> int \<Rightarrow> quote_result res" where
  "verify depth env quote_raw peer_raw policy_raw ark_pem time =
     bindr (json_read depth quote_raw) (\<lambda>quote.
     bindr (json_read depth policy_raw) (\<lambda>policy.
     bindr (known_names quote) (\<lambda>_.
     bindr (jindex quote ''format'') (\<lambda>fmt.
     bindr (require (fmt = JStr ''AMD_SEV_SNP_v1'') ''CCF quote profile'') (\<lambda>_.
     bindr (bindr (jindex quote ''raw'') quote_b64) (\<lambda>report.
     bindr (bindr (jindex quote ''endorsements'') quote_b64) (\<lambda>amd_pem.
     bindr (bindr (jindex quote ''uvm_endorsements'') quote_b64) (\<lambda>uvm.
     bindr (layout report) (\<lambda>parsed.
     bindr (check_peer env peer_raw time) (\<lambda>peer.
       let public_der = key_der (x_key peer); measurement = bytes_hex (slice 144 192 report) in
       bindr (jindex quote ''node_id'') (\<lambda>node_id.
       bindr (require (node_id = JStr (bytes_hex (sha256 public_der))) ''CCF node ID must equal attested peer SPKI SHA256'') (\<lambda>_.
       bindr (jget quote ''measurement'' (JStr measurement)) (\<lambda>outer.
       bindr (require (outer = JStr measurement) ''outer quote measurement mismatch'') (\<lambda>_.
       bindr (policy_and_binding report public_der policy time parsed) (\<lambda>_.
       bindr (vcek_chain env amd_pem ark_pem) (\<lambda>chain.
       let vcek = hd chain in
       bindr (hardware_signature (nat_crypto env) report (am_key vcek)) (\<lambda>_.
       bindr (check_vcek (am_extensions vcek) report (map_of (rf_states parsed) ''reported'')) (\<lambda>_.
       bindr (check_amd_chain env chain time) (\<lambda>_.
       bindr (verify_uvm depth env uvm (slice 144 192 report) policy time) (\<lambda>ur.
       bindr (quote_negatives depth env report uvm (am_key vcek) public_der policy time parsed (ur_strict_valid ur)) (\<lambda>negatives.
       bindr (bindr (jindex policy ''policy_id'') json_bytes) (\<lambda>policy_id.
         Inr \<lparr>qr_node_id = node_id, qr_curve = x_key peer, qr_fields = parsed, qr_measurement = measurement,
           qr_host_data = bytes_hex (slice 192 224 report), qr_uvm = ur, qr_negatives = negatives,
           qr_provenance =
             [(''quote_json_sha256'', bytes_hex (sha256 quote_raw)), (''raw_report_sha256'', bytes_hex (sha256 report)),
              (''actual_tls_peer_der_sha256'', bytes_hex (sha256 peer_raw)), (''node_spki_sha256'', bytes_hex (sha256 public_der)),
              (''policy_json_sha256'', bytes_hex (sha256 policy_raw)), (''policy_id'', bytes_hex policy_id),
              (''amd_chain_sha256'', bytes_hex (sha256 amd_pem)), (''uvm_sha256'', bytes_hex (sha256 uvm)),
              (''pinned_ark_pem_sha256'', bytes_hex (sha256 ark_pem))]\<rparr>))))))))))))))))))))))"

section \<open>The printed result\<close>

definition cval_json :: "cval \<Rightarrow> json res" where
  "cval_json v =
     (case v of
        VText t \<Rightarrow> Inr (JStr t) | VInt i \<Rightarrow> Inr (JInt i) | VBool b \<Rightarrow> Inr (JBool b) | VFloat t \<Rightarrow> Inr (JFloat t)
      | _ \<Rightarrow> Inl (TypeError ''Object is not JSON serializable''))"

definition layout_json :: "report_fields \<Rightarrow> json" where
  "layout_json rf =
     (let number = (\<lambda>v. case v of Some n \<Rightarrow> JInt (int n) | None \<Rightarrow> JNull) in
      JDict [(''version'', JInt (int (rf_version rf))),
        (''signed_region'', JDict [(''start'', JInt 0), (''end_inclusive'', JInt 671)]),
        (''launch_mitigation_vector'', number (rf_launch_mitigation rf)),
        (''current_mitigation_vector'', number (rf_current_mitigation rf)),
        (''mitigation_vector_policy'',
           JStr (if rf_version rf = 5 then ''authenticated inventory; supplied policy has no mitigation-bit floor''
             else ''not present in report version 3; bytes504..671 are reserved'')),
        (''reserved_start'', JInt (int (rf_reserved_start rf))),
        (''reserved_520_through_671_zero'', JBool True),
        (''tcb_states'', JDict (map (\<lambda>(name, state). (name, JDict (zip tcb_names (map (\<lambda>n. JInt (int n)) state)))) (rf_states rf)))])"

definition uvm_json :: "uvm_result \<Rightarrow> json res" where
  "uvm_json ur =
     bindr (cval_json (ur_did ur)) (\<lambda>did.
     bindr (cval_json (ur_feed ur)) (\<lambda>feed.
       Inr (JDict [(''ps384_signature_verified'', JBool True), (''did'', did), (''feed'', feed), (''svn'', JInt (ur_svn ur)),
         (''time_policy'', ur_mode ur),
         (''authenticated_issuance_time'', case ur_issuance ur of Some t \<Rightarrow> JInt t | None \<Rightarrow> JNull),
         (''verified_certificate_path_time'', JInt (ur_time ur)), (''current_certificate_time_valid'', JBool (ur_strict_valid ur)),
         (''publisher_certificate_not_after'', JInt (ur_not_after ur))])))"

definition quote_limits :: "string list" where
  "quote_limits =
     [''Offline check of the supplied captured actual TLS peer; this command makes no fresh TLS connection.'',
      ''No worker Sign1 envelope exists or was synthesized. This is not a service registration appraisal.'',
      ''TLS peer certificate issuer validation is not used as the bootstrap trust source; its key is authenticated directly by SNP.'',
      ''Policy was supplied independently; no observed measurement, CCE, TCB or UVM value was auto-approved.'',
      ''Negative report edits retain the original hardware signature; no freshly hardware-signed malformed report is claimed.'']"

fun curve_name :: "pubkey \<Rightarrow> string" where
  "curve_name (Ec_key P256 der) = ''secp256r1''"
| "curve_name (Ec_key P384 der) = ''secp384r1''"
| "curve_name (Ec_key (Other_curve c) der) = c"
| "curve_name (Other_key der) = []"

definition SPEC :: string where "SPEC = ''https://www.amd.com/content/dam/amd/en/documents/developer/56860.pdf''"
definition SPEC_V3 :: string where "SPEC_V3 = ''https://docs.amd.com/api/khub/documents/x_tYkgJNtfpvqwPq45NrSQ/content''"

definition quote_json :: "int \<Rightarrow> quote_result \<Rightarrow> json dict res" where
  "quote_json time qr =
     (let five = rf_version (qr_fields qr) = 5 in
      bindr (uvm_json (qr_uvm qr)) (\<lambda>uvm.
        Inr [(''status'', JStr ''passed''), (''purpose'', JStr ''independent-offline-ccf-node-quote-cross-check-only''),
          (''verification_time'', JInt time),
          (''specification'', JDict [(''url'', JStr (if five then SPEC else SPEC_V3)),
             (''layout'', JStr (if five then ''AMD report v5'' else ''AMD report v3'')), (''table'', JInt 23)]),
          (''quote_format'', JStr ''AMD_SEV_SNP_v1''), (''node_id'', qr_node_id qr), (''node_key_curve'', JStr (curve_name (qr_curve qr))),
          (''report'', layout_json (qr_fields qr)), (''tls_peer_spki_matches_hardware_report_data'', JBool True),
          (''report_data_sha256_spki_plus_zero32'', JBool True), (''native_p384_sha384_signature_verified'', JBool True),
          (''amd_genoa_pinned_ark_chain_currently_valid'', JBool True), (''vcek_chip_id_and_reported_tcb_match'', JBool True),
          (''exact_preapproved_measurement'', JStr (qr_measurement qr)), (''exact_preapproved_host_data'', JStr (qr_host_data qr)),
          (''uvm'', uvm), (''negative_checks'', JDict (map (\<lambda>n. (n, JBool True)) (qr_negatives qr))),
          (''negative_check_count'', JInt (int (length (qr_negatives qr)))),
          (''provenance'', JDict (map (\<lambda>(k, v). (k, JStr v)) (qr_provenance qr))),
          (''limits'', JList (map JStr quote_limits))]))"

section \<open>The command\<close>

text \<open>The input files, the sources of the two verifiers and the versions that are recorded.\<close>

record quote_input =
  qi_output_exists :: bool
  qi_quote :: "bytes res"
  qi_peer :: "bytes res"
  qi_policy :: "bytes res"
  qi_ark :: "bytes res"
  qi_sources :: "bytes \<times> bytes"
  qi_python :: string
  qi_cryptography :: string
  qi_openssl :: "string res"

definition quote_read_bounded :: "bytes res \<Rightarrow> nat \<Rightarrow> bytes res" where
  "quote_read_bounded file limit =
     bindr file (\<lambda>content.
       let raw = take (limit + 1) content in
       bindr (require (length raw \<le> limit) ''input exceeds bound'') (\<lambda>_. Inr raw))"

definition quote_artifacts :: "quote_input \<Rightarrow> bytes \<Rightarrow> bytes \<Rightarrow> bytes \<Rightarrow> bytes \<Rightarrow> (string \<times> bytes) list" where
  "quote_artifacts inp quote peer policy ark =
     [(''node-quote.json'', quote), (''node-peer.der'', peer), (''node-policy.json'', policy), (''amd_genoa_ark.pem'', ark),
      (''verify_native_ccf.py'', fst (qi_sources inp)), (''verify_native_aci.py'', snd (qi_sources inp))]"

fun write_files :: "(string \<times> bytes) list \<Rightarrow> ('z tool_scheme, unit) act" where
  "write_files [] = ret_act ()"
| "write_files ((name, raw) # rest) = bind_act (write_file name raw) (\<lambda>_. write_files rest)"

definition quote_main :: "nat \<Rightarrow> native \<Rightarrow> quote_input \<Rightarrow> int \<Rightarrow> ('z tool_scheme, json dict) act" where
  "quote_main depth env inp time =
     bind_act (lift_res (require (\<not> qi_output_exists inp) ''output directory must be new'')) (\<lambda>_.
     bind_act (lift_res (quote_read_bounded (qi_quote inp) QUOTE_MAX_INPUT)) (\<lambda>quote.
     bind_act (lift_res (quote_read_bounded (qi_peer inp) 16384)) (\<lambda>peer.
     bind_act (lift_res (quote_read_bounded (qi_policy inp) QUOTE_MAX_INPUT)) (\<lambda>policy.
     bind_act (lift_res (quote_read_bounded (qi_ark inp) 16384)) (\<lambda>ark.
     bind_act (lift_res (verify depth env quote peer policy ark time)) (\<lambda>qr.
     let artifacts = quote_artifacts inp quote peer policy ark in
     bind_act (write_files artifacts) (\<lambda>_.
     bind_act (lift_res (qi_openssl inp)) (\<lambda>version.
     bind_act (lift_res (quote_json time qr)) (\<lambda>result.
     let report = result @
       [(''runtime'', JDict [(''python'', JStr (qi_python inp)), (''cryptography'', JStr (qi_cryptography inp)), (''openssl'', JStr (strip version))]),
        (''public_artifact_sha256'', JDict (map (\<lambda>(name, raw). (name, JStr (bytes_hex (sha256 raw)))) artifacts))] in
     bind_act (write_file ''independent-crypto.json'' (json_file (JDict report))) (\<lambda>_. ret_act report))))))))))"

end
