(* ===== verification/Native_Capture.thy ===== *)
theory Native_Capture
  imports Native_Quote Ksk_Receipt
begin

text \<open>
  The offline verifier of a captured worker attestation, \<open>main\<close> of \<open>tools/verify_native_aci.py\<close>: the
  capture and its TLS peer, the Sign1 envelope, the SNP report under the policy, the certificates of the
  processor, the endorsement of the UVM and the tampered variants.
\<close>

unbundle bit_operations_syntax

section \<open>The capture\<close>

definition capture_b64 :: "json \<Rightarrow> bytes res" where
  "capture_b64 v =
     (case v of
        JStr t \<Rightarrow> if \<not> isascii t then Inl (ValueError ''string argument should contain only ASCII characters'') else a2b_lenient (map b64_alt (pad_b64 t)) 0 0 0
      | JList _ \<Rightarrow> Inl (TypeError ''can only concatenate list'')
      | JDict _ \<Rightarrow> Inl (TypeError ''unsupported operand type'')
      | _ \<Rightarrow> Inl (TypeError ''object has no len()''))"

definition b64_equals :: "json res \<Rightarrow> bytes \<Rightarrow> unit res" where
  "b64_equals v raw = bindr (bindr v capture_b64) (\<lambda>data. assert_that (data = raw))"

definition check_capture :: "json \<Rightarrow> bytes \<Rightarrow> bytes \<Rightarrow> bytes \<Rightarrow> unit res" where
  "check_capture capture evidence public_der peer_der =
     bindr (b64_equals (jindex capture ''evidence_payload'') evidence) (\<lambda>_.
     bindr (b64_equals (jindex capture ''signer_spki_der'') public_der) (\<lambda>_.
     bindr (b64_equals (bindr (jindex capture ''action'') (\<lambda>a. jindex a ''signer_spki_der'')) public_der) (\<lambda>_.
     bindr (jindex capture ''evidence_digest'') (\<lambda>d.
     bindr (if d \<noteq> JStr (sha256_hex evidence) then Inr False
         else bindr (bindr (bindr (jindex capture ''action'') (\<lambda>a. jindex a ''parameters'')) (\<lambda>p. jindex p ''evidence_digest'')) (\<lambda>e. Inr (e = d))) (\<lambda>same.
     bindr (assert_that same) (\<lambda>_.
     bindr (jindex capture ''spki_sha256'') (\<lambda>k.
     bindr (assert_that (k = JStr (sha256_hex public_der))) (\<lambda>_.
       b64_equals (jindex capture ''tls_certificate_der'') peer_der))))))))"

definition check_capture_peer :: "crypto \<Rightarrow> json \<Rightarrow> bytes \<Rightarrow> bytes \<Rightarrow> int \<Rightarrow> unit res" where
  "check_capture_peer lib capture peer_der public_der time =
     bindr (load_der_cert lib peer_der) (\<lambda>peer.
     bindr (assert_that (x_der peer = peer_der \<and> key_der (x_key peer) = public_der)) (\<lambda>_.
     bindr (directly_issued lib peer peer) (\<lambda>_.
     bindr (assert_that (x_not_before peer \<le> time \<and> time < x_not_after peer)) (\<lambda>_.
     bindr (extension (x_dns_names peer)) (\<lambda>names.
     bindr (jindex capture ''tls_server_name'') (\<lambda>name.
       require (name \<in> set (map JStr names)) ''not in list''))))))"

section \<open>The envelope and the report\<close>

definition cval_hashable :: "cval \<Rightarrow> bool" where
  "cval_hashable v = (case v of VList _ \<Rightarrow> False | VMap _ \<Rightarrow> False | _ \<Rightarrow> True)"

definition open_evidence :: "native \<Rightarrow> bytes \<Rightarrow> pubkey \<Rightarrow> cval res" where
  "open_evidence env evidence key =
     bindr (verify_sign1 env evidence key) (\<lambda>(header, raw_payload).
     bindr (assert_that (case header of VMap [(k, v)] \<Rightarrow> cval_is_int k 1 \<and> cval_is_int v (- 7) | _ \<Rightarrow> False)) (\<lambda>_.
     bindr (cb_loads env raw_payload) (\<lambda>inner.
     bindr (cval_items inner) (\<lambda>names.
       if \<not> list_all cval_hashable names then Inl (TypeError ''unhashable type'')
       else bindr (assert_that (set names = {VText ''att'', VText ''eds'', VText ''uvm''})) (\<lambda>_. Inr inner)))))"

text \<open>The slices of a text or a list never equal bytes, and a map cannot be sliced.\<close>

definition report_bytes :: "cval \<Rightarrow> bytes res" where
  "report_bytes v =
     (case v of
        VBytes report \<Rightarrow> bindr (assert_that (length report = 1184)) (\<lambda>_. Inr report)
      | VMap m \<Rightarrow> bindr (assert_that (length m = 1184)) (\<lambda>_. Inl (TypeError ''unhashable type: slice''))
      | VText _ \<Rightarrow> Inl (AssertionError [])
      | VList _ \<Rightarrow> Inl (AssertionError [])
      | _ \<Rightarrow> Inl (TypeError ''object has no len()''))"

definition check_report :: "bytes \<Rightarrow> bytes \<Rightarrow> json \<Rightarrow> unit res" where
  "check_report report public_der policy =
     bindr (assert_that (slice 80 112 report = sha256 public_der)) (\<lambda>_.
     bindr (assert_that (slice 112 144 report = replicate 32 0)) (\<lambda>_.
     bindr (assert_that (le_nat (slice 48 52 report) = 0)) (\<lambda>_.
     bindr (assert_that (le_nat (slice 52 56 report) = 1)) (\<lambda>_.
     bindr (assert_that (guest_policy_ok report)) (\<lambda>_.
     bindr (assert_that (int (le_nat (slice 72 76 report)) AND (NOT 1) = 0)) (\<lambda>_.
     bindr (bindr (jindex policy ''approved_measurements'') (jcontains (bytes_hex (slice 144 192 report)))) (\<lambda>measured.
     bindr (assert_that measured) (\<lambda>_.
     bindr (bindr (jindex policy ''approved_host_data'') (jcontains (bytes_hex (slice 192 224 report)))) assert_that))))))))"

section \<open>The processor\<close>

definition thim_certificates :: "nat \<Rightarrow> cval \<Rightarrow> bytes res" where
  "thim_certificates depth eds =
     bindr (case eds of
         VText t \<Rightarrow> b64decode t
       | VBytes b \<Rightarrow> b64decode (bytes_str b)
       | _ \<Rightarrow> Inl (TypeError ''argument should be a bytes-like object or ASCII string'')) (\<lambda>raw.
     bindr (json_loads depth plain_hooks raw) (\<lambda>thim.
     bindr (jindex thim ''vcekCert'') (\<lambda>leaf.
     bindr (jindex thim ''certificateChain'') (\<lambda>rest.
       case (leaf, rest) of
         (JStr a, JStr b) \<Rightarrow> utf8_encode (a @ b)
       | (JList _, JList _) \<Rightarrow> Inl (AttributeError ''encode'')
       | _ \<Rightarrow> if jnumber leaf \<noteq> None \<and> jnumber rest \<noteq> None then Inl (AttributeError ''encode'') else Inl (TypeError ''unsupported operand type'')))))"

definition capture_amd_chain :: "native \<Rightarrow> bytes \<Rightarrow> bytes res \<Rightarrow> amd_cert list res" where
  "capture_amd_chain env raw_amd ark =
     bindr (map_res (amd_certificate env) (fst (pem_scan raw_amd))) (\<lambda>chain.
     bindr (assert_that (length chain = 3)) (\<lambda>_.
     bindr (bindr ark (load_pem_key (nat_crypto env))) (\<lambda>pinned.
     bindr (assert_that (key_der (am_key (last chain)) = key_der pinned)) (\<lambda>_. Inr chain))))"

definition report_signature :: "crypto \<Rightarrow> bytes \<Rightarrow> bytes" where
  "report_signature lib report = encode_dss lib (le_nat (slice 672 720 report)) (le_nat (slice 744 792 report))"

definition verify_report :: "crypto \<Rightarrow> bytes \<Rightarrow> pubkey \<Rightarrow> unit res" where
  "verify_report lib report key =
     (if \<not> is_ec key then Inl (AttributeError ''curve'')
      else
        bindr (assert_that (on_curve [P384] key)) (\<lambda>_.
          key_verify lib key (Ecdsa ''sha384'') (report_signature lib report) (take 672 report)))"

definition capture_spl :: "bytes dict \<Rightarrow> nat \<Rightarrow> nat res" where
  "capture_spl extensions suffix =
     bindr (dict_index extensions (''1.3.6.1.4.1.3704.1.3.'' @ nat_str suffix)) (\<lambda>raw.
     bindr (case raw of
         [] \<Rightarrow> Inl (IndexError ''index out of range'')
       | [t] \<Rightarrow> if t = 2 then Inl (IndexError ''index out of range'') else Inr False
       | t # n # v \<Rightarrow> Inr (t = 2 \<and> unat n = length v)) (\<lambda>ok.
     bindr (assert_that ok) (\<lambda>_. Inr (be_nat (drop 2 raw)))))"

fun capture_spls_zero :: "bytes dict \<Rightarrow> nat list \<Rightarrow> bool res" where
  "capture_spls_zero extensions [] = Inr True"
| "capture_spls_zero extensions (i # is) = bindr (capture_spl extensions i) (\<lambda>v. if v = 0 then capture_spls_zero extensions is else Inr False)"

definition check_capture_vcek :: "bytes dict \<Rightarrow> bytes \<Rightarrow> unit res" where
  "check_capture_vcek extensions report =
     bindr (map_res (capture_spl extensions) [1, 2, 3, 8]) (\<lambda>levels.
     bindr (assert_that (read_tcb report 384 = levels)) (\<lambda>_.
     bindr (bindr (capture_spls_zero extensions [4, 5, 6, 7]) assert_that) (\<lambda>_.
     bindr (dict_index extensions ''1.3.6.1.4.1.3704.1.4'') (\<lambda>chip.
     bindr (assert_that (chip = slice 416 480 report)) (\<lambda>_.
       bindr (bindr (dict_index extensions ''1.3.6.1.4.1.3704.1.2'') product_ok) assert_that)))))"

definition check_capture_tcb :: "json \<Rightarrow> bytes \<Rightarrow> unit res" where
  "check_capture_tcb policy report =
     bindr (bindr (jindex policy ''minimum_tcb'') (\<lambda>m. jindex m ''Genoa'')) (\<lambda>minimum.
     bindr (for_each (\<lambda>offset.
       bindr (assert_that (slice (offset + 2) (offset + 6) report = replicate 4 0)) (\<lambda>_.
         bindr (tcb_meets minimum (zip tcb_names (read_tcb report offset))) assert_that)) [56, 384, 480, 496]) (\<lambda>_.
       assert_that (report ! 392 = 0x19 \<and> 0x10 \<le> report ! 393 \<and> report ! 393 \<le> 0x1f)))"

section \<open>The endorsement\<close>

text \<open>\<open>next(...)\<close> of a generator over the policy raises \<open>StopIteration\<close> at its end, here a \<open>RuntimeError\<close>,
  which nothing catches either.\<close>

fun first_identity :: "cval \<Rightarrow> json list \<Rightarrow> json res" where
  "first_identity header [] = Inl (RuntimeError ''StopIteration'')"
| "first_identity header (v # vs) =
     bindr (jindex v ''did'') (\<lambda>d.
     bindr (cval_index header (VText ''iss'')) (\<lambda>iss.
     bindr (if \<not> cval_eq_json iss d then Inr False
         else bindr (jindex v ''feed'') (\<lambda>f. bindr (cval_index header (VText ''feed'')) (\<lambda>feed. Inr (cval_eq_json feed f)))) (\<lambda>ok.
       if ok then Inr v else first_identity header vs)))"

definition check_publisher :: "native \<Rightarrow> json \<Rightarrow> x509 \<Rightarrow> x509 \<Rightarrow> unit res" where
  "check_publisher env did leaf top_cert =
     (case did of
        JStr t \<Rightarrow>
          (case split_sub ''::eku:'' (if startswith t did_prefix then drop (length did_prefix) t else t) [] of
             [fingerprint, eku] \<Rightarrow>
               bindr (assert_that (rstrip_eq (urlsafe_b64encode (sha256 (x_der top_cert))) = fingerprint)) (\<lambda>_.
               bindr (oid_valid env eku) (\<lambda>_.
               bindr (extension (x_ekus leaf)) (\<lambda>ekus.
               bindr (assert_that (eku \<in> set ekus)) (\<lambda>_.
               bindr (bindr (extension (x_digital_signature leaf)) assert_that) (\<lambda>_.
                 bindr (extension (x_ca leaf)) (\<lambda>ca. assert_that (\<not> ca)))))))
           | _ \<Rightarrow> Inl (ValueError ''values to unpack''))
      | _ \<Rightarrow> Inl (AttributeError ''removeprefix''))"

text \<open>\<open>int(v)\<close> of a parsed value.\<close>

definition json_int :: "json \<Rightarrow> int res" where
  "json_int v =
     (case v of
        JInt i \<Rightarrow> Inr i
      | JBool b \<Rightarrow> Inr (if b then 1 else 0)
      | JStr t \<Rightarrow> py_int t
      | JFloat t \<Rightarrow>
          (case float_value t of
             Fin q \<Rightarrow> Inr (if q < 0 then ceiling q else floor q)
           | NotNumber \<Rightarrow> Inl (ValueError ''cannot convert float NaN to integer'')
           | _ \<Rightarrow> Inl OverflowError)
      | _ \<Rightarrow> Inl (TypeError ''int() argument''))"

record uvm_seen =
  us_chain :: "x509 list"
  us_svn :: int
  us_time :: int

definition check_capture_uvm :: "nat \<Rightarrow> native \<Rightarrow> json \<Rightarrow> bytes \<Rightarrow> bytes \<Rightarrow> int \<Rightarrow> uvm_seen res" where
  "check_capture_uvm depth env policy uvm_raw report time =
     bindr (cb_loads env uvm_raw) (\<lambda>uvm.
     bindr (case uvm of VTag _ v \<Rightarrow> Inr v | _ \<Rightarrow> Inl (AttributeError ''value'')) (\<lambda>body.
     bindr (cval_index body (VInt 0)) (\<lambda>protected.
     bindr (case protected of VBytes p \<Rightarrow> cb_loads env p | _ \<Rightarrow> Inl (TypeError ''bytes-like object'')) (\<lambda>header.
     bindr (bindr (cval_index header (VInt 33)) cval_items) (\<lambda>raws.
     bindr (map_res (\<lambda>v. case v of VBytes raw \<Rightarrow> load_der_cert (nat_crypto env) raw | _ \<Rightarrow> Inl (TypeError ''bytes-like object'')) raws) (\<lambda>chain.
     bindr (if chain = [] then Inl (IndexError ''list index out of range'') else verify_sign1 env uvm_raw (x_key (hd chain))) (\<lambda>_.
     bindr (bindr (jindex policy ''uvm'') jiter) (\<lambda>entries.
     bindr (first_identity header entries) (\<lambda>identity.
     bindr (bindr (jindex identity ''did'') (\<lambda>did. check_publisher env did (hd chain) (last chain))) (\<lambda>_.
     bindr (cval_index body (VInt 2)) (\<lambda>payload.
     bindr (case payload of VBytes p \<Rightarrow> json_loads depth plain_hooks p | _ \<Rightarrow> Inl (TypeError ''the JSON object must be str, bytes or bytearray'')) (\<lambda>descriptor.
     bindr (jindex descriptor ''x-ms-sevsnpvm-launchmeasurement'') (\<lambda>m.
     bindr (case jstr m of Some t \<Rightarrow> fromhex t | None \<Rightarrow> Inl (TypeError ''fromhex() argument must be str'')) (\<lambda>endorsed.
     bindr (assert_that (endorsed = slice 144 192 report)) (\<lambda>_.
     bindr (bindr (jindex descriptor ''x-ms-sevsnpvm-guestsvn'') json_int) (\<lambda>svn.
     bindr (bindr (jindex identity ''minimum_svn'') (\<lambda>least. json_le least (JInt svn))) (\<lambda>enough.
     bindr (assert_that enough) (\<lambda>_.
       let historical = Max (set (map x_not_before chain)) in
       bindr (assert_that (historical \<le> time)) (\<lambda>_.
         Inr \<lparr>us_chain = chain, us_svn = svn, us_time = historical\<rparr>)))))))))))))))))))"

section \<open>The tampered variants\<close>

definition tampered_offsets :: "(string \<times> nat) list" where
  "tampered_offsets = [(''report-tamper'', 144), (''padding-tamper'', 112)]"

definition tamper :: "native \<Rightarrow> bytes \<Rightarrow> nat \<Rightarrow> (bytes \<times> bytes) res" where
  "tamper env evidence offset =
     bindr (cb_loads env evidence) (\<lambda>tagged.
     bindr (case tagged of VTag _ v \<Rightarrow> cval_items v | _ \<Rightarrow> Inl (AttributeError ''value'')) (\<lambda>items.
     bindr (if 2 < length items then Inr (items ! 2) else Inl (IndexError ''list index out of range'')) (\<lambda>payload.
     bindr (case payload of VBytes p \<Rightarrow> cb_loads env p | _ \<Rightarrow> Inl (TypeError ''bytes-like object'')) (\<lambda>inner.
       case inner of
         VMap m \<Rightarrow>
           (case map_of m (VText ''att'') of
              Some (VBytes att) \<Rightarrow>
                if length att \<le> offset then Inl (IndexError ''bytearray index out of range'')
                else
                  let altered = flip_byte att offset in
                  Inr (altered, cb_dumps env (VTag 18 (VList (items[2 := VBytes (cb_dumps env (VMap (AList.update (VText ''att'') (VBytes altered) m)))]))))
            | Some _ \<Rightarrow> Inl (TypeError ''bytearray'')
            | None \<Rightarrow> Inl (KeyError ''att''))
       | _ \<Rightarrow> Inl (TypeError ''indices must be integers'')))))"

text \<open>\<open>try: operation() except InvalidSignature: pass else: raise AssertionError(message)\<close>.\<close>

definition must_fail :: "string \<Rightarrow> 'a res \<Rightarrow> unit res" where
  "must_fail msg operation =
     (case operation of Inl InvalidSignature \<Rightarrow> Inr () | Inl e \<Rightarrow> Inl e | Inr _ \<Rightarrow> Inl (AssertionError msg))"

definition tamper_variant :: "native \<Rightarrow> bytes \<Rightarrow> pubkey \<Rightarrow> pubkey \<Rightarrow> bytes \<Rightarrow> string \<times> nat \<Rightarrow> ('z tool_scheme, unit) act" where
  "tamper_variant env evidence key vcek signature variant =
     bind_act (lift_res (tamper env evidence (snd variant))) (\<lambda>(altered, changed).
     bind_act (write_file (''variants/'' @ fst variant @ ''.cose'') changed) (\<lambda>_.
     bind_act (lift_res (must_fail ''tampered outer envelope authenticated'' (verify_sign1 env changed key))) (\<lambda>_.
       lift_res (must_fail ''tampered native report authenticated''
         (key_verify (nat_crypto env) vcek (Ecdsa ''sha384'') signature (take 672 altered))))))"

fun tamper_variants :: "native \<Rightarrow> bytes \<Rightarrow> pubkey \<Rightarrow> pubkey \<Rightarrow> bytes \<Rightarrow> (string \<times> nat) list \<Rightarrow> ('z tool_scheme, unit) act" where
  "tamper_variants env evidence key vcek signature [] = ret_act ()"
| "tamper_variants env evidence key vcek signature (v # vs) =
     bind_act (tamper_variant env evidence key vcek signature v) (\<lambda>_. tamper_variants env evidence key vcek signature vs)"

section \<open>The command\<close>

record capture_input =
  ca_policy :: "bytes res"
  ca_capture :: "bytes res"
  ca_evidence :: "bytes res"
  ca_spki :: "bytes res"
  ca_peer :: "bytes res"
  ca_ark :: "bytes res"

record capture_checked =
  cc_policy :: json
  cc_evidence :: bytes
  cc_public_der :: bytes
  cc_key :: pubkey
  cc_report :: bytes
  cc_uvm :: bytes
  cc_vcek :: pubkey
  cc_seen :: uvm_seen

definition check_evidence :: "nat \<Rightarrow> native \<Rightarrow> capture_input \<Rightarrow> int \<Rightarrow> capture_checked res" where
  "check_evidence depth env inp time =
     bindr (bindr (ca_policy inp) (json_loads depth plain_hooks)) (\<lambda>policy.
     bindr (bindr (within_validity policy time) assert_that) (\<lambda>_.
     bindr (jindex policy ''uvm_endorsement_time_policy'') (\<lambda>mode.
     bindr (assert_that (mode = JStr ''approved_release'')) (\<lambda>_.
     bindr (ca_capture inp) (\<lambda>capture_raw.
     bindr (ca_evidence inp) (\<lambda>evidence.
     bindr (ca_spki inp) (\<lambda>public_der.
     bindr (ca_peer inp) (\<lambda>peer_der.
     bindr (json_loads depth plain_hooks capture_raw) (\<lambda>capture.
     bindr (check_capture capture evidence public_der peer_der) (\<lambda>_.
     bindr (check_capture_peer (nat_crypto env) capture peer_der public_der time) (\<lambda>_.
     bindr (load_der_key (nat_crypto env) public_der) (\<lambda>key.
     bindr (open_evidence env evidence key) (\<lambda>inner.
     bindr (bindr (cval_index inner (VText ''att'')) report_bytes) (\<lambda>report.
     bindr (check_report report public_der policy) (\<lambda>_.
     bindr (bindr (cval_index inner (VText ''eds'')) (thim_certificates depth)) (\<lambda>raw_amd.
     bindr (capture_amd_chain env raw_amd (ca_ark inp)) (\<lambda>amd_chain.
     let vcek = am_key (hd amd_chain) in
     bindr (verify_report (nat_crypto env) report vcek) (\<lambda>_.
     bindr (check_capture_vcek (am_extensions (hd amd_chain)) report) (\<lambda>_.
     bindr (check_capture_tcb policy report) (\<lambda>_.
     bindr (cval_index inner (VText ''uvm'')) (\<lambda>v.
     bindr (case v of VBytes b \<Rightarrow> Inr b | _ \<Rightarrow> Inl (TypeError ''bytes-like object'')) (\<lambda>uvm.
     bindr (check_capture_uvm depth env policy uvm report time) (\<lambda>seen.
     bindr (check_amd_chain env amd_chain time) (\<lambda>_.
     bindr (check_chain env (us_chain seen) (us_time seen)) (\<lambda>_.
     bindr (assert_that (x_not_after (hd (us_chain seen)) \<le> time)) (\<lambda>_.
       Inr \<lparr>cc_policy = policy, cc_evidence = evidence, cc_public_der = public_der, cc_key = key, cc_report = report,
         cc_uvm = uvm, cc_vcek = vcek, cc_seen = seen\<rparr>))))))))))))))))))))))))))"

definition capture_result :: "int \<Rightarrow> capture_checked \<Rightarrow> json" where
  "capture_result time cc =
     JDict
       ([(''verification_time'', JInt time)]
        @ map (\<lambda>n. (n, JBool True))
            [''outer_es256_verified'', ''tls_peer_certificate_self_signature_verified'', ''tls_peer_spki_matches_attested_spki'',
             ''report_data_exact_sha256_spki_and_zero_padding'', ''amd_pinned_ark_chain_currently_valid'',
             ''native_snp_p384_sha384_signature_verified'', ''vcek_chip_id_and_reported_tcb_match'', ''all_four_tcb_states_meet_policy'']
        @ [(''product'', JStr ''Genoa''),
           (''reported_tcb'', JDict (zip tcb_names (map (\<lambda>n. JInt (int n)) (read_tcb (cc_report cc) 384)))),
           (''uvm_ps384_signature_verified'', JBool True), (''uvm_pinned_did_eku_and_feed_match'', JBool True),
           (''uvm_chain_verified_at_common_past_validity'', JInt (us_time (cc_seen cc))), (''uvm_svn'', JInt (us_svn (cc_seen cc))),
           (''uvm_publisher_certificate_expires_at'', JInt (x_not_after (hd (us_chain (cc_seen cc))))),
           (''uvm_release_time_policy'', JStr ''approved_release''),
           (''exact_governed_measurement'', JStr (bytes_hex (slice 144 192 (cc_report cc)))),
           (''exact_governed_host_data'', JStr (bytes_hex (slice 192 224 (cc_report cc)))),
           (''evidence_sha256'', JStr (sha256_hex (cc_evidence cc))), (''spki_sha256'', JStr (sha256_hex (cc_public_der cc))),
           (''policy_source'', JStr ''explicit supplied governed policy; no observed-field auto-approval''),
           (''amd_certificate_parser_note'', JStr ''Native AMD explicit RSA-PSS default trailerField is rejected by cryptography41; AMD chain verified with OpenSSL CLI and VCEK P384 report signature with cryptography''),
           (''tamper_tests'', JStr ''modified captured bytes; unchanged original outer and AMD signatures both rejected; no freshly signed malformed hardware report'')])"

definition native_main :: "nat \<Rightarrow> native \<Rightarrow> capture_input \<Rightarrow> int \<Rightarrow> ('z tool_scheme, json) act" where
  "native_main depth env inp time =
     bind_act (lift_res (check_evidence depth env inp time)) (\<lambda>cc.
     bind_act (tamper_variants env (cc_evidence cc) (cc_key cc) (cc_vcek cc) (report_signature (nat_crypto env) (cc_report cc)) tampered_offsets) (\<lambda>_.
     bind_act (write_file ''variants/wrong-spki.der'' (spki_of_one env)) (\<lambda>_.
     bind_act (write_file ''report.bin'' (cc_report cc)) (\<lambda>_.
     bind_act (write_file ''uvm.cose'' (cc_uvm cc)) (\<lambda>_.
     let result = capture_result time cc in
     bind_act (write_file ''independent-crypto.json'' (json_file result)) (\<lambda>_. ret_act result))))))"

end
