(* ===== verification/Native_Laws.thy ===== *)
theory Native_Laws
  imports Native_Capture
begin

text \<open>
  What the offline verifiers of native evidence guarantee: the DER walk reads back what an encoder wrote,
  the verifier of node quotes is at least as strict on a report as the verifier of captures, its negative
  variants of the policy reject a report exactly outside three extreme cases, and an accepted endorsement of the UVM
  is signed, current under its policy and not below the approved version.
\<close>

unbundle bit_operations_syntax

section \<open>DER\<close>

text \<open>An encoder for reference: the short form of the length up to 127, four bytes above.\<close>

definition tlv :: "byte \<times> bytes \<Rightarrow> bytes" where
  "tlv item =
     (case item of (tag, content) \<Rightarrow>
        tag # (if length content < 128 then [word_of_nat (length content)] else 0x84 # nat_be 4 (length content)) @ content)"

lemma der_length_short: "n < 128 \<Longrightarrow> der_length (word_of_nat n) rest = Inr (n, rest)"
proof -
  assume n: "n < 128"
  then have u: "unat (word_of_nat n :: byte) = n" by (simp add: unat_of_nat)
  have "\<not> bit (word_of_nat n :: byte) 7"
    using n u bit_unsigned_iff [of "word_of_nat n :: byte" 7, where ?'a = nat] by (simp add: bit_iff_odd)
  then show ?thesis by (simp add: der_length_def u)
qed

lemma der_length_long: "n < 256 ^ 4 \<Longrightarrow> der_length 0x84 (nat_be 4 n @ rest) = Inr (n, rest)"
proof -
  assume n: "n < 256 ^ 4"
  have "bit (0x84 :: byte) 7" "unat ((0x84 :: byte) AND 127) = 4" by simp_all
  then show ?thesis by (simp add: der_length_def be_nat_nat_be [OF n])
qed

lemma der_items_tlv:
  assumes "length content < 256 ^ 4"
  shows "der_items (tlv (tag, content) @ rest) = (let (items, e) = der_items rest in ((tag, content) # items, e))"
proof (cases "length content < 128")
  case True
  then show ?thesis by (subst der_items.simps) (simp add: tlv_def der_length_short)
next
  case False
  then show ?thesis
    using der_length_long [OF assms, of "content @ rest"] by (subst der_items.simps) (simp add: tlv_def)
qed



section \<open>Reports\<close>

lemma slice_split:
  assumes "i \<le> j" "j \<le> k"
  shows "slice i k xs = slice i j xs @ slice j k xs"
proof -
  have "k - i = (j - i) + (k - j)" "j - i + i = j" using assms by simp_all
  then show ?thesis unfolding slice_def by (simp only: take_add drop_drop)
qed

lemma slice_append_eq:
  assumes "slice i k xs = as @ bs" "i \<le> j" "j \<le> k" "length as = j - i" "k \<le> length xs"
  shows "slice i j xs = as" "slice j k xs = bs"
proof -
  have "slice i j xs @ slice j k xs = as @ bs" using slice_split [OF assms(2,3), of xs] assms(1) by simp
  moreover have "length (slice i j xs) = length as" using assms by (simp add: slice_def)
  ultimately show "slice i j xs = as" "slice j k xs = bs" by simp_all
qed

lemma layout_Inr:
  assumes "layout report = Inr rf"
  shows "length report = 1184"
    and "le_nat (slice 48 52 report) = 0" "le_nat (slice 52 56 report) = 1"
    and "guest_policy_ok report" "int (le_nat (slice 72 76 report)) AND (NOT 1) = 0"
    and "report ! 392 = 0x19 \<and> 0x10 \<le> report ! 393 \<and> report ! 393 \<le> 0x1f"
    and "rf_states rf = map (\<lambda>(name, offset). (name, read_tcb report offset)) tcb_offsets"
    and "\<forall>offset \<in> {56, 384, 480, 496}. slice (offset + 2) (offset + 6) report = replicate 4 0"
  using assms unfolding layout_def Let_def tcb_offsets_def by (auto simp del: replicate.simps)

lemma policy_and_binding_Inr:
  assumes "policy_and_binding report der policy time rf = Inr ()"
  shows "slice 80 144 report = sha256 der @ replicate 32 0"
    and "bindr (jindex policy ''approved_measurements'') (jcontains (bytes_hex (slice 144 192 report))) = Inr True"
    and "bindr (jindex policy ''approved_host_data'') (jcontains (bytes_hex (slice 192 224 report))) = Inr True"
    and "\<exists>minimum. bindr (jindex policy ''minimum_tcb'') (\<lambda>m. jindex m ''Genoa'') = Inr minimum
      \<and> (\<forall>(name, state) \<in> set (rf_states rf). tcb_meets minimum (zip tcb_names state) = Inr True)"
  using assms unfolding policy_and_binding_def by (fastforce simp del: replicate.simps)+

text \<open>The security patch levels: the verifier of quotes also bounds the length of the integer.\<close>

lemma spl_value_capture: "spl_value extensions i = Inr v \<Longrightarrow> capture_spl extensions i = Inr v"
proof -
  assume *: "spl_value extensions i = Inr v"
  define name where "name = ''1.3.6.1.4.1.3704.1.3.'' @ nat_str i"
  obtain raw where raw: "dict_index extensions name = Inr raw"
    using * unfolding spl_value_def name_def by fastforce
  obtain t n body where "raw = t # n # body"
    using * unfolding spl_value_def name_def [symmetric] raw by (cases raw; cases "tl raw") (auto split: if_splits)
  then show ?thesis
    using * unfolding spl_value_def capture_spl_def name_def [symmetric] raw by simp
qed

lemma reserved_spls_capture: "reserved_spls extensions is = Inr b \<Longrightarrow> capture_spls_zero extensions is = Inr b"
proof (induction "is")
  case (Cons i "is")
  then obtain v where v: "spl_value extensions i = Inr v" by auto
  then show ?case using Cons spl_value_capture [OF v] by (cases "v = 0") simp_all
qed simp

lemma map_res_mono: "map_res f xs = Inr ys \<Longrightarrow> (\<And>x y. f x = Inr y \<Longrightarrow> g x = Inr y) \<Longrightarrow> map_res g xs = Inr ys"
  unfolding map_res_Inr by (auto elim: list_all2_mono)

lemma check_vcek_capture:
  assumes "check_vcek extensions report (Some (read_tcb report 384)) = Inr ()"
  shows "check_capture_vcek extensions report = Inr ()"
proof -
  from assms obtain levels zero chip product genoa where c:
    "map_res (spl_value extensions) [1, 2, 3, 8] = Inr levels" "Some (read_tcb report 384) = Some levels"
    "reserved_spls extensions [4, 5, 6, 7] = Inr zero" zero
    "dict_index extensions ''1.3.6.1.4.1.3704.1.4'' = Inr chip" "chip = slice 416 480 report"
    "dict_index extensions ''1.3.6.1.4.1.3704.1.2'' = Inr product" "product_ok product = Inr genoa" genoa
    unfolding check_vcek_def bindr_eq_Inr require_Inr by blast
  have "map_res (capture_spl extensions) [1, 2, 3, 8] = Inr levels"
    by (rule map_res_mono [OF c(1)]) (rule spl_value_capture)
  with reserved_spls_capture [OF c(3)] c show ?thesis
    unfolding check_capture_vcek_def by (auto simp del: map_res.simps reserved_spls.simps capture_spls_zero.simps One_nat_def)
qed

lemma check_report_of_quote:
  assumes "layout report = Inr rf" "policy_and_binding report der policy time rf = Inr ()"
  shows "check_report report der policy = Inr ()"
proof -
  have "slice 80 112 report = sha256 der" "slice 112 144 report = replicate 32 0"
    using slice_append_eq [OF policy_and_binding_Inr(1) [OF assms(2)], of 112] layout_Inr(1) [OF assms(1)] by simp_all
  then show ?thesis
    unfolding check_report_def
    using layout_Inr(2-5) [OF assms(1)] policy_and_binding_Inr(2,3) [OF assms(2)] by (simp add: assert_that_def del: bindr_eq_Inr)
qed

lemma check_tcb_of_quote:
  assumes "layout report = Inr rf" "policy_and_binding report der policy time rf = Inr ()"
  shows "check_capture_tcb policy report = Inr ()"
proof -
  obtain minimum where m: "bindr (jindex policy ''minimum_tcb'') (\<lambda>m. jindex m ''Genoa'') = Inr minimum"
    "\<forall>(name, state) \<in> set (rf_states rf). tcb_meets minimum (zip tcb_names state) = Inr True"
    using policy_and_binding_Inr(4) [OF assms(2)] by blast
  have "\<forall>offset \<in> {56, 384, 480, 496}. tcb_meets minimum (zip tcb_names (read_tcb report offset)) = Inr True"
    using m(2) unfolding layout_Inr(7) [OF assms(1)] tcb_offsets_def by simp
  then show ?thesis
    unfolding check_capture_tcb_def m(1) using layout_Inr(6,8) [OF assms(1)] by (simp del: replicate.simps)
qed

lemma hardware_signature_iff: "hardware_signature lib report key = Inr () \<longleftrightarrow> verify_report lib report key = Inr ()"
  by (cases key) (auto simp: hardware_signature_def verify_report_def report_signature_def)


text \<open>A report that binds a key, and a policy that approves it.\<close>

definition sample_base :: bytes where
  "sample_base = [3, 0, 0, 0] @ replicate 6 0 @ [2] @ replicate 41 0 @ [1] @ replicate 97 0 @ [7] @ replicate 49 0 @ [9] @ replicate 191 0 @ [0x19, 0x10] @ replicate 790 0"

definition sample_report :: "bytes \<Rightarrow> bytes" where
  "sample_report der = take 80 sample_base @ (sha256 der @ replicate 32 0) @ drop 144 sample_base"

definition sample_policy :: json where
  "sample_policy =
     JDict [(''active_profiles'', JList [JStr ''azure-aci-snp'']), (''valid_from'', JInt 0), (''valid_until'', JInt 10),
       (''approved_measurements'', JList [JStr (bytes_hex (slice 144 192 sample_base))]),
       (''approved_host_data'', JList [JStr (bytes_hex (slice 192 224 sample_base))]),
       (''minimum_tcb'', JDict [(''Genoa'', JDict (map (\<lambda>n. (n, JInt 0)) tcb_names))])]"

definition sample_levels :: "bytes dict" where
  "sample_levels = map (\<lambda>i. (''1.3.6.1.4.1.3704.1.3.'' @ nat_str i, [2, 1, 0])) [1, 2, 3, 4, 5, 6, 7, 8]
     @ [(''1.3.6.1.4.1.3704.1.4'', replicate 64 0), (''1.3.6.1.4.1.3704.1.2'', [0x16, 5] @ encode_str ''Genoa'')]"

lemma length_sample_base: "length sample_base = 1184"
  by (simp add: sample_base_def)

lemma slice_sample_report:
  "j \<le> 80 \<Longrightarrow> slice i j (sample_report der) = slice i j sample_base"
  "144 \<le> i \<Longrightarrow> slice i j (sample_report der) = slice i j sample_base"
  "slice 80 144 (sample_report der) = sha256 der @ replicate 32 0"
proof -
  assume "j \<le> 80"
  then have "take j (sample_report der) = take j sample_base"
    by (simp add: sample_report_def length_sample_base min_def)
  then show "slice i j (sample_report der) = slice i j sample_base"
    unfolding slice_def by (metis drop_take)
next
  assume "144 \<le> i"
  then show "slice i j (sample_report der) = slice i j sample_base"
    by (simp add: slice_def sample_report_def length_sample_base)
next
  show "slice 80 144 (sample_report der) = sha256 der @ replicate 32 0"
    by (simp add: slice_def sample_report_def length_sample_base)
qed

lemma nth_sample_report: "144 \<le> i \<Longrightarrow> i < 1184 \<Longrightarrow> sample_report der ! i = sample_base ! i"
proof -
  assume "144 \<le> i" "i < 1184"
  moreover from this have "\<not> i - 112 < 32" "\<not> i - 80 < 32" by linarith+
  ultimately show ?thesis by (simp add: sample_report_def nth_append length_sample_base)
qed

lemma nth_sample_report_low: "i < 80 \<Longrightarrow> sample_report der ! i = sample_base ! i"
  by (simp add: sample_report_def nth_append length_sample_base)

lemma take_slice: "take n xs = slice 0 n xs"
  by (simp add: slice_def)

lemma sample_layout_base: "layout (sample_report der) = layout sample_base"
proof -
  have "length (sample_report der) = 1184" by (simp add: sample_report_def length_sample_base)
  then show ?thesis
    unfolding layout_def guest_policy_ok_def read_tcb_def reserved_ranges_def tcb_offsets_def take_slice
    by (simp add: slice_sample_report nth_sample_report nth_sample_report_low length_sample_base Let_def del: replicate.simps)
qed

definition sample_parsed :: report_fields where
  "sample_parsed = \<lparr>rf_version = 3, rf_launch_mitigation = None, rf_current_mitigation = None, rf_reserved_start = 504,
     rf_states = map (\<lambda>(name, _). (name, [0, 0, 0, 0])) tcb_offsets\<rparr>"

lemma sample_base_zero: "sample_base ! i = 0" if "11 \<le> i \<and> i < 52 \<or> 53 \<le> i \<and> i < 150 \<or> 201 \<le> i \<and> i < 392 \<or> 394 \<le> i \<and> i < 1184"
  using that by (auto simp: sample_base_def nth_append)

lemma slice_sample_base:
  "11 \<le> i \<and> j \<le> 52 \<or> 53 \<le> i \<and> j \<le> 150 \<or> 201 \<le> i \<and> j \<le> 392 \<or> 394 \<le> i \<and> j \<le> 1184 \<Longrightarrow> i \<le> j \<Longrightarrow> slice i j sample_base = replicate (j - i) 0"
  by (intro nth_equalityI) (auto simp: slice_def length_sample_base intro!: sample_base_zero)

lemma sample_numbers:
  "le_nat (replicate n 0) = 0" "list_all (\<lambda>x. x = 0) (replicate n (0 :: byte))"
  "le_nat (slice 0 4 sample_base) = 3" "le_nat (slice 8 16 sample_base) = 2 ^ 17" "le_nat (slice 52 56 sample_base) = 1"
  "sample_base ! 392 = 0x19" "sample_base ! 393 = 0x10"
proof -
  show "le_nat (replicate n 0) = 0" "list_all (\<lambda>x. x = 0) (replicate n (0 :: byte))"
    by (induction n) (simp_all add: le_nat_def be_nat_snoc)
  have "slice 0 4 sample_base = [3, 0, 0, 0]" "slice 8 16 sample_base = [0, 0, 2, 0, 0, 0, 0, 0]" "slice 52 56 sample_base = [1, 0, 0, 0]"
    by (simp_all add: sample_base_def slice_def numeral_eq_Suc)
  then show "le_nat (slice 0 4 sample_base) = 3" "le_nat (slice 8 16 sample_base) = 2 ^ 17" "le_nat (slice 52 56 sample_base) = 1"
    by (simp_all add: le_nat_def be_nat_def)
  show "sample_base ! 392 = 0x19" "sample_base ! 393 = 0x10"
    by (simp_all add: sample_base_def nth_append)
qed

lemma sample_guest_policy: "guest_policy_ok sample_base"
  by (simp add: guest_policy_ok_def sample_numbers bit_iff_odd drop_bit_eq_div)

lemma sample_layout: "layout (sample_report der) = Inr sample_parsed"
  unfolding sample_layout_base unfolding layout_def read_tcb_def reserved_ranges_def tcb_offsets_def take_slice sample_parsed_def
  by (simp add: sample_numbers sample_guest_policy slice_sample_base sample_base_zero length_sample_base Let_def require_def
      del: replicate.simps bindr_eq_Inr)

lemma sample_binding: "policy_and_binding (sample_report der) der sample_policy 5 sample_parsed = Inr ()"
proof -
  have "within_validity sample_policy 5 = Inr True" by code_simp
  moreover have "bindr (bindr (jindex sample_policy ''minimum_tcb'') (\<lambda>m. jindex m ''Genoa'')) (\<lambda>minimum.
      for_each (\<lambda>(_, state). bindr (tcb_meets minimum (zip tcb_names state)) (\<lambda>ok. require ok ''TCB below minimum'')) (rf_states sample_parsed)) = Inr ()"
    by code_simp
  moreover have "jindex sample_policy ''active_profiles'' = Inr (JList [JStr ''azure-aci-snp''])"
    "jindex sample_policy ''approved_measurements'' = Inr (JList [JStr (bytes_hex (slice 144 192 sample_base))])"
    "jindex sample_policy ''approved_host_data'' = Inr (JList [JStr (bytes_hex (slice 192 224 sample_base))])"
    by (simp_all add: sample_policy_def jindex_def dict_index_def)
  ultimately show ?thesis
    unfolding policy_and_binding_def by (simp add: slice_sample_report require_def jcontains_def del: replicate.simps bindr_eq_Inr)
qed

lemma sample_vcek: "check_vcek sample_levels (sample_report der) (map_of (rf_states sample_parsed) ''reported'') = Inr ()"
proof -
  have "map_res (spl_value sample_levels) [1, 2, 3, 8] = Inr [0, 0, 0, 0]" "reserved_spls sample_levels [4, 5, 6, 7] = Inr True"
    "dict_index sample_levels ''1.3.6.1.4.1.3704.1.4'' = Inr (replicate 64 0)"
    "bindr (dict_index sample_levels ''1.3.6.1.4.1.3704.1.2'') product_ok = Inr True"
    "map_of (rf_states sample_parsed) ''reported'' = Some [0, 0, 0, 0]"
    by code_simp+
  then show ?thesis
    unfolding check_vcek_def
    by (simp add: slice_sample_report slice_sample_base require_def dict_index_def del: map_res.simps reserved_spls.simps replicate.simps One_nat_def bindr_eq_Inr)
qed


section \<open>The altered policies\<close>

text \<open>What \<open>policy_and_binding\<close> reads of a policy.\<close>

lemma jput_Inr: "jput k v j = Inr w \<longleftrightarrow> (\<exists>d. j = JDict d \<and> w = JDict (AList.update k v d))"
  by (cases j) (auto simp: jput_def)

lemma jindex_update:
  "jindex (JDict (AList.update k v d)) k = Inr v"
  "k \<noteq> k' \<Longrightarrow> jindex (JDict (AList.update k v d)) k' = jindex (JDict d) k'"
  by (simp_all add: jindex_def dict_index_def update_conv')

lemma reject_ValueError: "reject name (Inl (ValueError msg)) = Inr name"
  by (simp add: reject_def)

lemma reject_accepted: "reject name (Inr x) = Inl (ValueError ''negative variant unexpectedly accepted'')"
  by (simp add: reject_def)

lemma within_validity_update:
  "k \<noteq> ''valid_from'' \<Longrightarrow> k \<noteq> ''valid_until'' \<Longrightarrow> within_validity (JDict (AList.update k v d)) time = within_validity (JDict d) time"
  by (simp add: within_validity_def jindex_update cong: if_cong)

lemma within_validity_expired:
  assumes "within_validity (JDict d) time = Inr True"
  shows "within_validity (JDict (AList.update ''valid_until'' (JInt time) d)) time = Inr False"
proof -
  obtain from_v where "jindex (JDict d) ''valid_from'' = Inr from_v" "json_le from_v (JInt time) = Inr True"
    using assms by (auto simp: within_validity_def split: if_splits)
  then show ?thesis by (simp add: within_validity_def jindex_update json_lt_def number_lt_def del: bindr_eq_Inr)
qed

text \<open>The floor of the processor versions, as \<open>policy_and_binding\<close> checks it.\<close>

definition tcb_floor :: "json \<Rightarrow> report_fields \<Rightarrow> unit res" where
  "tcb_floor policy parsed =
     bindr (bindr (jindex policy ''minimum_tcb'') (\<lambda>m. jindex m ''Genoa'')) (\<lambda>minimum.
       for_each (\<lambda>(_, state). bindr (tcb_meets minimum (zip tcb_names state)) (\<lambda>ok. require ok ''TCB below minimum'')) (rf_states parsed))"

lemma policy_and_binding_parts:
  "policy_and_binding report der policy time rf =
     bindr (bindr (jindex policy ''active_profiles'') (jcontains ''azure-aci-snp'')) (\<lambda>active.
     bindr (require active ''inactive profile'') (\<lambda>_.
     bindr (within_validity policy time) (\<lambda>valid.
     bindr (require valid ''expired/not-yet-valid policy'') (\<lambda>_.
     bindr (require (slice 80 144 report = sha256 der @ replicate 32 0) ''fixed REPORT_DATA binding'') (\<lambda>_.
     bindr (bindr (jindex policy ''approved_measurements'') (jcontains (bytes_hex (slice 144 192 report)))) (\<lambda>measured.
     bindr (require measured ''unapproved measurement'') (\<lambda>_.
     bindr (bindr (jindex policy ''approved_host_data'') (jcontains (bytes_hex (slice 192 224 report)))) (\<lambda>hosted.
     bindr (require hosted ''unapproved CCE host data'') (\<lambda>_. tcb_floor policy rf)))))))))"
  by (simp add: policy_and_binding_def tcb_floor_def del: replicate.simps)

lemma tcb_floor_update: "k \<noteq> ''minimum_tcb'' \<Longrightarrow> tcb_floor (JDict (AList.update k v d)) rf = tcb_floor (JDict d) rf"
  by (simp add: tcb_floor_def jindex_update)

lemma json_le_JInt [simp]: "json_le (JInt a) (JInt b) = Inr (a \<le> b)"
  by (simp add: json_le_def)

lemma tcb_meets_raised:
  assumes "tcb_meets (JDict g) (zip tcb_names [a, b, c, m]) = Inr True"
  shows "tcb_meets (JDict (AList.update ''microcode'' (JInt 255) g)) (zip tcb_names [a, b, c, m]) = Inr (255 \<le> m)"
  using assms by (auto simp: tcb_names_def jindex_update split: if_splits simp del: bindr_eq_Inr dest!: bindr_eq_Inr [THEN iffD1])

lemma for_each_require:
  "(\<And>x. x \<in> set xs \<Longrightarrow> f x = bindr (Inr (P x)) (\<lambda>ok. require ok msg)) \<Longrightarrow>
   for_each f xs = (if list_all P xs then Inr () else Inl (ValueError msg))"
  by (induction xs) (simp_all add: require_def)

definition microcode_full :: "bytes \<Rightarrow> bool" where
  "microcode_full report \<longleftrightarrow> list_all (\<lambda>(_, offset). report ! (offset + 7) = 255) tcb_offsets"

lemma byte_full: "255 \<le> unat (b :: byte) \<longleftrightarrow> b = 255"
proof
  assume "255 \<le> unat b"
  moreover have "unat b < 256" by (rule unat_byte_less)
  ultimately have "unat b = 255" by linarith
  then have "unat b = unat (255 :: byte)" by simp
  then show "b = 255" by (simp only: word_unat_eq_iff)
qed simp

lemma tcb_floor_raised:
  assumes rf: "layout report = Inr rf" and "tcb_floor (JDict d) rf = Inr ()"
  shows "\<exists>m'. raise_microcode (JDict d) = Inr (JDict (AList.update ''minimum_tcb'' m' d))
    \<and> tcb_floor (JDict (AList.update ''minimum_tcb'' m' d)) rf = (if microcode_full report then Inr () else Inl (ValueError ''TCB below minimum''))"
proof -
  obtain md minimum where m: "jindex (JDict d) ''minimum_tcb'' = Inr (JDict md)" "jindex (JDict md) ''Genoa'' = Inr minimum"
    and meets: "\<forall>(name, state) \<in> set (rf_states rf). tcb_meets minimum (zip tcb_names state) = Inr True"
    using assms(2) by (fastforce simp: tcb_floor_def jindex_Inr)
  have states: "rf_states rf = map (\<lambda>(name, offset). (name, read_tcb report offset)) tcb_offsets" by (rule layout_Inr(7) [OF rf])
  have "tcb_meets minimum (zip tcb_names (read_tcb report 56)) = Inr True"
    using meets unfolding states tcb_offsets_def by simp
  then obtain g where g: "minimum = JDict g"
    by (auto simp: tcb_names_def read_tcb_def jindex_Inr simp del: bindr_eq_Inr dest!: bindr_eq_Inr [THEN iffD1])
  define m' where "m' = JDict (AList.update ''Genoa'' (JDict (AList.update ''microcode'' (JInt 255) g)) md)"
  have "raise_microcode (JDict d) = Inr (JDict (AList.update ''minimum_tcb'' m' d))"
    using m unfolding g by (simp add: raise_microcode_def jput_def m'_def del: bindr_eq_Inr)
  moreover have "tcb_floor (JDict (AList.update ''minimum_tcb'' m' d)) rf
      = (if list_all (\<lambda>(_, state). 255 \<le> state ! 3) (rf_states rf) then Inr () else Inl (ValueError ''TCB below minimum''))"
    unfolding tcb_floor_def jindex_update m'_def bindr.simps
  proof (rule for_each_require, clarify)
    fix name state assume "(name, state) \<in> set (rf_states rf)"
    then obtain offset where "state = read_tcb report offset" "tcb_meets (JDict g) (zip tcb_names state) = Inr True"
      using meets g states by auto
    then show "bindr (tcb_meets (JDict (AList.update ''microcode'' (JInt 255) g)) (zip tcb_names state)) (\<lambda>ok. require ok ''TCB below minimum'')
        = bindr (Inr (255 \<le> state ! 3)) (\<lambda>ok. require ok ''TCB below minimum'')"
      using tcb_meets_raised [of g] by (simp add: read_tcb_def numeral_3_eq_3)
  qed
  moreover have "list_all (\<lambda>(_, state). 255 \<le> state ! 3) (rf_states rf) \<longleftrightarrow> microcode_full report"
    unfolding states microcode_full_def tcb_offsets_def by (simp add: read_tcb_def byte_full numeral_3_eq_3)
  ultimately show ?thesis by auto
qed

lemma bytes_hex_zeros: "bytes_hex xs = replicate (2 * n) (CHR ''0'') \<longleftrightarrow> xs = replicate n 0"
proof -
  have "hex_digit 0 = CHR ''0''" by code_simp
  then have "bytes_hex (replicate n 0) = replicate (2 * n) (CHR ''0'')" by (induction n) simp_all
  then show ?thesis by (metis bytes_hex_inj)
qed

lemma binding_dict:
  assumes "policy_and_binding report der policy time rf = Inr ()"
  obtains d a p h where "policy = JDict d" "slice 80 144 report = sha256 der @ replicate 32 0" "within_validity (JDict d) time = Inr True"
    "jindex (JDict d) ''active_profiles'' = Inr a" "jcontains ''azure-aci-snp'' a = Inr True"
    "jindex (JDict d) ''approved_measurements'' = Inr p" "jcontains (bytes_hex (slice 144 192 report)) p = Inr True"
    "jindex (JDict d) ''approved_host_data'' = Inr h" "jcontains (bytes_hex (slice 192 224 report)) h = Inr True"
    "tcb_floor (JDict d) rf = Inr ()"
proof -
  from assms have b: "slice 80 144 report = sha256 der @ replicate 32 0" "within_validity policy time = Inr True" "tcb_floor policy rf = Inr ()"
    "\<exists>a. jindex policy ''active_profiles'' = Inr a \<and> jcontains ''azure-aci-snp'' a = Inr True"
    "\<exists>p. jindex policy ''approved_measurements'' = Inr p \<and> jcontains (bytes_hex (slice 144 192 report)) p = Inr True"
    "\<exists>h. jindex policy ''approved_host_data'' = Inr h \<and> jcontains (bytes_hex (slice 192 224 report)) h = Inr True"
    unfolding policy_and_binding_parts by (auto simp del: replicate.simps)
  then obtain a where "jindex policy ''active_profiles'' = Inr a" by blast
  then obtain d where "policy = JDict d" by (auto simp: jindex_Inr)
  then show thesis using b that by blast
qed

text \<open>(C23) The altered policies are rejected exactly when they differ from the report. For a report that the
  policy binds, the five variants are all rejected, and under their names, unless its measurement or its
  host data is all zero or each of its four versions has the largest microcode level; in those cases, and
  in no other, the verifier reports a variant that was accepted.\<close>

theorem policy_negatives_exact:
  assumes "layout report = Inr rf" "policy_and_binding report der policy time rf = Inr ()"
  shows "policy_negatives report der policy time rf =
    (if slice 192 224 report = replicate 32 0 \<or> slice 144 192 report = replicate 48 0 \<or> microcode_full report
     then Inl (ValueError ''negative variant unexpectedly accepted'')
     else Inr [''wrong_cce_rejected'', ''wrong_measurement_rejected'', ''inactive_profile_rejected'', ''expired_policy_rejected'',
       ''tcb_floor_above_actual_rejected''])"
proof -
  obtain d a p h where d: "policy = JDict d" and b: "slice 80 144 report = sha256 der @ replicate 32 0" "within_validity (JDict d) time = Inr True"
    "jindex (JDict d) ''active_profiles'' = Inr a" "jcontains ''azure-aci-snp'' a = Inr True"
    "jindex (JDict d) ''approved_measurements'' = Inr p" "jcontains (bytes_hex (slice 144 192 report)) p = Inr True"
    "jindex (JDict d) ''approved_host_data'' = Inr h" "jcontains (bytes_hex (slice 192 224 report)) h = Inr True"
    "tcb_floor (JDict d) rf = Inr ()"
    by (rule binding_dict [OF assms(2)])
  obtain m' where m: "raise_microcode (JDict d) = Inr (JDict (AList.update ''minimum_tcb'' m' d))"
    "tcb_floor (JDict (AList.update ''minimum_tcb'' m' d)) rf = (if microcode_full report then Inr () else Inl (ValueError ''TCB below minimum''))"
    using tcb_floor_raised [OF assms(1) b(9)] by blast
  note eval = policy_and_binding_parts jindex_update within_validity_update tcb_floor_update require_def jput_def jcontains_def [of _ "JList _"]
    bytes_hex_zeros [of _ 32, simplified] bytes_hex_zeros [of _ 48, simplified] reject_ValueError reject_accepted
  let ?B = "\<lambda>k v. policy_and_binding report der (JDict (AList.update k v d)) time rf"
  have v: "?B ''approved_host_data'' (JList [JStr (replicate 64 (CHR ''0''))]) =
      (if slice 192 224 report = replicate 32 0 then Inr () else Inl (ValueError ''unapproved CCE host data''))"
    "?B ''approved_measurements'' (JList [JStr (replicate 96 (CHR ''0''))]) =
      (if slice 144 192 report = replicate 48 0 then Inr () else Inl (ValueError ''unapproved measurement''))"
    "?B ''active_profiles'' (JList []) = Inl (ValueError ''inactive profile'')"
    "?B ''valid_until'' (JInt time) = Inl (ValueError ''expired/not-yet-valid policy'')"
    "?B ''minimum_tcb'' m' = (if microcode_full report then Inr () else Inl (ValueError ''TCB below minimum''))"
    by (simp_all add: eval b m(2) within_validity_expired [OF b(2)] del: replicate.simps bindr_eq_Inr)
  show ?thesis
    unfolding policy_negatives_def policy_variants_def d
    by (simp add: jput_def v m(1) reject_ValueError reject_accepted del: replicate.simps bindr_eq_Inr)
qed

theorem policy_negatives_exact_witness:
  "policy_negatives (sample_report [1]) [1] sample_policy 5 sample_parsed =
     Inr [''wrong_cce_rejected'', ''wrong_measurement_rejected'', ''inactive_profile_rejected'', ''expired_policy_rejected'',
       ''tcb_floor_above_actual_rejected'']"
proof -
  have "sample_base ! 150 = 7" "sample_base ! 200 = 9" by (simp_all add: sample_base_def nth_append)
  then have "slice 144 192 sample_base ! 6 \<noteq> 0" "slice 192 224 sample_base ! 8 \<noteq> 0" by (simp_all add: slice_def length_sample_base)
  then have "slice 144 192 sample_base \<noteq> replicate 48 0" "slice 192 224 sample_base \<noteq> replicate 32 0"
    by (metis nth_replicate numeral_less_iff semiring_norm(76,77,78,79,80,81))+
  moreover have "\<not> microcode_full (sample_report [1])"
    by (simp add: microcode_full_def tcb_offsets_def nth_sample_report_low sample_base_zero)
  ultimately show ?thesis
    using policy_negatives_exact [OF sample_layout sample_binding, of "[1]"] by (simp add: slice_sample_report del: replicate.simps)
qed

section \<open>The endorsement of the UVM\<close>

lemma split_sub_not_Nil: "split_sub sep s part \<noteq> []"
  by (induction sep s part rule: split_sub.induct) auto

lemma join_split_sub: "join_with sep (split_sub sep s part) = part @ s"
proof (induction sep s part rule: split_sub.induct)
  case (2 sep c cs part)
  show ?case
  proof (cases "sep \<noteq> [] \<and> startswith (c # cs) sep")
    case True
    then obtain r where r: "c # cs = sep @ r" by (auto simp: startswith_iff)
    then have "join_with sep (part # split_sub sep r []) = part @ sep @ r"
      using 2(1) True split_sub_not_Nil [of sep r "[]"] by (cases "split_sub sep r []") (auto simp: startswith_iff)
    moreover have "drop (length sep) (c # cs) = r" unfolding r by simp
    then have "split_sub sep (c # cs) part = part # split_sub sep r []" using True by simp
    ultimately show ?thesis by (simp only: r)
  qed (use 2(2) in auto)
qed simp

lemma split_sub_at:
  assumes "sep \<noteq> []" "hd sep \<notin> set a"
  shows "split_sub sep (a @ sep @ b) part = (part @ a) # split_sub sep b []"
  using assms
proof (induction a arbitrary: part)
  case Nil
  then obtain c cs where "sep = c # cs" by (cases sep) auto
  then show ?case by (simp add: startswith_def)
next
  case (Cons x a)
  then have "\<not> startswith (x # a @ sep @ b) sep" by (cases sep) (auto simp: startswith_def)
  then show ?case using Cons by simp
qed

lemma split_sub_none: "hd sep \<notin> set s \<Longrightarrow> split_sub sep s part = [part @ s]"
  by (induction sep s part rule: split_sub.induct) (auto simp: startswith_def neq_Nil_conv)

text \<open>The entry of the policy that admits the endorsed version.\<close>

lemma uvm_identities_match:
  assumes "uvm_identities did feed vs = Inr ids" "v \<in> set ids"
  shows "v \<in> set vs \<and> (\<exists>d f. jindex v ''did'' = Inr d \<and> cval_eq_json did d \<and> jindex v ''feed'' = Inr f \<and> cval_eq_json feed f)"
  using assms by (induction vs arbitrary: ids) (auto split: if_splits)

lemma least_svn_from:
  "least_svn m vs = Inr least \<Longrightarrow> least = m \<or> (\<exists>v \<in> set vs. jindex v ''minimum_svn'' = Inr least)"
  by (induction vs arbitrary: m) (auto split: if_splits)

definition svn_admitted :: "json \<Rightarrow> cval \<Rightarrow> cval \<Rightarrow> int \<Rightarrow> bool" where
  "svn_admitted entry did feed svn \<longleftrightarrow>
     (case (jindex entry ''did'', jindex entry ''feed'', jindex entry ''minimum_svn'') of
        (Inr d, Inr f, Inr n) \<Rightarrow> cval_eq_json did d \<and> cval_eq_json feed f \<and> json_le n (JInt svn) = Inr True
      | _ \<Rightarrow> False)"

lemma uvm_identity_admitted:
  assumes "uvm_identity_ok policy uc = Inr True"
  shows "\<exists>entries. bindr (jindex policy ''uvm'') jiter = Inr entries \<and> list_ex (\<lambda>e. svn_admitted e (uc_did uc) (uc_feed uc) (uc_svn uc)) entries"
proof -
  from assms obtain entries ids where e: "bindr (jindex policy ''uvm'') jiter = Inr entries"
    "uvm_identities (uc_did uc) (uc_feed uc) entries = Inr ids"
    and k: "(case ids of [] \<Rightarrow> Inr False | v # vs \<Rightarrow> bindr (jindex v ''minimum_svn'') (\<lambda>m.
        bindr (least_svn m vs) (\<lambda>least. json_le least (JInt (uc_svn uc))))) = Inr True"
    unfolding uvm_identity_ok_def by auto
  from k obtain v vs m least where "ids = v # vs" "jindex v ''minimum_svn'' = Inr m" "least_svn m vs = Inr least"
    "json_le least (JInt (uc_svn uc)) = Inr True"
    by (cases ids) auto
  moreover from this least_svn_from obtain w where "w \<in> set ids" "jindex w ''minimum_svn'' = Inr least"
    by (metis list.set_intros)
  ultimately have "w \<in> set entries \<and> svn_admitted w (uc_did uc) (uc_feed uc) (uc_svn uc)"
    using uvm_identities_match [OF e(2)] by (fastforce simp: svn_admitted_def)
  with e(1) show ?thesis by (auto simp: list_ex_iff)
qed

lemma load_chain_Inr:
  assumes "load_chain env v = Inr pairs"
  shows "2 \<le> length pairs" "length pairs \<le> 6" "map fst pairs = map x_der (map snd pairs)"
proof -
  obtain raws where "v = VList raws" using assms by (cases v) (simp_all add: load_chain_def)
  with assms obtain f where c: "2 \<le> length raws \<and> length raws \<le> 6" "map_res f raws = Inr pairs"
    "list_all (\<lambda>(raw, c). length raw \<le> 16384 \<and> x_der c = raw) pairs"
    by (auto simp: load_chain_def)
  then show "2 \<le> length pairs" "length pairs \<le> 6" using map_res_length [OF c(2)] by simp_all
  show "map fst pairs = map x_der (map snd pairs)" using c(3) by (auto simp: list_all_iff)
qed

lemma open_uvm_Inr:
  assumes "open_uvm env encoded = Inr uo"
  shows "\<exists>hp. verify_sign1 env encoded (x_key (hd (uo_chain uo))) = Inr hp" "uo_raw_chain uo = map x_der (uo_chain uo)"
    "2 \<le> length (uo_chain uo)"
proof -
  from assms obtain v pairs hp where c: "load_chain env v = Inr pairs" "verify_sign1 env encoded (x_key (snd (hd pairs))) = Inr hp"
    "uo_raw_chain uo = map fst pairs" "uo_chain uo = map snd pairs"
    by (auto simp: open_uvm_def)
  note l = load_chain_Inr [OF c(1)]
  have "hd (uo_chain uo) = snd (hd pairs)" using l(1) c(4) by (cases pairs) auto
  with c(2) show "\<exists>hp. verify_sign1 env encoded (x_key (hd (uo_chain uo))) = Inr hp" by auto
  show "uo_raw_chain uo = map x_der (uo_chain uo)" "2 \<le> length (uo_chain uo)" using l c by simp_all
qed

lemma check_uvm_leaf_Inr:
  assumes "check_uvm_leaf env did raw leaf = Inr ()"
  shows "\<exists>eku ekus. did = VText (did_prefix @ rstrip_eq (urlsafe_b64encode (sha256 raw)) @ ''::eku:'' @ eku)
    \<and> x_ekus leaf = Some ekus \<and> eku \<in> set ekus \<and> x_digital_signature leaf = Some True \<and> x_ca leaf = Some False"
proof -
  obtain t where t: "did = VText t" "startswith t did_prefix" using assms by (auto simp: check_uvm_leaf_def split: cval.splits)
  then obtain u where u: "t = did_prefix @ u" by (auto simp: startswith_iff)
  obtain fp eku where f: "split_sub ''::eku:'' u [] = [fp, eku]"
    using assms unfolding t check_uvm_leaf_def u by (auto split: list.splits)
  then have "u = fp @ ''::eku:'' @ eku" using join_split_sub [of "''::eku:''" u "[]"] by simp
  moreover have "fp = rstrip_eq (urlsafe_b64encode (sha256 raw))" "\<exists>ekus. x_ekus leaf = Some ekus \<and> eku \<in> set ekus"
    "x_digital_signature leaf = Some True" "x_ca leaf = Some False"
    using assms unfolding t check_uvm_leaf_def u by (auto simp: f split: if_splits)
  ultimately show ?thesis using t u by simp
qed

lemma check_chain_valid: "check_chain env chain time = Inr () \<Longrightarrow> list_all (\<lambda>c. x_not_before c \<le> time \<and> time < x_not_after c) chain"
  by (auto simp: check_chain_def list_all_iff)

lemma verify_uvm_Inr:
  assumes "verify_uvm depth env encoded measurement policy time = Inr ur"
  obtains uo pre uc mode where "open_uvm env encoded = Inr uo"
    "(if pre then preimage_claims (uo_header uo) (uo_payload uo) time else legacy_claims depth (uo_header uo) (uo_payload uo)) = Inr uc"
    "uc_endorsed uc = measurement" "uvm_identity_ok policy uc = Inr True"
    "check_uvm_leaf env (uc_did uc) (last (uo_raw_chain uo)) (hd (uo_chain uo)) = Inr ()"
    "mode = JStr ''approved_release'' \<or> mode = JStr ''current_certificate''" "ur_time ur \<le> time"
    "check_chain env (uo_chain uo) (ur_time ur) = Inr ()"
    "(if mode = JStr ''current_certificate'' then check_chain env (uo_chain uo) time else Inr ()) = Inr ()"
    "ur_mode ur = mode" "ur_did ur = uc_did uc" "ur_feed ur = uc_feed uc" "ur_svn ur = uc_svn uc"
    "ur_strict_valid ur = list_all (\<lambda>c. x_not_before c \<le> time \<and> time < x_not_after c) (uo_chain uo)"
proof -
  from assms obtain uo pre uc known mode h u1 u2 u3 where c: "open_uvm env encoded = Inr uo"
    "(if pre then preimage_claims (uo_header uo) (uo_payload uo) time else legacy_claims depth (uo_header uo) (uo_payload uo)) = Inr uc"
    "uc_endorsed uc = measurement" "uvm_identity_ok policy uc = Inr known" known
    "check_uvm_leaf env (uc_did uc) (last (uo_raw_chain uo)) (hd (uo_chain uo)) = Inr u1"
    "mode = JStr ''approved_release'' \<or> mode = JStr ''current_certificate''" "h \<le> time"
    "check_chain env (uo_chain uo) h = Inr u2"
    "(if mode = JStr ''current_certificate'' then check_chain env (uo_chain uo) time else Inr ()) = Inr u3"
    "Inr \<lparr>ur_did = uc_did uc, ur_feed = uc_feed uc, ur_svn = uc_svn uc, ur_mode = mode, ur_issuance = uc_issuance uc,
           ur_time = h, ur_strict_valid = list_all (\<lambda>c. x_not_before c \<le> time \<and> time < x_not_after c) (uo_chain uo),
           ur_not_after = x_not_after (hd (uo_chain uo))\<rparr> = (Inr ur :: uvm_result res)"
    unfolding verify_uvm_def bindr_eq_Inr require_Inr Let_def by (elim exE conjE) (rule that)
  from c(11) have u: "ur = \<lparr>ur_did = uc_did uc, ur_feed = uc_feed uc, ur_svn = uc_svn uc, ur_mode = mode, ur_issuance = uc_issuance uc,
           ur_time = h, ur_strict_valid = list_all (\<lambda>c. x_not_before c \<le> time \<and> time < x_not_after c) (uo_chain uo),
           ur_not_after = x_not_after (hd (uo_chain uo))\<rparr>" by simp
  have k: "uvm_identity_ok policy uc = Inr True" using c(4,5) by simp
  show thesis by (rule that [OF c(1,2,3) k _ c(7)]) (use c(6,8,9,10) in \<open>simp_all add: u cong: if_cong\<close>)
qed


text \<open>A signed endorsement with a chain of two certificates.\<close>

definition sample_did :: string where
  "sample_did = did_prefix @ rstrip_eq (urlsafe_b64encode (sha256 [11])) @ ''::eku:'' @ ''1.2''"

definition sample_cert :: "bytes \<Rightarrow> x509" where
  "sample_cert raw = \<lparr>x_der = raw, x_pem = [], x_key = Other_key [], x_issuer = [], x_subject = [], x_tbs = [], x_signature = [], x_hash = [],
     x_not_before = 0, x_not_after = 100, x_ekus = Some [''1.2''], x_digital_signature = Some True, x_ca = Some False, x_dns_names = None\<rparr>"

definition sample_native_lib :: crypto where
  "sample_native_lib = \<lparr>load_pem_cert = (\<lambda>_. Inl (ValueError [])), load_der_cert = (\<lambda>raw. Inr (sample_cert raw)),
    load_pem_key = (\<lambda>_. Inl (ValueError [])), load_der_key = (\<lambda>_. Inl (ValueError [])), key_verify = (\<lambda>_ _ _ _. Inr ()),
    directly_issued = (\<lambda>_ _. Inr ()), p384_point = (\<lambda>_. Inr ()), encode_dss = (\<lambda>_ _. [])\<rparr>"

definition sample_header :: cval where
  "sample_header = VMap [(VInt 1, VInt (- 38)), (VInt 33, VList [VBytes [10], VBytes [11]]),
     (VInt 15, VMap [(VInt 1, VText sample_did), (VInt 2, VText ''feed''), (VText ''svn'', VInt 7), (VInt 6, VInt 3)]),
     (VInt 259, VText ''application/octet-stream'')]"

definition sample_native :: native where
  "sample_native = \<lparr>cb_decode = (\<lambda>raw. if raw = [1] then Inr (VTag 18 (VList [VBytes [2], VMap [], VBytes [5], VBytes [6]]), []) else Inr (sample_header, [])),
     cb_dumps = (\<lambda>_. []), nat_crypto = sample_native_lib, ossl_pubkey = (\<lambda>_. Inr []), ossl_dates = (\<lambda>_. Inr []), ossl_verify = (\<lambda>_ _ _ _. True),
     oid_valid = (\<lambda>_. Inr ()), spki_of_one = []\<rparr>"

definition sample_uvm_policy :: json where
  "sample_uvm_policy = JDict [(''uvm'', JList [JDict [(''did'', JStr sample_did), (''feed'', JStr ''feed''), (''minimum_svn'', JInt 5)]])]"

lemma sample_leaf: "check_uvm_leaf sample_native (VText sample_did) [11] (sample_cert [10]) = Inr ()"
proof -
  have "b64_url n \<noteq> CHR '':''" if "n < 64" for n
    using that b64_val_std [of n] by (auto simp: b64_url_def b64_val_def is_upper_def is_lower_def is_digit_def)
  then have n: "CHR '':'' \<noteq> b64_url n" if "n < 64" for n using that by metis
  then have "CHR '':'' \<notin> set (b64_body b64_url bs)" for bs
    by (induction b64_url bs rule: b64_body.induct) (simp_all add: n)
  then have "split_sub ''::eku:'' (rstrip_eq (urlsafe_b64encode (sha256 [11])) @ ''::eku:'' @ ''1.2'') []
      = rstrip_eq (urlsafe_b64encode (sha256 [11])) # split_sub ''::eku:'' ''1.2'' []"
    using split_sub_at [of "''::eku:''" "rstrip_eq (urlsafe_b64encode (sha256 [11]))" "''1.2''" "[]"] by (simp add: rstrip_urlsafe)
  moreover have "split_sub ''::eku:'' ''1.2'' [] = [''1.2'']" by code_simp
  ultimately show ?thesis
    by (simp add: check_uvm_leaf_def sample_did_def startswith_def sample_native_def sample_cert_def extension_def require_def del: bindr_eq_Inr)
qed

lemma sample_open: "open_uvm sample_native [1] = Inr \<lparr>uo_header = sample_header, uo_payload = [5],
    uo_raw_chain = [[10], [11]], uo_chain = [sample_cert [10], sample_cert [11]]\<rparr>"
  by (simp add: open_uvm_def cbor_read_def uvm_parts_def load_chain_def verify_sign1_def cb_loads_def cval_len_def cval_four_def cval_items_def
      cval_index_def cval_is_int_def sample_native_def sample_header_def sample_native_lib_def sample_cert_def require_def assert_that_def del: bindr_eq_Inr)

lemma sample_uvm:
  "\<exists>ur. verify_uvm 10 sample_native [1] [5] sample_uvm_policy 20 = Inr ur \<and> ur_svn ur = 7 \<and> ur_strict_valid ur"
proof -
  have "uvm_identity_ok sample_uvm_policy \<lparr>uc_did = VText sample_did, uc_feed = VText ''feed'', uc_svn = 7, uc_issuance = Some 3, uc_endorsed = [5]\<rparr> = Inr True"
    by (simp add: uvm_identity_ok_def sample_uvm_policy_def jindex_def dict_index_def jiter_def cval_eq_json_def del: bindr_eq_Inr)
  moreover have "check_chain sample_native [sample_cert [10], sample_cert [11]] t = Inr ()" if "0 \<le> t" "t < 100" for t
    using that by (simp add: check_chain_def chain_adjacent_def sample_native_def sample_native_lib_def sample_cert_def assert_that_def del: bindr_eq_Inr)
  moreover have "preimage_claims sample_header [5] 20 =
      Inr \<lparr>uc_did = VText sample_did, uc_feed = VText ''feed'', uc_svn = 7, uc_issuance = Some 3, uc_endorsed = [5]\<rparr>"
    by (simp add: preimage_claims_def sample_header_def cval_index_def require_def del: bindr_eq_Inr)
  moreover have "cval_contains 15 sample_header = Inr True" by (simp add: cval_contains_def sample_header_def)
  moreover have "jget sample_uvm_policy ''uvm_endorsement_time_policy'' (JStr ''current_certificate'') = Inr (JStr ''current_certificate'')"
    by (simp add: jget_def sample_uvm_policy_def)
  moreover have "x_not_before (sample_cert raw) = 0" "x_not_after (sample_cert raw) = 100" for raw
    by (simp_all add: sample_cert_def)
  ultimately show ?thesis
    by (simp add: verify_uvm_def sample_open sample_leaf require_def Let_def del: bindr_eq_Inr)
qed


end
