(* ===== verification/Release_Tools.thy ===== *)
theory Release_Tools
  imports Control_Tools Ksk_Receipt
begin

text \<open>
  Two operators' tools: the release authority (\<open>tools/release_authority.py\<close>), whose keys and certificates
  come from the certificate library, and the entry point of the stock secondary (\<open>tools/secondary_aci.py\<close>),
  which gets one transfer secret and starts \<open>named\<close>.
\<close>

section \<open>The release authority\<close>

text \<open>\<open>canonical_json\<close>, which escapes every character outside ASCII.\<close>

primrec release_json :: "json \<Rightarrow> string res" where
  "release_json JNull = Inr ''null''"
| "release_json (JBool b) = Inr (if b then ''true'' else ''false'')"
| "release_json (JInt i) = Inr (int_str i)"
| "release_json (JFloat t) = Inl (TypeError ''unsupported canonical type'')"
| "release_json (JStr s) = Inr (quote_ascii s)"
| "release_json (JList xs) = bindr (map_res id (map release_json xs)) (\<lambda>ts. Inr (''['' @ join_with '','' ts @ '']''))"
| "release_json (JDict d) =
     bindr (map_res (\<lambda>(k, r). bindr r (\<lambda>t. Inr (quote_ascii k @ '':'' @ t))) (sort_key fst (map (map_prod id release_json) d))) (\<lambda>ts.
       Inr (''{'' @ join_with '','' ts @ ''}''))"

definition release_fingerprint :: "bytes \<Rightarrow> string" where
  "release_fingerprint cert_der = rstrip_eq (urlsafe_b64encode (sha256 cert_der))"

definition release_did :: "bytes \<Rightarrow> string" where
  "release_did cert_der = ''did:x509:0:sha256:'' @ release_fingerprint cert_der @ ''::subject:CN:agent.hosting-release-authority''"

text \<open>What the library supplies: a new key with a self-signed certificate for a period, the signature of a
  private key as its two numbers, and the PEM form of a public key.\<close>

record minted =
  mi_private_pem :: bytes
  mi_cert_pem :: bytes
  mi_cert_der :: bytes
  mi_public_pem :: string

record authority =
  ra_mint :: "int \<Rightarrow> int \<Rightarrow> minted"
  ra_sign :: "bytes \<Rightarrow> bytes \<Rightarrow> (nat \<times> nat) res"
  ra_public_pem :: "pubkey \<Rightarrow> string"
  ra_crypto :: crypto

definition mint_d :: "authority \<Rightarrow> string \<Rightarrow> string \<Rightarrow> int \<Rightarrow> int \<Rightarrow> ('z tool_scheme, json) act" where
  "mint_d ra priv_path cert_path valid_years time =
     (let m = ra_mint ra (time - 5 * 60) (time + 365 * valid_years * 86400) in
      bind_act (write_file priv_path (mi_private_pem m)) (\<lambda>_.
      bind_act (write_file cert_path (mi_cert_pem m)) (\<lambda>_.
        ret_act (JDict [(''did'', JStr (release_did (mi_cert_der m))), (''public_key_pem'', JStr (mi_public_pem m)),
          (''priv_path'', JStr priv_path), (''cert_path'', JStr cert_path), (''fingerprint'', JStr (release_fingerprint (mi_cert_der m)))]))))"

definition get_did :: "crypto \<Rightarrow> bytes res \<Rightarrow> string res" where
  "get_did lib cert_file = bindr (bindr cert_file (load_pem_cert lib)) (\<lambda>cert. Inr (release_did (x_der cert)))"

definition sign_payload :: "authority \<Rightarrow> bytes res \<Rightarrow> bytes res \<Rightarrow> int \<Rightarrow> json \<Rightarrow> json res" where
  "sign_payload ra priv_file cert_file svn payload =
     bindr (get_did (ra_crypto ra) cert_file) (\<lambda>did.
     bindr priv_file (\<lambda>priv.
     bindr (release_json (JDict [(''svn'', JInt svn), (''payload'', payload)])) (\<lambda>msg.
     bindr (ra_sign ra priv (encode_str msg)) (\<lambda>(r, s).
     bindr (to_bytes_be 32 r) (\<lambda>rb.
     bindr (to_bytes_be 32 s) (\<lambda>sb.
       Inr (JDict [(''did'', JStr did), (''svn'', JInt svn), (''signature'', JStr (rstrip_eq (urlsafe_b64encode (rb @ sb))))])))))))"

datatype release_command =
    Mint string string
  | Sign "bytes res" "bytes res" int "bytes res" "string option"
  | Proposal "bytes res" string int

definition release_proposal :: "string \<Rightarrow> string \<Rightarrow> int \<Rightarrow> int \<Rightarrow> json" where
  "release_proposal did public_pem svn time =
     JList [JDict [(''name'', JStr ''adns_set_release_authority''),
       (''args'', JDict [(''authority'', JDict [(''did'', JStr did), (''public_key_pem'', JStr public_pem), (''svn'', JInt svn),
          (''valid_from'', JInt (time - 300)), (''valid_until'', JInt (time + 10 * 365 * 86400))])])]]"

definition release_main :: "nat \<Rightarrow> authority \<Rightarrow> int \<Rightarrow> release_command \<Rightarrow> ('z tool_scheme, json) act" where
  "release_main depth ra time cmd =
     (case cmd of
        Mint priv cert \<Rightarrow> mint_d ra priv cert 10 time
      | Sign priv cert svn payload_file outfile \<Rightarrow>
          bind_act (lift_res (bindr (bindr payload_file utf8_text) (json_loads_str depth plain_hooks))) (\<lambda>payload.
          bind_act (lift_res (sign_payload ra priv cert svn payload)) (\<lambda>sig.
          bind_act (case outfile of Some p \<Rightarrow> write_file p (json_file sig) | None \<Rightarrow> ret_act ()) (\<lambda>_. ret_act sig)))
      | Proposal cert outfile svn \<Rightarrow>
          bind_act (lift_res (bindr cert (load_pem_cert (ra_crypto ra)))) (\<lambda>c.
          bind_act (lift_res (get_did (ra_crypto ra) cert)) (\<lambda>did.
          let prop = release_proposal did (ra_public_pem ra (x_key c)) svn time in
          bind_act (write_file outfile (json_file prop)) (\<lambda>_. ret_act prop))))"

section \<open>The secondary\<close>

definition decode_secret :: "string option \<Rightarrow> string res" where
  "decode_secret encoded =
     (case encoded of
        None \<Rightarrow> Inl (ValueError ''transfer secret must be canonical base64 of 32 random bytes'')
      | Some t \<Rightarrow>
          if str_len t \<noteq> 44 then Inl (ValueError ''transfer secret must be canonical base64 of 32 random bytes'')
          else case b64decode t of
            Inl e \<Rightarrow> Inl (if is_ValueError e then ValueError ''invalid transfer secret encoding'' else e)
          | Inr secret \<Rightarrow>
              if length secret \<noteq> 32 \<or> b64encode secret \<noteq> t then Inl (ValueError ''transfer secret must be canonical base64 of 32 random bytes'')
              else Inr t)"

definition secondary_lines :: "string \<Rightarrow> string \<Rightarrow> string \<Rightarrow> string list" where
  "secondary_lines secret runtime zone_directory =
     [''key \"agentdns-transfer.\" { algorithm hmac-sha256; secret \"'' @ secret @ ''\"; };'',
      ''options {'',
      ''    directory \"'' @ zone_directory @ ''\";'',
      ''    listen-on port 53 { any; };'',
      ''    listen-on-v6 port 53 { any; };'',
      ''    recursion no;'',
      ''    dnssec-validation no;'',
      ''    allow-query { any; };'',
      ''    allow-transfer { none; };'',
      ''    notify no;'',
      ''    version \"agentdns acceptance secondary\";'',
      ''    pid-file \"'' @ runtime @ ''/named.pid\";'',
      ''    session-keyfile \"'' @ runtime @ ''/session.key\";'',
      ''};'',
      ''controls { };'',
      ''zone \"example.test\" {'',
      ''    type secondary;'',
      ''    primaries { 127.0.0.1 port 5353 key \"agentdns-transfer.\"; };'',
      ''    allow-notify { key \"agentdns-transfer.\"; };'',
      ''    file \"example.test.zone\";'',
      ''    masterfile-format text;'',
      ''};'']"

definition secondary_configuration :: "string \<Rightarrow> string \<Rightarrow> string \<Rightarrow> string res" where
  "secondary_configuration secret runtime zone_directory =
     bindr (decode_secret (Some secret)) (\<lambda>ok.
       Inr (concat (map (\<lambda>l. l @ [CHR 0x0A]) (secondary_lines ok runtime zone_directory))))"

text \<open>The secret from the environment or from a file, the environment that \<open>named\<close> inherits, and its
  arguments. The account and \<open>named-checkconf\<close> are parameters.\<close>

definition transfer_key_env :: string where "transfer_key_env = ''AGENTDNS_TRANSFER_KEY_B64''"
definition transfer_file_env :: string where "transfer_file_env = ''AGENTDNS_TRANSFER_KEY_FILE''"

definition read_secret :: "string dict \<Rightarrow> (string \<Rightarrow> bytes res) \<Rightarrow> string res" where
  "read_secret environ open_file =
     (case (map_of environ transfer_key_env, map_of environ transfer_file_env) of
        (Some secret, None) \<Rightarrow> decode_secret (Some secret)
      | (None, Some path) \<Rightarrow>
          bindr (open_file path) (\<lambda>content.
            let encoded = take 46 content in
            if length encoded > 45 then Inl (ValueError ''transfer secret file is oversized'')
            else bindr (decode_ascii encoded) (\<lambda>t. decode_secret (Some (rev (dropWhile (\<lambda>c. c = CHR 0x0A) (rev t))))))
      | _ \<Rightarrow> Inl (ValueError ''supply exactly one secure transfer-key environment value or secret-file path''))"

record secondary_launch =
  sl_environ :: "string dict"
  sl_argv :: "string list"

definition secondary_main ::
    "string dict \<Rightarrow> (string \<Rightarrow> bytes res) \<Rightarrow> unit res \<Rightarrow> (bytes \<Rightarrow> unit res) \<Rightarrow> ('z tool_scheme, secondary_launch) act" where
  "secondary_main environ open_file account checkconf =
     bind_act (lift_res (read_secret environ open_file)) (\<lambda>secret.
     bind_act (lift_res account) (\<lambda>_.
     bind_act (lift_res (secondary_configuration secret ''/run/agentdns-secondary'' ''/var/lib/bind/agentdns'')) (\<lambda>conf.
     let path = ''/run/agentdns-secondary/named.conf'' in
     bind_act (write_file path (encode_str conf)) (\<lambda>_.
     bind_act (lift_res (checkconf (encode_str conf))) (\<lambda>_.
       ret_act \<lparr>sl_environ = AList.delete transfer_file_env (AList.delete transfer_key_env environ),
         sl_argv = [''named'', ''-g'', ''-n'', ''1'', ''-u'', ''bind'', ''-c'', path]\<rparr>)))))"

section \<open>The signed text\<close>

text \<open>Values without a floating-point number.\<close>

primrec float_free :: "json \<Rightarrow> bool" where
  "float_free JNull \<longleftrightarrow> True"
| "float_free (JBool b) \<longleftrightarrow> True"
| "float_free (JInt i) \<longleftrightarrow> True"
| "float_free (JFloat t) \<longleftrightarrow> False"
| "float_free (JStr s) \<longleftrightarrow> True"
| "float_free (JList xs) \<longleftrightarrow> list_all id (map float_free xs)"
| "float_free (JDict d) \<longleftrightarrow> list_all snd (map (map_prod id float_free) d)"

lemma sort_key_map_prod: "sort_key fst (map (map_prod id f) d) = map (map_prod id f) (sort_key fst d)"
proof (induction d)
  case (Cons x d)
  have "insort_key fst (map_prod id f x) (map (map_prod id f) ys) = map (map_prod id f) (insort_key fst x ys)" for ys
    by (induction ys) auto
  with Cons.IH show ?case by (simp only: list.map sort_key_simps)
qed simp

lemma map_res_const_error:
  "(\<And>x. x \<in> set xs \<Longrightarrow> f x = (if P x then Inr (g x) else Inl e)) \<Longrightarrow>
   map_res f xs = (if list_all P xs then Inr (map g xs) else Inl e)"
  by (induction xs) auto

text \<open>(C35) The text that the release authority signs is the one of \<open>json.dumps\<close> with sorted keys, no spaces and
  ASCII escapes, for every value without a floating-point number; every other value is refused.\<close>

theorem release_json_dumps:
  "release_json v = (if float_free v then Inr (dumps quote_ascii '','' '':'' (sort_json v)) else Inl (TypeError ''unsupported canonical type''))"
proof (induction v)
  case (JList xs)
  have "map_res id (map release_json xs) = map_res release_json xs" by (induction xs) simp_all
  also have "\<dots> = (if list_all float_free xs then Inr (map (\<lambda>x. dumps quote_ascii '','' '':'' (sort_json x)) xs)
      else Inl (TypeError ''unsupported canonical type''))"
    using JList by (intro map_res_const_error) simp
  finally show ?case by (simp add: list_all_iff comp_def del: bindr_eq_Inr)
next
  case (JDict d)
  define g where "g = (\<lambda>(k, v). quote_ascii k @ '':'' @ dumps quote_ascii '','' '':'' (sort_json v))"
  have "map_res (\<lambda>(k, r). bindr r (\<lambda>t. Inr (quote_ascii k @ '':'' @ t))) (map (map_prod id release_json) xs)
      = (if list_all (\<lambda>x. float_free (snd x)) xs then Inr (map g xs) else Inl (TypeError ''unsupported canonical type''))"
    if "set xs \<subseteq> set d" for xs
  proof -
    have "map_res (\<lambda>(k, r). bindr r (\<lambda>t. Inr (quote_ascii k @ '':'' @ t))) (map (map_prod id release_json) xs)
        = map_res (\<lambda>(k, v). bindr (release_json v) (\<lambda>t. Inr (quote_ascii k @ '':'' @ t))) xs"
      by (induction xs) auto
    also have "\<dots> = (if list_all (\<lambda>x. float_free (snd x)) xs then Inr (map g xs) else Inl (TypeError ''unsupported canonical type''))"
      using JDict that by (intro map_res_const_error) (force simp: g_def)
    finally show ?thesis .
  qed
  note sorted = this [of "sort_key fst d"]
  have "map (\<lambda>(k, t). quote_ascii k @ '':'' @ t) (map (map_prod id (dumps quote_ascii '','' '':'')) (map (map_prod id sort_json) xs)) = map g xs" for xs
    by (induction xs) (auto simp: g_def)
  moreover have "list_all snd (map (map_prod id float_free) d) \<longleftrightarrow> list_all (\<lambda>x. float_free (snd x)) (sort_key fst d)"
    by (auto simp: list_all_iff)
  ultimately show ?case
    unfolding release_json.simps sort_json.simps dumps.simps float_free.simps sort_key_map_prod using sorted by (simp del: bindr_eq_Inr map_map list.map)
qed simp_all

text \<open>It is not the canonical form of the worker and of the service, which write characters outside ASCII as
  they are: the two signatures of one value differ.\<close>

lemma release_json_escapes:
  "release_json (JStr [CHR 0xC3, CHR 0xA9]) = Inr [CHR 0x22, CHR 0x5C, CHR ''u'', CHR ''0'', CHR ''0'', CHR ''e'', CHR ''9'', CHR 0x22]
   \<and> dumps quote_str '','' '':'' (sort_json (JStr [CHR 0xC3, CHR 0xA9])) = [CHR 0x22, CHR 0xC3, CHR 0xA9, CHR 0x22]"
proof -
  have "hex_digit 0 = CHR ''0''" "hex_digit 14 = CHR ''e''" "hex_digit 9 = CHR ''9''" by code_simp+
  then show ?thesis
    by (simp add: quote_ascii_def esc_ascii_def hex4_def quote_str_def esc_char_def short_escape_def)
qed

section \<open>The transfer secret\<close>

lemma isascii_b64encode: "list_all (\<lambda>c. ord c < 128) (b64encode bs)"
proof -
  have "ord (b64_std n) < 128" if "n < 64" for n
    using that by (auto simp: b64_std_def)
  then have "list_all (\<lambda>c. ord c < 128) (b64_body b64_std bs)"
    by (induction b64_std bs rule: b64_body.induct) simp_all
  then show ?thesis by (auto simp: b64encode_def b64_pad_def list_all_iff)
qed

lemma length_b64encode_32: "length bs = 32 \<Longrightarrow> length (b64encode bs) = 44"
  by (simp add: b64encode_def b64_pad_def length_b64_body)

text \<open>\<open>decode_secret\<close> accepts exactly the base64 texts of 32 bytes, and returns the text that it accepts.\<close>

lemma decode_secret_Inr:
  "decode_secret v = Inr t \<longleftrightarrow> (\<exists>raw. length raw = 32 \<and> v = Some (b64encode raw) \<and> t = b64encode raw)"
proof
  assume "decode_secret v = Inr t"
  then show "\<exists>raw. length raw = 32 \<and> v = Some (b64encode raw) \<and> t = b64encode raw"
    by (auto simp: decode_secret_def split: option.splits if_splits sum.splits)
next
  assume "\<exists>raw. length raw = 32 \<and> v = Some (b64encode raw) \<and> t = b64encode raw"
  then show "decode_secret v = Inr t"
    by (auto simp: decode_secret_def str_len_ascii [OF isascii_b64encode] length_b64encode_32 b64decode_encode)
qed

interpretation secret_codec: canonical_codec b64encode "\<lambda>t. bindr (decode_secret (Some t)) b64decode" "\<lambda>bs. length bs = 32"
  by unfold_locales (auto simp: decode_secret_Inr b64decode_encode)

lemma read_secret_canonical: "read_secret environ open_file = Inr t \<Longrightarrow> \<exists>raw. length raw = 32 \<and> t = b64encode raw"
  unfolding read_secret_def by (auto simp: Let_def decode_secret_Inr split: option.splits if_splits)

text \<open>(C32) The secondary starts with one canonical secret and does not hand it on. When \<open>named\<close> is started, the
  only file that was written is its configuration, for the base64 text of exactly 32 bytes, and it passed the
  check; the environment that \<open>named\<close> inherits holds neither variable of the secret and all the others.\<close>

theorem secondary_keeps_secret:
  assumes "secondary_main environ open_file account checkconf s = (Inr launch, s')"
  shows "\<exists>raw conf. length raw = 32 \<and> conf = concat (map (\<lambda>l. l @ [CHR 0x0A])
        (secondary_lines (b64encode raw) ''/run/agentdns-secondary'' ''/var/lib/bind/agentdns''))
    \<and> files s' = files s @ [(''/run/agentdns-secondary/named.conf'', encode_str conf)] \<and> checkconf (encode_str conf) = Inr ()
    \<and> sl_environ launch = filter (\<lambda>(k, _). k \<notin> {transfer_key_env, transfer_file_env}) environ"
proof -
  from assms obtain secret conf where c: "read_secret environ open_file = Inr secret"
    "secondary_configuration secret ''/run/agentdns-secondary'' ''/var/lib/bind/agentdns'' = Inr conf"
    "checkconf (encode_str conf) = Inr ()" "files s' = files s @ [(''/run/agentdns-secondary/named.conf'', encode_str conf)]"
    "sl_environ launch = AList.delete transfer_file_env (AList.delete transfer_key_env environ)"
    by (auto simp: secondary_main_def bind_act_def lift_res_def write_file_def ret_act_def Let_def split: sum.splits)
  from read_secret_canonical [OF c(1)] obtain raw where "length raw = 32" "secret = b64encode raw" by blast
  moreover have "AList.delete transfer_file_env (AList.delete transfer_key_env environ) = filter (\<lambda>(k, _). k \<notin> {transfer_key_env, transfer_file_env}) environ"
    by (auto simp: AList.delete_eq intro!: filter_cong)
  ultimately show ?thesis using c by (auto simp: secondary_configuration_def decode_secret_Inr)
qed

definition sample_environ :: "string dict" where
  "sample_environ = [(transfer_key_env, b64encode (replicate 32 7)), (''PATH'', ''/usr/bin'')]"

theorem secondary_keeps_secret_witness:
  "\<forall>s :: tool. \<exists>launch s'. secondary_main sample_environ (\<lambda>_. Inl FileNotFoundError) (Inr ()) (\<lambda>_. Inr ()) s = (Inr launch, s')
     \<and> length (files s') = Suc (length (files s)) \<and> sl_environ launch = [(''PATH'', ''/usr/bin'')]"
proof
  fix s :: tool
  have "transfer_key_env \<noteq> transfer_file_env" by (simp add: transfer_key_env_def transfer_file_env_def)
  then have "read_secret sample_environ (\<lambda>_. Inl FileNotFoundError) = Inr (b64encode (replicate 32 7))"
    by (simp add: read_secret_def sample_environ_def decode_secret_Inr transfer_file_env_def exI [of _ "replicate 32 7"])
  moreover obtain conf where "secondary_configuration (b64encode (replicate 32 7)) ''/run/agentdns-secondary'' ''/var/lib/bind/agentdns'' = Inr conf"
    using decode_secret_Inr [of "Some (b64encode (replicate 32 7))" "b64encode (replicate 32 7)"]
    by (auto simp: secondary_configuration_def simp del: replicate.simps dest!: meta_spec intro: exI [of _ "replicate 32 7"])
  ultimately have "\<exists>launch s'. secondary_main sample_environ (\<lambda>_. Inl FileNotFoundError) (Inr ()) (\<lambda>_. Inr ()) s = (Inr launch, s')"
    unfolding secondary_main_def Let_def by (simp add: lift_res_def ret_act_def write_file_def del: replicate.simps)
  then obtain launch s' where l: "secondary_main sample_environ (\<lambda>_. Inl FileNotFoundError) (Inr ()) (\<lambda>_. Inr ()) s = (Inr launch, s')"
    by blast
  have "filter (\<lambda>(k, _). k \<notin> {transfer_key_env, transfer_file_env}) sample_environ = [(''PATH'', ''/usr/bin'')]"
    by (simp add: sample_environ_def transfer_key_env_def transfer_file_env_def)
  with l show "\<exists>launch s'. secondary_main sample_environ (\<lambda>_. Inl FileNotFoundError) (Inr ()) (\<lambda>_. Inr ()) s = (Inr launch, s')
     \<and> length (files s') = Suc (length (files s)) \<and> sl_environ launch = [(''PATH'', ''/usr/bin'')]"
    using secondary_keeps_secret [OF l] by auto
qed

end
