(* ===== verification/Image_Archive.thy ===== *)
theory Image_Archive
  imports Control_Tools
begin

text \<open>
  The preflight of the image archives (\<open>tools/check_aci_template.py\<close>): the content-addressed walk of one
  archive, \<open>archive_image\<close>, the distinctness of the archives and the ports of a container group. A tar
  archive is the sequence of its members.
\<close>

section \<open>Members\<close>

record tar_member =
  tm_name :: string
  tm_isfile :: bool
  tm_data :: bytes

fun collect_members :: "tar_member list \<Rightarrow> tar_member dict \<Rightarrow> tar_member dict res" where
  "collect_members [] members = Inr members"
| "collect_members (m # ms) members =
     (if length members \<ge> 4096 \<or> has_key (tm_name m) members then Inl (ValueError ''archive contains excessive or duplicate entries'')
      else collect_members ms (members @ [(tm_name m, m)]))"

definition control_hooks :: json_hooks where
  "control_hooks = \<lparr>pairs_hook = (\<lambda>ps. bindr (unique_pairs ''duplicate control field'' [] ps) (\<lambda>d. Inr (JDict d))),
     float_hook = (\<lambda>t. Inr (JFloat t)), const_hook = (\<lambda>t. Inr (JFloat t))\<rparr>"

definition read_member :: "tar_member dict \<Rightarrow> string \<Rightarrow> bytes res" where
  "read_member members name =
     (case map_of members name of
        Some m \<Rightarrow>
          if tm_isfile m \<and> 0 < length (tm_data m) \<and> length (tm_data m) \<le> 1024 * 1024 then Inr (tm_data m)
          else Inl (ValueError ''missing, non-regular or oversized archive metadata'')
      | None \<Rightarrow> Inl (ValueError ''missing, non-regular or oversized archive metadata''))"

definition hex64 :: "string \<Rightarrow> bool" where
  "hex64 s \<longleftrightarrow> length s = 64 \<and> list_all is_lower_hex s"

definition sha256_digest :: "string \<Rightarrow> bool" where
  "sha256_digest s \<longleftrightarrow> startswith s ''sha256:'' \<and> hex64 (drop 7 s)"

definition blob_name :: "string \<Rightarrow> string" where
  "blob_name digest = ''blobs/sha256/'' @ drop 7 digest"

definition blob_bytes :: "tar_member dict \<Rightarrow> json \<Rightarrow> bytes res" where
  "blob_bytes members digest =
     (case jstr digest of
        None \<Rightarrow> Inl (TypeError ''expected string or bytes-like object'')
      | Some d \<Rightarrow>
          if \<not> sha256_digest d then Inl (ValueError ''unsupported archive digest'')
          else bindr (read_member members (blob_name d)) (\<lambda>data.
            if sha256_hex data \<noteq> drop 7 d then Inl (ValueError ''archive metadata digest mismatch'') else Inr data))"

definition blob :: "nat \<Rightarrow> tar_member dict \<Rightarrow> json \<Rightarrow> json res" where
  "blob depth members digest = bindr (blob_bytes members digest) (json_loads depth control_hooks)"

section \<open>The index\<close>

definition linux_amd64 :: json where
  "linux_amd64 = JDict [(''architecture'', JStr ''amd64''), (''os'', JStr ''linux'')]"

definition config_platform :: "json \<Rightarrow> bool res" where
  "config_platform config =
     bindr (jget config ''architecture'' JNull) (\<lambda>a.
       if a \<noteq> JStr ''amd64'' then Inr False else bindr (jget config ''os'' JNull) (\<lambda>os. Inr (os = JStr ''linux'')))"

text \<open>One descriptor of an index, given the walk of a nested index.\<close>

definition visit_descriptor :: "nat \<Rightarrow> tar_member dict \<Rightarrow> (json \<Rightarrow> json list res) \<Rightarrow> json \<Rightarrow> json list res" where
  "visit_descriptor depth members nested descriptor =
     (case jdict descriptor of
        None \<Rightarrow> Inl (ValueError ''invalid OCI descriptor'')
      | Some d \<Rightarrow>
          bindr (dict_index d ''digest'') (\<lambda>digest.
          bindr (blob depth members digest) (\<lambda>child.
          bindr (jcontains ''manifests'' child) (\<lambda>inner.
            let platform = (case map_of d ''platform'' of Some p \<Rightarrow> p | None \<Rightarrow> JNull) in
            if inner then nested child
            else if py_eq platform linux_amd64 then Inr [digest]
            else if platform \<noteq> JNull then Inr []
            else bindr (jcontains ''config'' child) (\<lambda>has.
              if \<not> has then Inr []
              else
                bindr (bindr (bindr (jindex child ''config'') (\<lambda>c. jindex c ''digest'')) (blob depth members)) (\<lambda>actual.
                bindr (config_platform actual) (\<lambda>ok. Inr (if ok then [digest] else []))))))))"

fun visit_all :: "(json \<Rightarrow> json list res) \<Rightarrow> json list \<Rightarrow> json list res" where
  "visit_all f [] = Inr []"
| "visit_all f (d # ds) = bindr (f d) (\<lambda>found. bindr (visit_all f ds) (\<lambda>rest. Inr (found @ rest)))"

text \<open>\<open>levels\<close> is the number of levels that the bound on the nesting leaves, five at the outermost index.\<close>

primrec visit :: "nat \<Rightarrow> tar_member dict \<Rightarrow> nat \<Rightarrow> json \<Rightarrow> json list res" where
  "visit depth members 0 obj = Inl (ValueError ''OCI index nesting exceeds bound'')"
| "visit depth members (Suc levels) obj =
     bindr (bindr (jget obj ''manifests'' (JList [])) jiter) (visit_all (visit_descriptor depth members (visit depth members levels)))"

section \<open>The image\<close>

text \<open>\<open>\s\<close> in a pattern for text.\<close>

definition space_point :: "nat \<Rightarrow> bool" where
  "space_point n \<longleftrightarrow> 9 \<le> n \<and> n \<le> 13 \<or> 28 \<le> n \<and> n \<le> 32 \<or> n = 0x85 \<or> n = 0xA0 \<or> n = 0x1680 \<or> 0x2000 \<le> n \<and> n \<le> 0x200A
     \<or> n = 0x2028 \<or> n = 0x2029 \<or> n = 0x202F \<or> n = 0x205F \<or> n = 0x3000"

definition immutable_image :: "string \<Rightarrow> bool" where
  "immutable_image img \<longleftrightarrow>
     72 < length img \<and> hex64 (drop (length img - 64) img) \<and> startswith (drop (length img - 72) img) ''@sha256:''
     \<and> (let repository = take (length img - 72) img in CHR ''@'' \<notin> set repository \<and> list_all (\<lambda>n. \<not> space_point n) (code_points repository))"

definition image_digest :: "string \<Rightarrow> string" where
  "image_digest img = drop (length img - 71) img"

definition layer_path :: "json \<Rightarrow> string res" where
  "layer_path descriptor =
     bindr (jindex descriptor ''digest'') (\<lambda>v. case jstr v of Some d \<Rightarrow> Inr (blob_name d) | None \<Rightarrow> Inl (TypeError ''can only concatenate str''))"

definition check_layer :: "tar_member dict \<Rightarrow> json \<times> string \<Rightarrow> string res" where
  "check_layer members layer =
     (case layer of (descriptor, name) \<Rightarrow>
        bindr (jindex descriptor ''digest'') (\<lambda>v.
          case jstr v of
            None \<Rightarrow> Inl (TypeError ''expected string or bytes-like object'')
          | Some digest \<Rightarrow>
              (case map_of members name of
                 None \<Rightarrow> Inl (ValueError ''invalid archive layer'')
               | Some m \<Rightarrow>
                   if \<not> sha256_digest digest \<or> \<not> tm_isfile m then Inl (ValueError ''invalid archive layer'')
                   else
                     bindr (jindex descriptor ''size'') (\<lambda>sz.
                       if \<not> py_eq (JInt (int (length (tm_data m)))) sz \<or> \<not> (0 < length (tm_data m) \<and> length (tm_data m) \<le> 4 * 1024 ^ 3)
                       then Inl (ValueError ''invalid archive layer'')
                       else if sha256_hex (tm_data m) \<noteq> drop 7 digest then Inl (ValueError ''archive layer digest mismatch'')
                       else Inr (drop 7 digest)))))"

record image_summary =
  im_image :: string
  im_tag :: string
  im_config :: string
  im_layers :: "string list"

definition docker_entry :: "nat \<Rightarrow> tar_member dict \<Rightarrow> string \<Rightarrow> json res" where
  "docker_entry depth members expected_tag =
     bindr (bindr (read_member members ''manifest.json'') (json_loads depth control_hooks)) (\<lambda>docker.
       case docker of
         JList [entry] \<Rightarrow>
           bindr (jget entry ''RepoTags'' JNull) (\<lambda>tags.
           bindr (require (tags = JList [JStr expected_tag]) ''archive tag differs from the tar mapping'') (\<lambda>_. Inr entry))
       | _ \<Rightarrow> Inl (ValueError ''confcom requires a single-image archive per mapping''))"

definition archive_image :: "nat \<Rightarrow> tar_member list res \<Rightarrow> string \<Rightarrow> string \<Rightarrow> image_summary res" where
  "archive_image depth archive img expected_tag =
     bindr (require (immutable_image img) ''image must have an immutable SHA256 manifest'') (\<lambda>_.
     let expected = image_digest img in
     bindr (bindr archive (\<lambda>ms. collect_members ms [])) (\<lambda>members.
     bindr (docker_entry depth members expected_tag) (\<lambda>entry.
     bindr (bindr (read_member members ''index.json'') (json_loads depth control_hooks)) (\<lambda>index.
     bindr (visit depth members 5 index) (\<lambda>found.
     bindr (require (set found = {JStr expected}) ''template image differs from archive linux/amd64 manifest'') (\<lambda>_.
     bindr (blob depth members (JStr expected)) (\<lambda>manifest.
     bindr (bindr (jindex manifest ''config'') (\<lambda>c. jindex c ''digest'')) (\<lambda>config_digest.
     bindr (blob depth members config_digest) (\<lambda>config.
     bindr (config_platform config) (\<lambda>right.
     bindr (if \<not> right then Inr False
         else bindr (jindex entry ''Config'') (\<lambda>c. Inr (c = JStr (blob_name (the (jstr config_digest)))))) (\<lambda>same.
     bindr (require same ''archive config platform or Docker/OCI identity differs'') (\<lambda>_.
     bindr (bindr (jindex manifest ''layers'') jiter) (\<lambda>layers.
     bindr (map_res layer_path layers) (\<lambda>paths.
     bindr (jindex entry ''Layers'') (\<lambda>listed.
     bindr (require (listed = JList (map JStr paths) \<and> 1 \<le> length paths \<and> length paths \<le> 128) ''Docker/OCI layer manifests differ'') (\<lambda>_.
     bindr (map_res (check_layer members) (zip layers paths)) (\<lambda>digests.
       Inr \<lparr>im_image = img, im_tag = expected_tag, im_config = drop 7 (the (jstr config_digest)), im_layers = digests\<rparr>)))))))))))))))))"

section \<open>Archives and ports\<close>

text \<open>The archives by their device and inode, and the tar mapping.\<close>

definition validate_archives :: "(nat \<times> nat) dict \<Rightarrow> json \<Rightarrow> unit res" where
  "validate_archives archives mappings =
     (case jdict mappings of
        None \<Rightarrow> Inl (ValueError ''exactly two distinct image archives and tar mappings are required'')
      | Some m \<Rightarrow>
          if set (dict_keys archives) \<noteq> {''primary'', ''secondary''} \<or> length m \<noteq> 2
          then Inl (ValueError ''exactly two distinct image archives and tar mappings are required'')
          else if list_ex (\<lambda>v. case v of JStr p \<Rightarrow> \<not> startswith p ''/'' | _ \<Rightarrow> True) (map snd m) \<or> card (set (map snd m)) \<noteq> 2
          then Inl (ValueError ''multiple images must never map to the same archive'')
          else if card (set (map snd archives)) \<noteq> 2 then Inl (ValueError ''multiple images must never use the same archive file'')
          else Inr ())"

text \<open>The set of the port numbers identifies equal numbers of different types and needs hashable elements.\<close>

fun distinct_values :: "json list \<Rightarrow> bool" where
  "distinct_values [] \<longleftrightarrow> True"
| "distinct_values (v # vs) \<longleftrightarrow> \<not> list_ex (py_eq v) vs \<and> distinct_values vs"

definition port_ok :: "json \<Rightarrow> bool res" where
  "port_ok port =
     bindr (jindex port ''port'') (\<lambda>p.
       case p of
         JInt n \<Rightarrow>
           if \<not> (1 \<le> n \<and> n \<le> 65535) then Inr False
           else bindr (jindex port ''protocol'') (\<lambda>proto. Inr (proto = JStr ''TCP'' \<or> proto = JStr ''UDP''))
       | _ \<Rightarrow> Inr False)"

fun all_ports_ok :: "json list \<Rightarrow> bool res" where
  "all_ports_ok [] = Inr True"
| "all_ports_ok (p # ps) = bindr (port_ok p) (\<lambda>ok. if ok then all_ports_ok ps else Inr False)"

definition check_port_numbers :: "json list \<Rightarrow> unit res" where
  "check_port_numbers ports =
     bindr (map_res (\<lambda>p. jindex p ''port'') ports) (\<lambda>numbers.
     bindr (map_res hashable numbers) (\<lambda>_.
     bindr (require (distinct_values numbers) ''port numbers must be unique regardless of protocol'') (\<lambda>_.
     bindr (all_ports_ok ports) (\<lambda>ok. require ok ''invalid ACI port declaration''))))"

definition declared_ports :: "json \<Rightarrow> json list res" where
  "declared_ports properties =
     bindr (bindr (jindex properties ''containers'') jiter) (\<lambda>containers.
     bindr (map_res (\<lambda>c. bindr (bindr (jindex c ''properties'') (\<lambda>p. jindex p ''ports'')) jiter) containers) (\<lambda>pss. Inr (concat pss)))"

definition validate_ports :: "json \<Rightarrow> unit res" where
  "validate_ports properties =
     bindr (bindr (jindex properties ''ipAddress'') (\<lambda>ip. jindex ip ''ports'')) (\<lambda>public.
     bindr (declared_ports properties) (\<lambda>declared.
     bindr (jiter public) (\<lambda>ports.
     bindr (check_port_numbers ports) (\<lambda>_.
     bindr (check_port_numbers declared) (\<lambda>_.
       require (list_all (\<lambda>p. list_ex (py_eq p) declared) ports) ''ACI public port must also be declared by a container'')))))"

section \<open>Content addresses\<close>

text \<open>A digest that names a regular member by the hash of its content.\<close>

definition addressed :: "tar_member dict \<Rightarrow> json \<Rightarrow> bool" where
  "addressed members digest \<longleftrightarrow>
     (\<exists>m \<in> snd ` set members. tm_isfile m \<and> digest = JStr (''sha256:'' @ sha256_hex (tm_data m))
        \<and> map_of members (''blobs/sha256/'' @ sha256_hex (tm_data m)) = Some m)"

lemma sha256_digest_split: "sha256_digest d \<Longrightarrow> d = ''sha256:'' @ drop 7 d"
  by (auto simp: sha256_digest_def startswith_iff)

lemma read_member_Inr: "read_member members name = Inr data \<Longrightarrow> \<exists>m. map_of members name = Some m \<and> tm_isfile m \<and> tm_data m = data"
  by (auto simp: read_member_def split: option.splits if_splits)

lemma blob_bytes_addressed:
  assumes "blob_bytes members digest = Inr data"
  shows "addressed members digest" "digest = JStr (''sha256:'' @ sha256_hex data)"
proof -
  obtain d where d: "digest = JStr d" using assms by (cases digest) (auto simp: blob_bytes_def)
  then have c: "sha256_digest d" "read_member members (blob_name d) = Inr data" "sha256_hex data = drop 7 d"
    using assms by (auto simp: blob_bytes_def split: if_splits)
  from read_member_Inr [OF c(2)] obtain m where m: "map_of members (blob_name d) = Some m" "tm_isfile m" "tm_data m = data" by blast
  have "(blob_name d, m) \<in> set members" using m(1) by (rule map_of_SomeD)
  then have "m \<in> snd ` set members" by force
  then show "addressed members digest"
    unfolding addressed_def d using m c(3) sha256_digest_split [OF c(1)] by (auto simp: blob_name_def)
  show "digest = JStr (''sha256:'' @ sha256_hex data)" unfolding d c(3) using sha256_digest_split [OF c(1)] by simp
qed

lemma visit_all_set:
  "visit_all f ds = Inr found \<Longrightarrow> x \<in> set found \<Longrightarrow> \<exists>d fs. d \<in> set ds \<and> f d = Inr fs \<and> x \<in> set fs"
  by (induction ds arbitrary: found) fastforce+

lemma visit_descriptor_addressed:
  assumes "visit_descriptor depth members nested descriptor = Inr found" "x \<in> set found"
    and "\<And>child fs. nested child = Inr fs \<Longrightarrow> x \<in> set fs \<Longrightarrow> addressed members x"
  shows "addressed members x"
proof -
  obtain d where d: "jdict descriptor = Some d" using assms(1) by (auto simp: visit_descriptor_def split: option.splits)
  obtain digest data child inner where c: "dict_index d ''digest'' = Inr digest" "blob_bytes members digest = Inr data"
    "blob depth members digest = Inr child" "jcontains ''manifests'' child = Inr inner"
    using assms(1) d by (auto simp: visit_descriptor_def blob_def)
  then have "(inner \<and> nested child = Inr found) \<or> set found \<subseteq> {digest}"
    using assms(1) d by (auto simp: visit_descriptor_def Let_def split: if_splits)
  then show ?thesis using assms(2,3) blob_bytes_addressed(1) [OF c(2)] by auto
qed

text \<open>(C31) The index of an archive is content-addressed: every image that the walk finds, through up to five
  levels of nested indexes, is named by the SHA-256 of the content of a regular member of the archive, which
  is stored under that hash.\<close>

theorem visit_content_addressed:
  assumes "visit depth members levels obj = Inr found"
  shows "list_all (addressed members) found"
  using assms
proof (induction levels arbitrary: obj found)
  case (Suc levels)
  then obtain ds where "visit_all (visit_descriptor depth members (visit depth members levels)) ds = Inr found" by auto
  then show ?case
    using visit_all_set visit_descriptor_addressed Suc.IH unfolding list_all_iff by metis
qed simp

definition sample_content :: bytes where "sample_content = [0x7B, 0x7D]"

definition sample_index :: json where
  "sample_index = JDict [(''manifests'', JList [JDict [(''digest'', JStr (''sha256:'' @ sha256_hex sample_content)), (''platform'', linux_amd64)]])]"

definition sample_members :: "tar_member dict" where
  "sample_members = [(''blobs/sha256/'' @ sha256_hex sample_content, \<lparr>tm_name = ''blob'', tm_isfile = True, tm_data = sample_content\<rparr>)]"

theorem visit_content_addressed_witness:
  "visit 10 sample_members 5 sample_index = Inr [JStr (''sha256:'' @ sha256_hex sample_content)]
   \<and> list_all (addressed sample_members) [JStr (''sha256:'' @ sha256_hex sample_content)]"
proof -
  have "hex64 (sha256_hex sample_content)"
    by (simp add: hex64_def sha256_hex_def bytes_hex_lower)
  then have "blob_bytes sample_members (JStr (''sha256:'' @ sha256_hex sample_content)) = Inr sample_content"
    by (simp add: blob_bytes_def sha256_digest_def startswith_def read_member_def blob_name_def sample_members_def) (simp add: sample_content_def)
  moreover have "json_loads 10 control_hooks sample_content = Inr (JDict [])" by code_simp
  moreover have "py_eq linux_amd64 linux_amd64" by code_simp
  ultimately have "visit 10 sample_members 5 sample_index = Inr [JStr (''sha256:'' @ sha256_hex sample_content)]"
    by (simp add: numeral_eq_Suc visit_descriptor_def blob_def sample_index_def jget_def jiter_def jcontains_def dict_index_def has_key_def del: bindr_eq_Inr)
  with visit_content_addressed [OF this] show ?thesis by blast
qed

end
