(* ===== verification/Spec2Isabelle.thy ===== *)
theory Spec2Isabelle
  imports Driver_Lifecycle Admission Supervisor_Config Supervisor Capture_Http Capture_Mail Receipt_Laws Tool_Laws Native_Laws Release_Tools Image_Archive
begin

text \<open>
  \<^bold>\<open>aDNS: the Python part of the CCF deployment.\<close>

  \<^bold>\<open>The program.\<close> An authoritative DNS service runs in a confidential enclave as a CCF application. The
  Python programs around it move bytes between the enclave and the network, start and watch it, hold the
  attested key of a worker, and let operators check what they are told:
    \<^item> the host driver (\<open>ccf/host_driver.py\<close>) takes DNS messages over TCP and UDP, posts them to the enclave,
      relays committed answers, and carries out the exchanges with secondaries that the enclave asks for;
    \<^item> telemetry (\<open>ccf/telemetry.py\<close>) receives span datagrams of the enclave and exports spans, those of the
      driver included;
    \<^item> the supervisor (\<open>ccf/run.py\<close>) pins the configuration, guards the PID file, provisions the transfer
      secret and restarts the driver;
    \<^item> the capture worker (\<open>tools/capture_aci.py\<close>) owns a key bound to a hardware report, prepares and signs
      lifecycle actions of one fixed scope, and talks to CCF;
    \<^item> operators' tools under \<open>tools/\<close>: the control client, measurements, the node audit, the capture client,
      and the offline verifiers of receipts, node quotes and captures; the release authority, the secondary's
      start and the preflight of image archives.
  The driver and the supervisor depend on the enclave only through its HTTP replies, the enclave's replies
  reach the operators through the control client, and the verifiers read files. Where two parts meet in the
  model, one calls the definitions of the other: the lifecycle loop calls \<open>enclave_post\<close> and \<open>exchange\<close>, the
  HTTP interface of the worker calls the methods of its state, the driver's spans go through \<open>with_span\<close>.

  \<^bold>\<open>Conventions.\<close> \<open>str\<close> is a \<open>string\<close> of UTF-8 bytes and \<open>bytes\<close> a list of 8-bit words; a \<open>dict\<close> is an association
  list, since insertion order shows in the output. A function that raises returns \<open>Inl\<close> of its exception
  (\<open>exn\<close>), and effectful code is a function from a state to a result and a state (\<open>act\<close>). Sockets, clocks, file
  systems, peers and child processes are inputs: queues or functions that the theorems leave arbitrary.
  Third-party code (\<open>cryptography\<close>, \<open>cbor2\<close>, openssl, the appraiser, the OpenTelemetry SDK) is a parameter.

  \<^bold>\<open>Foundations.\<close>
    \<^item> \<open>Adns_Prelude\<close>, \<open>Socket_Io\<close>, \<open>File_System\<close>: results, effects, sockets with deadlines, files. The locale
      \<open>bounded_reader\<close> is the contract of the four copies of the bounded HTTP reader.
    \<^item> \<open>Json_Text\<close>, \<open>Json_Laws\<close>, \<open>Json_Access\<close>: CPython's JSON scanner and printer, their round trip, and what the
      sources do with a parsed value. The locales \<open>object_hook\<close> and \<open>strict_hook\<close> are the contract of
      \<open>object_pairs_hook\<close>, interpreted for each hook of the sources.
    \<^item> \<open>Base64_Codec\<close>, \<open>Sha256\<close>, \<open>Net_Address\<close>, \<open>Transaction_Id\<close>, \<open>Crypto_Lib\<close>: library functions that the sources
      use, written out, and the interface of the certificate library. The locale \<open>canonical_codec\<close> is the
      contract of the strict base64 texts, interpreted for the driver's packets and for the transfer secret.

  \<^bold>\<open>Host driver\<close> (\<open>ccf/host_driver.py\<close>).
    \<^item> \<open>Driver_Wire\<close>: packets, endpoints, frames, the diagnostic DNS reader and work items. \<open>decode\<close> inverts
      \<open>encode\<close>; \<open>validate_frames\<close> accepts exactly the framed sequences within its bounds.
    \<^item> \<open>Driver_Net\<close>, \<open>Driver_Relay\<close>: \<open>Enclave.post\<close>, the two handlers and \<open>exchange\<close>. Only committed replies come back,
      answers follow requests in order, and an exchange does what its work item says.
    \<^item> \<open>Driver_Lifecycle\<close>: the loop of \<open>lifecycle\<close>, its window of outstanding exchanges and that it goes on
      whatever the enclave answers.
    \<^item> \<open>Admission\<close>: the pools of the driver's and the worker's threaded servers, as the locale \<open>bounded_pool\<close> with
      three interpretations.

  \<^bold>\<open>Telemetry\<close> (\<open>ccf/telemetry.py\<close>). \<open>Telemetry_Config\<close> (exporter configuration), \<open>Telemetry_Spans\<close> (allowlists,
  \<open>decode_native\<close>, the link cache) and \<open>Telemetry_Trace\<close> (bounded session, spans, receiver): nothing outside
  the allowlists is exported, the cache is bounded, the receiver survives every datagram.

  \<^bold>\<open>Supervisor\<close> (\<open>ccf/run.py\<close>). \<open>Supervisor_Files\<close> and \<open>Supervisor_Config\<close> (PID guard, pinned configuration, under
  interference of other processes), \<open>Supervisor_Http\<close> and \<open>Supervisor\<close> (provisioning, child environments, the
  loop of \<open>supervise\<close> as a refinement of an abstract driver machine).

  \<^bold>\<open>Capture worker\<close> (\<open>tools/capture_aci.py\<close>). \<open>Capture_Action\<close> (configuration and canonical JSON), \<open>Capture_State\<close> and
  \<open>Capture_Lifecycle\<close> (report, key, the methods of \<open>CaptureState\<close>), \<open>Capture_Safety\<close>, \<open>Capture_Signing\<close> and
  \<open>Capture_Retry\<close> (the invariant, that signatures stay in scope, retries), \<open>Capture_Http\<close> (routes, token, start)
  and \<open>Capture_Mail\<close> (the mail fixture).

  \<^bold>\<open>Operators' tools.\<close>
    \<^item> \<open>Ksk_Receipt\<close>, \<open>Receipt_Laws\<close>: \<open>verify_ksk_receipt.py\<close> and \<open>verify_claims_receipt.py\<close>.
    \<^item> \<open>Control_Client\<close>, \<open>Control_Laws\<close>: \<open>http_limits.py\<close> and \<open>ccf_control.py\<close>.
    \<^item> \<open>Control_Tools\<close>, \<open>Tool_Laws\<close>: \<open>measure_ccf_request.py\<close>, \<open>audit_ccf_node.py\<close>, \<open>fetch_capture.py\<close> and
      \<open>sign_capture_request.py\<close>; the laws are about the audit and the signature requests.
    \<^item> \<open>Native_Der\<close>, \<open>Native_Quote\<close>, \<open>Native_Capture\<close>, \<open>Native_Laws\<close>: \<open>verify_native_aci.py\<close> and
      \<open>verify_native_ccf.py\<close>, with a refinement between the two verifiers.
    \<^item> \<open>Release_Tools\<close>: \<open>release_authority.py\<close> and \<open>secondary_aci.py\<close>. \<open>Image_Archive\<close>: part of
      \<open>check_aci_template.py\<close>.

  \<^bold>\<open>Bounds and termination.\<close> Every function is total; recursions that are not structural have a
  termination proof. \<open>depth\<close> is the interpreter's recursion limit for nested JSON: it is an argument, the
  theorems hold for each value of it, and exceeding it is the exception \<open>RecursionError\<close> as in CPython. The
  JSON scanner's loops are bounded by the rest of the input, which each element shortens. The readers end
  because each read consumes an event of the peer's queue. The archive walk has five levels, the source's
  own bound. Loops that run until the process is stopped (\<open>lifecycle\<close>, \<open>supervise\<close>, the servers, the receiver)
  run over a list of turns or connections, and their theorems hold for every such list; the wait for a
  commitment has a theorem that it ends with the confirmed response.

  \<^bold>\<open>Not modelled.\<close>
    \<^item> The enclave itself: the C++ application, the Rust crates and the JavaScript constitution. The Python
      parts trust none of its replies without the checks modelled here.
    \<^item> The starts of the processes: argument parsing, signals, threads and the OpenTelemetry SDK. The
      composition in \<open>main\<close> of \<open>ccf/run.py\<close> is not modelled. In \<open>supervise\<close> the process handles are inputs, and the
      loop does not thread the removal of the trace socket through its state.
    \<^item> Threads interleave at the granularity of whole calls where a lock makes a call one step; the Python
      memory model is not modelled.
    \<^item> Floating point: numbers with a fraction keep their text, latencies are whole nanoseconds, and the metrics
      tools are left out.
    \<^item> \<open>build_aci_template.py\<close>, \<open>prepare_aci_control.py\<close>, \<open>secondary_vm.py\<close>, \<open>attestation.py\<close>, \<open>packaged_constitution.py\<close>,
      and \<open>validate_otel\<close> and \<open>check\<close> of \<open>check_aci_template.py\<close>: deployment steps that mostly write or compare
      literals and call other programs and libraries. Build steps, smoke tests, tests, and the copies of sources
      under \<open>docs/evidence\<close>.
    \<^item> Cryptographic strength: signatures are what the parameter accepts, and statements that need collision
      resistance of SHA-256 name the collision as an alternative.
\<close>

end
